(* ===== verification/Go_Prelude.thy ===== *)
theory Go_Prelude
  imports Main "HOL-Library.Word" "HOL-Library.Monad_Syntax"
begin

text \<open>
  The fragment of Go the development needs, shared by every component theory.

  \<^item> Go's \<open>int\<close> and \<open>int64\<close> are HOL integers; wherever an operation of the source can leave
    the 64-bit range the model applies \<open>wrap64\<close>, two's complement wrap-around written out.
  \<^item> A slice is a list. Indexing and slicing return \<open>None\<close> where Go panics, so a run-time
    panic is the value \<open>None\<close> of the option monad.
  \<^item> \<open>copy\<close> is \<open>go_copy\<close>; an overlapping copy inside one slice reads the old contents, as
    Go's memmove semantics prescribes.
  \<^item> A counting loop is \<open>for_up\<close> or \<open>for_down\<close>, whose body may panic.
  \<^item> A string is a list of runes or bytes; what a component uses is said where it is used.
\<close>

named_theorems go_simps
  \<open>unfolding rules of the slice primitives\<close>

type_synonym byte = "8 word"
type_synonym rune = int

subsection \<open>64-bit integers\<close>

definition wrap64 :: "int \<Rightarrow> int" where
  "wrap64 x = (x + 2 ^ 63) mod 2 ^ 64 - 2 ^ 63"

definition in_int64 :: "int \<Rightarrow> bool" where
  "in_int64 x \<longleftrightarrow> - (2 ^ 63) \<le> x \<and> x < 2 ^ 63"

lemma wrap64_id: "- (2 ^ 63) \<le> x \<Longrightarrow> x < 2 ^ 63 \<Longrightarrow> wrap64 x = x"
  by (simp add: wrap64_def)

lemma wrap64_in_int64: "in_int64 (wrap64 x)"
  by (simp add: wrap64_def in_int64_def)

lemma wrap64_bounds: "- (2 ^ 63) \<le> wrap64 x" "wrap64 x < 2 ^ 63"
  by (simp_all add: wrap64_def)

lemma wrap64_eq_iff: "in_int64 x \<Longrightarrow> wrap64 x = x"
  by (simp add: in_int64_def wrap64_id)

text \<open>Go's integer division truncates towards zero.\<close>

definition go_div :: "int \<Rightarrow> int \<Rightarrow> int" where
  "go_div a b = sgn a * sgn b * (\<bar>a\<bar> div \<bar>b\<bar>)"

lemma go_div_nonneg: "0 \<le> a \<Longrightarrow> 0 < b \<Longrightarrow> go_div a b = a div b"
  by (auto simp: go_div_def sgn_if)

subsection \<open>Slices\<close>

definition slice_get :: "'a list \<Rightarrow> int \<Rightarrow> 'a option" where
  "slice_get xs i = (if 0 \<le> i \<and> i < int (length xs) then Some (xs ! nat i) else None)"

definition slice_set :: "'a list \<Rightarrow> int \<Rightarrow> 'a \<Rightarrow> 'a list option" where
  "slice_set xs i v = (if 0 \<le> i \<and> i < int (length xs) then Some (xs[nat i := v]) else None)"

text \<open>\<open>xs[a:b]\<close>; the capacity of every slice the source re-slices is its length.\<close>

definition slice_sub :: "'a list \<Rightarrow> int \<Rightarrow> int \<Rightarrow> 'a list option" where
  "slice_sub xs a b =
     (if 0 \<le> a \<and> a \<le> b \<and> b \<le> int (length xs)
      then Some (take (nat (b - a)) (drop (nat a) xs)) else None)"

text \<open>\<open>copy(dst, src)\<close>: the new contents of \<open>dst\<close>.\<close>

definition go_copy :: "'a list \<Rightarrow> 'a list \<Rightarrow> 'a list" where
  "go_copy dst src = take (length dst) src @ drop (length src) dst"

text \<open>\<open>copy(xs[a:b], src)\<close>: the new contents of \<open>xs\<close>.\<close>

definition copy_into :: "'a list \<Rightarrow> int \<Rightarrow> int \<Rightarrow> 'a list \<Rightarrow> 'a list option" where
  "copy_into xs a b src =
     (case slice_sub xs a b of
        None \<Rightarrow> None
      | Some dst \<Rightarrow> Some (take (nat a) xs @ go_copy dst src @ drop (nat b) xs))"

text \<open>\<open>grid[y][x] = v\<close>.\<close>

definition grid_set :: "'a list list \<Rightarrow> int \<Rightarrow> int \<Rightarrow> 'a \<Rightarrow> 'a list list option" where
  "grid_set g y x v =
     do { row \<leftarrow> slice_get g y; row' \<leftarrow> slice_set row x v; slice_set g y row' }"

lemma slice_get_Some [simp]:
  "0 \<le> i \<Longrightarrow> i < int (length xs) \<Longrightarrow> slice_get xs i = Some (xs ! nat i)"
  by (simp add: slice_get_def)

lemma slice_get_eq_Some:
  "slice_get xs i = Some v \<longleftrightarrow> 0 \<le> i \<and> i < int (length xs) \<and> v = xs ! nat i"
  by (auto simp: slice_get_def)

lemma slice_set_Some [simp]:
  "0 \<le> i \<Longrightarrow> i < int (length xs) \<Longrightarrow> slice_set xs i v = Some (xs[nat i := v])"
  by (simp add: slice_set_def)

lemma slice_set_eq_Some:
  "slice_set xs i v = Some ys \<longleftrightarrow> 0 \<le> i \<and> i < int (length xs) \<and> ys = xs[nat i := v]"
  by (auto simp: slice_set_def)

lemma slice_sub_Some [simp]:
  "0 \<le> a \<Longrightarrow> a \<le> b \<Longrightarrow> b \<le> int (length xs) \<Longrightarrow>
   slice_sub xs a b = Some (take (nat (b - a)) (drop (nat a) xs))"
  by (simp add: slice_sub_def)

lemma length_go_copy [simp]: "length (go_copy dst src) = length dst"
  by (simp add: go_copy_def min_def)

lemma nth_go_copy:
  "i < length dst \<Longrightarrow> go_copy dst src ! i = (if i < length src then src ! i else dst ! i)"
  by (auto simp: go_copy_def nth_append min_def not_less)

lemma go_copy_same_length: "length src = length dst \<Longrightarrow> go_copy dst src = src"
  by (simp add: go_copy_def)

lemma set_go_copy: "set (go_copy dst src) \<subseteq> set dst \<union> set src"
  by (auto simp: go_copy_def dest: in_set_takeD in_set_dropD)

lemma grid_set_Some [simp]:
  assumes "0 \<le> y" "y < int (length g)" "0 \<le> x" "x < int (length (g ! nat y))"
  shows "grid_set g y x v = Some (g[nat y := (g ! nat y)[nat x := v]])"
  using assms by (simp add: grid_set_def)

lemmas slice_simps = slice_get_def slice_set_def slice_sub_def grid_set_def

subsection \<open>Counting loops\<close>

text \<open>\<open>for i := lo; i < hi; i++ { s = body(i, s) }\<close>\<close>

function for_up :: "int \<Rightarrow> int \<Rightarrow> (int \<Rightarrow> 's \<Rightarrow> 's option) \<Rightarrow> 's \<Rightarrow> 's option" where
  "for_up lo hi body s =
     (if lo < hi then (case body lo s of None \<Rightarrow> None | Some s' \<Rightarrow> for_up (lo + 1) hi body s')
      else Some s)"
  by pat_completeness auto
termination
  by (relation "measure (\<lambda>(lo, hi, body, s). nat (hi - lo))") auto

text \<open>\<open>for i := hi; i >= lo; i-- { s = body(i, s) }\<close>\<close>

function for_down :: "int \<Rightarrow> int \<Rightarrow> (int \<Rightarrow> 's \<Rightarrow> 's option) \<Rightarrow> 's \<Rightarrow> 's option" where
  "for_down hi lo body s =
     (if lo \<le> hi then (case body hi s of None \<Rightarrow> None | Some s' \<Rightarrow> for_down (hi - 1) lo body s')
      else Some s)"
  by pat_completeness auto
termination
  by (relation "measure (\<lambda>(hi, lo, body, s). nat (hi - lo + 1))") auto

declare for_up.simps [simp del] for_down.simps [simp del]

lemma for_up_done [simp]: "hi \<le> lo \<Longrightarrow> for_up lo hi body s = Some s"
  by (simp add: for_up.simps)

lemma for_up_step:
  "lo < hi \<Longrightarrow> for_up lo hi body s =
     (case body lo s of None \<Rightarrow> None | Some s' \<Rightarrow> for_up (lo + 1) hi body s')"
  by (simp add: for_up.simps)

lemma for_down_done [simp]: "hi < lo \<Longrightarrow> for_down hi lo body s = Some s"
  by (simp add: for_down.simps)

lemma for_down_step:
  "lo \<le> hi \<Longrightarrow> for_down hi lo body s =
     (case body hi s of None \<Rightarrow> None | Some s' \<Rightarrow> for_down (hi - 1) lo body s')"
  by (simp add: for_down.simps)

text \<open>The loop rules: an invariant indexed by the counter, kept by a body that does not panic.\<close>

lemma for_up_rule:
  assumes "I lo s" and "lo \<le> hi"
    and "\<And>i s. lo \<le> i \<Longrightarrow> i < hi \<Longrightarrow> I i s \<Longrightarrow> \<exists>s'. body i s = Some s' \<and> I (i + 1) s'"
  shows "\<exists>s'. for_up lo hi body s = Some s' \<and> I hi s'"
  using assms
proof (induction lo hi body s rule: for_up.induct)
  case (1 lo hi body s)
  show ?case
  proof (cases "lo < hi")
    case True
    then obtain s' where s': "body lo s = Some s'" "I (lo + 1) s'"
      using "1.prems" by force
    have "\<exists>t. for_up (lo + 1) hi body s' = Some t \<and> I hi t"
      using "1.IH" [OF True s'(1) s'(2)] True "1.prems"(3) by force
    then show ?thesis using True s' by (simp add: for_up_step)
  next
    case False
    then have "lo = hi" using "1.prems"(2) by simp
    then show ?thesis using "1.prems"(1) by simp
  qed
qed

lemma for_down_rule:
  assumes "I hi s" and "lo \<le> hi + 1"
    and "\<And>i s. lo \<le> i \<Longrightarrow> i \<le> hi \<Longrightarrow> I i s \<Longrightarrow> \<exists>s'. body i s = Some s' \<and> I (i - 1) s'"
  shows "\<exists>s'. for_down hi lo body s = Some s' \<and> I (lo - 1) s'"
  using assms
proof (induction hi lo body s rule: for_down.induct)
  case (1 hi lo body s)
  show ?case
  proof (cases "lo \<le> hi")
    case True
    then obtain s' where s': "body hi s = Some s'" "I (hi - 1) s'"
      using "1.prems" by force
    have "\<exists>t. for_down (hi - 1) lo body s' = Some t \<and> I (lo - 1) t"
      using "1.IH" [OF True s'(1) s'(2)] True "1.prems"(3) by force
    then show ?thesis using True s' by (simp add: for_down_step)
  next
    case False
    then have "hi = lo - 1" using "1.prems"(2) by simp
    then show ?thesis using "1.prems"(1) by simp
  qed
qed

lemma for_up_shift: "for_up lo hi (\<lambda>i. body (i + d)) s = for_up (lo + d) (hi + d) body s"
proof (induction lo hi "\<lambda>i. body (i + d)" s rule: for_up.induct)
  case (1 lo hi s)
  show ?case
  proof (cases "lo < hi")
    case True
    then show ?thesis using 1
      by (simp add: for_up_step algebra_simps split: option.split)
  qed simp
qed

subsection \<open>Filling a range\<close>

text \<open>The list \<open>xs\<close> with positions \<open>lo \<le> i < hi\<close> taken from \<open>f\<close>.\<close>

definition fill_range :: "int \<Rightarrow> int \<Rightarrow> (int \<Rightarrow> 'a) \<Rightarrow> 'a list \<Rightarrow> 'a list" where
  "fill_range lo hi f xs =
     map (\<lambda>i. if lo \<le> int i \<and> int i < hi then f (int i) else xs ! i) [0..<length xs]"

lemma length_fill_range [simp]: "length (fill_range lo hi f xs) = length xs"
  by (simp add: fill_range_def)

lemma nth_fill_range [simp]:
  "i < length xs \<Longrightarrow>
   fill_range lo hi f xs ! i = (if lo \<le> int i \<and> int i < hi then f (int i) else xs ! i)"
  by (simp add: fill_range_def)

lemma fill_range_empty: "hi \<le> lo \<Longrightarrow> fill_range lo hi f xs = xs"
  by (rule nth_equalityI) auto

lemma set_fill_range: "set (fill_range lo hi f xs) \<subseteq> set xs \<union> f ` {lo..<hi}"
  by (auto simp: fill_range_def)

lemma fill_range_extend:
  assumes "0 \<le> lo" "lo \<le> i" "i < int (length xs)"
  shows "(fill_range lo i f xs)[nat i := f i] = fill_range lo (i + 1) f xs"
proof (rule nth_equalityI)
  fix k assume "k < length ((fill_range lo i f xs)[nat i := f i])"
  then have k: "k < length xs" by simp
  show "(fill_range lo i f xs)[nat i := f i] ! k = fill_range lo (i + 1) f xs ! k"
  proof (cases "int k = i")
    case True
    then have "nat i = k" using assms by simp
    then show ?thesis using assms k True by simp
  next
    case False
    then have "nat i \<noteq> k" using assms by auto
    then show ?thesis using assms k False by auto
  qed
qed simp

lemma for_up_slice_set:
  assumes "0 \<le> lo" "hi \<le> int (length xs)"
  shows "for_up lo hi (\<lambda>i ys. slice_set ys i (f i)) xs = Some (fill_range lo hi f xs)"
proof (cases "lo \<le> hi")
  case False
  then show ?thesis by (simp add: fill_range_empty)
next
  case True
  let ?I = "\<lambda>k ys. ys = fill_range lo k f xs"
  have "\<exists>ys. for_up lo hi (\<lambda>i ys. slice_set ys i (f i)) xs = Some ys \<and> ?I hi ys"
  proof (rule for_up_rule)
    show "?I lo xs" by (simp add: fill_range_empty)
    show "lo \<le> hi" by (rule True)
    fix i ys assume i: "lo \<le> i" "i < hi" and ys: "?I i ys"
    have "(fill_range lo i f xs)[nat i := f i] = fill_range lo (i + 1) f xs"
      using assms i by (intro fill_range_extend) auto
    then show "\<exists>s'. slice_set ys i (f i) = Some s' \<and> ?I (i + 1) s'"
      using assms i ys by simp
  qed
  then show ?thesis by simp
qed

lemma for_up_grid_set:
  assumes "0 \<le> y" "y < int (length g)" "0 \<le> lo" "hi \<le> int (length (g ! nat y))"
  shows "for_up lo hi (\<lambda>x h. grid_set h y x (f x)) g =
    Some (g[nat y := fill_range lo hi f (g ! nat y)])"
proof (cases "lo \<le> hi")
  case False
  then show ?thesis by (simp add: fill_range_empty)
next
  case True
  let ?I = "\<lambda>k h. h = g[nat y := fill_range lo k f (g ! nat y)]"
  have "\<exists>h. for_up lo hi (\<lambda>x h. grid_set h y x (f x)) g = Some h \<and> ?I hi h"
  proof (rule for_up_rule)
    show "?I lo g" by (simp add: fill_range_empty)
    show "lo \<le> hi" by (rule True)
    fix i h assume i: "lo \<le> i" "i < hi" and h: "?I i h"
    have "(fill_range lo i f (g ! nat y))[nat i := f i] = fill_range lo (i + 1) f (g ! nat y)"
      using assms i by (intro fill_range_extend) auto
    then show "\<exists>s'. grid_set h y i (f i) = Some s' \<and> ?I (i + 1) s'"
      using assms i h by (simp add: nat_less_iff)
  qed
  then show ?thesis by simp
qed

text \<open>The loop that fills a fresh slice from another one, element by element.\<close>

lemma for_up_map:
  assumes "length g = nat n" "0 \<le> n"
  shows "for_up 0 n (\<lambda>y out. do { row \<leftarrow> slice_get g y; slice_set out y (f row) }) (replicate (nat n) d) =
    Some (map f g)"
proof -
  let ?body = "\<lambda>y out. do { row \<leftarrow> slice_get g y; slice_set out y (f row) }"
  let ?I = "\<lambda>k out. length out = nat n \<and> (\<forall>y < nat n. int y < k \<longrightarrow> out ! y = f (g ! y))"
  have "\<exists>out. for_up 0 n ?body (replicate (nat n) d) = Some out \<and> ?I n out"
  proof (rule for_up_rule [where I = ?I])
    show "?I 0 (replicate (nat n) d)" by simp
    show "0 \<le> n" by (rule assms(2))
    fix k out assume k: "0 \<le> k" "k < n" and I: "?I k out"
    then have "?body k out = Some (out[nat k := f (g ! nat k)])" using assms by simp
    moreover have "?I (k + 1) (out[nat k := f (g ! nat k)])" using k I by (auto simp: nth_list_update)
    ultimately show "\<exists>out'. ?body k out = Some out' \<and> ?I (k + 1) out'" by blast
  qed
  then obtain out where "for_up 0 n ?body (replicate (nat n) d) = Some out" "?I n out" by blast
  moreover from this(2) have "out = map f g" using assms by (intro nth_equalityI) auto
  ultimately show ?thesis by simp
qed

subsection \<open>Options and lists\<close>

lemma bind_eq_None: "Option.bind m f = None \<longleftrightarrow> m = None \<or> (\<exists>x. m = Some x \<and> f x = None)"
  by (cases m) auto

lemma nth_update_row:
  "i < length g \<Longrightarrow> g[j := r] ! i = (if i = j then r else g ! i)"
  by (auto simp: nth_list_update)

text \<open>A loop over a list whose body may panic (\<open>for _, x := range xs\<close>).\<close>

fun foldM :: "('a \<Rightarrow> 's \<Rightarrow> 's option) \<Rightarrow> 'a list \<Rightarrow> 's \<Rightarrow> 's option" where
  "foldM f [] s = Some s"
| "foldM f (x # xs) s = (case f x s of None \<Rightarrow> None | Some s' \<Rightarrow> foldM f xs s')"

lemma foldM_append: "foldM f (xs @ ys) s = Option.bind (foldM f xs s) (foldM f ys)"
  by (induction xs arbitrary: s) (auto split: option.split)

lemma foldM_rule:
  assumes "I s" and "\<And>x s. x \<in> set xs \<Longrightarrow> I s \<Longrightarrow> \<exists>s'. f x s = Some s' \<and> I s'"
  shows "\<exists>s'. foldM f xs s = Some s' \<and> I s'"
  using assms
proof (induction xs arbitrary: s)
  case Nil
  then show ?case by simp
next
  case (Cons x xs)
  then obtain s' where "f x s = Some s'" "I s'" by (meson list.set_intros(1))
  moreover from this Cons have "\<exists>t. foldM f xs s' = Some t \<and> I t" by simp
  ultimately show ?case by simp
qed

subsection \<open>Decimal numerals\<close>

text \<open>The decimal digits of a number, most significant first, and the value of a digit list.\<close>

fun dec_digits :: "nat \<Rightarrow> nat list" where
  "dec_digits n = (if n < 10 then [n] else dec_digits (n div 10) @ [n mod 10])"

declare dec_digits.simps [simp del]

definition dec_value :: "nat \<Rightarrow> nat list \<Rightarrow> nat" where
  "dec_value acc ds = foldl (\<lambda>a d. a * 10 + d) acc ds"

lemma dec_value_simps [simp]:
  "dec_value acc [] = acc"
  "dec_value acc (d # ds) = dec_value (acc * 10 + d) ds"
  by (simp_all add: dec_value_def)

lemma dec_value_append: "dec_value acc (ds @ es) = dec_value (dec_value acc ds) es"
  by (simp add: dec_value_def)

lemma dec_value_mono: "acc \<le> dec_value acc ds"
proof (induction ds arbitrary: acc)
  case (Cons d ds)
  show ?case using Cons [of "acc * 10 + d"] by simp
qed simp

lemma dec_digits_value [simp]: "dec_value 0 (dec_digits n) = n"
proof (induction n rule: dec_digits.induct)
  case (1 n)
  show ?case
  proof (cases "n < 10")
    case True
    then show ?thesis by (subst dec_digits.simps) simp
  next
    case False
    with 1 show ?thesis by (subst dec_digits.simps) (simp add: dec_value_append)
  qed
qed

lemma dec_digits_nonempty [simp]: "dec_digits n \<noteq> []"
  by (subst dec_digits.simps) simp

lemma dec_digits_less: "d \<in> set (dec_digits n) \<Longrightarrow> d < 10"
proof (induction n rule: dec_digits.induct)
  case (1 n)
  then show ?case by (subst (asm) (2) dec_digits.simps) (auto split: if_splits)
qed

end
