(* ===== verification/Terminal.thy ===== *)
theory Terminal
  imports Go_Prelude
begin

text \<open>
  The agent's terminal domain (\<^verbatim>\<open>internal/agent/domain/terminal\<close>): screen cells and their colour
  and attribute encoding, the screen snapshot, the session value object, and the activity
  heuristic that feeds the dashboard's "needs input" badge.

  Text is a list of runes. Two Unicode tables of Go's standard library are used by the
  heuristic: \<open>unicode.IsSpace\<close> is written out, \<open>unicode.ToLower\<close> is the parameter \<open>lower\<close>
  of \<open>TailLooksLikeQuestion\<close>.
\<close>

subsection \<open>Cells and screens (screen.go)\<close>

record cell =
  Rune :: rune
  FG :: int
  BG :: int
  Attrs :: "16 word"

definition AttrBold :: "16 word" where "AttrBold = push_bit 0 1"
definition AttrFaint :: "16 word" where "AttrFaint = push_bit 1 1"
definition AttrItalic :: "16 word" where "AttrItalic = push_bit 2 1"
definition AttrUnderline :: "16 word" where "AttrUnderline = push_bit 3 1"
definition AttrBlink :: "16 word" where "AttrBlink = push_bit 4 1"
definition AttrInverse :: "16 word" where "AttrInverse = push_bit 5 1"
definition AttrHidden :: "16 word" where "AttrHidden = push_bit 6 1"
definition AttrStrike :: "16 word" where "AttrStrike = push_bit 7 1"

lemmas attr_defs = AttrBold_def AttrFaint_def AttrItalic_def AttrUnderline_def
  AttrBlink_def AttrInverse_def AttrHidden_def AttrStrike_def

definition ColorDefault :: int where "ColorDefault = 0"
definition ColorTruecolorFlag :: int where "ColorTruecolorFlag = 0x1000000"

definition BlankCell :: cell where
  "BlankCell = \<lparr>Rune = 32, FG = 0, BG = 0, Attrs = 0\<rparr>"

text \<open>The zero value of a cell, what \<open>make([]Cell, n)\<close> holds.\<close>

definition zeroCell :: cell where
  "zeroCell = \<lparr>Rune = 0, FG = 0, BG = 0, Attrs = 0\<rparr>"

record cursor =
  curX :: int
  curY :: int
  curVisible :: bool

record Screen =
  Cols :: int
  Rows :: int
  Cursor :: cursor
  Cells :: "cell list list"

record SessionScreen =
  ssID :: string
  ssScreen :: Screen
  ssRev :: "64 word"

record SessionRev =
  srID :: string
  srRev :: "64 word"

text \<open>The colour encoding of the doc comment of \<open>Cell\<close>: default, palette index + 1, truecolour.\<close>

definition valid_color :: "int \<Rightarrow> bool" where
  "valid_color c \<longleftrightarrow> c = ColorDefault \<or> (1 \<le> c \<and> c \<le> 256) \<or>
     (ColorTruecolorFlag \<le> c \<and> c < 2 * ColorTruecolorFlag)"

text \<open>A Unicode scalar value: what a decoded rune can be.\<close>

definition valid_rune :: "rune \<Rightarrow> bool" where
  "valid_rune r \<longleftrightarrow> (0 \<le> r \<and> r < 0xD800) \<or> (0xE000 \<le> r \<and> r \<le> 0x10FFFF)"

definition valid_cell :: "cell \<Rightarrow> bool" where
  "valid_cell c \<longleftrightarrow> valid_rune (Rune c) \<and> valid_color (FG c) \<and> valid_color (BG c)"

lemma valid_cell_BlankCell [simp]: "valid_cell BlankCell"
  by (simp add: valid_cell_def BlankCell_def valid_rune_def valid_color_def ColorDefault_def)

text \<open>What Go writes for a rune that may be invalid (\<open>WriteRune\<close>, \<open>string([]rune)\<close>).\<close>

definition rune_out :: "rune \<Rightarrow> rune" where
  "rune_out r = (if valid_rune r then r else 0xFFFD)"

lemma rune_out_id [simp]: "valid_rune r \<Longrightarrow> rune_out r = r"
  by (simp add: rune_out_def)

subsection \<open>Sessions (session.go, status.go)\<close>

datatype Status = StatusRunning | StatusExited | StatusLost

record Session =
  term_id :: string
  term_shell :: string
  term_cwd :: string
  term_cols :: int
  term_rows :: int
  term_pid :: int
  term_status :: Status

definition NewSession :: "string \<Rightarrow> string \<Rightarrow> string \<Rightarrow> int \<Rightarrow> int \<Rightarrow> Session" where
  "NewSession i sh cw c r =
     \<lparr>term_id = i, term_shell = sh, term_cwd = cw, term_cols = c, term_rows = r, term_pid = 0,
      term_status = StatusRunning\<rparr>"

definition SetPid :: "int \<Rightarrow> Session \<Rightarrow> Session" where
  "SetPid p s = s\<lparr>term_pid := p\<rparr>"

definition SetStatus :: "Status \<Rightarrow> Session \<Rightarrow> Session" where
  "SetStatus st s = s\<lparr>term_status := st\<rparr>"

definition SetSize :: "int \<Rightarrow> int \<Rightarrow> Session \<Rightarrow> Session" where
  "SetSize c r s = s\<lparr>term_cols := c, term_rows := r\<rparr>"

subsection \<open>Activity (activity.go)\<close>

datatype Activity = ActivityActive | ActivityIdle | ActivityAwaitingInput | ActivityUnknown

datatype PromptState = PromptUnknown | PromptAtPrompt | PromptRunning

definition ComputeActivity :: "int \<Rightarrow> int \<Rightarrow> int \<Rightarrow> PromptState \<Rightarrow> bool \<Rightarrow> Activity" where
  "ComputeActivity now lastOutputAt activeWindowSec prompt tailLooksLikeQuestion =
     (let outputFlowing = (lastOutputAt > 0 \<and> wrap64 (now - lastOutputAt) < activeWindowSec) in
      if outputFlowing then ActivityActive
      else case prompt of
        PromptRunning \<Rightarrow> (if tailLooksLikeQuestion then ActivityAwaitingInput else ActivityActive)
      | PromptAtPrompt \<Rightarrow> ActivityIdle
      | PromptUnknown \<Rightarrow>
          (if lastOutputAt = 0 then ActivityUnknown
           else if tailLooksLikeQuestion then ActivityAwaitingInput
           else ActivityIdle))"

definition runes_of :: "string \<Rightarrow> rune list" where
  "runes_of s = map (\<lambda>c. int (of_char c)) s"

definition IsSpace :: "rune \<Rightarrow> bool" where
  "IsSpace r \<longleftrightarrow> r \<in> {9, 10, 11, 12, 13, 32, 0x85, 0xA0, 0x1680, 0x2028, 0x2029, 0x202F, 0x205F, 0x3000}
     \<or> (0x2000 \<le> r \<and> r \<le> 0x200A)"

definition TrimRightFunc :: "(rune \<Rightarrow> bool) \<Rightarrow> rune list \<Rightarrow> rune list" where
  "TrimRightFunc f s = rev (dropWhile f (rev s))"

fun Contains :: "rune list \<Rightarrow> rune list \<Rightarrow> bool" where
  "Contains [] sub = (sub = [])"
| "Contains (x # xs) sub = (take (length sub) (x # xs) = sub \<or> Contains xs sub)"

definition HasSuffix :: "rune list \<Rightarrow> rune list \<Rightarrow> bool" where
  "HasSuffix s suf \<longleftrightarrow> length suf \<le> length s \<and> drop (length s - length suf) s = suf"

definition trailingQuestionMaxRunes :: nat where
  "trailingQuestionMaxRunes = 60"

definition questionSubstrings :: "rune list list" where
  "questionSubstrings =
    [runes_of ''(y/n)'', runes_of ''[y/n]'', runes_of ''(yes/no)'', runes_of ''password:'',
     runes_of ''passphrase:'', runes_of ''continue?'', runes_of ''proceed?'',
     runes_of ''overwrite?'', runes_of ''do you want'', runes_of ''press enter'',
     runes_of ''press any key'', [0x276F]]"

definition TailLooksLikeQuestion :: "(rune \<Rightarrow> rune) \<Rightarrow> rune list \<Rightarrow> bool" where
  "TailLooksLikeQuestion lower line =
     (let trimmed = TrimRightFunc IsSpace line in
      if trimmed = [] then False
      else let low = map lower trimmed in
        if list_ex (Contains low) questionSubstrings then True
        else if HasSuffix low (runes_of ''?'') \<and> length trimmed \<le> trailingQuestionMaxRunes then True
        else False)"

subsection \<open>Lemmas\<close>

lemma TrimRightFunc_append_trim:
  "list_all f ys \<Longrightarrow> TrimRightFunc f (xs @ ys) = TrimRightFunc f xs"
  unfolding TrimRightFunc_def rev_append
  by (subst dropWhile_append2) (auto simp: list_all_iff)

text \<open>
  An agent session reports "awaiting input" exactly when output has stalled, the tail of the
  screen looks like a question, and the shell-integration state does not say the shell sits at
  its prompt (and, without markers, some output has been seen).
\<close>
theorem ComputeActivity_awaiting_iff:
  "ComputeActivity now lastOut win prompt q = ActivityAwaitingInput \<longleftrightarrow>
     \<not> (lastOut > 0 \<and> wrap64 (now - lastOut) < win) \<and> q \<and>
     (prompt = PromptRunning \<or> prompt = PromptUnknown \<and> lastOut \<noteq> 0)"
  by (cases prompt) (auto simp: ComputeActivity_def Let_def)

end
