(* ===== verification/Utf8.thy ===== *)
theory Utf8
  imports Terminal
begin

text \<open>
  Go's \<open>unicode/utf8\<close> as far as the emulator uses it: \<open>DecodeRune\<close> on the bytes buffered so
  far. The decoder rejects overlong forms, surrogates and values above 0x10FFFF through the
  accept range of the second byte, as Go's table-driven decoder does; an incomplete or invalid
  sequence is \<open>(RuneError, 1)\<close>. \<open>utf8_encode\<close> is the specification side: the encoding of a
  scalar value.
\<close>

definition RuneError :: rune where "RuneError = 0xFFFD"

text \<open>Length and accept range of the second byte, by lead byte (\<open>None\<close>: invalid lead).\<close>

definition utf8_first :: "byte \<Rightarrow> (nat \<times> byte \<times> byte) option" where
  "utf8_first b =
     (if 0xC2 \<le> b \<and> b \<le> 0xDF then Some (2, 0x80, 0xBF)
      else if b = 0xE0 then Some (3, 0xA0, 0xBF)
      else if b = 0xED then Some (3, 0x80, 0x9F)
      else if 0xE1 \<le> b \<and> b \<le> 0xEF then Some (3, 0x80, 0xBF)
      else if b = 0xF0 then Some (4, 0x90, 0xBF)
      else if 0xF1 \<le> b \<and> b \<le> 0xF3 then Some (4, 0x80, 0xBF)
      else if b = 0xF4 then Some (4, 0x80, 0x8F)
      else None)"

definition is_cont :: "byte \<Rightarrow> bool" where
  "is_cont b \<longleftrightarrow> 0x80 \<le> b \<and> b \<le> 0xBF"

text \<open>The low six bits of a continuation byte.\<close>

definition cont_bits :: "byte \<Rightarrow> int" where
  "cont_bits b = uint b mod 64"

definition DecodeRune :: "byte list \<Rightarrow> rune \<times> nat" where
  "DecodeRune p =
     (case p of
        [] \<Rightarrow> (RuneError, 0)
      | p0 # rest \<Rightarrow>
          if p0 < 0x80 then (uint p0, 1)
          else case utf8_first p0 of
            None \<Rightarrow> (RuneError, 1)
          | Some (sz, lo, hi) \<Rightarrow>
              if length p < sz then (RuneError, 1)
              else let b1 = rest ! 0 in
                if b1 < lo \<or> hi < b1 then (RuneError, 1)
                else if sz \<le> 2 then (uint p0 mod 32 * 64 + cont_bits b1, 2)
                else let b2 = rest ! 1 in
                  if \<not> is_cont b2 then (RuneError, 1)
                  else if sz \<le> 3
                  then (uint p0 mod 16 * 4096 + cont_bits b1 * 64 + cont_bits b2, 3)
                  else let b3 = rest ! 2 in
                    if \<not> is_cont b3 then (RuneError, 1)
                    else (uint p0 mod 8 * 262144 + cont_bits b1 * 4096 + cont_bits b2 * 64
                            + cont_bits b3, 4))"

text \<open>The encoding of a scalar value, by range.\<close>

definition byte_of :: "int \<Rightarrow> byte" where
  "byte_of n = word_of_int n"

definition utf8_encode :: "rune \<Rightarrow> byte list" where
  "utf8_encode r =
     (if r < 0x80 then [byte_of r]
      else if r < 0x800 then [byte_of (0xC0 + r div 64), byte_of (0x80 + r mod 64)]
      else if r < 0x10000 then
        [byte_of (0xE0 + r div 4096), byte_of (0x80 + r div 64 mod 64),
         byte_of (0x80 + r mod 64)]
      else
        [byte_of (0xF0 + r div 262144), byte_of (0x80 + r div 4096 mod 64),
         byte_of (0x80 + r div 64 mod 64), byte_of (0x80 + r mod 64)])"

subsection \<open>Bytes as integers\<close>

lemma byte_le_iff: "(a :: byte) \<le> b \<longleftrightarrow> uint a \<le> uint b"
  by (simp add: word_le_def)

lemma byte_less_iff: "(a :: byte) < b \<longleftrightarrow> uint a < uint b"
  by (simp add: word_less_def)

lemma byte_eq_iff: "(a :: byte) = b \<longleftrightarrow> uint a = uint b"
  by (simp add: word_uint_eq_iff)

lemma uint_byte_bounds: "0 \<le> uint (b :: byte)" "uint (b :: byte) < 256"
  using uint_lt2p [of b] by auto

lemma uint_byte_of: "0 \<le> n \<Longrightarrow> n < 256 \<Longrightarrow> uint (byte_of n) = n"
  by (simp add: byte_of_def uint_word_of_int)

lemmas byte_arith = byte_le_iff byte_less_iff byte_eq_iff

subsection \<open>Decoding is sound\<close>

lemma utf8_first_Some_ge: "utf8_first b = Some (sz, lo, hi) \<Longrightarrow> 2 \<le> sz \<and> sz \<le> 4 \<and> 0x80 \<le> lo"
  by (auto simp: utf8_first_def split: if_splits)

text \<open>The three multi-byte forms decode to scalar values when the bytes are in range.\<close>

lemma cont_bits_bounds: "0 \<le> cont_bits b" "cont_bits b < 64"
  by (simp_all add: cont_bits_def)

lemma valid_rune_two:
  assumes "utf8_first p0 = Some (2, lo, hi)"
  shows "valid_rune (uint p0 mod 32 * 64 + cont_bits b1)"
proof -
  have "0xC2 \<le> p0" "p0 \<le> 0xDF" using assms by (auto simp: utf8_first_def split: if_splits)
  moreover have "0 \<le> uint p0 mod 32" "uint p0 mod 32 < 32" by simp_all
  ultimately have "0 \<le> uint p0 mod 32 * 64 + cont_bits b1 \<and> uint p0 mod 32 * 64 + cont_bits b1 < 0xD800"
    using cont_bits_bounds [of b1] by linarith
  then show ?thesis by (simp add: valid_rune_def)
qed

lemma cont_bits_le: "b \<le> 0x9F \<Longrightarrow> 0x80 \<le> b \<Longrightarrow> cont_bits b < 32"
  unfolding cont_bits_def byte_arith by simp presburger

lemma cont_bits_ge: "0x90 \<le> b \<Longrightarrow> b \<le> 0xBF \<Longrightarrow> 16 \<le> cont_bits b"
  unfolding cont_bits_def byte_arith by simp presburger

lemma cont_bits_le': "b \<le> 0x8F \<Longrightarrow> 0x80 \<le> b \<Longrightarrow> cont_bits b < 16"
  unfolding cont_bits_def byte_arith by simp presburger

lemma valid_rune_three:
  assumes "utf8_first p0 = Some (3, lo, hi)" "lo \<le> b1" "b1 \<le> hi"
  shows "valid_rune (uint p0 mod 16 * 4096 + cont_bits b1 * 64 + cont_bits b2)"
proof -
  have "p0 = 0xED \<and> hi = 0x9F \<and> lo = 0x80 \<or> 0xEE \<le> p0 \<and> p0 \<le> 0xEF \<or> 0xE0 \<le> p0 \<and> p0 < 0xED"
    using assms(1) by (auto simp: utf8_first_def byte_arith split: if_splits)
  then consider "p0 = 0xED" "hi = 0x9F" "lo = 0x80" | "0xEE \<le> p0" "p0 \<le> 0xEF"
    | "0xE0 \<le> p0" "p0 < 0xED"
    by blast
  then show ?thesis
  proof cases
    case 1
    then show ?thesis
      using assms cont_bits_le [of b1] cont_bits_bounds [of b1] cont_bits_bounds [of b2]
      by (simp add: valid_rune_def)
  next
    case 2
    then have "14 \<le> uint p0 mod 16" unfolding byte_arith by simp presburger
    moreover have "uint p0 mod 16 < 16" by simp
    ultimately show ?thesis
      using cont_bits_bounds [of b1] cont_bits_bounds [of b2] by (simp add: valid_rune_def)
  next
    case 3
    then have "uint p0 mod 16 < 13" unfolding byte_arith by simp presburger
    moreover have "0 \<le> uint p0 mod 16" by simp
    ultimately show ?thesis
      using cont_bits_bounds [of b1] cont_bits_bounds [of b2] by (simp add: valid_rune_def)
  qed
qed

lemma valid_rune_four:
  assumes "utf8_first p0 = Some (4, lo, hi)" "lo \<le> b1" "b1 \<le> hi"
  shows "valid_rune (uint p0 mod 8 * 262144 + cont_bits b1 * 4096 + cont_bits b2 * 64
           + cont_bits b3)"
proof -
  note c = cont_bits_bounds [of b1] cont_bits_bounds [of b2] cont_bits_bounds [of b3]
  consider "p0 = 0xF0" "lo = 0x90" "hi = 0xBF" | "0xF1 \<le> p0" "p0 \<le> 0xF3"
    | "p0 = 0xF4" "lo = 0x80" "hi = 0x8F"
    using assms(1) by (auto simp: utf8_first_def byte_arith split: if_splits)
  then show ?thesis
  proof cases
    case 1
    then show ?thesis using assms c cont_bits_ge [of b1] by (simp add: valid_rune_def)
  next
    case 2
    then have "1 \<le> uint p0 mod 8 \<and> uint p0 mod 8 < 4" unfolding byte_arith by simp presburger
    then show ?thesis using c by (simp add: valid_rune_def)
  next
    case 3
    then show ?thesis using assms c cont_bits_le' [of b1] by (simp add: valid_rune_def)
  qed
qed

lemma DecodeRune_valid:
  assumes "DecodeRune p = (r, n)"
  shows "valid_rune r"
proof (cases p)
  case Nil
  then show ?thesis using assms by (auto simp: DecodeRune_def valid_rune_def RuneError_def)
next
  case (Cons p0 rest)
  have err: "valid_rune RuneError" by (simp add: valid_rune_def RuneError_def)
  show ?thesis
  proof (cases "utf8_first p0")
    case None
    then show ?thesis using assms Cons err uint_byte_bounds [of p0]
      by (auto simp: DecodeRune_def byte_less_iff valid_rune_def split: if_splits)
  next
    case (Some t)
    then obtain sz lo hi where f: "utf8_first p0 = Some (sz, lo, hi)" by (cases t) auto
    have ge: "\<not> p0 < 0x80" using f by (auto simp: utf8_first_def byte_arith split: if_splits)
    consider "sz = 2" | "sz = 3" | "sz = 4" using utf8_first_Some_ge [OF f] by fastforce
    then show ?thesis
    proof cases
      case 1
      then show ?thesis using assms Cons err f ge
        by (auto simp: DecodeRune_def Let_def not_less valid_rune_two split: if_splits)
    next
      case 2
      then show ?thesis using assms Cons err f ge
        by (auto simp: DecodeRune_def Let_def not_less valid_rune_three split: if_splits)
    next
      case 3
      then show ?thesis using assms Cons err f ge
        by (auto simp: DecodeRune_def Let_def not_less valid_rune_four split: if_splits)
    qed
  qed
qed

subsection \<open>Decoding inverts encoding\<close>

lemma cont_bits_of_int: "0 \<le> n \<Longrightarrow> n < 64 \<Longrightarrow> cont_bits (byte_of (0x80 + n)) = n"
  using mod_mult_self3 [of "2 :: int" 64 n] by (simp add: cont_bits_def uint_byte_of)

lemma is_cont_of_int: "0 \<le> n \<Longrightarrow> n < 64 \<Longrightarrow> is_cont (byte_of (0x80 + n))"
  by (simp add: is_cont_def byte_arith uint_byte_of)

lemma div_64_split:
  "(r :: int) div 4096 * 64 + r div 64 mod 64 = r div 64"
  "r div 262144 * 64 + r div 4096 mod 64 = r div 4096"
proof -
  have "r div 4096 = r div 64 div 64" "r div 262144 = r div 4096 div 64"
    by (simp_all add: zdiv_zmult2_eq [symmetric])
  then show "r div 4096 * 64 + r div 64 mod 64 = r div 64"
    "r div 262144 * 64 + r div 4096 mod 64 = r div 4096"
    by (simp_all add: div_mult_mod_eq)
qed

lemma utf8_encode_length: "length (utf8_encode r) \<le> 4" "utf8_encode r \<noteq> []"
  by (simp_all add: utf8_encode_def)

lemma utf8_first_three:
  assumes "0 \<le> q" "q < 16" "0 \<le> m" "m < 64" "q = 0 \<longrightarrow> 32 \<le> m" "q = 13 \<longrightarrow> m < 32"
  shows "case utf8_first (byte_of (0xE0 + q)) of None \<Rightarrow> False
    | Some (n, lo, hi) \<Rightarrow> n = 3 \<and> lo \<le> byte_of (0x80 + m) \<and> byte_of (0x80 + m) \<le> hi"
  using assms by (auto simp: utf8_first_def byte_arith uint_byte_of)

lemma utf8_first_four:
  assumes "0 \<le> q" "q < 5" "0 \<le> m" "m < 64" "q = 0 \<longrightarrow> 16 \<le> m" "q = 4 \<longrightarrow> m < 16"
  shows "case utf8_first (byte_of (0xF0 + q)) of None \<Rightarrow> False
    | Some (n, lo, hi) \<Rightarrow> n = 4 \<and> lo \<le> byte_of (0x80 + m) \<and> byte_of (0x80 + m) \<le> hi"
  using assms by (auto simp: utf8_first_def byte_arith uint_byte_of)

lemma utf8_encode_first_case:
  assumes "valid_rune r" "0x80 \<le> r"
  shows "case utf8_first (hd (utf8_encode r)) of None \<Rightarrow> False
    | Some (n, lo, hi) \<Rightarrow> n = length (utf8_encode r) \<and> lo \<le> utf8_encode r ! 1 \<and> utf8_encode r ! 1 \<le> hi"
proof -
  consider "r < 0x800" | "0x800 \<le> r" "r < 0x10000" | "0x10000 \<le> r" by linarith
  then show ?thesis
  proof cases
    case 1
    then have "2 \<le> r div 64" "r div 64 < 32" "0 \<le> r mod 64" "r mod 64 < 64" using assms by auto
    then show ?thesis using assms 1
      by (auto simp: utf8_encode_def utf8_first_def byte_arith uint_byte_of)
  next
    case 2
    have d: "0 \<le> r div 4096" "r div 4096 < 16" "0 \<le> r div 64 mod 64" "r div 64 mod 64 < 64"
      using assms 2 by auto
    have e0: "r div 4096 = 0 \<longrightarrow> 32 \<le> r div 64 mod 64"
      using 2 div_64_split(1) [of r] zdiv_mono1 [of "0x800" r 64] by auto
    have "r div 4096 = 13 \<longrightarrow> r < 0xE000"
      using div_mult_mod_eq [of r 4096] pos_mod_bound [of 4096 r] by auto
    then have e13: "r div 4096 = 13 \<longrightarrow> r div 64 mod 64 < 32"
      using assms 2 div_64_split(1) [of r] zdiv_mono1 [of r "0xD7FF" 64] by (auto simp: valid_rune_def)
    show ?thesis using utf8_first_three [OF d e0 e13] assms 2
      by (auto simp: utf8_encode_def split: option.splits)
  next
    case 3
    have d: "0 \<le> r div 262144" "r div 262144 < 5" "0 \<le> r div 4096 mod 64" "r div 4096 mod 64 < 64"
      using assms 3 by (auto simp: valid_rune_def)
    have e0: "r div 262144 = 0 \<longrightarrow> 16 \<le> r div 4096 mod 64"
      using 3 div_64_split(2) [of r] zdiv_mono1 [of "0x10000" r 4096] by auto
    have e4: "r div 262144 = 4 \<longrightarrow> r div 4096 mod 64 < 16"
      using assms 3 div_64_split(2) [of r] zdiv_mono1 [of r "0x10FFFF" 4096]
      by (auto simp: valid_rune_def)
    show ?thesis using utf8_first_four [OF d e0 e4] assms 3
      by (auto simp: utf8_encode_def split: option.splits)
  qed
qed

text \<open>The lead byte of an encoding announces its length, and the second byte is accepted.\<close>

lemma utf8_encode_first:
  assumes "valid_rune r" "0x80 \<le> r"
  shows "\<exists>lo hi. utf8_first (hd (utf8_encode r)) = Some (length (utf8_encode r), lo, hi) \<and>
    lo \<le> utf8_encode r ! 1 \<and> utf8_encode r ! 1 \<le> hi"
proof -
  have "case utf8_first (hd (utf8_encode r)) of None \<Rightarrow> False
    | Some (n, lo, hi) \<Rightarrow> n = length (utf8_encode r) \<and> lo \<le> utf8_encode r ! 1 \<and> utf8_encode r ! 1 \<le> hi"
    using assms by (rule utf8_encode_first_case)
  then show ?thesis by (auto split: option.splits)
qed

lemma DecodeRune_prefix:
  assumes "valid_rune r" "0x80 \<le> r" "0 < k" "k < length (utf8_encode r)"
  shows "DecodeRune (take k (utf8_encode r)) = (RuneError, 1)"
proof -
  obtain lo hi where f: "utf8_first (hd (utf8_encode r)) = Some (length (utf8_encode r), lo, hi)"
    using utf8_encode_first [OF assms(1,2)] by blast
  have ge: "\<not> hd (utf8_encode r) < 0x80"
    using f by (auto simp: utf8_first_def byte_arith split: if_splits)
  obtain b bs where e: "utf8_encode r = b # bs"
    using utf8_encode_length(2) by (cases "utf8_encode r") auto
  show ?thesis using assms(3,4) f ge by (cases k) (auto simp: DecodeRune_def e)
qed

lemma DecodeRune_encode:
  assumes "valid_rune r" "0x80 \<le> r"
  shows "DecodeRune (utf8_encode r) = (r, length (utf8_encode r))"
proof -
  obtain lo hi where f: "utf8_first (hd (utf8_encode r)) = Some (length (utf8_encode r), lo, hi)"
    and b1: "lo \<le> utf8_encode r ! 1" "utf8_encode r ! 1 \<le> hi"
    using utf8_encode_first [OF assms] by blast
  have ge: "\<not> hd (utf8_encode r) < 0x80"
    using f by (auto simp: utf8_first_def byte_arith split: if_splits)
  consider "r < 0x800" | "0x800 \<le> r" "r < 0x10000" | "0x10000 \<le> r" by linarith
  then show ?thesis
  proof cases
    case 1
    then have d: "0 \<le> r div 64" "r div 64 < 32" using assms by auto
    then have "uint (byte_of (0xC0 + r div 64)) mod 32 = r div 64"
      using mod_mult_self3 [of "6 :: int" 32 "r div 64"] by (simp add: uint_byte_of)
    then show ?thesis using assms 1 f b1 ge
      by (simp add: utf8_encode_def DecodeRune_def Let_def cont_bits_of_int not_less)
  next
    case 2
    then have d: "0 \<le> r div 4096" "r div 4096 < 16" using assms by auto
    then have r1: "uint (byte_of (0xE0 + r div 4096)) mod 16 = r div 4096"
      using mod_mult_self3 [of "14 :: int" 16 "r div 4096"] by (simp add: uint_byte_of)
    have r2: "r div 4096 * 4096 + r div 64 mod 64 * 64 + r mod 64 = r"
      using div_64_split(1) [of r] div_mult_mod_eq [of r 64] by linarith
    have "DecodeRune (utf8_encode r) = (uint (byte_of (0xE0 + r div 4096)) mod 16 * 4096
        + r div 64 mod 64 * 64 + r mod 64, length (utf8_encode r))"
      using assms 2 f b1 ge
      by (simp add: utf8_encode_def DecodeRune_def Let_def cont_bits_of_int is_cont_of_int not_less)
    then show ?thesis by (simp only: r1 r2)
  next
    case 3
    then have d: "0 \<le> r div 262144" "r div 262144 < 8" using assms by (auto simp: valid_rune_def)
    then have r1: "uint (byte_of (0xF0 + r div 262144)) mod 8 = r div 262144"
      using mod_mult_self3 [of "30 :: int" 8 "r div 262144"] by (simp add: uint_byte_of)
    have r2: "r div 262144 * 262144 + r div 4096 mod 64 * 4096 + r div 64 mod 64 * 64 + r mod 64 = r"
      using div_64_split(1) [of r] div_64_split(2) [of r] div_mult_mod_eq [of r 64] by linarith
    have "DecodeRune (utf8_encode r) = (uint (byte_of (0xF0 + r div 262144)) mod 8 * 262144
        + r div 4096 mod 64 * 4096 + r div 64 mod 64 * 64 + r mod 64, length (utf8_encode r))"
      using assms 3 f b1 ge
      by (simp add: utf8_encode_def DecodeRune_def Let_def cont_bits_of_int is_cont_of_int not_less)
    then show ?thesis by (simp only: r1 r2)
  qed
qed

end
