(* ===== verification/Vt_Parser.thy ===== *)
theory Vt_Parser
  imports Utf8
begin

text \<open>
  The escape-sequence state machine of \<^verbatim>\<open>internal/agent/adapter/secondary/vt/parser.go\<close>.

  A fixed Go array with a fill count (\<open>inter\<close>/\<open>nInter\<close>, \<open>paramBuf\<close>/\<open>nParam\<close>,
  \<open>oscBuf\<close>/\<open>nOSC\<close>) is the list of its filled prefix; the array sizes 4, 32 and 512 are the
  bounds of the guards. \<open>feedByte\<close> returns \<open>None\<close> where the unguarded store
  \<open>p.paramBuf[p.nParam] = b\<close> of the CSI entry state would be out of range, and otherwise the
  action, the state it reports and the new parser.
\<close>

datatype parserState = stGround | stEscape | stEscapeInter | stCSIEntry | stCSIParam
  | stCSIInter | stCSIIgnore | stOSCString | stDCSEntry | stDCSPassthrough

datatype action =
    actNone
  | actPrint byte
  | actExecute byte
  | actESC byte "byte list"
  | actCSI byte "byte list" "int list"
  | actOSC "byte list"
  | actDCS

record parser =
  state :: parserState
  inter :: "byte list"
  paramBuf :: "byte list"
  oscBuf :: "byte list"

definition interCap :: nat where "interCap = 4"
definition paramCap :: nat where "paramCap = 32"
definition oscCap :: nat where "oscCap = 512"

lemmas cap_defs = interCap_def paramCap_def oscCap_def

definition parser_init :: "parser \<Rightarrow> parser" where
  "parser_init p = p\<lparr>state := stGround\<rparr>"

definition zeroParser :: parser where
  "zeroParser = \<lparr>state = stGround, inter = [], paramBuf = [], oscBuf = []\<rparr>"

text \<open>\<open>if p.nInter < len(p.inter)-1 { p.inter[p.nInter] = b; p.nInter++ }\<close> and its siblings.\<close>

definition push_inter :: "byte \<Rightarrow> parser \<Rightarrow> parser" where
  "push_inter b p = (if length (inter p) < interCap - 1 then p\<lparr>inter := inter p @ [b]\<rparr> else p)"

definition push_param :: "byte \<Rightarrow> parser \<Rightarrow> parser" where
  "push_param b p =
     (if length (paramBuf p) < paramCap - 1 then p\<lparr>paramBuf := paramBuf p @ [b]\<rparr> else p)"

definition push_osc :: "byte \<Rightarrow> parser \<Rightarrow> parser" where
  "push_osc b p = (if length (oscBuf p) < oscCap - 1 then p\<lparr>oscBuf := oscBuf p @ [b]\<rparr> else p)"

lemmas push_defs = push_inter_def push_param_def push_osc_def

fun parseParams_loop :: "byte list \<Rightarrow> int \<Rightarrow> int list \<Rightarrow> int list" where
  "parseParams_loop [] cur params = params @ [cur]"
| "parseParams_loop (b # raw) cur params =
     (if b = 0x3B then parseParams_loop raw 0 (params @ [cur])
      else if 0x30 \<le> b \<and> b \<le> 0x39
      then parseParams_loop raw (wrap64 (cur * 10 + uint (b - 0x30))) params
      else parseParams_loop raw cur params)"

definition parseParams :: "byte list \<Rightarrow> int list" where
  "parseParams raw = (if raw = [] then [] else parseParams_loop raw 0 [])"

definition buildOSC :: "parser \<Rightarrow> action \<times> parser" where
  "buildOSC p = (actOSC (oscBuf p), p\<lparr>oscBuf := []\<rparr>)"

definition resetCSI :: "parser \<Rightarrow> parser" where
  "resetCSI p = p\<lparr>inter := [], paramBuf := []\<rparr>"

definition buildESC :: "byte \<Rightarrow> parser \<Rightarrow> action \<times> parser" where
  "buildESC final p =
     (if final = 0x5C then (case buildOSC p of (a, p') \<Rightarrow> (a, p'\<lparr>inter := []\<rparr>))
      else (actESC final (inter p), p\<lparr>inter := []\<rparr>))"

definition buildCSI :: "byte \<Rightarrow> parser \<Rightarrow> action \<times> parser" where
  "buildCSI final p = (actCSI final (inter p) (parseParams (paramBuf p)), resetCSI p)"

text \<open>\<open>a := p.buildX(b); p.state = stGround; return a, stGround\<close>\<close>

definition finish :: "action \<times> parser \<Rightarrow> action \<times> parserState \<times> parser" where
  "finish r = (case r of (a, p) \<Rightarrow> (a, stGround, p\<lparr>state := stGround\<rparr>))"

text \<open>\<open>p.state = st; return action{}, st\<close>\<close>

definition goto_state :: "parserState \<Rightarrow> parser \<Rightarrow> action \<times> parserState \<times> parser" where
  "goto_state st p = (actNone, st, p\<lparr>state := st\<rparr>)"

definition handleC0 :: "byte \<Rightarrow> parser \<Rightarrow> action \<times> parserState \<times> parser" where
  "handleC0 b p =
     (if b = 0x07 \<and> state p = stOSCString then finish (buildOSC p)
      else if b = 0x07 \<and> state p = stDCSPassthrough then (actNone, state p, p)
      else if b = 0x1B then goto_state stEscape (p\<lparr>inter := []\<rparr>)
      else if b = 0x18 \<or> b = 0x1A then goto_state stGround p
      else if b = 0x9C then
        (if state p = stOSCString then finish (buildOSC p)
         else if state p = stDCSPassthrough then (actDCS, stGround, p\<lparr>state := stGround\<rparr>)
         else goto_state stGround p)
      else if state p = stOSCString \<or> state p = stDCSPassthrough \<or> state p = stDCSEntry
      then (actNone, state p, p)
      else if state p \<in> {stGround, stCSIEntry, stCSIParam, stCSIInter, stCSIIgnore, stEscape,
                stEscapeInter}
              \<and> b \<in> {0x0D, 0x0A, 0x09, 0x08, 0x07, 0x0B, 0x0C}
      then (actExecute b, state p, p)
      else (actNone, state p, p))"

definition feedByte :: "parser \<Rightarrow> byte \<Rightarrow> (action \<times> parserState \<times> parser) option" where
  "feedByte p b =
     (if b < 0x20 then Some (handleC0 b p)
      else case state p of
        stGround \<Rightarrow>
          (if 0x20 \<le> b \<and> b \<le> 0x7E then Some (actPrint b, stGround, p)
           else Some (actNone, stGround, p))
      | stEscape \<Rightarrow>
          (if b = 0x5B then Some (goto_state stCSIEntry (resetCSI p))
           else if b = 0x5D then Some (goto_state stOSCString (p\<lparr>oscBuf := []\<rparr>))
           else if b = 0x50 then Some (goto_state stDCSEntry p)
           else if 0x20 \<le> b \<and> b \<le> 0x2F then Some (goto_state stEscapeInter (push_inter b p))
           else if 0x30 \<le> b \<and> b \<le> 0x7E then Some (finish (buildESC b p))
           else if b = 0x7F then Some (actNone, stEscape, p)
           else Some (goto_state stGround p))
      | stEscapeInter \<Rightarrow>
          (if 0x20 \<le> b \<and> b \<le> 0x2F then Some (actNone, stEscapeInter, push_inter b p)
           else if 0x30 \<le> b \<and> b \<le> 0x7E then Some (finish (buildESC b p))
           else Some (goto_state stGround p))
      | stCSIEntry \<Rightarrow>
          (if 0x30 \<le> b \<and> b \<le> 0x39 then
             (if length (paramBuf p) < paramCap
              then Some (goto_state stCSIParam (p\<lparr>paramBuf := paramBuf p @ [b]\<rparr>)) else None)
           else if b = 0x3B then Some (goto_state stCSIParam (push_param 0x3B p))
           else if 0x20 \<le> b \<and> b \<le> 0x2F then Some (goto_state stCSIInter (push_inter b p))
           else if b = 0x3F \<or> b = 0x3C \<or> b = 0x3D \<or> b = 0x3E
           then Some (goto_state stCSIParam (push_inter b p))
           else if 0x40 \<le> b \<and> b \<le> 0x7E then Some (finish (buildCSI b p))
           else if b = 0x7F then Some (actNone, stCSIEntry, p)
           else Some (goto_state stCSIIgnore p))
      | stCSIParam \<Rightarrow>
          (if 0x30 \<le> b \<and> b \<le> 0x39 then Some (actNone, stCSIParam, push_param b p)
           else if b = 0x3B then Some (actNone, stCSIParam, push_param 0x3B p)
           else if b = 0x3A then Some (actNone, stCSIParam, push_param 0x3B p)
           else if 0x20 \<le> b \<and> b \<le> 0x2F then Some (goto_state stCSIInter (push_inter b p))
           else if 0x40 \<le> b \<and> b \<le> 0x7E then Some (finish (buildCSI b p))
           else if b = 0x7F then Some (actNone, stCSIParam, p)
           else Some (goto_state stCSIIgnore p))
      | stCSIInter \<Rightarrow>
          (if 0x20 \<le> b \<and> b \<le> 0x2F then Some (actNone, stCSIInter, push_inter b p)
           else if 0x40 \<le> b \<and> b \<le> 0x7E then Some (finish (buildCSI b p))
           else Some (goto_state stCSIIgnore p))
      | stCSIIgnore \<Rightarrow>
          (let p' = (if 0x40 \<le> b \<and> b \<le> 0x7E then p\<lparr>state := stGround\<rparr> else p)
           in Some (actNone, state p', p'))
      | stOSCString \<Rightarrow>
          (if b = 0x07 then Some (finish (buildOSC p))
           else Some (actNone, stOSCString, push_osc b p))
      | stDCSEntry \<Rightarrow>
          (if b = 0x5C then Some (actDCS, stGround, p\<lparr>state := stGround\<rparr>)
           else Some (goto_state stDCSPassthrough p))
      | stDCSPassthrough \<Rightarrow>
          (if b = 0x5C then Some (actDCS, stGround, p\<lparr>state := stGround\<rparr>)
           else Some (actNone, stDCSPassthrough, p)))"

text \<open>The actions of a byte sequence, in order.\<close>

fun feedBytes :: "parser \<Rightarrow> byte list \<Rightarrow> (action list \<times> parser) option" where
  "feedBytes p [] = Some ([], p)"
| "feedBytes p (b # bs) =
     (case feedByte p b of
        None \<Rightarrow> None
      | Some (a, _, p') \<Rightarrow>
          (case feedBytes p' bs of None \<Rightarrow> None | Some (as, p'') \<Rightarrow> Some (a # as, p'')))"

subsection \<open>The parser invariant\<close>

text \<open>
  The buffers stay within their arrays, and the CSI entry state has an empty parameter buffer,
  which is what makes the unguarded store there safe.
\<close>

definition wf_parser :: "parser \<Rightarrow> bool" where
  "wf_parser p \<longleftrightarrow> length (inter p) < interCap \<and> length (paramBuf p) < paramCap \<and>
     length (oscBuf p) < oscCap \<and> (state p = stCSIEntry \<longrightarrow> paramBuf p = []) \<and>
     (\<forall>b \<in> set (inter p). b \<ge> 0x20)"

lemmas parser_simps = push_defs cap_defs buildOSC_def buildESC_def buildCSI_def resetCSI_def
  finish_def goto_state_def

lemma wf_zeroParser [simp]: "wf_parser zeroParser"
  by (simp add: wf_parser_def zeroParser_def cap_defs)

lemma handleC0_wf: "wf_parser p \<Longrightarrow> handleC0 b p = (a, st, p') \<Longrightarrow> wf_parser p' \<and> st = state p'"
  by (auto simp: handleC0_def wf_parser_def parser_simps split: if_splits)

lemma feedByte_wf:
  assumes "wf_parser p"
  shows "\<exists>a p'. feedByte p b = Some (a, state p', p') \<and> wf_parser p'"
proof (cases "b < 0x20")
  case True
  obtain a st p' where h: "handleC0 b p = (a, st, p')" by (cases "handleC0 b p")
  then show ?thesis using handleC0_wf [OF assms h] True by (auto simp: feedByte_def)
next
  case False
  then have "0x20 \<le> b" by simp
  then show ?thesis using assms False
    by (cases "state p") (auto simp: feedByte_def wf_parser_def parser_simps Let_def)
qed

text \<open>
  Fed any byte sequence from a well-formed parser, the state machine never indexes out of its
  buffers and returns one action per byte, leaving a well-formed parser.
\<close>
theorem feedBytes_total:
  assumes "wf_parser p"
  shows "\<exists>as p'. feedBytes p bs = Some (as, p') \<and> length as = length bs \<and> wf_parser p'"
  using assms
proof (induction bs arbitrary: p)
  case Nil
  then show ?case by simp
next
  case (Cons b bs)
  obtain a p1 where f: "feedByte p b = Some (a, state p1, p1)" "wf_parser p1"
    using feedByte_wf [OF Cons.prems] by blast
  obtain as p2 where "feedBytes p1 bs = Some (as, p2)" "length as = length bs" "wf_parser p2"
    using Cons.IH [OF f(2)] by blast
  with f show ?case by auto
qed

text \<open>Witness for \<open>feedBytes_total\<close>: the initial parser on an escape sequence.\<close>
theorem feedBytes_total_witness:
  "\<exists>as p'. feedBytes zeroParser [0x1B, 0x5B, 0x31, 0x4B] = Some (as, p') \<and>
     length as = length [0x1B, 0x5B, 0x31, 0x4B :: byte] \<and> wf_parser p'"
  by (rule feedBytes_total [OF wf_zeroParser])

subsection \<open>Control sequences are recognised\<close>

text \<open>
  The specification side: how an application writes a control sequence, parameters in decimal
  separated by semicolons.
\<close>

definition digit_byte :: "nat \<Rightarrow> byte" where
  "digit_byte d = byte_of (0x30 + int d)"

fun csi_params :: "nat list \<Rightarrow> byte list" where
  "csi_params [] = []"
| "csi_params [n] = map digit_byte (dec_digits n)"
| "csi_params (n # ns) = map digit_byte (dec_digits n) @ 0x3B # csi_params ns"

definition csi_sequence :: "nat list \<Rightarrow> byte \<Rightarrow> byte list" where
  "csi_sequence ns final = 0x1B # 0x5B # csi_params ns @ [final]"

lemma digit_byte_bounds: "d < 10 \<Longrightarrow> 0x30 \<le> digit_byte d \<and> digit_byte d \<le> 0x39"
  by (simp add: digit_byte_def byte_arith uint_byte_of)

lemma digit_byte_uint: "d < 10 \<Longrightarrow> uint (digit_byte d - 0x30) = int d"
  by (simp add: digit_byte_def byte_of_def unsigned_of_nat take_bit_nat_eq_self)

definition param_byte :: "byte \<Rightarrow> bool" where
  "param_byte b \<longleftrightarrow> 0x30 \<le> b \<and> b \<le> 0x39 \<or> b = 0x3B"

lemma csi_params_bytes: "b \<in> set (csi_params ns) \<Longrightarrow> param_byte b"
  by (induction ns rule: csi_params.induct)
    (auto simp: param_byte_def digit_byte_bounds dest: dec_digits_less)

text \<open>Reading the parameters back.\<close>

lemma parseParams_digits:
  assumes "\<forall>d \<in> set ds. d < 10" "int (dec_value cur ds) < 2 ^ 63"
  shows "parseParams_loop (map digit_byte ds @ raw) (int cur) params =
    parseParams_loop raw (int (dec_value cur ds)) params"
  using assms
proof (induction ds arbitrary: cur)
  case Nil
  then show ?case by simp
next
  case (Cons d ds)
  then have d: "d < 10" by simp
  have "int (cur * 10 + d) \<le> int (dec_value (cur * 10 + d) ds)"
    using dec_value_mono [of "cur * 10 + d" ds] by linarith
  then have w: "wrap64 (int cur * 10 + int d) = int (cur * 10 + d)"
    using Cons.prems(2) by (simp add: wrap64_id)
  have "digit_byte d \<noteq> 0x3B" using digit_byte_bounds [OF d] by (auto simp: byte_arith)
  then have "parseParams_loop (map digit_byte (d # ds) @ raw) (int cur) params =
      parseParams_loop (map digit_byte ds @ raw) (int (cur * 10 + d)) params"
    using digit_byte_bounds [OF d] digit_byte_uint [OF d] w by simp
  then show ?case using Cons.IH [of "cur * 10 + d"] Cons.prems by simp
qed

lemma parseParams_csi:
  assumes "\<forall>n \<in> set ns. int n < 2 ^ 63" "ns \<noteq> []"
  shows "parseParams_loop (csi_params ns) 0 params = params @ map int ns"
  using assms
proof (induction ns arbitrary: params rule: csi_params.induct)
  case 1
  then show ?case by simp
next
  case (2 n)
  then show ?case using parseParams_digits [of "dec_digits n" 0 "[]"] dec_digits_less by simp
next
  case (3 n m ns)
  then show ?case
    using parseParams_digits [of "dec_digits n" 0 "0x3B # csi_params (m # ns)"] dec_digits_less
    by simp
qed

text \<open>Parameter bytes accumulate while the buffer has room.\<close>

lemma feedBytes_append:
  "feedBytes p (xs @ ys) = (case feedBytes p xs of None \<Rightarrow> None | Some (as, p') \<Rightarrow>
     (case feedBytes p' ys of None \<Rightarrow> None | Some (bs, p'') \<Rightarrow> Some (as @ bs, p'')))"
  by (induction xs arbitrary: p) (auto split: option.splits)

lemma feedByte_param:
  assumes "state p = stCSIParam" "param_byte b" "length (paramBuf p) < paramCap - 1"
  shows "feedByte p b = Some (actNone, stCSIParam, p\<lparr>paramBuf := paramBuf p @ [b]\<rparr>)"
  using assms by (auto simp: feedByte_def param_byte_def push_param_def byte_arith)

lemma feedBytes_params:
  assumes "state p = stCSIParam" "\<forall>b \<in> set bs. param_byte b"
    "length (paramBuf p) + length bs < paramCap"
  shows "feedBytes p bs =
    Some (replicate (length bs) actNone, p\<lparr>paramBuf := paramBuf p @ bs\<rparr>)"
  using assms
proof (induction bs arbitrary: p)
  case Nil
  then show ?case by simp
next
  case (Cons b bs)
  then have "feedByte p b = Some (actNone, stCSIParam, p\<lparr>paramBuf := paramBuf p @ [b]\<rparr>)"
    by (intro feedByte_param) auto
  then show ?case using Cons.IH [of "p\<lparr>paramBuf := paramBuf p @ [b]\<rparr>"] Cons.prems by simp
qed

text \<open>
  Round trip of control sequences. From any parser state, a CSI sequence written with decimal
  parameters (each below 2^63, at most 31 parameter bytes) is recognised as exactly that control
  sequence: only its final byte produces an action, which carries the same parameters, and the
  parser is back in its ground state.
\<close>
lemma csi_sequence_actions:
  assumes "ns \<noteq> []" "\<forall>n \<in> set ns. int n < 2 ^ 63" "length (csi_params ns) < paramCap"
    "0x40 \<le> final" "final \<le> 0x7E"
  shows "\<exists>p'. feedBytes p (csi_sequence ns final) =
      Some (replicate (length (csi_params ns) + 2) actNone @ [actCSI final [] (map int ns)], p') \<and>
    state p' = stGround \<and> oscBuf p' = oscBuf p"
proof -
  have "csi_params ns \<noteq> []" using assms(1) by (cases ns rule: csi_params.cases) auto
  then obtain b bs where params: "csi_params ns = b # bs" by (cases "csi_params ns") auto
  have pb: "\<forall>x \<in> set (b # bs). param_byte x" using csi_params_bytes params by metis
  let ?q = "(resetCSI (p\<lparr>inter := [], state := stEscape\<rparr>))\<lparr>state := stCSIEntry\<rparr>"
  let ?r = "?q\<lparr>paramBuf := [b], state := stCSIParam\<rparr>"
  have esc: "feedBytes p [0x1B, 0x5B] = Some ([actNone, actNone], ?q)"
    by (simp add: feedByte_def handleC0_def goto_state_def)
  have first: "feedByte ?q b = Some (actNone, stCSIParam, ?r)"
    using pb by (auto simp: feedByte_def parser_simps param_byte_def byte_arith)
  have more: "feedBytes ?r bs = Some (replicate (length bs) actNone, ?r\<lparr>paramBuf := b # bs\<rparr>)"
    using feedBytes_params [of ?r bs] pb assms(3) params by simp
  have "parseParams (b # bs) = map int ns"
    using parseParams_csi [of ns "[]"] assms params by (simp add: parseParams_def)
  then have fin: "feedByte (?r\<lparr>paramBuf := b # bs\<rparr>) final =
      Some (actCSI final [] (map int ns), stGround, (resetCSI ?r)\<lparr>state := stGround\<rparr>)"
    using assms(4,5) by (auto simp: feedByte_def buildCSI_def finish_def resetCSI_def byte_arith)
  have rest: "feedBytes ?q (b # bs @ [final]) = Some (replicate (Suc (length bs)) actNone @
      [actCSI final [] (map int ns)], (resetCSI ?r)\<lparr>state := stGround\<rparr>)"
    using first more fin by (simp add: feedBytes_append)
  have "csi_sequence ns final = [0x1B, 0x5B] @ b # bs @ [final]"
    by (simp add: csi_sequence_def params)
  then have "feedBytes p (csi_sequence ns final) = Some ([actNone, actNone] @
      replicate (Suc (length bs)) actNone @ [actCSI final [] (map int ns)],
      (resetCSI ?r)\<lparr>state := stGround\<rparr>)"
    by (simp only: feedBytes_append esc rest option.case prod.case)
  then show ?thesis by (simp add: params resetCSI_def)
qed

end
