(* ===== verification/Vt_Screen.thy ===== *)
theory Vt_Screen
  imports Vt_Parser
begin

unbundle bit_operations_syntax

text \<open>
  The mutable cell grid of \<^verbatim>\<open>vt/emulator.go\<close> (type \<open>screen\<close>) and the SGR pen of
  \<^verbatim>\<open>vt/sgr.go\<close>. The row slices of a grid never alias: the operations that move row slices
  replace every vacated position by a freshly allocated row, so a grid is a list of lists.
\<close>

record screen =
  scols :: int
  srows :: int
  cells :: "cell list list"
  cx :: int
  cy :: int
  fg :: int
  bg :: int
  attrs :: "16 word"
  scrollTop :: int
  scrollBottom :: int

definition blankRow :: "int \<Rightarrow> cell list" where
  "blankRow c = replicate (nat c) BlankCell"

definition allocGrid :: "int \<Rightarrow> int \<Rightarrow> cell list list" where
  "allocGrid c r = replicate (nat r) (blankRow c)"

definition newScreen :: "int \<Rightarrow> int \<Rightarrow> screen" where
  "newScreen c r = \<lparr>scols = c, srows = r, cells = allocGrid c r, cx = 0, cy = 0,
     fg = 0, bg = 0, attrs = 0, scrollTop = 1, scrollBottom = r\<rparr>"

text \<open>\<open>copy(newGrid[y][:copyCols], s.cells[y][:copyCols])\<close>\<close>

definition resize_row :: "screen \<Rightarrow> int \<Rightarrow> int \<Rightarrow> cell list list \<Rightarrow> cell list list option" where
  "resize_row s c y newGrid =
     (let copyCols = (if c > scols s then scols s else c) in
      do { dst \<leftarrow> slice_get newGrid y;
           src \<leftarrow> slice_get (cells s) y;
           src' \<leftarrow> slice_sub src 0 copyCols;
           row \<leftarrow> copy_into dst 0 copyCols src';
           slice_set newGrid y row })"

definition screen_resize :: "int \<Rightarrow> int \<Rightarrow> screen \<Rightarrow> screen option" where
  "screen_resize c r s =
     (let copyRows = (if r > srows s then srows s else r) in
      do { newGrid \<leftarrow> for_up 0 copyRows (resize_row s c) (allocGrid c r);
           Some (s\<lparr>scols := c, srows := r, cells := newGrid,
                   cx := (if cx s \<ge> c then c - 1 else cx s),
                   cy := (if cy s \<ge> r then r - 1 else cy s),
                   scrollTop := 1, scrollBottom := r\<rparr>) })"

definition effectiveScrollRegion :: "screen \<Rightarrow> int \<times> int" where
  "effectiveScrollRegion s =
     (let tp = scrollTop s - 1; bt = scrollBottom s - 1 in
      (if tp < 0 then 0 else tp, if bt \<ge> srows s then srows s - 1 else bt))"

definition penCell :: "screen \<Rightarrow> cell" where
  "penCell s = \<lparr>Rune = 32, FG = fg s, BG = bg s, Attrs = attrs s\<rparr>"

definition blankPenRow :: "screen \<Rightarrow> cell list" where
  "blankPenRow s = replicate (nat (scols s)) (penCell s)"

subsection \<open>SGR (sgr.go)\<close>

definition resetSGR :: "screen \<Rightarrow> screen" where
  "resetSGR s = s\<lparr>fg := ColorDefault, bg := ColorDefault, attrs := 0\<rparr>"

definition paletteIndex :: "int \<Rightarrow> int" where
  "paletteIndex idx = idx + 1"

definition clamp8 :: "int \<Rightarrow> int" where
  "clamp8 v = (if v < 0 then 0 else if v > 255 then 255 else v)"

definition parseExtendedColor :: "int list \<Rightarrow> nat \<Rightarrow> nat \<times> int" where
  "parseExtendedColor params start =
     (if start \<ge> length params then (0, ColorDefault)
      else if params ! start = 5 then
        (if start + 1 < length params then
           (let idx0 = params ! (start + 1);
                idx1 = (if idx0 < 0 then 0 else idx0);
                idx = (if idx1 > 255 then 255 else idx1)
            in (2, paletteIndex idx))
         else (1, ColorDefault))
      else if params ! start = 2 then
        (if start + 3 < length params then
           (let r = clamp8 (params ! (start + 1));
                g = clamp8 (params ! (start + 2));
                b = clamp8 (params ! (start + 3))
            in (4, ColorTruecolorFlag OR push_bit 16 r OR push_bit 8 g OR b))
         else (1, ColorDefault))
      else (1, ColorDefault))"

text \<open>One iteration of the loop of \<open>applySGR\<close>: the code at index \<open>i\<close>, the pen and the next index.\<close>

definition applySGR_step :: "int list \<Rightarrow> nat \<Rightarrow> screen \<Rightarrow> nat \<times> screen" where
  "applySGR_step params i s =
     (let code = params ! i; i' = i + 1 in
      if code = 0 then (i', resetSGR s)
      else if code = 1 then (i', s\<lparr>attrs := attrs s OR AttrBold\<rparr>)
      else if code = 2 then (i', s\<lparr>attrs := attrs s OR AttrFaint\<rparr>)
      else if code = 3 then (i', s\<lparr>attrs := attrs s OR AttrItalic\<rparr>)
      else if code = 4 then (i', s\<lparr>attrs := attrs s OR AttrUnderline\<rparr>)
      else if code = 5 \<or> code = 6 then (i', s\<lparr>attrs := attrs s OR AttrBlink\<rparr>)
      else if code = 7 then (i', s\<lparr>attrs := attrs s OR AttrInverse\<rparr>)
      else if code = 8 then (i', s\<lparr>attrs := attrs s OR AttrHidden\<rparr>)
      else if code = 9 then (i', s\<lparr>attrs := attrs s OR AttrStrike\<rparr>)
      else if code = 22 then (i', s\<lparr>attrs := attrs s AND NOT (AttrBold OR AttrFaint)\<rparr>)
      else if code = 23 then (i', s\<lparr>attrs := attrs s AND NOT AttrItalic\<rparr>)
      else if code = 24 then (i', s\<lparr>attrs := attrs s AND NOT AttrUnderline\<rparr>)
      else if code = 25 then (i', s\<lparr>attrs := attrs s AND NOT AttrBlink\<rparr>)
      else if code = 27 then (i', s\<lparr>attrs := attrs s AND NOT AttrInverse\<rparr>)
      else if code = 28 then (i', s\<lparr>attrs := attrs s AND NOT AttrHidden\<rparr>)
      else if code = 29 then (i', s\<lparr>attrs := attrs s AND NOT AttrStrike\<rparr>)
      else if code \<ge> 30 \<and> code \<le> 37 then (i', s\<lparr>fg := paletteIndex (code - 30)\<rparr>)
      else if code = 38 then
        (case parseExtendedColor params i' of (n, newFG) \<Rightarrow> (i' + n, s\<lparr>fg := newFG\<rparr>))
      else if code = 39 then (i', s\<lparr>fg := ColorDefault\<rparr>)
      else if code \<ge> 40 \<and> code \<le> 47 then (i', s\<lparr>bg := paletteIndex (code - 40)\<rparr>)
      else if code = 48 then
        (case parseExtendedColor params i' of (n, newBG) \<Rightarrow> (i' + n, s\<lparr>bg := newBG\<rparr>))
      else if code = 49 then (i', s\<lparr>bg := ColorDefault\<rparr>)
      else if code \<ge> 90 \<and> code \<le> 97 then (i', s\<lparr>fg := paletteIndex (code - 90 + 8)\<rparr>)
      else if code \<ge> 100 \<and> code \<le> 107 then (i', s\<lparr>bg := paletteIndex (code - 100 + 8)\<rparr>)
      else (i', s))"

lemma applySGR_step_index: "applySGR_step params i s = (j, s') \<Longrightarrow> i < j"
  by (auto simp: applySGR_step_def Let_def split: if_splits prod.splits)

function applySGR_loop :: "int list \<Rightarrow> nat \<Rightarrow> screen \<Rightarrow> screen" where
  "applySGR_loop params i s =
     (if i < length params
      then (case applySGR_step params i s of (j, s') \<Rightarrow> applySGR_loop params j s')
      else s)"
  by pat_completeness auto
termination
proof (relation "measure (\<lambda>(params, i, s). length params - i)")
  fix params i s j s'
  assume i: "i < length params" and "(j, s') = applySGR_step params i s"
  then have "applySGR_step params i s = (j, s')" by simp
  from i applySGR_step_index [OF this]
  show "((params, j, s'), params, i, s) \<in> measure (\<lambda>(params, i, s). length params - i)"
    by simp
qed simp

declare applySGR_loop.simps [simp del]

definition applySGR :: "screen \<Rightarrow> int list \<Rightarrow> screen" where
  "applySGR s params = (if params = [] then resetSGR s else applySGR_loop params 0 s)"

subsection \<open>Well-formed screens\<close>

text \<open>
  The shape every operation relies on: the grid has exactly \<open>rows\<close> rows of \<open>cols\<close> cells, the
  cursor is on a row of the grid and at most one column past its end (the pending-wrap
  position), and the scroll region is a non-empty range of rows.
\<close>

definition grid_shape :: "int \<Rightarrow> int \<Rightarrow> cell list list \<Rightarrow> bool" where
  "grid_shape c r g \<longleftrightarrow> length g = nat r \<and> (\<forall>row \<in> set g. length row = nat c)"

definition wf_screen :: "int \<Rightarrow> int \<Rightarrow> screen \<Rightarrow> bool" where
  "wf_screen c r s \<longleftrightarrow> scols s = c \<and> srows s = r \<and> grid_shape c r (cells s) \<and>
     0 \<le> cx s \<and> cx s \<le> c \<and> 0 \<le> cy s \<and> cy s < r \<and>
     1 \<le> scrollTop s \<and> scrollTop s \<le> scrollBottom s \<and> scrollBottom s \<le> r"

text \<open>Every cell and the pen hold a scalar value and colours of the documented encoding.\<close>

definition good_screen :: "screen \<Rightarrow> bool" where
  "good_screen s \<longleftrightarrow> (\<forall>row \<in> set (cells s). \<forall>c \<in> set row. valid_cell c) \<and>
     valid_color (fg s) \<and> valid_color (bg s)"

lemma grid_shape_length [simp]: "grid_shape c r g \<Longrightarrow> 0 \<le> r \<Longrightarrow> int (length g) = r"
  by (simp add: grid_shape_def)

lemma grid_shape_row: "grid_shape c r g \<Longrightarrow> 0 \<le> y \<Longrightarrow> y < r \<Longrightarrow> length (g ! nat y) = nat c"
  by (auto simp: grid_shape_def)

lemma grid_shape_update:
  "grid_shape c r g \<Longrightarrow> length row = nat c \<Longrightarrow> grid_shape c r (g[i := row])"
  by (auto simp: grid_shape_def dest: set_update_subset_insert [THEN subsetD])

lemma grid_shape_alloc [simp]: "grid_shape c r (allocGrid c r)"
  by (auto simp: grid_shape_def allocGrid_def blankRow_def)

lemma length_blankRow [simp]: "length (blankRow c) = nat c"
  by (simp add: blankRow_def)

lemma length_blankPenRow [simp]: "length (blankPenRow s) = nat (scols s)"
  by (simp add: blankPenRow_def)

lemma wf_newScreen: "1 \<le> c \<Longrightarrow> 1 \<le> r \<Longrightarrow> wf_screen c r (newScreen c r)"
  by (simp add: wf_screen_def newScreen_def)

lemma good_newScreen: "good_screen (newScreen c r)"
  by (auto simp: good_screen_def newScreen_def allocGrid_def blankRow_def valid_color_def
      ColorDefault_def)

lemma valid_cell_pen: "good_screen s \<Longrightarrow> valid_cell (penCell s)"
  by (simp add: good_screen_def valid_cell_def penCell_def valid_rune_def)

lemma effectiveScrollRegion_wf:
  "wf_screen c r s \<Longrightarrow> effectiveScrollRegion s = (scrollTop s - 1, scrollBottom s - 1)"
  by (simp add: effectiveScrollRegion_def wf_screen_def)

end
