(* ===== verification/Vt_Emulator.thy ===== *)
theory Vt_Emulator
  imports Vt_Screen
begin

text \<open>
  The terminal emulator of \<^verbatim>\<open>internal/agent/adapter/secondary/vt/emulator.go\<close>, method by
  method. Each method is called with the emulator's mutex held, so it is one atomic state
  transformer \<open>emulator \<Rightarrow> emulator option\<close>; \<open>None\<close> is a Go run-time panic (an index out of
  range), which in the agent terminates the process.

  \<^item> The pointer \<open>e.cur\<close> is the reference \<open>cur\<close> to one of the two buffers.
  \<^item> \<open>utf8Buf\<close>/\<open>utf8Len\<close> is the list of the buffered bytes (array size 4).
  \<^item> Arithmetic on sequence parameters, which are arbitrary 64-bit values, wraps explicitly.
    Increments of the cursor and of row and column counters do not: they are bounded by the
    grid's dimensions, hence by allocated memory.
\<close>

datatype bufref = RefPrimary | RefAlt

record cursorState =
  cs_x :: int
  cs_y :: int
  cs_fg :: int
  cs_bg :: int
  cs_attrs :: "16 word"

record emulator =
  cols :: int
  rows :: int
  primary :: screen
  alt :: screen
  useAlt :: bool
  cur :: bufref
  ps :: parser
  cursorVisible :: bool
  savedCursor :: cursorState
  savedCursorAlt :: cursorState
  revision :: "64 word"
  dirty :: bool
  promptState :: PromptState
  utf8Buf :: "byte list"

definition zeroCursorState :: cursorState where
  "zeroCursorState = \<lparr>cs_x = 0, cs_y = 0, cs_fg = 0, cs_bg = 0, cs_attrs = 0\<rparr>"

definition NewEmulator :: "int \<Rightarrow> int \<Rightarrow> emulator" where
  "NewEmulator c0 r0 =
     (let c = (if c0 < 1 then 1 else c0); r = (if r0 < 1 then 1 else r0) in
      \<lparr>cols = c, rows = r, primary = newScreen c r, alt = newScreen c r, useAlt = False,
       cur = RefPrimary, ps = parser_init zeroParser, cursorVisible = True,
       savedCursor = zeroCursorState, savedCursorAlt = zeroCursorState, revision = 0, dirty = False,
       promptState = PromptUnknown, utf8Buf = []\<rparr>)"

text \<open>Reading and writing through \<open>e.cur\<close>.\<close>

definition curScreen :: "emulator \<Rightarrow> screen" where
  "curScreen e = (case cur e of RefPrimary \<Rightarrow> primary e | RefAlt \<Rightarrow> alt e)"

definition setCur :: "emulator \<Rightarrow> screen \<Rightarrow> emulator" where
  "setCur e s = (case cur e of RefPrimary \<Rightarrow> e\<lparr>primary := s\<rparr> | RefAlt \<Rightarrow> e\<lparr>alt := s\<rparr>)"

definition mark :: "emulator \<Rightarrow> emulator" where
  "mark e = e\<lparr>dirty := True\<rparr>"

subsection \<open>Scrolling and line feed\<close>

definition scrollUp :: "emulator \<Rightarrow> int \<Rightarrow> int \<Rightarrow> int \<Rightarrow> emulator option" where
  "scrollUp e tp bt n0 =
     (let s = curScreen e in
      if n0 \<le> 0 then Some e
      else let n = (if n0 > bt - tp + 1 then bt - tp + 1 else n0) in
        do { src \<leftarrow> slice_sub (cells s) (tp + n) (bt + 1);
             g \<leftarrow> copy_into (cells s) tp (bt + 1) src;
             g' \<leftarrow> for_up (bt - n + 1) (bt + 1) (\<lambda>y h. slice_set h y (blankRow (scols s))) g;
             Some (setCur e (s\<lparr>cells := g'\<rparr>)) })"

definition scrollDown :: "emulator \<Rightarrow> int \<Rightarrow> int \<Rightarrow> int \<Rightarrow> emulator option" where
  "scrollDown e tp bt n0 =
     (let s = curScreen e in
      if n0 \<le> 0 then Some e
      else let n = (if n0 > bt - tp + 1 then bt - tp + 1 else n0) in
        do { g \<leftarrow> for_down bt (tp + n)
                   (\<lambda>y h. do { row \<leftarrow> slice_get h (y - n); slice_set h y row }) (cells s);
             g' \<leftarrow> for_up tp (tp + n) (\<lambda>y h. slice_set h y (blankRow (scols s))) g;
             Some (setCur e (s\<lparr>cells := g'\<rparr>)) })"

definition lineFeed :: "emulator \<Rightarrow> emulator option" where
  "lineFeed e =
     (let s = curScreen e; (tp, bt) = effectiveScrollRegion s in
      do { e' \<leftarrow> (if cy s < bt then Some (setCur e (s\<lparr>cy := cy s + 1\<rparr>))
                  else if cy s = bt then scrollUp e tp bt 1
                  else Some e);
           Some (mark e') })"

subsection \<open>Printing and C0 controls\<close>

definition printRune :: "emulator \<Rightarrow> rune \<Rightarrow> emulator option" where
  "printRune e r =
     (let s = curScreen e in
      do { e' \<leftarrow> (if cx s \<ge> scols s then lineFeed (setCur e (s\<lparr>cx := 0\<rparr>)) else Some e);
           let s' = curScreen e';
           let c = \<lparr>Rune = r, FG = fg s', BG = bg s', Attrs = attrs s'\<rparr>;
           g \<leftarrow> grid_set (cells s') (cy s') (cx s') c;
           Some (mark (setCur e' (s'\<lparr>cells := g, cx := cx s' + 1\<rparr>))) })"

definition executeC0 :: "emulator \<Rightarrow> byte \<Rightarrow> emulator option" where
  "executeC0 e b =
     (let s = curScreen e in
      if b = 0x0D then Some (mark (setCur e (s\<lparr>cx := 0\<rparr>)))
      else if b = 0x0A \<or> b = 0x0B \<or> b = 0x0C then lineFeed e
      else if b = 0x09 then
        (let next0 = (go_div (cx s) 8 + 1) * 8;
             next = (if next0 \<ge> scols s then scols s - 1 else next0)
         in Some (mark (setCur e (s\<lparr>cx := next\<rparr>))))
      else if b = 0x08 then
        (if cx s > 0 then Some (mark (setCur e (s\<lparr>cx := cx s - 1\<rparr>))) else Some e)
      else Some e)"

subsection \<open>Saved cursor, reset\<close>

definition saveCursor :: "emulator \<Rightarrow> emulator" where
  "saveCursor e =
     (let s = curScreen e;
          cs = \<lparr>cs_x = cx s, cs_y = cy s, cs_fg = fg s, cs_bg = bg s, cs_attrs = attrs s\<rparr>
      in if useAlt e then e\<lparr>savedCursorAlt := cs\<rparr> else e\<lparr>savedCursor := cs\<rparr>)"

definition clampCursor :: "emulator \<Rightarrow> emulator" where
  "clampCursor e =
     (let s = curScreen e;
          x1 = (if cx s \<ge> scols s then scols s - 1 else cx s);
          y1 = (if cy s \<ge> srows s then srows s - 1 else cy s);
          x2 = (if x1 < 0 then 0 else x1);
          y2 = (if y1 < 0 then 0 else y1)
      in setCur e (s\<lparr>cx := x2, cy := y2\<rparr>))"

definition restoreCursor :: "emulator \<Rightarrow> emulator" where
  "restoreCursor e =
     (let s = curScreen e;
          cs = (if useAlt e then savedCursorAlt e else savedCursor e);
          e' = setCur e (s\<lparr>cx := cs_x cs, cy := cs_y cs, fg := cs_fg cs, bg := cs_bg cs,
                 attrs := cs_attrs cs\<rparr>)
      in mark (clampCursor e'))"

definition hardReset :: "emulator \<Rightarrow> emulator" where
  "hardReset e =
     mark (e\<lparr>primary := newScreen (cols e) (rows e), alt := newScreen (cols e) (rows e),
             cur := (if useAlt e then RefAlt else RefPrimary), cursorVisible := True,
             promptState := PromptUnknown\<rparr>)"

definition dispatchESC :: "emulator \<Rightarrow> byte \<Rightarrow> byte list \<Rightarrow> emulator option" where
  "dispatchESC e final intermediate =
     (if intermediate = [] then
        (if final = 0x37 then Some (saveCursor e)
         else if final = 0x38 then Some (restoreCursor e)
         else if final = 0x4D then
           (let s = curScreen e; (tp, bt) = effectiveScrollRegion s in
            do { e' \<leftarrow> (if cy s > tp then Some (setCur e (s\<lparr>cy := cy s - 1\<rparr>))
                        else scrollDown e tp bt 1);
                 Some (mark e') })
         else if final = 0x63 then Some (hardReset e)
         else Some e)
      else Some e)"

subsection \<open>OSC, prompt state, tail text\<close>

definition handleOSC :: "emulator \<Rightarrow> byte list \<Rightarrow> emulator" where
  "handleOSC e payload =
     (if take 4 payload \<noteq> [0x31, 0x33, 0x33, 0x3B] then e
      else case drop 4 payload of
        [] \<Rightarrow> e
      | c # _ \<Rightarrow>
          if c = 0x41 \<or> c = 0x42 \<or> c = 0x44 then e\<lparr>promptState := PromptAtPrompt\<rparr>
          else if c = 0x43 then e\<lparr>promptState := PromptRunning\<rparr>
          else e)"

definition rowText :: "cell list \<Rightarrow> rune list" where
  "rowText row =
     TrimRightFunc (\<lambda>r. r = 32) (map (\<lambda>c. rune_out (if Rune c = 0 then 32 else Rune c)) row)"

text \<open>The loop over the rows above the cursor row: \<open>n\<close> rows are left.\<close>

fun tail_above :: "cell list list \<Rightarrow> nat \<Rightarrow> rune list" where
  "tail_above g 0 = []"
| "tail_above g (Suc n) = (let t = rowText (g ! n) in if t \<noteq> [] then t else tail_above g n)"

definition TailText :: "emulator \<Rightarrow> rune list option" where
  "TailText e =
     (let s = curScreen e;
          cursorRow = (if cy s < 0 \<or> cy s \<ge> srows s then srows s - 1 else cy s)
      in do { row \<leftarrow> slice_get (cells s) cursorRow;
              let t = rowText row;
              if t \<noteq> [] then Some t else Some (tail_above (cells s) (nat cursorRow)) })"

subsection \<open>Erasing, inserting and deleting\<close>

definition eraseInDisplay :: "emulator \<Rightarrow> int \<Rightarrow> emulator option" where
  "eraseInDisplay e mode =
     (let s = curScreen e; pen = penCell s; prow = blankPenRow s in
      do { g \<leftarrow> (if mode = 0 then
                   do { g1 \<leftarrow> for_up (cx s) (scols s) (\<lambda>x h. grid_set h (cy s) x pen) (cells s);
                        for_up (cy s + 1) (srows s) (\<lambda>y h. slice_set h y prow) g1 }
                 else if mode = 1 then
                   do { g1 \<leftarrow> for_up 0 (cy s) (\<lambda>y h. slice_set h y prow) (cells s);
                        for_up 0 (cx s + 1) (\<lambda>x h. grid_set h (cy s) x pen) g1 }
                 else if mode = 2 \<or> mode = 3 then
                   for_up 0 (srows s) (\<lambda>y h. slice_set h y prow) (cells s)
                 else Some (cells s));
           Some (mark (setCur e (s\<lparr>cells := g\<rparr>))) })"

definition eraseInLine :: "emulator \<Rightarrow> int \<Rightarrow> emulator option" where
  "eraseInLine e mode =
     (let s = curScreen e; pen = penCell s in
      do { g \<leftarrow> (if mode = 0 then
                   for_up (cx s) (scols s) (\<lambda>x h. grid_set h (cy s) x pen) (cells s)
                 else if mode = 1 then
                   for_up 0 (cx s + 1) (\<lambda>x h. grid_set h (cy s) x pen) (cells s)
                 else if mode = 2 then
                   for_up 0 (scols s) (\<lambda>x h. grid_set h (cy s) x pen) (cells s)
                 else Some (cells s));
           Some (mark (setCur e (s\<lparr>cells := g\<rparr>))) })"

text \<open>The loop condition \<open>i < n && s.cx+i < s.cols\<close> is monotone: it bounds \<open>i\<close> by the minimum.\<close>

definition eraseChars :: "emulator \<Rightarrow> int \<Rightarrow> emulator option" where
  "eraseChars e n =
     (let s = curScreen e; pen = penCell s in
      do { g \<leftarrow> for_up 0 (min n (scols s - cx s)) (\<lambda>i h. grid_set h (cy s) (cx s + i) pen) (cells s);
           Some (mark (setCur e (s\<lparr>cells := g\<rparr>))) })"

definition insertChars :: "emulator \<Rightarrow> int \<Rightarrow> emulator option" where
  "insertChars e n0 =
     (let s = curScreen e;
          max = scols s - cx s;
          n1 = (if n0 < 1 then 1 else n0);
          n = (if n1 > max then max else n1);
          pen = penCell s
      in if max \<le> 0 then Some e
         else do { row \<leftarrow> slice_get (cells s) (cy s);
                   src \<leftarrow> slice_sub row (cx s) (int (length row));
                   row1 \<leftarrow> copy_into row (cx s + n) (int (length row)) src;
                   row2 \<leftarrow> for_up 0 n (\<lambda>i r. slice_set r (cx s + i) pen) row1;
                   g \<leftarrow> slice_set (cells s) (cy s) row2;
                   Some (mark (setCur e (s\<lparr>cells := g\<rparr>))) })"

definition deleteChars :: "emulator \<Rightarrow> int \<Rightarrow> emulator option" where
  "deleteChars e n0 =
     (let s = curScreen e;
          max = scols s - cx s;
          n1 = (if n0 < 1 then 1 else n0);
          n = (if n1 > max then max else n1);
          pen = penCell s
      in if max \<le> 0 then Some e
         else do { row \<leftarrow> slice_get (cells s) (cy s);
                   src \<leftarrow> slice_sub row (cx s + n) (int (length row));
                   row1 \<leftarrow> copy_into row (cx s) (int (length row)) src;
                   row2 \<leftarrow> for_up (scols s - n) (scols s) (\<lambda>i r. slice_set r i pen) row1;
                   g \<leftarrow> slice_set (cells s) (cy s) row2;
                   Some (mark (setCur e (s\<lparr>cells := g\<rparr>))) })"

subsection \<open>DEC private modes\<close>

definition switchAltScreen :: "emulator \<Rightarrow> bool \<Rightarrow> emulator" where
  "switchAltScreen e use =
     (if useAlt e = use then e
      else mark (e\<lparr>useAlt := use, cur := (if use then RefAlt else RefPrimary)\<rparr>))"

definition setDecMode :: "int \<Rightarrow> bool \<Rightarrow> emulator \<Rightarrow> emulator option" where
  "setDecMode mode st e =
     (if mode = 25 then Some (mark (e\<lparr>cursorVisible := st\<rparr>))
      else if mode = 47 \<or> mode = 1047 then Some (switchAltScreen e st)
      else if mode = 1049 then
        (if st then eraseInDisplay (switchAltScreen (saveCursor e) True) 2
         else Some (restoreCursor (switchAltScreen e False)))
      else Some e)"

subsection \<open>CSI dispatch\<close>

definition csi_p :: "int list \<Rightarrow> nat \<Rightarrow> int \<Rightarrow> int" where
  "csi_p params idx def = (if idx < length params \<and> params ! idx \<noteq> 0 then params ! idx else def)"

definition csi_p0 :: "int list \<Rightarrow> nat \<Rightarrow> int" where
  "csi_p0 params idx = (if idx < length params then params ! idx else 0)"

text \<open>The cursor movements, each with its clamp on one side only, as written.\<close>

definition cursorUp :: "int \<Rightarrow> screen \<Rightarrow> screen" where
  "cursorUp n s = (let y = wrap64 (cy s - n) in s\<lparr>cy := (if y < 0 then 0 else y)\<rparr>)"

definition cursorDown :: "int \<Rightarrow> screen \<Rightarrow> screen" where
  "cursorDown n s = (let y = wrap64 (cy s + n) in s\<lparr>cy := (if y \<ge> srows s then srows s - 1 else y)\<rparr>)"

definition cursorForward :: "int \<Rightarrow> screen \<Rightarrow> screen" where
  "cursorForward n s = (let x = wrap64 (cx s + n) in s\<lparr>cx := (if x \<ge> scols s then scols s - 1 else x)\<rparr>)"

definition cursorBack :: "int \<Rightarrow> screen \<Rightarrow> screen" where
  "cursorBack n s = (let x = wrap64 (cx s - n) in s\<lparr>cx := (if x < 0 then 0 else x)\<rparr>)"

text \<open>\<open>v := p(i, 1) - 1\<close> clamped to \<open>[0, limit - 1]\<close>.\<close>

definition absolutePos :: "int \<Rightarrow> int \<Rightarrow> int" where
  "absolutePos v limit =
     (let v0 = wrap64 (v - 1); v1 = (if v0 < 0 then 0 else v0)
      in if v1 \<ge> limit then limit - 1 else v1)"

definition setScrollRegion :: "int list \<Rightarrow> emulator \<Rightarrow> emulator" where
  "setScrollRegion params e =
     (let s = curScreen e;
          tp0 = csi_p params 0 1;
          bt0 = csi_p params 1 (srows s);
          tp = (if tp0 < 1 then 1 else tp0);
          bt = (if bt0 > srows s then srows s else bt0)
      in if tp < bt
         then mark (setCur e (s\<lparr>scrollTop := tp, scrollBottom := bt, cx := 0, cy := 0\<rparr>))
         else e)"

definition insertLines :: "int \<Rightarrow> emulator \<Rightarrow> emulator option" where
  "insertLines n e =
     (let s = curScreen e; (tp, bt) = effectiveScrollRegion s in
      do { e' \<leftarrow> (if cy s \<ge> tp \<and> cy s \<le> bt then scrollDown e (cy s) bt n else Some e);
           Some (mark e') })"

definition deleteLines :: "int \<Rightarrow> emulator \<Rightarrow> emulator option" where
  "deleteLines n e =
     (let s = curScreen e; (tp, bt) = effectiveScrollRegion s in
      do { e' \<leftarrow> (if cy s \<ge> tp \<and> cy s \<le> bt then scrollUp e (cy s) bt n else Some e);
           Some (mark e') })"

definition scrollRegionUp :: "int \<Rightarrow> emulator \<Rightarrow> emulator option" where
  "scrollRegionUp n e =
     (let (tp, bt) = effectiveScrollRegion (curScreen e) in
      do { e' \<leftarrow> scrollUp e tp bt n; Some (mark e') })"

definition scrollRegionDown :: "int \<Rightarrow> emulator \<Rightarrow> emulator option" where
  "scrollRegionDown n e =
     (let (tp, bt) = effectiveScrollRegion (curScreen e) in
      do { e' \<leftarrow> scrollDown e tp bt n; Some (mark e') })"

definition dispatchCSI :: "emulator \<Rightarrow> byte \<Rightarrow> int list \<Rightarrow> byte list \<Rightarrow> emulator option" where
  "dispatchCSI e final params intermediate =
     (let s = curScreen e; n = csi_p params 0 1 in
      if intermediate = [] then
        (if final = 0x41 then Some (mark (setCur e (cursorUp n s)))
         else if final = 0x42 then Some (mark (setCur e (cursorDown n s)))
         else if final = 0x43 then Some (mark (setCur e (cursorForward n s)))
         else if final = 0x44 then Some (mark (setCur e (cursorBack n s)))
         else if final = 0x45 then Some (mark (setCur e ((cursorDown n s)\<lparr>cx := 0\<rparr>)))
         else if final = 0x46 then Some (mark (setCur e ((cursorUp n s)\<lparr>cx := 0\<rparr>)))
         else if final = 0x47 then Some (mark (setCur e (s\<lparr>cx := absolutePos n (scols s)\<rparr>)))
         else if final = 0x48 \<or> final = 0x66 then
           Some (mark (setCur e (s\<lparr>cy := absolutePos n (srows s),
                                   cx := absolutePos (csi_p params 1 1) (scols s)\<rparr>)))
         else if final = 0x4A then eraseInDisplay e (csi_p0 params 0)
         else if final = 0x4B then eraseInLine e (csi_p0 params 0)
         else if final = 0x4C then insertLines n e
         else if final = 0x4D then deleteLines n e
         else if final = 0x50 then deleteChars e n
         else if final = 0x53 then scrollRegionUp n e
         else if final = 0x54 then scrollRegionDown n e
         else if final = 0x58 then eraseChars e n
         else if final = 0x64 then Some (mark (setCur e (s\<lparr>cy := absolutePos n (srows s)\<rparr>)))
         else if final = 0x6D then Some (setCur e (applySGR s params))
         else if final = 0x72 then Some (setScrollRegion params e)
         else if final = 0x73 then Some (saveCursor e)
         else if final = 0x75 then Some (restoreCursor e)
         else if final = 0x40 then insertChars e n
         else Some e)
      else if intermediate = [0x3F] then
        (if final = 0x68 then foldM (\<lambda>pm. setDecMode pm True) params e
         else if final = 0x6C then foldM (\<lambda>pm. setDecMode pm False) params e
         else Some e)
      else Some e)"

definition dispatch :: "emulator \<Rightarrow> action \<Rightarrow> emulator option" where
  "dispatch e a =
     (case a of
        actNone \<Rightarrow> Some e
      | actPrint ch \<Rightarrow> printRune e (uint ch)
      | actExecute ch \<Rightarrow> executeC0 e ch
      | actCSI final intermediate params \<Rightarrow> dispatchCSI e final params intermediate
      | actESC final intermediate \<Rightarrow> dispatchESC e final intermediate
      | actOSC payload \<Rightarrow> Some (handleOSC e payload)
      | actDCS \<Rightarrow> Some e)"

subsection \<open>Feeding bytes\<close>

definition utf8RuneLen :: "byte \<Rightarrow> nat" where
  "utf8RuneLen b =
     (if b AND 0x80 = 0 then 1
      else if b AND 0xE0 = 0xC0 then 2
      else if b AND 0xF0 = 0xE0 then 3
      else if b AND 0xF8 = 0xF0 then 4
      else 1)"

fun feedUTF8 :: "emulator \<Rightarrow> byte list \<Rightarrow> (emulator \<times> byte list) option" where
  "feedUTF8 e [] = Some (e, [])"
| "feedUTF8 e (b # p) =
     (if b < 0x80 then Some (e\<lparr>utf8Buf := []\<rparr>, b # p)
      else let buf = (if length (utf8Buf e) < 4 then utf8Buf e @ [b] else utf8Buf e);
               (r, sz) = DecodeRune buf
           in if r = RuneError \<and> sz = 1
              then (if length buf \<ge> utf8RuneLen (hd buf) then Some (e\<lparr>utf8Buf := []\<rparr>, p)
                    else feedUTF8 (e\<lparr>utf8Buf := buf\<rparr>) p)
              else (case printRune (e\<lparr>utf8Buf := buf\<rparr>) r of
                      None \<Rightarrow> None
                    | Some e' \<Rightarrow> Some (e'\<lparr>utf8Buf := []\<rparr>, p)))"

lemma feedUTF8_length: "feedUTF8 e p = Some (e', q) \<Longrightarrow> length q \<le> length p"
  by (induction e p rule: feedUTF8.induct)
    (fastforce simp: Let_def split: if_splits prod.splits option.splits)+

lemma feedUTF8_shorter:
  "feedUTF8 e (b # p) = Some (e', q) \<Longrightarrow> \<not> b < 0x80 \<Longrightarrow> length q < length (b # p)"
  by (auto simp: Let_def less_Suc_eq_le dest!: feedUTF8_length
      split: if_splits prod.splits option.splits)

function writeUnlocked :: "emulator \<Rightarrow> byte list \<Rightarrow> emulator option" where
  "writeUnlocked e [] = Some e"
| "writeUnlocked e (b # p) =
     (if b < 0x80 then
        (let e0 = (if utf8Buf e \<noteq> [] then e\<lparr>utf8Buf := []\<rparr> else e) in
         case feedByte (ps e0) b of
           None \<Rightarrow> None
         | Some (a, _, ps') \<Rightarrow>
             (case dispatch (e0\<lparr>ps := ps'\<rparr>) a of None \<Rightarrow> None | Some e' \<Rightarrow> writeUnlocked e' p))
      else case feedUTF8 e (b # p) of
        None \<Rightarrow> None
      | Some (e', q) \<Rightarrow> writeUnlocked e' q)"
  by pat_completeness auto
termination
proof (relation "measure (\<lambda>(e, p). length p)")
  fix e b p x e' q
  assume b: "\<not> b < (0x80 :: byte)" and x: "feedUTF8 e (b # p) = Some x" "(e', q) = x"
  from x have "feedUTF8 e (b # p) = Some (e', q)" by (simp only:)
  from feedUTF8_shorter [OF this b]
  show "((e', q), e, b # p) \<in> measure (\<lambda>(e, p). length p)" by simp
qed simp_all

declare feedUTF8.simps [simp del] writeUnlocked.simps(2) [simp del]

text \<open>The exported methods, each under the mutex.\<close>

definition Write :: "emulator \<Rightarrow> byte list \<Rightarrow> emulator option" where
  "Write e p = writeUnlocked e p"

definition Resize :: "emulator \<Rightarrow> int \<Rightarrow> int \<Rightarrow> emulator option" where
  "Resize e c0 r0 =
     (let c = (if c0 < 1 then 1 else c0); r = (if r0 < 1 then 1 else r0) in
      if c = cols e \<and> r = rows e then Some e
      else do { p \<leftarrow> screen_resize c r (primary e);
                a \<leftarrow> screen_resize c r (alt e);
                Some (mark (e\<lparr>cols := c, rows := r, primary := p, alt := a\<rparr>)) })"

definition Rev :: "emulator \<Rightarrow> 64 word" where
  "Rev e = (if dirty e then revision e + 1 else revision e)"

definition render_rows :: "emulator \<Rightarrow> cell list list option" where
  "render_rows e =
     (let s = curScreen e in
      for_up 0 (rows e)
        (\<lambda>y out. do { row \<leftarrow> slice_get (cells s) y;
                      slice_set out y (go_copy (replicate (nat (cols e)) zeroCell) row) })
        (replicate (nat (rows e)) []))"

definition Render :: "emulator \<Rightarrow> ((Screen \<times> 64 word) \<times> emulator) option" where
  "Render e =
     (let e' = (if dirty e then e\<lparr>revision := revision e + 1, dirty := False\<rparr> else e); s = curScreen e' in
      do { out \<leftarrow> render_rows e';
           Some ((\<lparr>Cols = cols e', Rows = rows e',
                   Cursor = \<lparr>curX = cx s, curY = cy s, curVisible = cursorVisible e'\<rparr>,
                   Cells = out\<rparr>, revision e'), e') })"

definition GetPromptState :: "emulator \<Rightarrow> PromptState" where
  "GetPromptState e = promptState e"

end
