(* ===== verification/Vt_Grid.thy ===== *)
theory Vt_Grid
  imports Vt_Emulator
begin

text \<open>
  What the emulator's grid operations compute, in closed form: scrolling a region, filling part
  of a row or a block of rows, shifting cells within a row, resizing. Each lemma says that on a
  well-formed screen the operation does not panic and gives the grid described position by
  position; the invariant and functional theorems rest on these.
\<close>

definition ok_screen :: "int \<Rightarrow> int \<Rightarrow> screen \<Rightarrow> bool" where
  "ok_screen c r s \<longleftrightarrow> wf_screen c r s \<and> good_screen s"

definition ok_cursorState :: "cursorState \<Rightarrow> bool" where
  "ok_cursorState cs \<longleftrightarrow> valid_color (cs_fg cs) \<and> valid_color (cs_bg cs)"

text \<open>
  The largest screen dimension considered: far above what a terminal or the memory of the host
  allows (a grid that size does not fit the address space), and small enough that a bounded
  sequence parameter added to a coordinate stays a 64-bit value.
\<close>

definition maxDim :: int where
  "maxDim = 2 ^ 31"

definition wf_emulator :: "emulator \<Rightarrow> bool" where
  "wf_emulator e \<longleftrightarrow> 1 \<le> cols e \<and> cols e \<le> maxDim \<and> 1 \<le> rows e \<and> rows e \<le> maxDim \<and>
     ok_screen (cols e) (rows e) (primary e) \<and> ok_screen (cols e) (rows e) (alt e) \<and>
     cur e = (if useAlt e then RefAlt else RefPrimary) \<and> wf_parser (ps e) \<and>
     length (utf8Buf e) < 4 \<and> ok_cursorState (savedCursor e) \<and> ok_cursorState (savedCursorAlt e)"

lemma setCur_fields [simp]:
  "cols (setCur e s) = cols e" "rows (setCur e s) = rows e" "useAlt (setCur e s) = useAlt e"
  "cur (setCur e s) = cur e" "ps (setCur e s) = ps e"
  "cursorVisible (setCur e s) = cursorVisible e" "savedCursor (setCur e s) = savedCursor e"
  "savedCursorAlt (setCur e s) = savedCursorAlt e" "revision (setCur e s) = revision e"
  "dirty (setCur e s) = dirty e" "promptState (setCur e s) = promptState e"
  "utf8Buf (setCur e s) = utf8Buf e" "curScreen (setCur e s) = s"
  by (cases "cur e"; simp add: setCur_def curScreen_def)+

lemma mark_fields [simp]:
  "cols (mark e) = cols e" "rows (mark e) = rows e" "useAlt (mark e) = useAlt e"
  "cur (mark e) = cur e" "ps (mark e) = ps e" "primary (mark e) = primary e" "alt (mark e) = alt e"
  "cursorVisible (mark e) = cursorVisible e" "savedCursor (mark e) = savedCursor e"
  "savedCursorAlt (mark e) = savedCursorAlt e" "revision (mark e) = revision e"
  "dirty (mark e) = True" "promptState (mark e) = promptState e"
  "utf8Buf (mark e) = utf8Buf e" "curScreen (mark e) = curScreen e"
  by (simp_all add: mark_def curScreen_def split: bufref.split)

lemma curScreen_upd [simp]:
  "curScreen (e\<lparr>ps := p\<rparr>) = curScreen e" "curScreen (e\<lparr>utf8Buf := u\<rparr>) = curScreen e"
  "curScreen (e\<lparr>savedCursor := c\<rparr>) = curScreen e"
  "curScreen (e\<lparr>savedCursorAlt := c\<rparr>) = curScreen e"
  "curScreen (e\<lparr>revision := v\<rparr>) = curScreen e" "curScreen (e\<lparr>dirty := d\<rparr>) = curScreen e"
  "curScreen (e\<lparr>promptState := q\<rparr>) = curScreen e"
  "curScreen (e\<lparr>cursorVisible := w\<rparr>) = curScreen e"
  by (simp_all add: curScreen_def split: bufref.split)

lemma setCur_setCur [simp]: "setCur (setCur e s) t = setCur e t"
  by (cases "cur e") (simp_all add: setCur_def)

lemma setCur_same [simp]: "setCur e (curScreen e) = e"
  by (cases "cur e") (simp_all add: setCur_def curScreen_def)

lemma wf_curScreen: "wf_emulator e \<Longrightarrow> ok_screen (cols e) (rows e) (curScreen e)"
  by (simp add: wf_emulator_def curScreen_def)

lemma wf_setCur:
  "wf_emulator e \<Longrightarrow> ok_screen (cols e) (rows e) s \<Longrightarrow> wf_emulator (setCur e s)"
  by (cases "cur e") (auto simp: wf_emulator_def setCur_def)

lemma wf_mark [simp]: "wf_emulator (mark e) = wf_emulator e"
  by (simp add: wf_emulator_def mark_def)

lemma wf_upd [simp]:
  "wf_emulator e \<Longrightarrow> wf_emulator (e\<lparr>utf8Buf := []\<rparr>)"
  "wf_emulator e \<Longrightarrow> wf_parser p \<Longrightarrow> wf_emulator (e\<lparr>ps := p\<rparr>)"
  "wf_emulator e \<Longrightarrow> wf_emulator (e\<lparr>promptState := q\<rparr>)"
  "wf_emulator e \<Longrightarrow> wf_emulator (e\<lparr>cursorVisible := w\<rparr>)"
  "wf_emulator e \<Longrightarrow> wf_emulator (e\<lparr>revision := v, dirty := d\<rparr>)"
  by (simp_all add: wf_emulator_def)

text \<open>The dimensions and bounds of a well-formed screen, as the shape goals need them.\<close>

lemma ok_screenD:
  assumes "ok_screen c r s"
  shows "scols s = c" "srows s = r" "grid_shape c r (cells s)" "0 \<le> cx s" "cx s \<le> c"
    "0 \<le> cy s" "cy s < r" "1 \<le> scrollTop s" "scrollTop s \<le> scrollBottom s" "scrollBottom s \<le> r"
    "wf_screen c r s" "good_screen s"
  using assms by (auto simp: ok_screen_def wf_screen_def)

text \<open>Replacing the cells by a grid of the same shape with valid cells.\<close>

definition good_grid :: "cell list list \<Rightarrow> bool" where
  "good_grid g \<longleftrightarrow> (\<forall>row \<in> set g. \<forall>c \<in> set row. valid_cell c)"

lemma ok_screen_cells:
  assumes "ok_screen c r s" "grid_shape c r g" "good_grid g"
  shows "ok_screen c r (s\<lparr>cells := g\<rparr>)"
  using assms by (auto simp: ok_screen_def wf_screen_def good_screen_def good_grid_def)

lemma ok_screen_cursor:
  assumes "ok_screen c r s" "0 \<le> x" "x \<le> c" "0 \<le> y" "y < r"
  shows "ok_screen c r (s\<lparr>cx := x, cy := y\<rparr>)" "ok_screen c r (s\<lparr>cx := x\<rparr>)"
    "ok_screen c r (s\<lparr>cy := y\<rparr>)" "ok_screen c r (s\<lparr>cy := y, cx := x\<rparr>)"
  using assms by (auto simp: ok_screen_def wf_screen_def good_screen_def)

lemma good_grid_cells: "ok_screen c r s \<Longrightarrow> good_grid (cells s)"
  by (simp add: ok_screen_def good_screen_def good_grid_def)

lemma good_grid_rows: "good_grid g \<Longrightarrow> y < length g \<Longrightarrow> \<forall>c \<in> set (g ! y). valid_cell c"
  by (auto simp: good_grid_def)

lemma good_gridI: "(\<And>y. y < length g \<Longrightarrow> \<forall>c \<in> set (g ! y). valid_cell c) \<Longrightarrow> good_grid g"
  unfolding good_grid_def by (metis in_set_conv_nth)

lemma grid_shapeI:
  "length g = nat r \<Longrightarrow> (\<And>y. y < length g \<Longrightarrow> length (g ! y) = nat c) \<Longrightarrow> grid_shape c r g"
  by (auto simp: grid_shape_def in_set_conv_nth)

lemma grid_shape_nth: "grid_shape c r g \<Longrightarrow> y < length g \<Longrightarrow> length (g ! y) = nat c"
  by (simp add: grid_shape_def)

lemma good_grid_update:
  "good_grid g \<Longrightarrow> \<forall>c \<in> set row. valid_cell c \<Longrightarrow> good_grid (g[i := row])"
  by (auto simp: good_grid_def dest!: set_update_subset_insert [THEN subsetD])

lemma valid_blankRow [simp]: "\<forall>c \<in> set (blankRow k). valid_cell c"
  by (simp add: blankRow_def)

lemma valid_blankPenRow: "good_screen s \<Longrightarrow> \<forall>c \<in> set (blankPenRow s). valid_cell c"
  by (simp add: blankPenRow_def valid_cell_pen)

lemma valid_fill_range:
  "\<forall>c \<in> set xs. valid_cell c \<Longrightarrow> valid_cell pen \<Longrightarrow>
   \<forall>c \<in> set (fill_range lo hi (\<lambda>_. pen) xs). valid_cell c"
  using set_fill_range [of lo hi "\<lambda>_. pen" xs] by blast

subsection \<open>Copying inside a slice\<close>

lemma copy_into_nth:
  assumes "copy_into xs a b src = Some ys"
  shows "length ys = length xs"
    and "i < length xs \<Longrightarrow>
      ys ! i = (if a \<le> int i \<and> int i < b \<and> i - nat a < length src then src ! (i - nat a) else xs ! i)"
proof -
  have ab: "0 \<le> a" "a \<le> b" "b \<le> int (length xs)"
    and ys: "ys = take (nat a) xs @ go_copy (take (nat (b - a)) (drop (nat a) xs)) src @ drop (nat b) xs"
    using assms by (auto simp: copy_into_def slice_sub_def split: if_splits)
  obtain A where A: "a = int A" using ab(1) by (rule nonneg_int_cases)
  have "0 \<le> b" using ab by simp
  then obtain B where B: "b = int B" by (rule nonneg_int_cases)
  have n: "A \<le> B" "B \<le> length xs" "nat (b - a) = B - A" using ab A B by auto
  define M where "M = go_copy (take (B - A) (drop A xs)) src"
  have M: "length M = B - A" using n by (simp add: M_def min_absorb2 diff_le_mono)
  have ys': "ys = take A xs @ M @ drop B xs" using ys A B n by (simp add: M_def)
  then show "length ys = length xs" using n M by simp
  assume i: "i < length xs"
  consider "i < A" | "A \<le> i" "i < B" | "B \<le> i" by linarith
  then show "ys ! i = (if a \<le> int i \<and> int i < b \<and> i - nat a < length src then src ! (i - nat a) else xs ! i)"
  proof cases
    case 1
    then show ?thesis using ys' n A B by (simp add: nth_append)
  next
    case 2
    then have "ys ! i = M ! (i - A)" using ys' n M by (auto simp: nth_append)
    moreover have "M ! (i - A) = (if i - A < length src then src ! (i - A) else xs ! i)"
      unfolding M_def using 2 n i by (subst nth_go_copy) auto
    ultimately show ?thesis using 2 A B by simp
  next
    case 3
    then have "ys ! i = xs ! i" using ys' n i M by (auto simp: nth_append)
    then show ?thesis using 3 A B by simp
  qed
qed

lemma copy_into_Some:
  "0 \<le> a \<Longrightarrow> a \<le> b \<Longrightarrow> b \<le> int (length xs) \<Longrightarrow> \<exists>ys. copy_into xs a b src = Some ys"
  by (simp add: copy_into_def)

subsection \<open>Scrolling\<close>

text \<open>
  The specification of scrolling the rows \<open>tp..bt\<close> by \<open>n\<close>: row \<open>y\<close> of the region becomes row
  \<open>y + n\<close> (up) or \<open>y - n\<close> (down), vacated rows are blank, other rows stay.
\<close>

definition region_up :: "int \<Rightarrow> int \<Rightarrow> int \<Rightarrow> 'a \<Rightarrow> 'a list \<Rightarrow> 'a list" where
  "region_up tp bt n b g =
     map (\<lambda>y. if tp \<le> int y \<and> int y \<le> bt
              then if int y + n \<le> bt then g ! nat (int y + n) else b
              else g ! y) [0..<length g]"

definition region_down :: "int \<Rightarrow> int \<Rightarrow> int \<Rightarrow> 'a \<Rightarrow> 'a list \<Rightarrow> 'a list" where
  "region_down tp bt n b g =
     map (\<lambda>y. if tp \<le> int y \<and> int y \<le> bt
              then if tp \<le> int y - n then g ! nat (int y - n) else b
              else g ! y) [0..<length g]"

lemma length_region [simp]:
  "length (region_up tp bt n b g) = length g" "length (region_down tp bt n b g) = length g"
  by (simp_all add: region_up_def region_down_def)

lemma scroll_shift_up:
  assumes "0 \<le> tp" "tp \<le> bt" "bt < int (length g)" "1 \<le> n" "n \<le> bt - tp + 1"
  shows "do { src \<leftarrow> slice_sub g (tp + n) (bt + 1); h \<leftarrow> copy_into g tp (bt + 1) src;
              for_up (bt - n + 1) (bt + 1) (\<lambda>y h. slice_set h y b) h }
    = Some (region_up tp bt n b g)"
proof -
  let ?src = "take (nat (bt + 1 - (tp + n))) (drop (nat (tp + n)) g)"
  have src: "slice_sub g (tp + n) (bt + 1) = Some ?src" using assms by simp
  have len: "length ?src = nat (bt + 1 - (tp + n))" using assms by auto
  obtain h where h: "copy_into g tp (bt + 1) ?src = Some h"
    using copy_into_Some [of tp "bt + 1" g ?src] assms by auto
  note hn = copy_into_nth [OF h]
  have "for_up (bt - n + 1) (bt + 1) (\<lambda>y h. slice_set h y b) h =
      Some (fill_range (bt - n + 1) (bt + 1) (\<lambda>_. b) h)"
    using assms hn(1) by (intro for_up_slice_set) auto
  moreover have "fill_range (bt - n + 1) (bt + 1) (\<lambda>_. b) h = region_up tp bt n b g"
  proof (rule nth_equalityI)
    fix i assume "i < length (fill_range (bt - n + 1) (bt + 1) (\<lambda>_. b) h)"
    then have i: "i < length g" using hn(1) by simp
    show "fill_range (bt - n + 1) (bt + 1) (\<lambda>_. b) h ! i = region_up tp bt n b g ! i"
    proof (cases "tp \<le> int i \<and> int i + n \<le> bt")
      case True
      then have "i - nat tp < length ?src" using assms len by auto
      moreover from True this have "?src ! (i - nat tp) = g ! nat (int i + n)"
        using assms len by (auto simp: nat_add_distrib intro!: arg_cong [where f = "(!) g"])
      ultimately show ?thesis using True i assms hn by (auto simp: region_up_def)
    next
      case False
      then show ?thesis using i assms hn(1) hn(2) [OF i] by (auto simp: region_up_def)
    qed
  qed (simp add: hn(1))
  ultimately show ?thesis using src h by simp
qed

lemma scroll_shift_down:
  assumes "0 \<le> tp" "tp \<le> bt" "bt < int (length g)" "1 \<le> n" "n \<le> bt - tp + 1"
  shows "do { h \<leftarrow> for_down bt (tp + n)
                     (\<lambda>y h. do { row \<leftarrow> slice_get h (y - n); slice_set h y row }) g;
              for_up tp (tp + n) (\<lambda>y h. slice_set h y b) h }
    = Some (region_down tp bt n b g)"
proof -
  let ?body = "\<lambda>y h. do { row \<leftarrow> slice_get h (y - n); slice_set h y row }"
  let ?I = "\<lambda>k h. length h = length g \<and>
    (\<forall>i < length g. h ! i = (if k < int i \<and> int i \<le> bt then g ! nat (int i - n) else g ! i))"
  have "\<exists>h. for_down bt (tp + n) ?body g = Some h \<and> ?I (tp + n - 1) h"
  proof (rule for_down_rule [where I = ?I])
    show "?I bt g" by auto
    show "tp + n \<le> bt + 1" using assms by simp
    fix k h assume k: "tp + n \<le> k" "k \<le> bt" and I: "?I k h"
    have b: "0 \<le> k - n" "k - n < int (length h)" "0 \<le> k" "k < int (length h)"
      using assms k I by auto
    have row: "h ! nat (k - n) = g ! nat (k - n)" using I b assms by (auto simp: nat_less_iff)
    have "?body k h = Some (h[nat k := g ! nat (k - n)])" using b row by simp
    moreover have "?I (k - 1) (h[nat k := g ! nat (k - n)])"
    proof (intro conjI allI impI)
      show "length (h[nat k := g ! nat (k - n)]) = length g" using I by simp
      fix i assume i: "i < length g"
      show "h[nat k := g ! nat (k - n)] ! i =
          (if k - 1 < int i \<and> int i \<le> bt then g ! nat (int i - n) else g ! i)"
        using I b k i by (cases "int i = k") (auto simp: nth_list_update)
    qed
    ultimately show "\<exists>h'. ?body k h = Some h' \<and> ?I (k - 1) h'" by blast
  qed
  then obtain h where h: "for_down bt (tp + n) ?body g = Some h" "length h = length g"
    and hn: "\<And>i. i < length g \<Longrightarrow>
      h ! i = (if tp + n - 1 < int i \<and> int i \<le> bt then g ! nat (int i - n) else g ! i)" by auto
  have "for_up tp (tp + n) (\<lambda>y h. slice_set h y b) h = Some (fill_range tp (tp + n) (\<lambda>_. b) h)"
    using assms h(2) by (intro for_up_slice_set) auto
  moreover have "fill_range tp (tp + n) (\<lambda>_. b) h = region_down tp bt n b g"
    using assms h(2) hn by (intro nth_equalityI) (auto simp: region_down_def)
  ultimately show ?thesis using h(1) by simp
qed

text \<open>Both scrolls on the active screen, for a region inside the grid.\<close>

definition scroll_amount :: "int \<Rightarrow> int \<Rightarrow> int \<Rightarrow> int" where
  "scroll_amount tp bt n = (if n > bt - tp + 1 then bt - tp + 1 else n)"

lemma scrollUp_eq:
  assumes "ok_screen c r (curScreen e)" "0 \<le> tp" "tp \<le> bt" "bt < r"
  shows "scrollUp e tp bt n = Some (if n \<le> 0 then e else setCur e ((curScreen e)
    \<lparr>cells := region_up tp bt (scroll_amount tp bt n) (blankRow c) (cells (curScreen e))\<rparr>))"
proof (cases "n \<le> 0")
  case True
  then show ?thesis by (simp add: scrollUp_def)
next
  case False
  note s = ok_screenD [OF assms(1)]
  have len: "bt < int (length (cells (curScreen e)))" using s assms by simp
  have m: "1 \<le> scroll_amount tp bt n" "scroll_amount tp bt n \<le> bt - tp + 1"
    using False assms by (auto simp: scroll_amount_def)
  note shift = scroll_shift_up [OF assms(2,3) len m, of "blankRow c"]
  show ?thesis using False
    unfolding scrollUp_def Let_def scroll_amount_def [symmetric] s(1)
    using shift by (auto simp: bind_eq_Some_conv)
qed

lemma scrollDown_eq:
  assumes "ok_screen c r (curScreen e)" "0 \<le> tp" "tp \<le> bt" "bt < r"
  shows "scrollDown e tp bt n = Some (if n \<le> 0 then e else setCur e ((curScreen e)
    \<lparr>cells := region_down tp bt (scroll_amount tp bt n) (blankRow c) (cells (curScreen e))\<rparr>))"
proof (cases "n \<le> 0")
  case True
  then show ?thesis by (simp add: scrollDown_def)
next
  case False
  note s = ok_screenD [OF assms(1)]
  have len: "bt < int (length (cells (curScreen e)))" using s assms by simp
  have m: "1 \<le> scroll_amount tp bt n" "scroll_amount tp bt n \<le> bt - tp + 1"
    using False assms by (auto simp: scroll_amount_def)
  note shift = scroll_shift_down [OF assms(2,3) len m, of "blankRow c"]
  show ?thesis using False
    unfolding scrollDown_def Let_def scroll_amount_def [symmetric] s(1)
    using shift by (auto simp: bind_eq_Some_conv)
qed

lemma region_up_grid:
  assumes "grid_shape c r g" "good_grid g" "length b = nat c" "\<forall>x \<in> set b. valid_cell x"
    "0 \<le> tp" "bt < r" "1 \<le> n"
  shows "grid_shape c r (region_up tp bt n b g)" "good_grid (region_up tp bt n b g)"
proof -
  have idx: "y < length g \<Longrightarrow> tp \<le> int y \<Longrightarrow> int y + n \<le> bt \<Longrightarrow> nat (int y + n) < length g" for y
    using assms(1,5,6,7) by (simp add: grid_shape_def nat_less_iff)
  show "grid_shape c r (region_up tp bt n b g)"
    using assms idx by (intro grid_shapeI) (auto simp: region_up_def grid_shape_nth grid_shape_def)
  show "good_grid (region_up tp bt n b g)"
    using assms idx by (intro good_gridI) (auto simp: region_up_def good_grid_def)
qed

lemma region_down_grid:
  assumes "grid_shape c r g" "good_grid g" "length b = nat c" "\<forall>x \<in> set b. valid_cell x"
    "0 \<le> tp" "bt < r" "1 \<le> n"
  shows "grid_shape c r (region_down tp bt n b g)" "good_grid (region_down tp bt n b g)"
proof -
  have idx: "y < length g \<Longrightarrow> nat (int y - n) < length g" for y using assms(7) by simp
  show "grid_shape c r (region_down tp bt n b g)"
    using assms idx by (intro grid_shapeI) (auto simp: region_down_def grid_shape_nth grid_shape_def)
  show "good_grid (region_down tp bt n b g)"
    using assms idx by (intro good_gridI) (auto simp: region_down_def good_grid_def)
qed

subsection \<open>Rows\<close>

text \<open>
  The active grid with row \<open>cy\<close> replaced, and with a block of rows replaced: the two shapes every
  erase produces.
\<close>

lemma ok_screen_set_row:
  assumes "ok_screen c r s" "length row = nat c" "\<forall>x \<in> set row. valid_cell x"
  shows "ok_screen c r (s\<lparr>cells := (cells s)[i := row]\<rparr>)"
  using assms ok_screenD(3) [OF assms(1)] good_grid_cells [OF assms(1)]
  by (intro ok_screen_cells grid_shape_update good_grid_update) auto

lemma ok_screen_cur_row:
  assumes "ok_screen c r s"
  shows "length (cells s ! nat (cy s)) = nat c" "\<forall>x \<in> set (cells s ! nat (cy s)). valid_cell x"
    "cy s < int (length (cells s))"
proof -
  note d = ok_screenD [OF assms]
  show "length (cells s ! nat (cy s)) = nat c" using d by (intro grid_shape_row) auto
  show "cy s < int (length (cells s))" using d by simp
  then have "nat (cy s) < length (cells s)" using d by linarith
  then show "\<forall>x \<in> set (cells s ! nat (cy s)). valid_cell x"
    by (rule good_grid_rows [OF good_grid_cells [OF assms]])
qed

lemma fill_rows_grid:
  assumes "grid_shape c r g" "good_grid g" "length b = nat c" "\<forall>x \<in> set b. valid_cell x"
  shows "grid_shape c r (fill_range lo hi (\<lambda>_. b) g)" "good_grid (fill_range lo hi (\<lambda>_. b) g)"
proof -
  show "grid_shape c r (fill_range lo hi (\<lambda>_. b) g)"
    using assms by (intro grid_shapeI) (auto simp: grid_shape_nth grid_shape_def)
  show "good_grid (fill_range lo hi (\<lambda>_. b) g)"
    using assms by (intro good_gridI) (auto simp: good_grid_def)
qed

end
