(* ===== verification/Vt_Invariant.thy ===== *)
theory Vt_Invariant
  imports Vt_Grid
begin

text \<open>
  Every operation of the emulator keeps the screen invariant \<open>wf_emulator\<close> and does not panic,
  except for the two hazards named by \<open>safe_action\<close>. One lemma per operation, collected in
  \<open>vt_wf\<close>; \<open>dispatch_wf\<close> puts them together.
\<close>

named_theorems vt_wf
  \<open>invariant preservation, one rule per emulator operation\<close>

subsection \<open>Movement and printing\<close>

lemma wf_setCurI [vt_wf]:
  "wf_emulator e \<Longrightarrow> ok_screen (cols e) (rows e) s \<Longrightarrow> wf_emulator (mark (setCur e s))"
  by (simp add: wf_setCur)

lemma wf_good_grid: "wf_emulator e \<Longrightarrow> good_grid (cells (curScreen e))"
  by (rule good_grid_cells [OF wf_curScreen])

lemma wf_set_cells:
  assumes "wf_emulator e" "grid_shape (cols e) (rows e) g" "good_grid g"
  shows "wf_emulator (setCur e ((curScreen e)\<lparr>cells := g\<rparr>))"
  using assms by (intro wf_setCur ok_screen_cells wf_curScreen)

lemma wf_dims: "wf_emulator e \<Longrightarrow> 1 \<le> cols e \<and> cols e \<le> maxDim \<and> 1 \<le> rows e \<and> rows e \<le> maxDim"
  by (simp add: wf_emulator_def)

lemma wf_region:
  assumes "wf_emulator e"
  shows "effectiveScrollRegion (curScreen e) =
      (scrollTop (curScreen e) - 1, scrollBottom (curScreen e) - 1)"
    "0 \<le> scrollTop (curScreen e) - 1" "scrollTop (curScreen e) - 1 \<le> scrollBottom (curScreen e) - 1"
    "scrollBottom (curScreen e) - 1 < rows e"
  using ok_screenD [OF wf_curScreen [OF assms]] effectiveScrollRegion_wf by auto

lemma scrollUp_wf [vt_wf]:
  assumes "wf_emulator e" "0 \<le> tp" "tp \<le> bt" "bt < rows e"
  shows "\<exists>e'. scrollUp e tp bt n = Some e' \<and> wf_emulator e'"
proof -
  note s = ok_screenD [OF wf_curScreen [OF assms(1)]]
  have m: "n > 0 \<Longrightarrow> 1 \<le> scroll_amount tp bt n" using assms by (simp add: scroll_amount_def)
  have "n > 0 \<Longrightarrow> wf_emulator (setCur e ((curScreen e)\<lparr>cells :=
      region_up tp bt (scroll_amount tp bt n) (blankRow (cols e)) (cells (curScreen e))\<rparr>))"
    using assms s m
    by (intro wf_setCur ok_screen_cells region_up_grid wf_curScreen wf_good_grid) auto
  then show ?thesis using assms scrollUp_eq [OF wf_curScreen [OF assms(1)] assms(2-4), of n] by auto
qed

lemma scrollDown_wf [vt_wf]:
  assumes "wf_emulator e" "0 \<le> tp" "tp \<le> bt" "bt < rows e"
  shows "\<exists>e'. scrollDown e tp bt n = Some e' \<and> wf_emulator e'"
proof -
  note s = ok_screenD [OF wf_curScreen [OF assms(1)]]
  have m: "n > 0 \<Longrightarrow> 1 \<le> scroll_amount tp bt n" using assms by (simp add: scroll_amount_def)
  have "n > 0 \<Longrightarrow> wf_emulator (setCur e ((curScreen e)\<lparr>cells :=
      region_down tp bt (scroll_amount tp bt n) (blankRow (cols e)) (cells (curScreen e))\<rparr>))"
    using assms s m
    by (intro wf_setCur ok_screen_cells region_down_grid wf_curScreen wf_good_grid) auto
  then show ?thesis using assms scrollDown_eq [OF wf_curScreen [OF assms(1)] assms(2-4), of n] by auto
qed

text \<open>Line feed: down one row, or scroll the region when on its last row.\<close>

lemma lineFeed_eq:
  assumes "wf_emulator e"
  shows "lineFeed e = Some (mark (let s = curScreen e in
    if cy s < scrollBottom s - 1 then setCur e (s\<lparr>cy := cy s + 1\<rparr>)
    else if cy s = scrollBottom s - 1
    then setCur e (s\<lparr>cells := region_up (scrollTop s - 1) (scrollBottom s - 1) 1
           (blankRow (cols e)) (cells s)\<rparr>)
    else e))"
  using wf_region [OF assms] scrollUp_eq [OF wf_curScreen [OF assms] wf_region(2-4) [OF assms], of 1]
  by (simp add: lineFeed_def Let_def scroll_amount_def)

lemma lineFeed_wf [vt_wf]:
  assumes "wf_emulator e"
  shows "\<exists>e'. lineFeed e = Some e' \<and> wf_emulator e' \<and> cx (curScreen e') = cx (curScreen e) \<and>
    cols e' = cols e \<and> rows e' = rows e"
proof -
  note s = ok_screenD [OF wf_curScreen [OF assms]]
  have "wf_emulator (setCur e ((curScreen e)\<lparr>cells := region_up (scrollTop (curScreen e) - 1)
      (scrollBottom (curScreen e) - 1) 1 (blankRow (cols e)) (cells (curScreen e))\<rparr>))"
    using assms s by (intro wf_setCur ok_screen_cells region_up_grid wf_curScreen wf_good_grid) auto
  moreover have "cy (curScreen e) < scrollBottom (curScreen e) - 1 \<Longrightarrow>
      wf_emulator (setCur e ((curScreen e)\<lparr>cy := cy (curScreen e) + 1\<rparr>))"
    using assms s by (intro wf_setCur ok_screen_cursor(3) [where x = 0] wf_curScreen) auto
  ultimately show ?thesis using assms by (auto simp: lineFeed_eq Let_def)
qed

lemma ok_screen_put:
  assumes "ok_screen c r s" "0 \<le> cx s" "cx s < c" "valid_cell v"
  shows "ok_screen c r (s\<lparr>cells := (cells s)[nat (cy s) := (cells s ! nat (cy s))[nat (cx s) := v]],
      cx := cx s + 1\<rparr>)"
proof -
  note d = ok_screenD [OF assms(1)] and row = ok_screen_cur_row [OF assms(1)]
  have "\<forall>x \<in> set ((cells s ! nat (cy s))[nat (cx s) := v]). valid_cell x"
    using row(2) assms(4) by (auto dest!: set_update_subset_insert [THEN subsetD])
  then have "ok_screen c r (s\<lparr>cells := (cells s)[nat (cy s) := (cells s ! nat (cy s))[nat (cx s) := v]]\<rparr>)"
    using ok_screen_set_row [OF assms(1)] row(1) by simp
  from ok_screen_cursor(2) [OF this, of "cx s + 1" 0] show ?thesis using assms d by simp
qed

lemma printRune_wf [vt_wf]:
  assumes "wf_emulator e" "valid_rune r"
  shows "\<exists>e'. printRune e r = Some e' \<and> wf_emulator e'"
proof -
  define e1 where "e1 = (if cx (curScreen e) \<ge> scols (curScreen e)
    then lineFeed (setCur e ((curScreen e)\<lparr>cx := 0\<rparr>)) else Some e)"
  note s = ok_screenD [OF wf_curScreen [OF assms(1)]]
  have "\<exists>e'. e1 = Some e' \<and> wf_emulator e' \<and> cx (curScreen e') < cols e'"
  proof (cases "cx (curScreen e) \<ge> scols (curScreen e)")
    case True
    have "wf_emulator (setCur e ((curScreen e)\<lparr>cx := 0\<rparr>))"
      using assms s by (intro wf_setCur ok_screen_cursor(2) [where y = 0] wf_curScreen) auto
    from lineFeed_wf [OF this] show ?thesis using True wf_dims [OF assms(1)] by (auto simp: e1_def)
  next
    case False
    then show ?thesis using assms s by (simp add: e1_def)
  qed
  then obtain e' where e': "e1 = Some e'" "wf_emulator e'" "cx (curScreen e') < cols e'" by blast
  note s' = ok_screenD [OF wf_curScreen [OF e'(2)]] and row = ok_screen_cur_row [OF wf_curScreen [OF e'(2)]]
  let ?s = "curScreen e'"
  let ?c = "\<lparr>Rune = r, FG = fg ?s, BG = bg ?s, Attrs = attrs ?s\<rparr>"
  have v: "valid_cell ?c" using s' assms(2) by (simp add: valid_cell_def good_screen_def)
  have "grid_set (cells ?s) (cy ?s) (cx ?s) ?c =
      Some ((cells ?s)[nat (cy ?s) := (cells ?s ! nat (cy ?s))[nat (cx ?s) := ?c]])"
    using s' row e'(3) by (intro grid_set_Some) auto
  moreover have "wf_emulator (mark (setCur e' (?s\<lparr>cells :=
      (cells ?s)[nat (cy ?s) := (cells ?s ! nat (cy ?s))[nat (cx ?s) := ?c]], cx := cx ?s + 1\<rparr>)))"
    using e' s' v by (intro wf_setCurI ok_screen_put wf_curScreen) auto
  ultimately show ?thesis using e'(1) by (simp add: printRune_def Let_def e1_def)
qed

lemma executeC0_wf [vt_wf]:
  assumes "wf_emulator e"
  shows "\<exists>e'. executeC0 e b = Some e' \<and> wf_emulator e'"
proof -
  note s = ok_screenD [OF wf_curScreen [OF assms]]
  have mv: "0 \<le> x \<Longrightarrow> x \<le> cols e \<Longrightarrow> wf_emulator (setCur e ((curScreen e)\<lparr>cx := x\<rparr>))" for x
    using assms s by (intro wf_setCur ok_screen_cursor(2) [where y = 0] wf_curScreen) auto
  have tab: "0 \<le> (go_div (cx (curScreen e)) 8 + 1) * 8" using s by (simp add: go_div_nonneg)
  show ?thesis using lineFeed_wf [OF assms] mv tab s wf_dims [OF assms] assms
    by (auto simp: executeC0_def Let_def)
qed

subsection \<open>Cursor save and restore, reset, modes\<close>

lemma saveCursor_wf [vt_wf]: "wf_emulator e \<Longrightarrow> wf_emulator (saveCursor e)"
  using ok_screenD(12) [OF wf_curScreen, of e]
  by (auto simp: saveCursor_def Let_def wf_emulator_def ok_cursorState_def good_screen_def)

lemma restoreCursor_wf [vt_wf]:
  assumes "wf_emulator e"
  shows "wf_emulator (restoreCursor e)"
proof -
  note d = wf_dims [OF assms] and s = ok_screenD [OF wf_curScreen [OF assms]]
  have "ok_cursorState (if useAlt e then savedCursorAlt e else savedCursor e)"
    using assms by (simp add: wf_emulator_def)
  then show ?thesis unfolding restoreCursor_def clampCursor_def Let_def setCur_setCur
    using d s assms
    by (intro wf_setCurI) (auto simp: ok_screen_def wf_screen_def good_screen_def ok_cursorState_def)
qed

lemma hardReset_wf [vt_wf]: "wf_emulator e \<Longrightarrow> wf_emulator (hardReset e)"
  by (simp add: hardReset_def wf_emulator_def ok_screen_def wf_newScreen good_newScreen)

lemma switchAltScreen_wf [vt_wf]: "wf_emulator e \<Longrightarrow> wf_emulator (switchAltScreen e u)"
  by (simp add: switchAltScreen_def wf_emulator_def)

lemma dispatchESC_wf [vt_wf]:
  assumes "wf_emulator e"
  shows "\<exists>e'. dispatchESC e final im = Some e' \<and> wf_emulator e'"
proof -
  note s = ok_screenD [OF wf_curScreen [OF assms]] and reg = wf_region [OF assms]
  have "cy (curScreen e) > scrollTop (curScreen e) - 1 \<Longrightarrow>
      wf_emulator (setCur e ((curScreen e)\<lparr>cy := cy (curScreen e) - 1\<rparr>))"
    using assms s by (intro wf_setCur ok_screen_cursor(3) [where x = 0] wf_curScreen) auto
  then show ?thesis
    using assms scrollDown_wf [OF assms reg(2-4), of 1] saveCursor_wf [OF assms]
      restoreCursor_wf [OF assms] hardReset_wf [OF assms]
    by (auto simp: dispatchESC_def Let_def reg(1))
qed

lemma handleOSC_wf [vt_wf]: "wf_emulator e \<Longrightarrow> wf_emulator (handleOSC e payload)"
  by (auto simp: handleOSC_def split: list.splits)

subsection \<open>Erasing\<close>

text \<open>The columns of the cursor row that each EL mode (and the first part of each ED mode) erases.\<close>

definition el_range :: "int \<Rightarrow> screen \<Rightarrow> int \<times> int" where
  "el_range mode s = (if mode = 0 then (cx s, scols s) else if mode = 1 then (0, cx s + 1)
     else if mode = 2 then (0, scols s) else (0, 0))"

text \<open>The rows that each ED mode erases completely.\<close>

definition ed_rows :: "int \<Rightarrow> screen \<Rightarrow> int \<times> int" where
  "ed_rows mode s = (if mode = 0 then (cy s + 1, srows s) else if mode = 1 then (0, cy s)
     else if mode = 2 \<or> mode = 3 then (0, srows s) else (0, 0))"

definition el_grid :: "int \<times> int \<Rightarrow> screen \<Rightarrow> cell list list" where
  "el_grid rng s = (cells s)[nat (cy s) :=
     fill_range (fst rng) (snd rng) (\<lambda>_. penCell s) (cells s ! nat (cy s))]"

definition ed_grid :: "int \<Rightarrow> screen \<Rightarrow> cell list list" where
  "ed_grid mode s = fill_range (fst (ed_rows mode s)) (snd (ed_rows mode s)) (\<lambda>_. blankPenRow s)
     (el_grid (if mode = 0 \<or> mode = 1 then el_range mode s else (0, 0)) s)"

lemma el_grid_ok:
  assumes "ok_screen c r s"
  shows "grid_shape c r (el_grid rng s)" "good_grid (el_grid rng s)"
proof -
  note row = ok_screen_cur_row [OF assms]
  show "grid_shape c r (el_grid rng s)" unfolding el_grid_def
    by (rule grid_shape_update [OF ok_screenD(3) [OF assms]]) (simp add: row(1))
  show "good_grid (el_grid rng s)" unfolding el_grid_def
    by (intro good_grid_update good_grid_cells [OF assms] valid_fill_range row(2)
        valid_cell_pen ok_screenD(12) [OF assms])
qed

lemma ed_grid_ok:
  assumes "ok_screen c r s"
  shows "grid_shape c r (ed_grid mode s)" "good_grid (ed_grid mode s)"
proof -
  have "length (blankPenRow s) = nat c" by (simp add: blankPenRow_def ok_screenD(1) [OF assms])
  note * = fill_rows_grid [OF el_grid_ok [OF assms] this valid_blankPenRow [OF ok_screenD(12) [OF assms]]]
  show "grid_shape c r (ed_grid mode s)" "good_grid (ed_grid mode s)"
    unfolding ed_grid_def by (rule *)+
qed

lemma eraseInLine_eq:
  assumes "wf_emulator e" "mode = 1 \<longrightarrow> cx (curScreen e) < cols e"
  shows "eraseInLine e mode = Some (mark (setCur e ((curScreen e)
    \<lparr>cells := el_grid (el_range mode (curScreen e)) (curScreen e)\<rparr>)))"
proof -
  let ?s = "curScreen e"
  note s = ok_screenD [OF wf_curScreen [OF assms(1)]] and row = ok_screen_cur_row [OF wf_curScreen [OF assms(1)]]
  have fill: "0 \<le> lo \<Longrightarrow> hi \<le> cols e \<Longrightarrow> for_up lo hi (\<lambda>x h. grid_set h (cy ?s) x (penCell ?s)) (cells ?s)
      = Some (el_grid (lo, hi) ?s)" for lo hi
    unfolding el_grid_def fst_conv snd_conv
    by (rule for_up_grid_set) (use s row in auto)
  have none: "el_grid (0, 0) ?s = cells ?s" by (simp add: el_grid_def fill_range_empty)
  show ?thesis using s assms(2) by (auto simp: eraseInLine_def Let_def el_range_def fill none)
qed

lemma eraseInDisplay_eq:
  assumes "wf_emulator e" "mode = 1 \<longrightarrow> cx (curScreen e) < cols e"
  shows "eraseInDisplay e mode =
    Some (mark (setCur e ((curScreen e)\<lparr>cells := ed_grid mode (curScreen e)\<rparr>)))"
proof -
  let ?s = "curScreen e"
  note ok = wf_curScreen [OF assms(1)]
  note s = ok_screenD [OF ok] and row = ok_screen_cur_row [OF ok]
  have none: "el_grid (0, 0) ?s = cells ?s" by (simp add: el_grid_def fill_range_empty)
  have len: "length (el_grid rng ?s) = nat (rows e)" for rng
    using el_grid_ok(1) [OF ok, of rng] by (simp add: grid_shape_def)
  consider "mode = 0" | "mode = 1" | "mode = 2 \<or> mode = 3" | "mode \<notin> {0, 1, 2, 3}" by blast
  then show ?thesis
  proof cases
    case 1
    have "for_up (cx ?s) (cols e) (\<lambda>x h. grid_set h (cy ?s) x (penCell ?s)) (cells ?s)
        = Some (el_grid (cx ?s, cols e) ?s)"
      unfolding el_grid_def fst_conv snd_conv by (rule for_up_grid_set) (use s row in auto)
    moreover have "for_up (cy ?s + 1) (rows e) (\<lambda>y h. slice_set h y (blankPenRow ?s)) (el_grid (cx ?s, cols e) ?s)
        = Some (fill_range (cy ?s + 1) (rows e) (\<lambda>_. blankPenRow ?s) (el_grid (cx ?s, cols e) ?s))"
      by (rule for_up_slice_set) (use s len in auto)
    ultimately show ?thesis using 1 s
      by (simp add: eraseInDisplay_def Let_def ed_grid_def ed_rows_def el_range_def)
  next
    case 2
    let ?g = "fill_range 0 (cy ?s) (\<lambda>_. blankPenRow ?s) (cells ?s)"
    have a: "for_up 0 (cy ?s) (\<lambda>y h. slice_set h y (blankPenRow ?s)) (cells ?s) = Some ?g"
      by (rule for_up_slice_set) (use s row in auto)
    have gr: "?g ! nat (cy ?s) = cells ?s ! nat (cy ?s)" using s row by (simp add: nat_less_iff)
    have b: "for_up 0 (cx ?s + 1) (\<lambda>x h. grid_set h (cy ?s) x (penCell ?s)) ?g =
        Some (?g[nat (cy ?s) := fill_range 0 (cx ?s + 1) (\<lambda>_. penCell ?s) (?g ! nat (cy ?s))])"
      by (rule for_up_grid_set) (use s row gr assms(2) 2 in auto)
    have "?g[nat (cy ?s) := fill_range 0 (cx ?s + 1) (\<lambda>_. penCell ?s) (cells ?s ! nat (cy ?s))] =
        fill_range 0 (cy ?s) (\<lambda>_. blankPenRow ?s) (el_grid (0, cx ?s + 1) ?s)"
      using s by (intro nth_equalityI) (auto simp: el_grid_def nth_list_update)
    then show ?thesis using 2 a b gr
      by (simp add: eraseInDisplay_def Let_def ed_grid_def ed_rows_def el_range_def)
  next
    case 3
    have "for_up 0 (rows e) (\<lambda>y h. slice_set h y (blankPenRow ?s)) (cells ?s) =
        Some (fill_range 0 (rows e) (\<lambda>_. blankPenRow ?s) (cells ?s))"
      by (rule for_up_slice_set) (use s in auto)
    then show ?thesis using 3 s none
      by (auto simp: eraseInDisplay_def Let_def ed_grid_def ed_rows_def)
  next
    case 4
    then show ?thesis using none
      by (auto simp: eraseInDisplay_def Let_def ed_grid_def ed_rows_def fill_range_empty)
  qed
qed

lemma eraseInLine_wf [vt_wf]:
  "wf_emulator e \<Longrightarrow> mode = 1 \<longrightarrow> cx (curScreen e) < cols e \<Longrightarrow>
   \<exists>e'. eraseInLine e mode = Some e' \<and> wf_emulator e'"
  by (simp add: eraseInLine_eq wf_set_cells el_grid_ok [OF wf_curScreen])

lemma eraseInDisplay_wf [vt_wf]:
  "wf_emulator e \<Longrightarrow> mode = 1 \<longrightarrow> cx (curScreen e) < cols e \<Longrightarrow>
   \<exists>e'. eraseInDisplay e mode = Some e' \<and> wf_emulator e'"
  by (simp add: eraseInDisplay_eq wf_set_cells ed_grid_ok [OF wf_curScreen])

lemma eraseChars_eq:
  assumes "wf_emulator e"
  shows "eraseChars e n = Some (mark (setCur e ((curScreen e)\<lparr>cells :=
    el_grid (cx (curScreen e), cx (curScreen e) + min n (cols e - cx (curScreen e))) (curScreen e)\<rparr>)))"
proof -
  let ?s = "curScreen e" and ?m = "min n (cols e - cx (curScreen e))"
  note s = ok_screenD [OF wf_curScreen [OF assms]] and row = ok_screen_cur_row [OF wf_curScreen [OF assms]]
  have "for_up 0 ?m (\<lambda>i h. grid_set h (cy ?s) (cx ?s + i) (penCell ?s)) (cells ?s) =
      for_up (cx ?s) (cx ?s + ?m) (\<lambda>x h. grid_set h (cy ?s) x (penCell ?s)) (cells ?s)"
    using for_up_shift [where lo = 0 and hi = ?m and d = "cx ?s" and s = "cells ?s"
        and body = "\<lambda>x h. grid_set h (cy ?s) x (penCell ?s)"]
    by (simp add: add.commute)
  also have "\<dots> = Some (el_grid (cx ?s, cx ?s + ?m) ?s)"
    unfolding el_grid_def fst_conv snd_conv by (rule for_up_grid_set) (use s row in auto)
  finally show ?thesis using s by (simp add: eraseChars_def Let_def)
qed

lemma eraseChars_wf [vt_wf]: "wf_emulator e \<Longrightarrow> \<exists>e'. eraseChars e n = Some e' \<and> wf_emulator e'"
  by (simp add: eraseChars_eq wf_set_cells el_grid_ok [OF wf_curScreen])

subsection \<open>Inserting and deleting characters\<close>

text \<open>The cursor row after inserting or deleting \<open>n\<close> cells at column \<open>x\<close>.\<close>

definition insert_row :: "int \<Rightarrow> int \<Rightarrow> 'a \<Rightarrow> 'a list \<Rightarrow> 'a list" where
  "insert_row x n pen row = map (\<lambda>i. if int i < x then row ! i
     else if int i < x + n then pen else row ! nat (int i - n)) [0..<length row]"

definition delete_row :: "int \<Rightarrow> int \<Rightarrow> 'a \<Rightarrow> 'a list \<Rightarrow> 'a list" where
  "delete_row x n pen row = map (\<lambda>i. if int i < x then row ! i
     else if int i + n < int (length row) then row ! nat (int i + n) else pen) [0..<length row]"

lemma insert_shift:
  assumes "0 \<le> x" "1 \<le> n" "x + n \<le> int (length row)"
  shows "do { src \<leftarrow> slice_sub row x (int (length row));
              row1 \<leftarrow> copy_into row (x + n) (int (length row)) src;
              for_up 0 n (\<lambda>i r. slice_set r (x + i) pen) row1 } = Some (insert_row x n pen row)"
proof -
  let ?src = "drop (nat x) row"
  have src: "slice_sub row x (int (length row)) = Some ?src" using assms by simp
  obtain r1 where r1: "copy_into row (x + n) (int (length row)) ?src = Some r1"
    using copy_into_Some [of "x + n" "int (length row)" row ?src] assms by auto
  note rn = copy_into_nth [OF r1]
  have "for_up 0 n (\<lambda>i r. slice_set r (x + i) pen) r1 = for_up x (x + n) (\<lambda>i r. slice_set r i pen) r1"
    using for_up_shift [where lo = 0 and hi = n and d = x and s = r1 and body = "\<lambda>i r. slice_set r i pen"] by (simp add: add.commute)
  also have "\<dots> = Some (fill_range x (x + n) (\<lambda>_. pen) r1)"
    by (rule for_up_slice_set) (use assms rn in auto)
  also have "fill_range x (x + n) (\<lambda>_. pen) r1 = insert_row x n pen row"
  proof (rule nth_equalityI)
    fix i assume "i < length (fill_range x (x + n) (\<lambda>_. pen) r1)"
    then have i: "i < length row" using rn(1) by simp
    show "fill_range x (x + n) (\<lambda>_. pen) r1 ! i = insert_row x n pen row ! i"
    proof (cases "x + n \<le> int i")
      case True
      then have "i - nat (x + n) < length ?src" "?src ! (i - nat (x + n)) = row ! nat (int i - n)"
        using assms i by (auto simp: nat_diff_distrib nat_add_distrib intro!: arg_cong [where f = "(!) row"])
      then show ?thesis using True assms i rn(1) rn(2) [OF i] by (simp add: insert_row_def)
    next
      case False
      then show ?thesis using assms i rn(1) rn(2) [OF i] by (auto simp: insert_row_def)
    qed
  qed (simp add: insert_row_def rn(1))
  finally show ?thesis using src r1 by simp
qed

lemma delete_shift:
  assumes "0 \<le> x" "1 \<le> n" "x + n \<le> int (length row)"
  shows "do { src \<leftarrow> slice_sub row (x + n) (int (length row));
              row1 \<leftarrow> copy_into row x (int (length row)) src;
              for_up (int (length row) - n) (int (length row)) (\<lambda>i r. slice_set r i pen) row1 }
    = Some (delete_row x n pen row)"
proof -
  let ?src = "drop (nat (x + n)) row"
  have src: "slice_sub row (x + n) (int (length row)) = Some ?src" using assms by simp
  obtain r1 where r1: "copy_into row x (int (length row)) ?src = Some r1"
    using copy_into_Some [of x "int (length row)" row ?src] assms by auto
  note rn = copy_into_nth [OF r1]
  have "for_up (int (length row) - n) (int (length row)) (\<lambda>i r. slice_set r i pen) r1 =
      Some (fill_range (int (length row) - n) (int (length row)) (\<lambda>_. pen) r1)"
    by (rule for_up_slice_set) (use assms rn in auto)
  also have "fill_range (int (length row) - n) (int (length row)) (\<lambda>_. pen) r1 = delete_row x n pen row"
  proof (rule nth_equalityI)
    fix i assume "i < length (fill_range (int (length row) - n) (int (length row)) (\<lambda>_. pen) r1)"
    then have i: "i < length row" using rn(1) by simp
    show "fill_range (int (length row) - n) (int (length row)) (\<lambda>_. pen) r1 ! i = delete_row x n pen row ! i"
    proof (cases "x \<le> int i \<and> int i + n < int (length row)")
      case True
      then have "i - nat x < length ?src" "?src ! (i - nat x) = row ! nat (int i + n)"
        using assms i by (auto simp: nat_add_distrib intro!: arg_cong [where f = "(!) row"])
      then show ?thesis using True assms i rn(1) rn(2) [OF i] by (simp add: delete_row_def)
    next
      case False
      then show ?thesis using assms i rn(1) rn(2) [OF i] by (auto simp: delete_row_def)
    qed
  qed (simp add: delete_row_def rn(1))
  finally show ?thesis using src r1 by simp
qed

text \<open>The number of cells a shift really moves, and both operations on a well-formed emulator.\<close>

definition shift_amount :: "int \<Rightarrow> screen \<Rightarrow> int" where
  "shift_amount n s = min (max n 1) (scols s - cx s)"

lemma insertChars_eq:
  assumes "wf_emulator e"
  shows "insertChars e n = Some (let s = curScreen e in if cx s = cols e then e
    else mark (setCur e (s\<lparr>cells := (cells s)[nat (cy s) :=
      insert_row (cx s) (shift_amount n s) (penCell s) (cells s ! nat (cy s))]\<rparr>)))"
proof (cases "cx (curScreen e) = cols e")
  case True
  then show ?thesis using ok_screenD(1) [OF wf_curScreen [OF assms]] by (simp add: insertChars_def Let_def)
next
  case False
  let ?s = "curScreen e" and ?m = "shift_amount n (curScreen e)"
  let ?row = "cells (curScreen e) ! nat (cy (curScreen e))"
  note s = ok_screenD [OF wf_curScreen [OF assms]] and row = ok_screen_cur_row [OF wf_curScreen [OF assms]]
  have l: "int (length ?row) = cols e" using row wf_dims [OF assms] by simp
  have m: "(if (if n < 1 then 1 else n) > scols ?s - cx ?s then scols ?s - cx ?s
      else if n < 1 then 1 else n) = ?m" by (simp add: shift_amount_def)
  have "0 \<le> cx ?s" "1 \<le> ?m" "cx ?s + ?m \<le> int (length ?row)"
    using False s l by (auto simp: shift_amount_def)
  from insert_shift [OF this, of "penCell ?s"] False s row
  show ?thesis unfolding insertChars_def Let_def m
    by (auto simp: bind_eq_Some_conv)
qed

lemma deleteChars_eq:
  assumes "wf_emulator e"
  shows "deleteChars e n = Some (let s = curScreen e in if cx s = cols e then e
    else mark (setCur e (s\<lparr>cells := (cells s)[nat (cy s) :=
      delete_row (cx s) (shift_amount n s) (penCell s) (cells s ! nat (cy s))]\<rparr>)))"
proof (cases "cx (curScreen e) = cols e")
  case True
  then show ?thesis using ok_screenD(1) [OF wf_curScreen [OF assms]] by (simp add: deleteChars_def Let_def)
next
  case False
  let ?s = "curScreen e" and ?m = "shift_amount n (curScreen e)"
  let ?row = "cells (curScreen e) ! nat (cy (curScreen e))"
  note s = ok_screenD [OF wf_curScreen [OF assms]] and row = ok_screen_cur_row [OF wf_curScreen [OF assms]]
  have l: "int (length ?row) = cols e" using row wf_dims [OF assms] by simp
  have m: "(if (if n < 1 then 1 else n) > scols ?s - cx ?s then scols ?s - cx ?s
      else if n < 1 then 1 else n) = ?m" by (simp add: shift_amount_def)
  have "0 \<le> cx ?s" "1 \<le> ?m" "cx ?s + ?m \<le> int (length ?row)"
    using False s l by (auto simp: shift_amount_def)
  from delete_shift [OF this, of "penCell ?s"] False s row l
  show ?thesis unfolding deleteChars_def Let_def m
    by (auto simp: bind_eq_Some_conv)
qed

lemma length_shift_row [simp]:
  "length (insert_row x n pen row) = length row" "length (delete_row x n pen row) = length row"
  by (simp_all add: insert_row_def delete_row_def)

lemma valid_shift_row:
  assumes "\<forall>c \<in> set row. valid_cell c" "valid_cell pen" "0 \<le> n"
  shows "\<forall>c \<in> set (insert_row x n pen row). valid_cell c"
    "\<forall>c \<in> set (delete_row x n pen row). valid_cell c"
  using assms by (auto simp: insert_row_def delete_row_def)

lemma shiftChars_wf [vt_wf]:
  assumes "wf_emulator e"
  shows "\<exists>e'. insertChars e n = Some e' \<and> wf_emulator e'" "\<exists>e'. deleteChars e n = Some e' \<and> wf_emulator e'"
proof -
  note s = ok_screenD [OF wf_curScreen [OF assms]] and row = ok_screen_cur_row [OF wf_curScreen [OF assms]]
  have "0 \<le> shift_amount n (curScreen e)" using s by (simp add: shift_amount_def)
  note v = valid_shift_row [OF row(2) valid_cell_pen [OF s(12)] this]
  show "\<exists>e'. insertChars e n = Some e' \<and> wf_emulator e'" "\<exists>e'. deleteChars e n = Some e' \<and> wf_emulator e'"
    unfolding insertChars_eq [OF assms] deleteChars_eq [OF assms] Let_def
    using assms v row by (auto intro!: wf_setCur ok_screen_set_row wf_curScreen)
qed

subsection \<open>Lines, regions and modes\<close>

lemma insertLines_wf [vt_wf]:
  assumes "wf_emulator e"
  shows "\<exists>e'. insertLines n e = Some e' \<and> wf_emulator e'" "\<exists>e'. deleteLines n e = Some e' \<and> wf_emulator e'"
    "\<exists>e'. scrollRegionUp n e = Some e' \<and> wf_emulator e'" "\<exists>e'. scrollRegionDown n e = Some e' \<and> wf_emulator e'"
  using assms wf_region [OF assms] ok_screenD(4-7) [OF wf_curScreen [OF assms]]
    scrollDown_wf [OF assms, of "cy (curScreen e)" "scrollBottom (curScreen e) - 1" n]
    scrollUp_wf [OF assms, of "cy (curScreen e)" "scrollBottom (curScreen e) - 1" n]
    scrollUp_wf [OF assms wf_region(2-4) [OF assms], of n]
    scrollDown_wf [OF assms wf_region(2-4) [OF assms], of n]
  by (auto simp: insertLines_def deleteLines_def scrollRegionUp_def scrollRegionDown_def Let_def)

lemma setScrollRegion_wf [vt_wf]:
  assumes "wf_emulator e"
  shows "wf_emulator (setScrollRegion params e)"
proof -
  note s = ok_screenD [OF wf_curScreen [OF assms]] and d = wf_dims [OF assms]
  have "1 \<le> t \<Longrightarrow> t \<le> b \<Longrightarrow> b \<le> rows e \<Longrightarrow>
      ok_screen (cols e) (rows e) ((curScreen e)\<lparr>scrollTop := t, scrollBottom := b, cx := 0, cy := 0\<rparr>)" for t b
    using s d wf_curScreen [OF assms] by (simp add: ok_screen_def wf_screen_def good_screen_def)
  then show ?thesis using assms s d by (auto simp: setScrollRegion_def Let_def intro!: wf_setCur)
qed

lemma setDecMode_wf [vt_wf]:
  assumes "wf_emulator e"
  shows "\<exists>e'. setDecMode mode st e = Some e' \<and> wf_emulator e'"
  using assms eraseInDisplay_wf [OF switchAltScreen_wf [OF saveCursor_wf [OF assms]], of 2 True]
    restoreCursor_wf [OF switchAltScreen_wf [OF assms], of False] switchAltScreen_wf [OF assms]
  by (auto simp: setDecMode_def)

lemma setDecModes_wf [vt_wf]:
  "wf_emulator e \<Longrightarrow> \<exists>e'. foldM (\<lambda>pm. setDecMode pm st) modes e = Some e' \<and> wf_emulator e'"
  by (rule foldM_rule) (auto intro: setDecMode_wf)

subsection \<open>The pen\<close>

text \<open>
  Colours stay in the documented encoding: 0 for the default, 1..256 for the palette, and the
  truecolour flag with a 24-bit value.
\<close>

lemma clamp8_bounds: "0 \<le> clamp8 v" "clamp8 v \<le> 255"
  by (simp_all add: clamp8_def)

lemma valid_color_palette: "0 \<le> n \<Longrightarrow> n \<le> 255 \<Longrightarrow> valid_color (paletteIndex n)"
  by (simp add: valid_color_def paletteIndex_def)

lemma valid_color_default: "valid_color ColorDefault"
  by (simp add: valid_color_def)

lemma byte_bits:
  fixes v :: int
  assumes "0 \<le> v" "v \<le> 255" "bit v n"
  shows "n < 8"
proof -
  have "take_bit 8 v = v" using assms by (simp add: take_bit_int_eq_self)
  then show ?thesis using assms(3) by (metis bit_take_bit_iff)
qed

lemma flag_bit: "bit ColorTruecolorFlag n \<longleftrightarrow> n = 24"
proof -
  have "ColorTruecolorFlag = push_bit 24 1" by (simp add: ColorTruecolorFlag_def push_bit_eq_mult)
  then have "bit ColorTruecolorFlag n \<longleftrightarrow> bit (push_bit 24 (1 :: int)) n" by (simp only:)
  then show ?thesis by (auto simp: bit_push_bit_iff bit_1_iff simp del: push_bit_of_1 push_bit_numeral)
qed

lemma truecolor_sum:
  assumes "0 \<le> r" "r \<le> 255" "0 \<le> g" "g \<le> 255" "0 \<le> b" "b \<le> 255"
  shows "ColorTruecolorFlag OR push_bit 16 r OR push_bit 8 g OR b =
    ColorTruecolorFlag + 65536 * r + 256 * g + b"
proof -
  note bits = byte_bits [OF assms(1,2)] byte_bits [OF assms(3,4)] byte_bits [OF assms(5,6)]
  have 1: "push_bit 8 g AND b = 0"
    by (rule bit_eqI) (auto simp: bit_simps dest!: bits)
  have 2: "push_bit 16 r AND (push_bit 8 g OR b) = 0"
    by (rule bit_eqI) (auto simp: bit_simps dest!: bits)
  have 3: "ColorTruecolorFlag AND (push_bit 16 r OR (push_bit 8 g OR b)) = 0"
    by (rule bit_eqI) (auto simp: bit_simps flag_bit dest!: bits)
  show ?thesis
    using disjunctive_add_eq_or [OF 1] disjunctive_add_eq_or [OF 2] disjunctive_add_eq_or [OF 3]
    by (simp add: push_bit_eq_mult or.assoc)
qed

lemma parseExtendedColor_valid: "valid_color (snd (parseExtendedColor params i))"
proof -
  have "valid_color (ColorTruecolorFlag OR push_bit 16 (clamp8 r) OR push_bit 8 (clamp8 g) OR clamp8 b)" for r g b
    using clamp8_bounds [of r] clamp8_bounds [of g] clamp8_bounds [of b]
    unfolding truecolor_sum [OF clamp8_bounds clamp8_bounds clamp8_bounds]
    by (simp add: valid_color_def ColorTruecolorFlag_def)
  then show ?thesis
    by (auto simp: parseExtendedColor_def Let_def valid_color_palette valid_color_default)
qed

text \<open>SGR changes the pen only, and keeps it valid.\<close>

definition same_but_pen :: "screen \<Rightarrow> screen \<Rightarrow> bool" where
  "same_but_pen s t \<longleftrightarrow> t = s\<lparr>fg := fg t, bg := bg t, attrs := attrs t\<rparr> \<and>
     (valid_color (fg s) \<longrightarrow> valid_color (fg t)) \<and> (valid_color (bg s) \<longrightarrow> valid_color (bg t))"

lemma same_but_pen_refl: "same_but_pen s s"
  by (simp add: same_but_pen_def)

lemma same_but_pen_trans: "same_but_pen s t \<Longrightarrow> same_but_pen t u \<Longrightarrow> same_but_pen s u"
  by (cases s; cases t; cases u) (auto simp: same_but_pen_def)

lemma same_but_penI:
  "valid_color f \<Longrightarrow> same_but_pen s (s\<lparr>fg := f\<rparr>)" "valid_color f \<Longrightarrow> same_but_pen s (s\<lparr>bg := f\<rparr>)"
  "same_but_pen s (s\<lparr>attrs := a\<rparr>)" "same_but_pen s (resetSGR s)"
  by (simp_all add: same_but_pen_def resetSGR_def valid_color_default)

lemma applySGR_step_pen: "same_but_pen s (snd (applySGR_step params i s))"
  using parseExtendedColor_valid [of params "i + 1"]
  by (auto simp: applySGR_step_def Let_def split_def
      intro!: same_but_penI valid_color_palette valid_color_default same_but_pen_refl)

lemma applySGR_loop_pen: "same_but_pen s (applySGR_loop params i s)"
proof (induction params i s rule: applySGR_loop.induct)
  case (1 params i s)
  obtain j t where st: "applySGR_step params i s = (j, t)" by (cases "applySGR_step params i s")
  then have "same_but_pen s t" using applySGR_step_pen [of s params i] by simp
  then show ?case using 1 [OF _ st [symmetric]] st
    by (auto simp: applySGR_loop.simps [of params i s] same_but_pen_refl intro: same_but_pen_trans)
qed

lemma applySGR_pen: "same_but_pen s (applySGR s params)"
  by (simp add: applySGR_def same_but_penI applySGR_loop_pen)

lemma applySGR_wf [vt_wf]:
  assumes "wf_emulator e"
  shows "wf_emulator (setCur e (applySGR (curScreen e) params))"
proof -
  have "ok_screen (cols e) (rows e) (applySGR (curScreen e) params)"
    using applySGR_pen [of "curScreen e" params] wf_curScreen [OF assms]
    by (cases "applySGR (curScreen e) params"; cases "curScreen e")
      (auto simp: same_but_pen_def ok_screen_def wf_screen_def good_screen_def)
  then show ?thesis using assms by (simp add: wf_setCur)
qed

subsection \<open>Dispatch\<close>

text \<open>
  The parameters for which cursor movement cannot overflow. The parser accumulates parameters in
  a wrapping 64-bit integer, so a sequence of more than eighteen digits can leave this range.
\<close>

definition maxParam :: int where
  "maxParam = 2 ^ 62"

definition bounded_params :: "int list \<Rightarrow> bool" where
  "bounded_params params \<longleftrightarrow> (\<forall>v \<in> set params. 0 \<le> v \<and> v \<le> maxParam)"

text \<open>
  The two hazards: a control sequence with an out-of-range parameter, and ``erase to the left''
  while the cursor waits past the last column.
\<close>

definition safe_action :: "emulator \<Rightarrow> action \<Rightarrow> bool" where
  "safe_action e a = (case a of
     actCSI final im params \<Rightarrow> bounded_params params \<and>
       \<not> (im = [] \<and> (final = 0x4A \<or> final = 0x4B) \<and> csi_p0 params 0 = 1 \<and>
          cx (curScreen e) = cols e)
   | _ \<Rightarrow> True)"

lemma csi_p_bounds: "bounded_params params \<Longrightarrow> 0 \<le> d \<Longrightarrow> d \<le> maxParam \<Longrightarrow>
  0 \<le> csi_p params i d \<and> csi_p params i d \<le> maxParam"
  by (auto simp: csi_p_def bounded_params_def)

lemma wrap64_move:
  assumes "0 \<le> x" "x \<le> maxDim" "0 \<le> n" "n \<le> maxParam"
  shows "wrap64 (x + n) = x + n" "wrap64 (x - n) = x - n"
  using assms by (simp_all add: wrap64_id maxDim_def maxParam_def)

lemma cursor_moves_ok:
  assumes "ok_screen c r s" "1 \<le> c" "c \<le> maxDim" "1 \<le> r" "r \<le> maxDim" "0 \<le> n" "n \<le> maxParam"
  shows "ok_screen c r (cursorUp n s)" "ok_screen c r (cursorDown n s)"
    "ok_screen c r (cursorForward n s)" "ok_screen c r (cursorBack n s)"
  using assms ok_screenD [OF assms(1)]
    wrap64_move [of "cx s" n] wrap64_move [of "cy s" n]
  by (auto simp: cursorUp_def cursorDown_def cursorForward_def cursorBack_def Let_def
      intro!: ok_screen_cursor(2) [where y = 0] ok_screen_cursor(3) [where x = 0])

lemma absolutePos_bounds: "1 \<le> limit \<Longrightarrow> 0 \<le> absolutePos v limit \<and> absolutePos v limit < limit"
  by (simp add: absolutePos_def Let_def)

lemma ok_screen_cx0: "ok_screen c r s \<Longrightarrow> ok_screen c r (s\<lparr>cx := 0\<rparr>)"
  using ok_screenD [of c r s] by (intro ok_screen_cursor(2) [where y = 0]) auto

lemma absolute_moves_ok:
  assumes "ok_screen c r s" "1 \<le> c" "1 \<le> r"
  shows "ok_screen c r (s\<lparr>cx := absolutePos v c\<rparr>)" "ok_screen c r (s\<lparr>cy := absolutePos w r\<rparr>)"
    "ok_screen c r (s\<lparr>cy := absolutePos w r, cx := absolutePos v c\<rparr>)"
  using assms absolutePos_bounds [of c v] absolutePos_bounds [of r w]
  by (auto intro!: ok_screen_cursor(2) [where y = 0] ok_screen_cursor(3) [where x = 0]
      ok_screen_cursor(4))

lemma dispatchCSI_wf:
  assumes "wf_emulator e" "bounded_params params"
    and hazard: "im = [] \<and> (final = 0x4A \<or> final = 0x4B) \<and> csi_p0 params 0 = 1 \<Longrightarrow>
      cx (curScreen e) < cols e"
  shows "\<exists>e'. dispatchCSI e final params im = Some e' \<and> wf_emulator e'"
proof -
  note s = ok_screenD [OF wf_curScreen [OF assms(1)]] and d = wf_dims [OF assms(1)]
  have n: "0 \<le> csi_p params 0 1" "csi_p params 0 1 \<le> maxParam"
    using csi_p_bounds [OF assms(2), of 1 0] by (simp_all add: maxParam_def)
  note moves = cursor_moves_ok [OF wf_curScreen [OF assms(1)] _ _ _ _ n]
    absolute_moves_ok [OF wf_curScreen [OF assms(1)]]
  have mv: "ok_screen (cols e) (rows e) t \<Longrightarrow> wf_emulator (setCur e t)" for t
    using assms(1) by (rule wf_setCur)
  show ?thesis
    using d eraseInDisplay_wf [OF assms(1), of "csi_p0 params 0"] eraseInLine_wf [OF assms(1), of "csi_p0 params 0"]
      hazard insertLines_wf [OF assms(1), of "csi_p params 0 1"] shiftChars_wf [OF assms(1), of "csi_p params 0 1"]
      eraseChars_wf [OF assms(1), of "csi_p params 0 1"] setDecModes_wf [OF assms(1)]
      applySGR_wf [OF assms(1)] setScrollRegion_wf [OF assms(1)] saveCursor_wf [OF assms(1)]
      restoreCursor_wf [OF assms(1)] assms(1)
    by (simp add: dispatchCSI_def Let_def s(1,2) mv moves ok_screen_cx0)
qed

lemma valid_rune_byte: "valid_rune (uint (b :: byte))"
  using uint_byte_bounds [of b] by (auto simp: valid_rune_def)

theorem dispatch_wf:
  assumes "wf_emulator e" "safe_action e a"
  shows "\<exists>e'. dispatch e a = Some e' \<and> wf_emulator e'"
proof (cases a)
  case (actCSI final im params)
  have "cx (curScreen e) \<le> cols e" by (rule ok_screenD(5) [OF wf_curScreen [OF assms(1)]])
  then show ?thesis using assms dispatchCSI_wf [OF assms(1), of params im final] actCSI
    by (auto simp: dispatch_def safe_action_def)
qed (use assms in \<open>simp_all add: dispatch_def printRune_wf valid_rune_byte executeC0_wf dispatchESC_wf handleOSC_wf\<close>)

end
