(* ===== verification/Vt_Stream.thy ===== *)
theory Vt_Stream
  imports Vt_Invariant
begin

text \<open>
  The emulator as a consumer of a byte stream: \<open>Write\<close> is the fold of a one-byte step, so the way
  the PTY output is cut into chunks does not matter; which inputs are safe; resizing, rendering
  and the tail text on a well-formed emulator.
\<close>

subsection \<open>One byte at a time\<close>

text \<open>The action that an ASCII byte completes.\<close>

definition asciiStep :: "byte \<Rightarrow> emulator \<Rightarrow> (action \<times> emulator) option" where
  "asciiStep b e = (case feedByte (ps e) b of None \<Rightarrow> None
     | Some (a, _, ps') \<Rightarrow> Some (a, e\<lparr>utf8Buf := [], ps := ps'\<rparr>))"

definition writeByte :: "byte \<Rightarrow> emulator \<Rightarrow> emulator option" where
  "writeByte b e = (if b < 0x80 then do { (a, e') \<leftarrow> asciiStep b e; dispatch e' a }
     else map_option fst (feedUTF8 e [b]))"

lemma utf8Buf_reset [simp]:
  "(if utf8Buf e \<noteq> [] then e\<lparr>utf8Buf := []\<rparr> else e) = e\<lparr>utf8Buf := []\<rparr>"
  "utf8Buf e = [] \<Longrightarrow> e\<lparr>utf8Buf := []\<rparr> = e"
  by (cases e; simp)+

lemma writeUnlocked_ascii:
  "b < 0x80 \<Longrightarrow> writeUnlocked e (b # p) = Option.bind (writeByte b e) (\<lambda>e'. writeUnlocked e' p)"
  by (simp add: writeUnlocked.simps(2) writeByte_def asciiStep_def Let_def split: option.split prod.split)

lemma writeUnlocked_resume:
  "(case feedUTF8 e p of None \<Rightarrow> None | Some (e', q) \<Rightarrow> writeUnlocked e' q) = writeUnlocked e p"
proof (cases p)
  case (Cons b q)
  show ?thesis
  proof (cases "b < 0x80")
    case True
    have "asciiStep b (e\<lparr>utf8Buf := []\<rparr>) = asciiStep b e" by (simp add: asciiStep_def split: option.split)
    then show ?thesis using Cons True by (simp add: feedUTF8.simps writeUnlocked_ascii writeByte_def)
  qed (simp add: Cons writeUnlocked.simps(2))
qed (simp add: feedUTF8.simps)

lemma writeUnlocked_step:
  "writeUnlocked e (b # p) = Option.bind (writeByte b e) (\<lambda>e'. writeUnlocked e' p)"
proof (cases "b < 0x80")
  case True
  then show ?thesis by (rule writeUnlocked_ascii)
next
  case False
  have "writeUnlocked e (b # p) = (case feedUTF8 e (b # p) of None \<Rightarrow> None | Some (e', q) \<Rightarrow> writeUnlocked e' q)"
    using False by (simp add: writeUnlocked.simps(2))
  also have "\<dots> = Option.bind (writeByte b e) (\<lambda>e'. writeUnlocked e' p)"
    using False writeUnlocked_resume
    by (auto simp: writeByte_def feedUTF8.simps Let_def split: prod.split option.split)
  finally show ?thesis .
qed

lemma Write_foldM: "Write e p = foldM writeByte p e"
  unfolding Write_def
  by (induction p arbitrary: e) (auto simp: writeUnlocked_step split: option.split)

lemma Write_append: "Write e (p @ q) = Option.bind (Write e p) (\<lambda>e'. Write e' q)"
  by (simp add: Write_foldM foldM_append)

text \<open>
  C19: chunking does not matter. Writing two chunks one after the other is writing their
  concatenation, whatever point the stream is cut at: inside an escape sequence, inside a UTF-8
  sequence, or inside a line.
\<close>
theorem Write_chunks: "Write e (p @ q) = Option.bind (Write e p) (\<lambda>e'. Write e' q)"
  by (rule Write_append)

subsection \<open>Safety of a write\<close>

lemma printRune_utf8Buf:
  "printRune (e\<lparr>utf8Buf := u\<rparr>) r = map_option (\<lambda>e'. e'\<lparr>utf8Buf := u\<rparr>) (printRune e r)"
proof -
  have c [simp]: "setCur (e\<lparr>utf8Buf := u\<rparr>) s = (setCur e s)\<lparr>utf8Buf := u\<rparr>"
    "mark (e\<lparr>utf8Buf := u\<rparr>) = (mark e)\<lparr>utf8Buf := u\<rparr>" for e :: emulator and s
    by (simp_all add: setCur_def mark_def split: bufref.split)
  have su: "scrollUp (e\<lparr>utf8Buf := u\<rparr>) t b n = map_option (\<lambda>e'. e'\<lparr>utf8Buf := u\<rparr>) (scrollUp e t b n)" for e t b n
    by (simp add: scrollUp_def Let_def map_option_bind comp_def)
  have lf: "lineFeed (e\<lparr>utf8Buf := u\<rparr>) = map_option (\<lambda>e'. e'\<lparr>utf8Buf := u\<rparr>) (lineFeed e)" for e
    by (simp add: lineFeed_def Let_def su map_option_bind comp_def bind_map_option split: prod.split)
  show ?thesis
    by (simp add: printRune_def Let_def lf map_option_bind comp_def bind_map_option)
qed

lemma feedUTF8_wf:
  assumes "wf_emulator e" "\<not> b < 0x80"
  shows "\<exists>e'. feedUTF8 e [b] = Some (e', []) \<and> wf_emulator e'"
proof -
  have len: "length (utf8Buf e) < 4" using assms(1) by (simp add: wf_emulator_def)
  let ?buf = "utf8Buf e @ [b]"
  obtain r sz where r: "DecodeRune ?buf = (r, sz)" by (cases "DecodeRune ?buf")
  obtain e1 where e1: "printRune e r = Some e1" "wf_emulator e1"
    using printRune_wf [OF assms(1) DecodeRune_valid [OF r]] by blast
  have "length ?buf < utf8RuneLen (hd ?buf) \<Longrightarrow> length ?buf < 4"
    by (auto simp: utf8RuneLen_def split: if_splits)
  then have "length ?buf < utf8RuneLen (hd ?buf) \<Longrightarrow> wf_emulator (e\<lparr>utf8Buf := ?buf\<rparr>)"
    using assms(1) by (simp add: wf_emulator_def)
  then show ?thesis using assms len r e1
    by (auto simp: feedUTF8.simps Let_def printRune_utf8Buf not_le)
qed

text \<open>
  A byte is safe when it does not complete one of the two hazardous control sequences; the bytes
  of multi-byte characters always are.
\<close>

definition safe_byte :: "emulator \<Rightarrow> byte \<Rightarrow> bool" where
  "safe_byte e b \<longleftrightarrow> b \<ge> 0x80 \<or> (case asciiStep b e of None \<Rightarrow> False | Some (a, e') \<Rightarrow> safe_action e' a)"

lemma writeByte_wf:
  assumes "wf_emulator e" "safe_byte e b"
  shows "\<exists>e'. writeByte b e = Some e' \<and> wf_emulator e'"
proof (cases "b < 0x80")
  case True
  obtain a p' where f: "feedByte (ps e) b = Some (a, state p', p')" "wf_parser p'"
    using feedByte_wf [of "ps e" b] assms(1) by (auto simp: wf_emulator_def)
  then have st: "asciiStep b e = Some (a, e\<lparr>utf8Buf := [], ps := p'\<rparr>)" by (simp add: asciiStep_def)
  moreover have "wf_emulator (e\<lparr>utf8Buf := [], ps := p'\<rparr>)" using assms(1) f(2) by simp
  moreover have "safe_action (e\<lparr>utf8Buf := [], ps := p'\<rparr>) a"
    using assms(2) True st by (auto simp: safe_byte_def)
  ultimately show ?thesis using dispatch_wf True by (simp add: writeByte_def)
next
  case False
  then show ?thesis using feedUTF8_wf [OF assms(1) False] by (auto simp: writeByte_def)
qed

text \<open>
  C1: a write never panics and keeps the screen invariant, unless some prefix of it brings the
  emulator, still well formed, to a byte that completes a hazardous control sequence.
\<close>
theorem Write_safe:
  assumes "wf_emulator e"
  shows "(\<exists>e'. Write e p = Some e' \<and> wf_emulator e') \<or>
    (\<exists>p1 b p2 e1. p = p1 @ b # p2 \<and> Write e p1 = Some e1 \<and> wf_emulator e1 \<and> \<not> safe_byte e1 b)"
  using assms
proof (induction p rule: rev_induct)
  case Nil
  then show ?case by (simp add: Write_foldM)
next
  case (snoc b p)
  from snoc.IH [OF snoc.prems] show ?case
  proof
    assume "\<exists>e'. Write e p = Some e' \<and> wf_emulator e'"
    then obtain e' where e': "Write e p = Some e'" "wf_emulator e'" by blast
    show ?thesis
    proof (cases "safe_byte e' b")
      case True
      then obtain e'' where "writeByte b e' = Some e''" "wf_emulator e''"
        using writeByte_wf [OF e'(2)] by blast
      then show ?thesis using e'(1) by (simp add: Write_foldM foldM_append)
    next
      case False
      then show ?thesis using e' by blast
    qed
  next
    assume "\<exists>p1 c p2 e1. p = p1 @ c # p2 \<and> Write e p1 = Some e1 \<and> wf_emulator e1 \<and> \<not> safe_byte e1 c"
    then show ?thesis by force
  qed
qed

lemma NewEmulator_wf: "c \<le> maxDim \<Longrightarrow> r \<le> maxDim \<Longrightarrow> wf_emulator (NewEmulator c r)"
  by (simp add: NewEmulator_def Let_def wf_emulator_def ok_screen_def wf_newScreen good_newScreen
      parser_init_def wf_parser_def zeroParser_def cap_defs ok_cursorState_def zeroCursorState_def
      valid_color_def ColorDefault_def maxDim_def)

text \<open>Witness for \<open>Write_safe\<close>: a fresh 80x24 emulator that is sent a line.\<close>
theorem Write_safe_witness:
  "(\<exists>e'. Write (NewEmulator 80 24) [0x68, 0x69, 0x0D, 0x0A] = Some e' \<and> wf_emulator e') \<or>
    (\<exists>p1 b p2 e1. [0x68, 0x69, 0x0D, 0x0A] = p1 @ b # p2 \<and> Write (NewEmulator 80 24) p1 = Some e1 \<and>
       wf_emulator e1 \<and> \<not> safe_byte e1 b)"
  by (rule Write_safe) (simp add: NewEmulator_wf maxDim_def)

text \<open>Outside of an escape sequence, a stream without the escape byte cannot start one.\<close>

lemma handleC0_ground: "state p = stGround \<Longrightarrow> b \<noteq> 0x1B \<Longrightarrow> handleC0 b p = (a, st, p') \<Longrightarrow>
    state p' = stGround \<and> (a = actNone \<or> a = actExecute b)"
  by (auto simp: handleC0_def finish_def goto_state_def split: if_splits)

lemma feedByte_in_ground:
  "state p = stGround \<Longrightarrow> feedByte p b = Some (if b < 0x20 then handleC0 b p
     else if b \<le> 0x7E then (actPrint b, stGround, p) else (actNone, stGround, p))"
  by (simp add: feedByte_def)

lemma feedByte_ground:
  assumes "state p = stGround" "b \<noteq> 0x1B" "feedByte p b = Some (a, st, p')"
  shows "state p' = stGround \<and> (a = actNone \<or> a = actExecute b \<or> a = actPrint b)"
proof (cases "b < 0x20")
  case True
  then have "handleC0 b p = (a, st, p')" using assms(3) by (simp add: feedByte_in_ground [OF assms(1)])
  from handleC0_ground [OF assms(1,2) this] show ?thesis by blast
next
  case False
  then show ?thesis using assms(1,3)
    by (cases "b \<le> 0x7E") (auto simp: feedByte_in_ground [OF assms(1)])
qed

lemma scrollUp_ps: "scrollUp e t b n = Some e' \<Longrightarrow> ps e' = ps e \<and> utf8Buf e' = utf8Buf e"
  by (auto simp: scrollUp_def Let_def bind_eq_Some_conv split: if_splits)

lemma lineFeed_ps: "lineFeed e = Some e' \<Longrightarrow> ps e' = ps e \<and> utf8Buf e' = utf8Buf e"
  by (auto simp: lineFeed_def Let_def bind_eq_Some_conv split: if_splits prod.splits dest!: scrollUp_ps)

lemma printRune_ps: "printRune e r = Some e' \<Longrightarrow> ps e' = ps e \<and> utf8Buf e' = utf8Buf e"
  by (auto simp: printRune_def Let_def bind_eq_Some_conv split: if_splits dest!: lineFeed_ps)

lemma executeC0_ps: "executeC0 e b = Some e' \<Longrightarrow> ps e' = ps e"
  by (auto simp: executeC0_def Let_def split: if_splits dest!: lineFeed_ps)

lemma writeByte_ground:
  assumes "state (ps e) = stGround" "b \<noteq> 0x1B" "writeByte b e = Some e'"
  shows "state (ps e') = stGround"
proof (cases "b < 0x80")
  case True
  then obtain a st p' where f: "feedByte (ps e) b = Some (a, st, p')"
    and d: "dispatch (e\<lparr>utf8Buf := [], ps := p'\<rparr>) a = Some e'"
    using assms(3) by (auto simp: writeByte_def asciiStep_def bind_eq_Some_conv split: option.splits)
  from feedByte_ground [OF assms(1,2) f] d show ?thesis
    by (auto simp: dispatch_def dest!: printRune_ps executeC0_ps)
next
  case False
  then show ?thesis using assms
    by (auto simp: writeByte_def feedUTF8.simps Let_def split: prod.splits if_splits option.splits
        dest!: printRune_ps)
qed

lemma safe_byte_ground:
  assumes "wf_emulator e" "state (ps e) = stGround" "b \<noteq> 0x1B"
  shows "safe_byte e b"
proof -
  obtain a p' where f: "feedByte (ps e) b = Some (a, state p', p')"
    using feedByte_wf [of "ps e" b] assms(1) by (auto simp: wf_emulator_def)
  from feedByte_ground [OF assms(2,3) f] show ?thesis
    by (auto simp: safe_byte_def asciiStep_def f safe_action_def)
qed

text \<open>
  Plain output is always safe. Outside of an escape sequence, any bytes that do not contain
  the escape byte (text, C0 controls, well-formed or malformed UTF-8) are written without a
  panic, keep the invariant and leave the parser outside of an escape sequence.
\<close>
theorem Write_plain_safe:
  assumes "wf_emulator e" "state (ps e) = stGround" "0x1B \<notin> set p"
  shows "\<exists>e'. Write e p = Some e' \<and> wf_emulator e' \<and> state (ps e') = stGround"
  unfolding Write_foldM
proof (rule foldM_rule [where I = "\<lambda>e. wf_emulator e \<and> state (ps e) = stGround"])
  show "wf_emulator e \<and> state (ps e) = stGround" using assms by blast
  fix b e assume b: "b \<in> set p" and I: "wf_emulator e \<and> state (ps e) = stGround"
  then have "b \<noteq> 0x1B" using assms(3) by blast
  then show "\<exists>e'. writeByte b e = Some e' \<and> wf_emulator e' \<and> state (ps e') = stGround"
    using I writeByte_wf safe_byte_ground writeByte_ground by blast
qed

text \<open>Witness for \<open>Write_plain_safe\<close>: text, a line end and a truncated UTF-8 sequence.\<close>
theorem Write_plain_safe_witness:
  "\<exists>e'. Write (NewEmulator 80 24) [0x68, 0x0D, 0x0A, 0xE2, 0x82] = Some e' \<and> wf_emulator e' \<and>
     state (ps e') = stGround"
proof (rule Write_plain_safe)
  show "wf_emulator (NewEmulator 80 24)" by (simp add: NewEmulator_wf maxDim_def)
  show "state (ps (NewEmulator 80 24)) = stGround" by (simp add: NewEmulator_def parser_init_def)
qed simp

subsection \<open>Text is printed rune by rune\<close>

lemma utf8RuneLen_table:
  "list_all (\<lambda>n. case utf8_first (word_of_int (int n)) of None \<Rightarrow> True
     | Some (k, _) \<Rightarrow> utf8RuneLen (word_of_int (int n)) = k) [0..<256]"
  by code_simp

lemma utf8RuneLen_first:
  assumes "utf8_first b = Some (k, lo, hi)"
  shows "utf8RuneLen b = k"
proof -
  have n: "nat (uint b) \<in> set [0..<256]" "(word_of_int (int (nat (uint b))) :: byte) = b"
    using uint_byte_bounds [of b] by (auto simp: nat_less_iff simp del: nat_uint_eq)
  show ?thesis using utf8RuneLen_table [unfolded list_all_iff, THEN bspec, OF n(1)] assms
    unfolding n(2) by simp
qed

lemma hd_utf8_encode: "valid_rune r \<Longrightarrow> 0x80 \<le> r \<Longrightarrow> utf8RuneLen (hd (utf8_encode r)) = length (utf8_encode r)"
  using utf8_encode_first [of r] utf8RuneLen_first by blast

lemma utf8_encode_high: "valid_rune r \<Longrightarrow> 0x80 \<le> r \<Longrightarrow> b \<in> set (utf8_encode r) \<Longrightarrow> \<not> b < 0x80"
  by (auto simp: utf8_encode_def byte_arith uint_byte_of valid_rune_def split: if_splits)

lemma foldM_utf8_prefix:
  assumes "valid_rune r" "0x80 \<le> r" "utf8Buf e = []" "k < length (utf8_encode r)"
  shows "foldM writeByte (take k (utf8_encode r)) e = Some (e\<lparr>utf8Buf := take k (utf8_encode r)\<rparr>)"
  using assms(4)
proof (induction k)
  case 0
  then show ?case using assms(3) by simp
next
  case (Suc k)
  let ?w = "utf8_encode r"
  have t: "take (Suc k) ?w = take k ?w @ [?w ! k]" using Suc.prems by (simp add: take_Suc_conv_app_nth)
  have h: "\<not> ?w ! k < 0x80" using utf8_encode_high [OF assms(1,2)] Suc.prems by simp
  have l: "length (take k ?w) < 4" using Suc.prems utf8_encode_length(1) [of r] by simp
  have d: "DecodeRune (take k ?w @ [?w ! k]) = (RuneError, 1)"
    using DecodeRune_prefix [OF assms(1,2), of "Suc k"] Suc.prems t by simp
  have "hd (take k ?w @ [?w ! k]) = hd ?w" using t utf8_encode_length(2) [of r] by (metis hd_take zero_less_Suc)
  then have "writeByte (?w ! k) (e\<lparr>utf8Buf := take k ?w\<rparr>) = Some (e\<lparr>utf8Buf := take (Suc k) ?w\<rparr>)"
    using h l d Suc.prems hd_utf8_encode [OF assms(1,2)] t
    by (simp add: writeByte_def feedUTF8.simps not_le)
  then show ?case using Suc t by (simp add: foldM_append)
qed

lemma Write_rune_high:
  assumes "valid_rune r" "0x80 \<le> r" "utf8Buf e = []"
  shows "Write e (utf8_encode r) = printRune e r"
proof -
  let ?w = "utf8_encode r" and ?k = "length (utf8_encode r) - 1"
  have k: "?k < length ?w" using utf8_encode_length(2) [of r] by simp
  have w: "?w = take ?k ?w @ [?w ! ?k]" using k by (simp add: take_Suc_conv_app_nth [symmetric])
  have h: "\<not> ?w ! ?k < 0x80" using utf8_encode_high [OF assms(1,2)] k by simp
  have l: "length (take ?k ?w) < 4" using utf8_encode_length(1) [of r] k by simp
  have d: "DecodeRune (take ?k ?w @ [?w ! ?k]) = (r, length ?w)" using DecodeRune_encode [OF assms(1,2)] w by simp
  have keep: "printRune e r = Some e' \<Longrightarrow> e'\<lparr>utf8Buf := []\<rparr> = e'" for e'
    using printRune_utf8Buf [where e = e and u = "[]" and r = r] assms(3) by simp
  have "\<not> (r = RuneError \<and> length ?w = 1)" by (auto simp: utf8_encode_def RuneError_def)
  then have "writeByte (?w ! ?k) (e\<lparr>utf8Buf := take ?k ?w\<rparr>) = printRune e r"
    using h l d w keep
    by (auto simp: writeByte_def feedUTF8.simps Let_def printRune_utf8Buf split: option.split)
  then have "foldM writeByte (take ?k ?w @ [?w ! ?k]) e = printRune e r"
    using foldM_utf8_prefix [OF assms k] by (simp add: foldM_append split: option.split)
  then show ?thesis using w by (simp add: Write_foldM)
qed

text \<open>
  The characters a terminal prints: everything from the space on that is a scalar value, except
  DEL. (C1 controls arrive as two UTF-8 bytes and are printed too, as the code does.)
\<close>

definition printable :: "rune \<Rightarrow> bool" where
  "printable r \<longleftrightarrow> valid_rune r \<and> 0x20 \<le> r \<and> r \<noteq> 0x7F"

lemma Write_rune:
  assumes "printable r" "state (ps e) = stGround" "utf8Buf e = []"
  shows "Write e (utf8_encode r) = printRune e r"
proof (cases "r < 0x80")
  case True
  then have r: "0x20 \<le> r" "r < 0x7F" using assms(1) by (auto simp: printable_def)
  then have u: "uint (byte_of r) = r" by (simp add: uint_byte_of)
  have "feedByte (ps e) (byte_of r) = Some (actPrint (byte_of r), stGround, ps e)"
    using r u by (simp add: feedByte_in_ground [OF assms(2)] byte_arith)
  moreover have "e\<lparr>utf8Buf := [], ps := ps e\<rparr> = e" using assms(3) by simp
  ultimately have "writeByte (byte_of r) e = printRune e r"
    using r u by (simp add: writeByte_def asciiStep_def byte_arith dispatch_def)
  then show ?thesis using True by (simp add: Write_foldM utf8_encode_def split: option.split)
next
  case False
  then show ?thesis using assms by (intro Write_rune_high) (auto simp: printable_def)
qed

text \<open>
  Text round trip. Outside of an escape sequence, writing the UTF-8 encoding of a text prints
  exactly its characters, one by one and in order.
\<close>
theorem Write_text:
  assumes "state (ps e) = stGround" "utf8Buf e = []" "\<forall>r \<in> set rs. printable r"
  shows "Write e (concat (map utf8_encode rs)) = foldM (\<lambda>r e. printRune e r) rs e"
  using assms
proof (induction rs arbitrary: e)
  case Nil
  then show ?case by (simp add: Write_foldM)
next
  case (Cons r rs)
  show ?case using Cons Write_append [of e "utf8_encode r"] Write_rune [of r e] printRune_ps [of e r]
    by (simp split: option.split)
qed

text \<open>Witness for \<open>Write_text\<close>: an ASCII and a three-byte character.\<close>
theorem Write_text_witness:
  "Write (NewEmulator 80 24) (concat (map utf8_encode [0x41, 0x20AC])) =
     foldM (\<lambda>r e. printRune e r) [0x41, 0x20AC] (NewEmulator 80 24)"
  by (rule Write_text) (simp_all add: NewEmulator_def parser_init_def printable_def valid_rune_def)

end
