(* ===== verification/Vt_View.thy ===== *)
theory Vt_View
  imports Vt_Stream
begin

text \<open>
  What a client of the emulator sees: resizing keeps the overlapping part of the grid, \<open>Render\<close>
  and \<open>TailText\<close> never fail on a well-formed emulator, and the revision number changes whenever
  the rendered screen does.
\<close>

subsection \<open>Resizing\<close>

definition crop_row :: "int \<Rightarrow> cell list \<Rightarrow> cell list" where
  "crop_row c row = map (\<lambda>x. if x < length row then row ! x else BlankCell) [0..<nat c]"

text \<open>The grid of \<open>r\<close> rows and \<open>c\<close> columns that agrees with \<open>g\<close> where both have cells.\<close>

definition crop_grid :: "int \<Rightarrow> int \<Rightarrow> cell list list \<Rightarrow> cell list list" where
  "crop_grid c r g = map (\<lambda>y. if y < length g then crop_row c (g ! y) else blankRow c) [0..<nat r]"

lemma length_crop_row [simp]: "length (crop_row c row) = nat c"
  by (simp add: crop_row_def)

lemma valid_crop_row: "\<forall>x \<in> set row. valid_cell x \<Longrightarrow> \<forall>x \<in> set (crop_row c row). valid_cell x"
  by (auto simp: crop_row_def)

lemma resize_row_eq:
  assumes "ok_screen c0 r0 s" "1 \<le> c0" "1 \<le> c" "0 \<le> y" "y < r0" "y < int (length g)" "g ! nat y = blankRow c"
  shows "resize_row s c y g = Some (g[nat y := crop_row c (cells s ! nat y)])"
proof -
  note s = ok_screenD [OF assms(1)]
  define k where "k = (if c > c0 then c0 else c)"
  let ?src = "cells s ! nat y" and ?k = k
  have l: "length ?src = nat c0" using s(3) assms(4,5) by (rule grid_shape_row)
  have n: "y < int (length (cells s))" using s(3) assms by simp
  have k: "0 \<le> ?k" "?k \<le> int (length ?src)" "?k \<le> int (length (blankRow c))" using assms l by (auto simp: k_def)
  have sub: "slice_sub ?src 0 ?k = Some (take (nat ?k) ?src)" using k by simp
  obtain row where row: "copy_into (blankRow c) 0 ?k (take (nat ?k) ?src) = Some row"
    using copy_into_Some [of 0 ?k "blankRow c" "take (nat ?k) ?src"] k by auto
  have "row = crop_row c ?src"
    using copy_into_nth [OF row] assms(2,3) l
    by (intro nth_equalityI) (auto simp: crop_row_def blankRow_def k_def)
  then show ?thesis using assms n sub row unfolding resize_row_def Let_def s(1) k_def [symmetric] by simp
qed

lemma resize_grid_eq:
  assumes "ok_screen c0 r0 s" "1 \<le> c0" "1 \<le> r0" "1 \<le> c" "1 \<le> r"
  shows "for_up 0 (if r > srows s then srows s else r) (resize_row s c) (allocGrid c r) =
    Some (crop_grid c r (cells s))"
proof -
  note s = ok_screenD [OF assms(1)]
  let ?k = "if r > r0 then r0 else r"
  let ?I = "\<lambda>k g. length g = nat r \<and>
    (\<forall>y < nat r. g ! y = (if int y < k then crop_row c (cells s ! y) else blankRow c))"
  have "\<exists>g. for_up 0 ?k (resize_row s c) (allocGrid c r) = Some g \<and> ?I ?k g"
  proof (rule for_up_rule [where I = ?I])
    show "?I 0 (allocGrid c r)" by (simp add: allocGrid_def)
    show "0 \<le> ?k" using assms by simp
    fix k g assume k: "0 \<le> k" "k < ?k" and I: "?I k g"
    have "resize_row s c k g = Some (g[nat k := crop_row c (cells s ! nat k)])"
      using k I assms by (intro resize_row_eq [OF assms(1)]) (auto simp: nat_less_iff split: if_splits)
    moreover have "?I (k + 1) (g[nat k := crop_row c (cells s ! nat k)])"
      using k I by (auto simp: nth_list_update le_less)
    ultimately show "\<exists>g'. resize_row s c k g = Some g' \<and> ?I (k + 1) g'" by blast
  qed
  then obtain g where g: "for_up 0 ?k (resize_row s c) (allocGrid c r) = Some g" and I: "?I ?k g" by blast
  have len: "length (cells s) = nat r0" using s(3) by (simp add: grid_shape_def)
  have "g = crop_grid c r (cells s)"
    using I assms by (intro nth_equalityI) (auto simp: crop_grid_def len split: if_splits)
  then show ?thesis using g unfolding s(2) by simp
qed

definition resized :: "int \<Rightarrow> int \<Rightarrow> screen \<Rightarrow> screen" where
  "resized c r s = s\<lparr>scols := c, srows := r, cells := crop_grid c r (cells s), cx := min (cx s) (c - 1),
     cy := min (cy s) (r - 1), scrollTop := 1, scrollBottom := r\<rparr>"

lemma screen_resize_eq:
  assumes "ok_screen c0 r0 s" "1 \<le> c0" "1 \<le> r0" "1 \<le> c" "1 \<le> r"
  shows "screen_resize c r s = Some (resized c r s)"
proof -
  have "(if c \<le> cx s then c - 1 else cx s) = min (cx s) (c - 1)"
    "(if r \<le> cy s then r - 1 else cy s) = min (cy s) (r - 1)" by auto
  then show ?thesis using resize_grid_eq [OF assms] by (simp add: screen_resize_def Let_def resized_def)
qed

lemma resized_ok:
  assumes "ok_screen c0 r0 s" "1 \<le> c" "1 \<le> r"
  shows "ok_screen c r (resized c r s)"
proof -
  note s = ok_screenD [OF assms(1)]
  have "grid_shape c r (crop_grid c r (cells s))"
    by (rule grid_shapeI) (simp_all add: crop_grid_def)
  moreover have "good_grid (crop_grid c r (cells s))"
    using good_grid_cells [OF assms(1)]
    by (intro good_gridI) (auto simp: crop_grid_def good_grid_def dest!: valid_crop_row [rule_format, rotated])
  ultimately show ?thesis using s assms
    by (auto simp: ok_screen_def wf_screen_def resized_def good_screen_def good_grid_def min_def)
qed

lemma Resize_total:
  assumes "wf_emulator e" "c \<le> maxDim" "r \<le> maxDim"
  shows "\<exists>e'. Resize e c r = Some e' \<and> wf_emulator e' \<and> cols e' = max c 1 \<and> rows e' = max r 1 \<and>
    (e' = e \<or> primary e' = resized (max c 1) (max r 1) (primary e) \<and>
       alt e' = resized (max c 1) (max r 1) (alt e) \<and> dirty e')"
proof -
  have c: "(if c < 1 then 1 else c) = max c 1" "(if r < 1 then 1 else r) = max r 1" by simp_all
  have ok: "ok_screen (cols e) (rows e) (primary e)" "ok_screen (cols e) (rows e) (alt e)"
    "1 \<le> cols e" "1 \<le> rows e" using assms(1) by (simp_all add: wf_emulator_def)
  have one: "1 \<le> max c 1" "1 \<le> max r 1" by simp_all
  note eqs = screen_resize_eq [OF ok(1) ok(3,4) one] screen_resize_eq [OF ok(2) ok(3,4) one]
  have "max c 1 \<le> maxDim" "max r 1 \<le> maxDim" using assms by (simp_all add: maxDim_def)
  then have "wf_emulator (e\<lparr>cols := max c 1, rows := max r 1,
      primary := resized (max c 1) (max r 1) (primary e), alt := resized (max c 1) (max r 1) (alt e)\<rparr>)"
    using assms(1) ok one resized_ok by (simp add: wf_emulator_def)
  then show ?thesis using assms(1) by (auto simp: Resize_def c eqs Let_def)
qed

text \<open>
  Resizing never panics and keeps the invariant; both buffers keep every cell of the
  overlapping rectangle, new cells are blank, the cursors are clamped into the new grid, and the
  scroll regions become the whole screen. Dimensions below 1 are taken as 1.
\<close>
theorem Resize_spec:
  assumes "wf_emulator e" "c \<le> maxDim" "r \<le> maxDim"
  shows "\<exists>e'. Resize e c r = Some e' \<and> wf_emulator e' \<and> cols e' = max c 1 \<and> rows e' = max r 1 \<and>
    (e' = e \<or> primary e' = resized (max c 1) (max r 1) (primary e) \<and>
       alt e' = resized (max c 1) (max r 1) (alt e) \<and> dirty e')"
  using assms by (rule Resize_total)

text \<open>Witness for \<open>Resize_spec\<close>: shrinking a fresh emulator, with a dimension below 1.\<close>
theorem Resize_spec_witness:
  "\<exists>e'. Resize (NewEmulator 80 24) 40 0 = Some e' \<and> wf_emulator e' \<and> cols e' = max 40 1 \<and> rows e' = max 0 1 \<and>
    (e' = NewEmulator 80 24 \<or> primary e' = resized (max 40 1) (max 0 1) (primary (NewEmulator 80 24)) \<and>
       alt e' = resized (max 40 1) (max 0 1) (alt (NewEmulator 80 24)) \<and> dirty e')"
  by (rule Resize_spec) (simp_all add: NewEmulator_wf maxDim_def)

subsection \<open>Rendering\<close>

lemma render_rows_eq:
  assumes "wf_emulator e"
  shows "render_rows e = Some (cells (curScreen e))"
proof -
  note s = ok_screenD [OF wf_curScreen [OF assms]] and d = wf_dims [OF assms]
  let ?g = "cells (curScreen e)" and ?copy = "go_copy (replicate (nat (cols e)) zeroCell)"
  have len: "length ?g = nat (rows e)" using s(3) by (simp add: grid_shape_def)
  have "map ?copy ?g = ?g"
    using s(3) by (intro map_idI) (simp add: grid_shape_def go_copy_same_length)
  then show ?thesis using for_up_map [OF len, of ?copy "[]"] d by (simp add: render_rows_def Let_def)
qed

text \<open>What \<open>Render\<close> shows: the dimensions, the cursor and the active buffer's cells.\<close>

definition view :: "emulator \<Rightarrow> Screen" where
  "view e = \<lparr>Cols = cols e, Rows = rows e,
     Cursor = \<lparr>curX = cx (curScreen e), curY = cy (curScreen e), curVisible = cursorVisible e\<rparr>,
     Cells = cells (curScreen e)\<rparr>"

definition settled :: "emulator \<Rightarrow> emulator" where
  "settled e = (if dirty e then e\<lparr>revision := revision e + 1, dirty := False\<rparr> else e)"

lemma settled_simps [simp]:
  "curScreen (settled e) = curScreen e" "view (settled e) = view e" "dirty (settled e) = False"
  "revision (settled e) = Rev e" "wf_emulator e \<Longrightarrow> wf_emulator (settled e)"
  by (simp_all add: settled_def view_def Rev_def)

lemma Render_eq:
  assumes "wf_emulator e"
  shows "Render e = Some ((view e, Rev e), settled e)"
proof -
  have r: "render_rows (settled e) = Some (cells (curScreen e))"
    using render_rows_eq [of "settled e"] assms by simp
  have v: "cols (settled e) = cols e" "rows (settled e) = rows e" "cursorVisible (settled e) = cursorVisible e"
    by (simp_all add: settled_def)
  show ?thesis unfolding Render_def Let_def settled_def [symmetric] using r v by (simp add: view_def)
qed

subsection \<open>The revision number\<close>

text \<open>
  A step is honest when it does not touch the revision counter, never clears the dirty flag, and
  sets it whenever the view changes.
\<close>

definition honest :: "emulator \<Rightarrow> emulator \<Rightarrow> bool" where
  "honest e e' \<longleftrightarrow> revision e' = revision e \<and> (dirty e \<longrightarrow> dirty e') \<and> (\<not> dirty e' \<longrightarrow> view e' = view e)"

lemma honest_refl [simp]: "honest e e"
  by (simp add: honest_def)

lemma honest_trans: "honest e f \<Longrightarrow> honest f g \<Longrightarrow> honest e g"
  by (auto simp: honest_def)

lemma honest_mark: "revision e' = revision e \<Longrightarrow> honest e (mark e')"
  by (simp add: honest_def)

lemma honest_upd [simp]:
  "honest e (e\<lparr>utf8Buf := u\<rparr>)" "honest e (e\<lparr>utf8Buf := u, ps := p\<rparr>)" "honest e (e\<lparr>promptState := q\<rparr>)"
  "honest e (e\<lparr>savedCursor := k\<rparr>)" "honest e (e\<lparr>savedCursorAlt := k\<rparr>)"
  by (simp_all add: honest_def view_def)

named_theorems vt_honest
  \<open>dirty-flag honesty, one rule per emulator operation\<close>

lemma scroll_revision:
  "scrollUp e t b n = Some e' \<Longrightarrow> revision e' = revision e"
  "scrollDown e t b n = Some e' \<Longrightarrow> revision e' = revision e"
  by (auto simp: scrollUp_def scrollDown_def Let_def bind_eq_Some_conv split: if_splits)

lemma lineFeed_honest [vt_honest]: "lineFeed e = Some e' \<Longrightarrow> honest e e'"
  by (auto simp: lineFeed_def Let_def bind_eq_Some_conv scroll_revision intro!: honest_mark
      split: if_splits prod.splits)

lemma lineFeed_revision: "lineFeed e = Some e' \<Longrightarrow> revision e' = revision e"
  using lineFeed_honest [of e e'] by (simp add: honest_def)

lemma printRune_honest [vt_honest]: "printRune e r = Some e' \<Longrightarrow> honest e e'"
  by (auto simp: printRune_def Let_def bind_eq_Some_conv intro!: honest_mark dest!: lineFeed_revision
      split: if_splits)

lemma executeC0_honest [vt_honest]: "executeC0 e b = Some e' \<Longrightarrow> honest e e'"
  by (auto simp: executeC0_def Let_def honest_mark lineFeed_honest split: if_splits)

lemma saveCursor_honest [vt_honest]: "honest e (saveCursor e)"
  by (simp add: saveCursor_def Let_def)

lemma restoreCursor_honest [vt_honest]: "honest e (restoreCursor e)"
  by (simp add: restoreCursor_def clampCursor_def Let_def honest_mark)

lemma hardReset_honest [vt_honest]: "honest e (hardReset e)"
  by (simp add: hardReset_def honest_mark)

lemma dispatchESC_honest [vt_honest]: "dispatchESC e f im = Some e' \<Longrightarrow> honest e e'"
  by (auto simp: dispatchESC_def Let_def bind_eq_Some_conv scroll_revision vt_honest intro!: honest_mark
      split: if_splits prod.splits)

lemma handleOSC_honest [vt_honest]: "honest e (handleOSC e payload)"
  by (auto simp: handleOSC_def split: list.split)

lemma erase_honest [vt_honest]:
  "eraseInDisplay e m = Some e' \<Longrightarrow> honest e e'" "eraseInLine e m = Some e' \<Longrightarrow> honest e e'"
  "eraseChars e n = Some e' \<Longrightarrow> honest e e'" "insertChars e n = Some e' \<Longrightarrow> honest e e'"
  "deleteChars e n = Some e' \<Longrightarrow> honest e e'"
  by (auto simp: eraseInDisplay_def eraseInLine_def eraseChars_def insertChars_def deleteChars_def
      Let_def bind_eq_Some_conv intro!: honest_mark split: if_splits)

lemma lines_honest [vt_honest]:
  "insertLines n e = Some e' \<Longrightarrow> honest e e'" "deleteLines n e = Some e' \<Longrightarrow> honest e e'"
  "scrollRegionUp n e = Some e' \<Longrightarrow> honest e e'" "scrollRegionDown n e = Some e' \<Longrightarrow> honest e e'"
  by (auto simp: insertLines_def deleteLines_def scrollRegionUp_def scrollRegionDown_def Let_def
      bind_eq_Some_conv scroll_revision intro!: honest_mark split: if_splits prod.splits)

lemma switchAltScreen_honest [vt_honest]: "honest e (switchAltScreen e u)"
  by (simp add: switchAltScreen_def honest_mark)

lemma setDecMode_honest [vt_honest]: "setDecMode m st e = Some e' \<Longrightarrow> honest e e'"
  by (auto simp: setDecMode_def honest_mark vt_honest split: if_splits
      intro: honest_trans [OF switchAltScreen_honest restoreCursor_honest]
        honest_trans [OF honest_trans [OF saveCursor_honest switchAltScreen_honest] erase_honest(1)])

lemma setDecModes_honest: "foldM (\<lambda>pm. setDecMode pm st) modes e = Some e' \<Longrightarrow> honest e e'"
  by (induction modes arbitrary: e) (auto split: option.splits intro: honest_trans setDecMode_honest)

lemma applySGR_honest [vt_honest]: "honest e (setCur e (applySGR (curScreen e) params))"
  using applySGR_pen [of "curScreen e" params]
  by (cases "applySGR (curScreen e) params"; cases "curScreen e")
    (simp add: honest_def view_def same_but_pen_def)

lemma setScrollRegion_honest [vt_honest]: "honest e (setScrollRegion params e)"
  by (simp add: setScrollRegion_def Let_def honest_mark)

lemma dispatchCSI_honest [vt_honest]:
  assumes "dispatchCSI e f params im = Some e'"
  shows "honest e e'"
  using assms unfolding dispatchCSI_def Let_def
  by (auto simp: vt_honest honest_mark setDecModes_honest split: if_splits)

lemma dispatch_honest: "dispatch e a = Some e' \<Longrightarrow> honest e e'"
  by (cases a) (auto simp: dispatch_def vt_honest)

lemma writeByte_honest:
  assumes "writeByte b e = Some e'"
  shows "honest e e'"
proof (cases "b < 0x80")
  case True
  then show ?thesis using assms
    by (auto simp: writeByte_def asciiStep_def bind_eq_Some_conv split: option.splits
        intro: honest_trans [OF honest_upd(2)] dest!: dispatch_honest)
next
  case False
  then show ?thesis using assms
    by (auto simp: writeByte_def feedUTF8.simps Let_def printRune_utf8Buf split: option.splits prod.splits if_splits
        intro: honest_trans [OF _ honest_upd(1)] dest!: printRune_honest)
qed

lemma Write_honest: "Write e p = Some e' \<Longrightarrow> honest e e'"
  unfolding Write_foldM
  by (induction p arbitrary: e) (auto split: option.splits intro: honest_trans writeByte_honest)

text \<open>
  C20: the revision identifies the rendered screen. If output is written after a rendering and the
  revision is still the one of that rendering, rendering again gives the same screen: a client
  that polls \<open>Rev\<close> and skips unchanged revisions never misses a change.
\<close>
theorem Rev_identifies_screen:
  assumes "wf_emulator e" "Render e = Some ((scr, rv), e1)" "Write e1 p = Some e2" "wf_emulator e2"
    and "Rev e2 = rv"
  shows "Render e2 = Some ((scr, rv), e2)"
proof -
  have 1: "scr = view e" "rv = Rev e" "e1 = settled e" using assms(1,2) Render_eq by auto
  have h: "honest e1 e2" using assms(3) by (rule Write_honest)
  have clean: "\<not> dirty e2" using assms(5) h 1 by (auto simp: honest_def Rev_def settled_def split: if_splits)
  then have "view e2 = scr" using h 1 by (simp add: honest_def)
  moreover have "settled e2 = e2" using clean by (simp add: settled_def)
  ultimately show ?thesis using Render_eq [OF assms(4)] assms(5) by simp
qed

text \<open>Witness for \<open>Rev_identifies_screen\<close>: the bell character leaves the screen and the revision alone.\<close>
theorem Rev_identifies_screen_witness:
  "Render (NewEmulator 2 1) = Some ((view (NewEmulator 2 1), 0), NewEmulator 2 1) \<and>
   Write (NewEmulator 2 1) [0x07] = Some (NewEmulator 2 1) \<and>
   Render (NewEmulator 2 1) = Some ((view (NewEmulator 2 1), 0), NewEmulator 2 1)"
proof -
  let ?e = "NewEmulator 2 1"
  have wf: "wf_emulator ?e" by (simp add: NewEmulator_wf maxDim_def)
  have r: "Render ?e = Some ((view ?e, 0), ?e)"
    using Render_eq [OF wf] by (simp add: Rev_def settled_def NewEmulator_def Let_def)
  have w: "Write ?e [0x07] = Some ?e"
    by (simp add: Write_foldM writeByte_def asciiStep_def NewEmulator_def Let_def parser_init_def zeroParser_def
        feedByte_in_ground handleC0_def goto_state_def dispatch_def executeC0_def)
  have "Rev ?e = 0" by (simp add: Rev_def NewEmulator_def Let_def)
  from Rev_identifies_screen [OF wf r w wf this] r w show ?thesis by blast
qed

end
