(* ===== verification/Vt_Behaviour.thy ===== *)
theory Vt_Behaviour
  imports Vt_View
begin

text \<open>
  What the emulator does with the sequences programs rely on: printing and wrapping, erasing,
  shifting and scrolling on any well-formed emulator; the alternate screen; prompt markers; and
  the sequences on which the code fails.
\<close>

subsection \<open>Printing\<close>

text \<open>The emulator after a pending wrap has been carried out.\<close>

definition wrapped :: "emulator \<Rightarrow> emulator" where
  "wrapped e = (let s = (curScreen e)\<lparr>cx := 0\<rparr>; e0 = setCur e s in
     if cy s < scrollBottom s - 1 then setCur e0 (s\<lparr>cy := cy s + 1\<rparr>)
     else if cy s = scrollBottom s - 1
     then setCur e0 (s\<lparr>cells := region_up (scrollTop s - 1) (scrollBottom s - 1) 1 (blankRow (cols e)) (cells s)\<rparr>)
     else e0)"

definition put :: "rune \<Rightarrow> screen \<Rightarrow> screen" where
  "put r s = s\<lparr>cells := (cells s)[nat (cy s) := (cells s ! nat (cy s))
       [nat (cx s) := \<lparr>Rune = r, FG = fg s, BG = bg s, Attrs = attrs s\<rparr>]], cx := cx s + 1\<rparr>"

text \<open>
  Printing a character writes it with the current pen at the cursor and advances the cursor
  by one; when the cursor is past the last column it first moves to the start of the next line,
  scrolling the scroll region by one line when the cursor is on the region's last row.
\<close>
theorem printRune_spec:
  assumes "wf_emulator e" "valid_rune r"
  shows "printRune e r = Some (mark (let e1 = (if cx (curScreen e) = cols e then wrapped e else e) in
    setCur e1 (put r (curScreen e1))))"
proof -
  note s = ok_screenD [OF wf_curScreen [OF assms(1)]]
  let ?e0 = "setCur e ((curScreen e)\<lparr>cx := 0\<rparr>)"
  define e1 where "e1 = (if cx (curScreen e) = cols e then wrapped e else e)"
  have wf0: "wf_emulator ?e0" using assms(1) by (intro wf_setCur ok_screen_cx0 wf_curScreen)
  have w: "lineFeed ?e0 = Some (mark (wrapped e))"
    by (simp add: lineFeed_eq [OF wf0] wrapped_def Let_def)
  have wf1: "wf_emulator e1" and c1: "cols e1 = cols e" and x1: "cx (curScreen e1) < cols e1"
    using lineFeed_wf [OF wf0] w assms(1) s(1,5) wf_dims [OF assms(1)] by (auto simp: e1_def)
  note s1 = ok_screenD [OF wf_curScreen [OF wf1]] and row = ok_screen_cur_row [OF wf_curScreen [OF wf1]]
  have "grid_set (cells (curScreen e1)) (cy (curScreen e1)) (cx (curScreen e1)) v =
      Some ((cells (curScreen e1))[nat (cy (curScreen e1)) :=
        (cells (curScreen e1) ! nat (cy (curScreen e1)))[nat (cx (curScreen e1)) := v]])" for v
    using s1 row x1 by (intro grid_set_Some) auto
  moreover have "mark (setCur (mark e) t) = mark (setCur e t)" for e t
    by (simp add: mark_def setCur_def split: bufref.split)
  ultimately show ?thesis unfolding e1_def [symmetric] Let_def put_def using s(1,5) w
    by (cases "cx (curScreen e) = cols e") (auto simp: printRune_def Let_def e1_def)
qed

text \<open>Witness for \<open>printRune_spec\<close>: a character in the corner of a fresh screen.\<close>
theorem printRune_spec_witness:
  "printRune (NewEmulator 2 1) 0x41 = Some (mark (let e1 = (if cx (curScreen (NewEmulator 2 1)) =
     cols (NewEmulator 2 1) then wrapped (NewEmulator 2 1) else NewEmulator 2 1) in
     setCur e1 (put 0x41 (curScreen e1))))"
  by (rule printRune_spec) (simp_all add: NewEmulator_wf maxDim_def valid_rune_def)

subsection \<open>Erase to the left\<close>

lemma for_up_snoc: "lo \<le> hi \<Longrightarrow> for_up lo (hi + 1) body s = Option.bind (for_up lo hi body s) (body hi)"
proof (induction lo hi body s rule: for_up.induct)
  case (1 lo hi body s)
  show ?case
  proof (cases "lo = hi")
    case True
    then show ?thesis by (simp add: for_up_step split: option.split)
  next
    case False
    then show ?thesis using "1.IH" "1.prems" by (simp add: for_up_step split: option.split)
  qed
qed

lemma erase_left_None:
  assumes "ok_screen c r s" "0 < c" "cx s = c"
    "grid_shape c r g"
  shows "for_up 0 (cx s + 1) (\<lambda>x h. grid_set h (cy s) x pen) g = None"
proof -
  note d = ok_screenD [OF assms(1)]
  have y: "0 \<le> cy s" "cy s < int (length g)" using d assms(4) by auto
  have l: "length (g ! nat (cy s)) = nat c" using assms(4) d by (intro grid_shape_row) auto
  have "for_up 0 (cx s) (\<lambda>x h. grid_set h (cy s) x pen) g =
      Some (g[nat (cy s) := fill_range 0 (cx s) (\<lambda>_. pen) (g ! nat (cy s))])"
    by (rule for_up_grid_set) (use y l assms in auto)
  moreover have "grid_set (g[nat (cy s) := fill_range 0 (cx s) (\<lambda>_. pen) (g ! nat (cy s))]) (cy s) (cx s) pen = None"
    using y l assms by (simp add: grid_set_def slice_set_def nat_less_iff)
  ultimately show ?thesis using d by (subst for_up_snoc) simp_all
qed

lemma erase_left_panics:
  assumes ok: "ok_screen (cols e) (rows e) (curScreen e)" and c: "1 \<le> cols e" "cx (curScreen e) = cols e"
  shows "eraseInLine e 1 = None" "eraseInDisplay e 1 = None"
proof -
  note s = ok_screenD [OF ok]
  let ?s = "curScreen e"
  show "eraseInLine e 1 = None"
    using erase_left_None [OF ok _ c(2) s(3)] c by (simp add: eraseInLine_def Let_def)
  have row: "length (blankPenRow ?s) = nat (cols e)" by (simp add: s(1))
  have "for_up 0 (cy ?s) (\<lambda>y h. slice_set h y (blankPenRow ?s)) (cells ?s) =
      Some (fill_range 0 (cy ?s) (\<lambda>_. blankPenRow ?s) (cells ?s))"
    by (rule for_up_slice_set) (use s in auto)
  moreover have "grid_shape (cols e) (rows e) (fill_range 0 (cy ?s) (\<lambda>_. blankPenRow ?s) (cells ?s))"
    by (rule fill_rows_grid(1) [OF s(3) good_grid_cells [OF ok] row valid_blankPenRow [OF s(12)]])
  ultimately show "eraseInDisplay e 1 = None"
    using erase_left_None [OF ok _ c(2)] c by (simp add: eraseInDisplay_def Let_def)
qed

subsection \<open>Control sequences, from bytes to effect\<close>

lemma writeByte_ascii:
  "b < 0x80 \<Longrightarrow> feedByte (ps e) b = Some (a, st, p') \<Longrightarrow> writeByte b e = dispatch (e\<lparr>utf8Buf := [], ps := p'\<rparr>) a"
  by (simp add: writeByte_def asciiStep_def)

lemma Write_one_action:
  assumes "feedBytes (ps e) bs = Some (replicate n actNone @ [a], p')" "\<forall>b \<in> set bs. b < 0x80"
  shows "Write e bs = dispatch (e\<lparr>utf8Buf := [], ps := p'\<rparr>) a"
  using assms
proof (induction bs arbitrary: e n)
  case Nil
  then show ?case by simp
next
  case (Cons b bs)
  obtain a1 st p1 where f: "feedByte (ps e) b = Some (a1, st, p1)"
    using Cons.prems(1) by (auto split: option.splits)
  then obtain as where as: "feedBytes p1 bs = Some (as, p')" "a1 # as = replicate n actNone @ [a]"
    using Cons.prems(1) by (auto split: option.splits)
  note w = writeByte_ascii [OF _ f]
  show ?case
  proof (cases n)
    case 0
    then have "bs = []" using as by (cases bs) (auto split: option.splits)
    then show ?thesis using as 0 w Cons.prems(2) by (simp add: Write_foldM split: option.split)
  next
    case (Suc m)
    then have "Write (e\<lparr>utf8Buf := [], ps := p1\<rparr>) bs = dispatch (e\<lparr>utf8Buf := [], ps := p'\<rparr>) a"
      using Cons.IH [of "e\<lparr>utf8Buf := [], ps := p1\<rparr>" m] Cons.prems(2) as by simp
    then show ?thesis using Suc as w Cons.prems(2) by (simp add: Write_foldM dispatch_def)
  qed
qed

lemma csi_bytes_ascii: "final \<le> 0x7E \<Longrightarrow> \<forall>b \<in> set (csi_sequence ns final). b < 0x80"
  by (auto simp: csi_sequence_def byte_arith param_byte_def dest!: csi_params_bytes)

lemma Write_csi_ex:
  assumes "ns \<noteq> []" "\<forall>n \<in> set ns. int n < 2 ^ 63" "length (csi_params ns) < paramCap"
    "0x40 \<le> final" "final \<le> 0x7E"
  shows "\<exists>p'. state p' = stGround \<and> Write e (csi_sequence ns final) =
    dispatchCSI (e\<lparr>utf8Buf := [], ps := p'\<rparr>) final (map int ns) []"
proof -
  obtain p' where p': "feedBytes (ps e) (csi_sequence ns final) =
      Some (replicate (length (csi_params ns) + 2) actNone @ [actCSI final [] (map int ns)], p')"
    "state p' = stGround"
    using csi_sequence_actions [OF assms, of "ps e"] by blast
  show ?thesis using Write_one_action [OF p'(1) csi_bytes_ascii [OF assms(5)]] p'(2)
    by (auto simp: dispatch_def)
qed

text \<open>
  Round trip of control sequences. Whatever the parser was doing, writing a CSI sequence with
  decimal parameters (each below 2^63, at most 31 parameter bytes) performs exactly that control
  function with exactly those parameters, and leaves the parser in its ground state.
\<close>
theorem Write_csi:
  assumes "ns \<noteq> []" "\<forall>n \<in> set ns. int n < 2 ^ 63" "length (csi_params ns) < paramCap"
    "0x40 \<le> final" "final \<le> 0x7E"
  shows "\<exists>p'. state p' = stGround \<and> Write e (csi_sequence ns final) =
    dispatchCSI (e\<lparr>utf8Buf := [], ps := p'\<rparr>) final (map int ns) []"
  using assms by (rule Write_csi_ex)

text \<open>Witness for \<open>Write_csi\<close>: cursor position \<open>ESC [ 12 ; 40 H\<close>.\<close>
theorem Write_csi_witness:
  "\<exists>p'. state p' = stGround \<and> Write (NewEmulator 80 24) (csi_sequence [12, 40] 0x48) =
    dispatchCSI ((NewEmulator 80 24)\<lparr>utf8Buf := [], ps := p'\<rparr>) 0x48 (map int [12, 40]) []"
  by (rule Write_csi) (simp_all add: dec_digits.simps paramCap_def)

subsection \<open>Two sequences the code fails on\<close>

lemma csi_one: "length (csi_params [1]) < paramCap"
  by (simp add: dec_digits.simps paramCap_def)

text \<open>
  C35: a line that ends in the last column, followed by ``erase to the left'' (\<open>ESC [ 1 K\<close>) or
  ``erase above'' (\<open>ESC [ 1 J\<close>), indexes one cell past the row: the emulator panics.
\<close>
theorem Write_erase_left_panics:
  assumes "wf_emulator e" "cx (curScreen e) = cols e"
  shows "Write e (csi_sequence [1] 0x4B) = None \<and> Write e (csi_sequence [1] 0x4A) = None"
proof -
  have p: "eraseInLine (e\<lparr>utf8Buf := [], ps := q\<rparr>) 1 = None" "eraseInDisplay (e\<lparr>utf8Buf := [], ps := q\<rparr>) 1 = None" for q
    using erase_left_panics [of "e\<lparr>utf8Buf := [], ps := q\<rparr>"] wf_curScreen [OF assms(1)]
      wf_dims [OF assms(1)] assms(2) by auto
  obtain q1 where "Write e (csi_sequence [1] 0x4B) = dispatchCSI (e\<lparr>utf8Buf := [], ps := q1\<rparr>) 0x4B (map int [1]) []"
    using Write_csi_ex [OF _ _ csi_one, of "0x4B" e] by auto
  moreover obtain q2 where "Write e (csi_sequence [1] 0x4A) = dispatchCSI (e\<lparr>utf8Buf := [], ps := q2\<rparr>) 0x4A (map int [1]) []"
    using Write_csi_ex [OF _ _ csi_one, of "0x4A" e] by auto
  ultimately show ?thesis using p by (simp add: dispatchCSI_def csi_p0_def)
qed

text \<open>Witness for \<open>Write_erase_left_panics\<close>: one character fills the row of a one-column screen.\<close>
theorem Write_erase_left_panics_witness:
  "\<exists>e. Write (NewEmulator 1 1) [0x41] = Some e \<and>
     Write e (csi_sequence [1] 0x4B) = None \<and> Write e (csi_sequence [1] 0x4A) = None"
proof -
  let ?e = "NewEmulator 1 1"
  have wf: "wf_emulator ?e" by (simp add: NewEmulator_wf maxDim_def)
  have "utf8_encode 0x41 = [0x41]" by (simp add: utf8_encode_def byte_of_def)
  then have w: "Write ?e [0x41] = printRune ?e 0x41"
    using Write_rune [where r = "0x41" and e = ?e]
    by (simp add: printable_def valid_rune_def NewEmulator_def parser_init_def)
  obtain e where e: "printRune ?e 0x41 = Some e" "wf_emulator e"
    using printRune_wf [OF wf, where r = "0x41"] by (auto simp: valid_rune_def)
  have "cx (curScreen e) = cols e"
    using e(1) by (auto simp: printRune_def NewEmulator_def curScreen_def setCur_def mark_def newScreen_def
        Let_def bind_eq_Some_conv)
  from Write_erase_left_panics [OF e(2) this] w e(1) show ?thesis by simp
qed

text \<open>The largest parameter: adding it to a positive coordinate wraps to a negative one.\<close>

lemma csi_max: "length (csi_params [2 ^ 63 - 1]) < paramCap"
  by (simp add: dec_digits.simps paramCap_def)

lemma cursorDown_wraps:
  assumes "1 \<le> cy s" "cy s < srows s" "srows s \<le> maxDim"
  shows "cy (cursorDown (2 ^ 63 - 1) s) < 0"
proof -
  have "wrap64 (cy s + (2 ^ 63 - 1)) = wrap64 (cy s - 1 - 2 ^ 63)"
  proof -
    have "cy s + (2 ^ 63 - 1) + 2 ^ 63 = (cy s - 1 - 2 ^ 63 + 2 ^ 63) + 2 ^ 64" by simp
    then show ?thesis unfolding wrap64_def by (simp only: mod_add_self2)
  qed
  also have "\<dots> = cy s - 1 - 2 ^ 63" using assms by (intro wrap64_id) (simp_all add: maxDim_def)
  finally show ?thesis using assms by (simp add: cursorDown_def Let_def maxDim_def)
qed

text \<open>
  The cursor-down sequence with the largest 64-bit parameter passes the lower bound check
  because the addition overflows: the cursor leaves the grid upwards and the next character panics.
\<close>
theorem Write_cursor_overflow_panics:
  assumes "wf_emulator e" "1 \<le> cy (curScreen e)" "cx (curScreen e) < cols e"
  shows "Write e (csi_sequence [2 ^ 63 - 1] 0x42 @ [0x41]) = None"
proof -
  note s = ok_screenD [OF wf_curScreen [OF assms(1)]]
  obtain q where q: "state q = stGround" "Write e (csi_sequence [2 ^ 63 - 1] 0x42) =
      dispatchCSI (e\<lparr>utf8Buf := [], ps := q\<rparr>) 0x42 (map int [2 ^ 63 - 1]) []"
    using Write_csi_ex [OF _ _ csi_max, of "0x42" e] by auto
  let ?t = "cursorDown (2 ^ 63 - 1) (curScreen e)" and ?e0 = "e\<lparr>utf8Buf := [], ps := q\<rparr>"
  define e1 where "e1 = mark (setCur ?e0 ?t)"
  have w: "Write e (csi_sequence [2 ^ 63 - 1] 0x42) = Some e1"
    unfolding q(2) by (simp add: dispatchCSI_def csi_p_def e1_def)
  have t: "cy ?t < 0" "cx ?t = cx (curScreen e)" "scols ?t = cols e"
    using cursorDown_wraps [of "curScreen e"] assms s wf_dims [OF assms(1)] by (auto simp: cursorDown_def Let_def)
  have "printRune e1 0x41 = None"
    using t assms(3) by (simp add: printRune_def e1_def grid_set_def slice_get_def)
  moreover have "Write e1 (utf8_encode 0x41) = printRune e1 0x41"
    by (rule Write_rune) (simp_all add: e1_def q(1) printable_def valid_rune_def)
  ultimately show ?thesis using w Write_append [of e _ "[0x41]"] by (simp add: utf8_encode_def byte_of_def)
qed

text \<open>Witness for \<open>Write_cursor_overflow_panics\<close>: on the second line of a fresh screen.\<close>
theorem Write_cursor_overflow_panics_witness:
  "\<exists>e. Write (NewEmulator 80 24) [0x0A] = Some e \<and> Write e (csi_sequence [2 ^ 63 - 1] 0x42 @ [0x41]) = None"
proof -
  let ?e = "NewEmulator 80 24"
  have wf: "wf_emulator ?e" by (simp add: NewEmulator_wf maxDim_def)
  have st: "state (ps ?e) = stGround" "utf8Buf ?e = []" by (simp_all add: NewEmulator_def parser_init_def)
  have f: "feedByte (ps ?e) 0x0A = Some (actExecute 0x0A, stGround, ps ?e)"
    by (simp add: feedByte_in_ground [OF st(1)] handleC0_def st(1))
  have "?e\<lparr>utf8Buf := [], ps := ps ?e\<rparr> = ?e" using st(2) by simp
  then have w: "Write ?e [0x0A] = lineFeed ?e"
    by (simp add: Write_foldM writeByte_ascii [OF _ f] dispatch_def executeC0_def split: option.split)
  obtain e where e: "lineFeed ?e = Some e" "wf_emulator e" "cols e = cols ?e"
    using lineFeed_wf [OF wf] by blast
  have "cy (curScreen e) = 1" "cx (curScreen e) < cols e"
    using e(1,3) unfolding lineFeed_eq [OF wf]
    by (auto simp: NewEmulator_def curScreen_def newScreen_def Let_def setCur_def mark_def)
  then show ?thesis using Write_cursor_overflow_panics [OF e(2)] w e(1) by simp
qed

subsection \<open>Erasing, position by position\<close>

text \<open>The positions that erase-in-display removes: after, before, or all, in reading order.\<close>

definition erased :: "int \<Rightarrow> screen \<Rightarrow> nat \<Rightarrow> nat \<Rightarrow> bool" where
  "erased mode s y x \<longleftrightarrow>
     mode = 0 \<and> (int y > cy s \<or> int y = cy s \<and> int x \<ge> cx s) \<or>
     mode = 1 \<and> (int y < cy s \<or> int y = cy s \<and> int x \<le> cx s) \<or> mode = 2 \<or> mode = 3"

text \<open>
  Erase in display blanks, in the pen's colours, exactly the cells from the cursor to the end
  (mode 0), from the start to the cursor (mode 1) or all of them (modes 2 and 3), keeps every
  other cell and moves nothing else.
\<close>
theorem eraseInDisplay_spec:
  assumes "wf_emulator e" "mode = 1 \<longrightarrow> cx (curScreen e) < cols e"
  shows "\<exists>g. eraseInDisplay e mode = Some (mark (setCur e ((curScreen e)\<lparr>cells := g\<rparr>))) \<and>
    length g = nat (rows e) \<and> (\<forall>y < nat (rows e). length (g ! y) = nat (cols e) \<and> (\<forall>x < nat (cols e).
      g ! y ! x = (if erased mode (curScreen e) y x then penCell (curScreen e) else cells (curScreen e) ! y ! x)))"
proof (intro exI conjI)
  let ?s = "curScreen e"
  note ok = wf_curScreen [OF assms(1)]
  note s = ok_screenD [OF ok]
  note sh = ed_grid_ok(1) [OF ok, of mode]
  show "eraseInDisplay e mode = Some (mark (setCur e (?s\<lparr>cells := ed_grid mode ?s\<rparr>)))"
    by (rule eraseInDisplay_eq [OF assms])
  show len: "length (ed_grid mode ?s) = nat (rows e)" using sh by (simp add: grid_shape_def)
  have lc: "length (cells ?s) = nat (rows e)" using s(3) by (simp add: grid_shape_def)
  show "\<forall>y < nat (rows e). length (ed_grid mode ?s ! y) = nat (cols e) \<and> (\<forall>x < nat (cols e).
      ed_grid mode ?s ! y ! x = (if erased mode ?s y x then penCell ?s else cells ?s ! y ! x))"
  proof (intro allI impI conjI)
    fix y assume y: "y < nat (rows e)"
    show "length (ed_grid mode ?s ! y) = nat (cols e)" using grid_shape_nth [OF sh] y len by simp
    fix x assume x: "x < nat (cols e)"
    have l: "length (cells ?s ! y) = nat (cols e)" using grid_shape_nth [OF s(3)] y lc by simp
    have row: "el_grid rng ?s ! y = (if int y = cy ?s
        then fill_range (fst rng) (snd rng) (\<lambda>_. penCell ?s) (cells ?s ! y) else cells ?s ! y)" for rng
    proof (cases "int y = cy ?s")
      case True
      then have "nat (cy ?s) = y" by simp
      then show ?thesis using True y lc by (simp add: el_grid_def)
    next
      case False
      then have "nat (cy ?s) \<noteq> y" using s(6) by auto
      then show ?thesis using False by (simp add: el_grid_def)
    qed
    show "ed_grid mode ?s ! y ! x = (if erased mode ?s y x then penCell ?s else cells ?s ! y ! x)"
      using x y l lc s by (auto simp: ed_grid_def row ed_rows_def el_range_def erased_def blankPenRow_def
          el_grid_def [THEN arg_cong [where f = length]])
  qed
qed

text \<open>Witness for \<open>eraseInDisplay_spec\<close>: clearing a fresh screen.\<close>
theorem eraseInDisplay_spec_witness:
  "\<exists>g. eraseInDisplay (NewEmulator 2 1) 2 =
      Some (mark (setCur (NewEmulator 2 1) ((curScreen (NewEmulator 2 1))\<lparr>cells := g\<rparr>))) \<and>
    length g = nat (rows (NewEmulator 2 1)) \<and>
    (\<forall>y < nat (rows (NewEmulator 2 1)). length (g ! y) = nat (cols (NewEmulator 2 1)) \<and>
      (\<forall>x < nat (cols (NewEmulator 2 1)). g ! y ! x =
        (if erased 2 (curScreen (NewEmulator 2 1)) y x then penCell (curScreen (NewEmulator 2 1))
         else cells (curScreen (NewEmulator 2 1)) ! y ! x)))"
  by (rule eraseInDisplay_spec) (simp_all add: NewEmulator_wf maxDim_def)

text \<open>
  Inserting and deleting characters shift only the rest of the cursor's row: insertion opens
  a gap in the pen's colours at the cursor and drops cells at the right end, deletion closes the
  gap and fills the right end; counts are at least one and at most what is left of the row.
\<close>
theorem shiftChars_spec:
  assumes "wf_emulator e" "cx (curScreen e) < cols e"
  shows "insertChars e n = Some (mark (let s = curScreen e in setCur e (s\<lparr>cells := (cells s)[nat (cy s) :=
      insert_row (cx s) (shift_amount n s) (penCell s) (cells s ! nat (cy s))]\<rparr>))) \<and>
    deleteChars e n = Some (mark (let s = curScreen e in setCur e (s\<lparr>cells := (cells s)[nat (cy s) :=
      delete_row (cx s) (shift_amount n s) (penCell s) (cells s ! nat (cy s))]\<rparr>)))"
  using assms by (simp add: insertChars_eq deleteChars_eq Let_def)

text \<open>Witness for \<open>shiftChars_spec\<close>: at the origin of a fresh screen, with an oversized count.\<close>
theorem shiftChars_spec_witness:
  "insertChars (NewEmulator 2 1) 7 = Some (mark (let s = curScreen (NewEmulator 2 1) in
      setCur (NewEmulator 2 1) (s\<lparr>cells := (cells s)[nat (cy s) :=
      insert_row (cx s) (shift_amount 7 s) (penCell s) (cells s ! nat (cy s))]\<rparr>))) \<and>
    deleteChars (NewEmulator 2 1) 7 = Some (mark (let s = curScreen (NewEmulator 2 1) in
      setCur (NewEmulator 2 1) (s\<lparr>cells := (cells s)[nat (cy s) :=
      delete_row (cx s) (shift_amount 7 s) (penCell s) (cells s ! nat (cy s))]\<rparr>)))"
proof (rule shiftChars_spec)
  show "wf_emulator (NewEmulator 2 1)" by (simp add: NewEmulator_wf maxDim_def)
  show "cx (curScreen (NewEmulator 2 1)) < cols (NewEmulator 2 1)"
    by (simp add: NewEmulator_def curScreen_def newScreen_def)
qed

end
