(* ===== verification/Vt_Alt.thy ===== *)
theory Vt_Alt
  imports Vt_Behaviour
begin

text \<open>
  The alternate screen and operating-system commands: a full-screen program between the two 1049
  mode switches cannot disturb the primary screen, and which bytes of an OSC string reach the grid.
\<close>

subsection \<open>The alternate screen\<close>

text \<open>A step that stays on the alternate screen and touches nothing of the primary one.\<close>

definition alt_frame :: "emulator \<Rightarrow> emulator \<Rightarrow> bool" where
  "alt_frame e e' \<longleftrightarrow> useAlt e' \<and> cur e' = RefAlt \<and> primary e' = primary e \<and>
     savedCursor e' = savedCursor e \<and> cols e' = cols e \<and> rows e' = rows e"

definition on_alt :: "emulator \<Rightarrow> bool" where
  "on_alt e \<longleftrightarrow> useAlt e \<and> cur e = RefAlt"

named_theorems vt_alt
  \<open>operations that keep to the alternate screen\<close>

lemma alt_frame_refl: "on_alt e \<Longrightarrow> alt_frame e e"
  by (simp add: alt_frame_def on_alt_def)

lemma alt_frame_trans: "alt_frame e f \<Longrightarrow> alt_frame f g \<Longrightarrow> alt_frame e g"
  by (simp add: alt_frame_def)

lemma alt_frame_on: "alt_frame e f \<Longrightarrow> on_alt f"
  by (simp add: alt_frame_def on_alt_def)

lemma alt_frame_basic [vt_alt]:
  "on_alt e \<Longrightarrow> alt_frame e (setCur e s)" "on_alt e \<Longrightarrow> alt_frame e (mark e)"
  "on_alt e \<Longrightarrow> alt_frame e (mark (setCur e s))"
  "on_alt e \<Longrightarrow> alt_frame e (saveCursor e)" "on_alt e \<Longrightarrow> alt_frame e (handleOSC e payload)"
  "on_alt e \<Longrightarrow> alt_frame e (setScrollRegion params e)"
  "on_alt e \<Longrightarrow> alt_frame e (restoreCursor e)"
  by (auto simp: alt_frame_def on_alt_def setCur_def mark_def saveCursor_def handleOSC_def Let_def
      setScrollRegion_def restoreCursor_def clampCursor_def split: list.split)

lemma alt_frame_mark: "alt_frame e f \<Longrightarrow> alt_frame e (mark f)"
  by (simp add: alt_frame_def mark_def)

lemma scroll_alt [vt_alt]:
  "on_alt e \<Longrightarrow> scrollUp e t b n = Some e' \<Longrightarrow> alt_frame e e'"
  "on_alt e \<Longrightarrow> scrollDown e t b n = Some e' \<Longrightarrow> alt_frame e e'"
  by (auto simp: scrollUp_def scrollDown_def Let_def bind_eq_Some_conv alt_frame_refl alt_frame_basic
      split: if_splits)

lemma lineFeed_alt [vt_alt]: "on_alt e \<Longrightarrow> lineFeed e = Some e' \<Longrightarrow> alt_frame e e'"
  by (auto simp: lineFeed_def Let_def bind_eq_Some_conv alt_frame_refl vt_alt
      intro!: alt_frame_mark split: if_splits prod.splits)

lemma printRune_alt [vt_alt]:
  assumes "on_alt e" "printRune e r = Some e'"
  shows "alt_frame e e'"
proof -
  obtain e1 s where e1: "alt_frame e e1" and e': "e' = mark (setCur e1 s)"
    using assms alt_frame_refl [OF assms(1)]
      lineFeed_alt [OF alt_frame_on [OF alt_frame_basic(1) [OF assms(1)]]]
      alt_frame_trans [OF alt_frame_basic(1) [OF assms(1)]]
    by (fastforce simp: printRune_def Let_def bind_eq_Some_conv split: if_splits)
  then show ?thesis using alt_frame_trans [OF e1 alt_frame_basic(3) [OF alt_frame_on [OF e1]]] by simp
qed

lemma executeC0_alt [vt_alt]: "on_alt e \<Longrightarrow> executeC0 e b = Some e' \<Longrightarrow> alt_frame e e'"
  by (auto simp: executeC0_def Let_def alt_frame_refl vt_alt split: if_splits)

lemma dispatchESC_alt [vt_alt]:
  "on_alt e \<Longrightarrow> \<not> (f = 0x63 \<and> im = []) \<Longrightarrow> dispatchESC e f im = Some e' \<Longrightarrow> alt_frame e e'"
  by (auto simp: dispatchESC_def Let_def bind_eq_Some_conv alt_frame_refl vt_alt
      intro!: alt_frame_mark split: if_splits prod.splits)

lemma edit_alt [vt_alt]:
  "on_alt e \<Longrightarrow> eraseInDisplay e m = Some e' \<Longrightarrow> alt_frame e e'"
  "on_alt e \<Longrightarrow> eraseInLine e m = Some e' \<Longrightarrow> alt_frame e e'"
  "on_alt e \<Longrightarrow> eraseChars e n = Some e' \<Longrightarrow> alt_frame e e'"
  "on_alt e \<Longrightarrow> insertChars e n = Some e' \<Longrightarrow> alt_frame e e'"
  "on_alt e \<Longrightarrow> deleteChars e n = Some e' \<Longrightarrow> alt_frame e e'"
  by (auto simp: eraseInDisplay_def eraseInLine_def eraseChars_def insertChars_def deleteChars_def
      Let_def bind_eq_Some_conv alt_frame_refl alt_frame_basic split: if_splits)

lemma lines_alt [vt_alt]:
  "on_alt e \<Longrightarrow> insertLines n e = Some e' \<Longrightarrow> alt_frame e e'"
  "on_alt e \<Longrightarrow> deleteLines n e = Some e' \<Longrightarrow> alt_frame e e'"
  "on_alt e \<Longrightarrow> scrollRegionUp n e = Some e' \<Longrightarrow> alt_frame e e'"
  "on_alt e \<Longrightarrow> scrollRegionDown n e = Some e' \<Longrightarrow> alt_frame e e'"
  by (auto simp: insertLines_def deleteLines_def scrollRegionUp_def scrollRegionDown_def Let_def
      bind_eq_Some_conv alt_frame_refl scroll_alt intro!: alt_frame_mark split: if_splits prod.splits)

lemma setDecModes_alt [vt_alt]:
  assumes "foldM (\<lambda>pm. setDecMode pm st) modes e = Some e'" "on_alt e" "set modes \<inter> {47, 1047, 1049} = {}"
  shows "alt_frame e e'"
  using assms
proof (induction modes arbitrary: e)
  case Nil
  then show ?case by (simp add: alt_frame_refl)
next
  case (Cons m modes)
  obtain e1 where e1: "setDecMode m st e = Some e1" "foldM (\<lambda>pm. setDecMode pm st) modes e1 = Some e'"
    using Cons.prems(1) by (auto split: option.splits)
  have "alt_frame e e1" using Cons.prems(2,3) e1(1)
    by (auto simp: setDecMode_def on_alt_def alt_frame_def mark_def split: if_splits)
  then show ?case using Cons.IH [OF e1(2)] Cons.prems(3) alt_frame_on alt_frame_trans by auto
qed

text \<open>
  The actions of a program that stays on the alternate screen: everything but a full reset and
  the screen-switching modes.
\<close>

definition keeps_alt :: "action \<Rightarrow> bool" where
  "keeps_alt a = (case a of
     actESC f im \<Rightarrow> \<not> (f = 0x63 \<and> im = [])
   | actCSI f im params \<Rightarrow> im = [0x3F] \<longrightarrow> set params \<inter> {47, 1047, 1049} = {}
   | _ \<Rightarrow> True)"

lemma dispatchCSI_alt:
  assumes "on_alt e" "im = [0x3F] \<longrightarrow> set params \<inter> {47, 1047, 1049} = {}" "dispatchCSI e f params im = Some e'"
  shows "alt_frame e e'"
  using assms(3) unfolding dispatchCSI_def Let_def
  using assms(1,2) by (auto simp: vt_alt alt_frame_refl split: if_splits)

lemma dispatch_alt: "on_alt e \<Longrightarrow> keeps_alt a \<Longrightarrow> dispatch e a = Some e' \<Longrightarrow> alt_frame e e'"
  by (cases a) (auto simp: dispatch_def keeps_alt_def vt_alt alt_frame_refl dest: dispatchCSI_alt)

lemma dispatches_alt:
  "foldM (\<lambda>a e. dispatch e a) acts e = Some e' \<Longrightarrow> on_alt e \<Longrightarrow> \<forall>a \<in> set acts. keeps_alt a \<Longrightarrow> alt_frame e e'"
proof (induction acts arbitrary: e)
  case Nil
  then show ?case by (simp add: alt_frame_refl)
next
  case (Cons a acts)
  then obtain e1 where e1: "dispatch e a = Some e1" "foldM (\<lambda>a e. dispatch e a) acts e1 = Some e'"
    by (auto split: option.splits)
  have "alt_frame e e1" by (rule dispatch_alt [OF _ _ e1(1)]) (use Cons.prems in auto)
  then show ?case using Cons.IH [OF e1(2)] Cons.prems(3) alt_frame_on alt_frame_trans by auto
qed

definition enterAlt :: action where "enterAlt = actCSI 0x68 [0x3F] [1049]"
definition leaveAlt :: action where "leaveAlt = actCSI 0x6C [0x3F] [1049]"

lemma enterAlt_frame:
  assumes "wf_emulator e" "\<not> useAlt e" "dispatch e enterAlt = Some e1"
  shows "on_alt e1" "primary e1 = primary e" "cols e1 = cols e" "rows e1 = rows e"
    "savedCursor e1 = \<lparr>cs_x = cx (primary e), cs_y = cy (primary e), cs_fg = fg (primary e),
       cs_bg = bg (primary e), cs_attrs = attrs (primary e)\<rparr>"
proof -
  have c: "cur e = RefPrimary" using assms(1,2) by (simp add: wf_emulator_def)
  let ?f = "switchAltScreen (saveCursor e) True"
  have f: "on_alt ?f" "primary ?f = primary e" "cols ?f = cols e" "rows ?f = rows e"
    "savedCursor ?f = \<lparr>cs_x = cx (primary e), cs_y = cy (primary e), cs_fg = fg (primary e),
       cs_bg = bg (primary e), cs_attrs = attrs (primary e)\<rparr>"
    using assms(2) c
    by (simp_all add: switchAltScreen_def saveCursor_def Let_def on_alt_def mark_def curScreen_def)
  have "eraseInDisplay ?f 2 = Some e1"
    using assms(3) by (simp add: dispatch_def enterAlt_def dispatchCSI_def setDecMode_def split: option.splits)
  from edit_alt(1) [OF f(1) this] f
  show "on_alt e1" "primary e1 = primary e" "cols e1 = cols e" "rows e1 = rows e"
    "savedCursor e1 = \<lparr>cs_x = cx (primary e), cs_y = cy (primary e), cs_fg = fg (primary e),
       cs_bg = bg (primary e), cs_attrs = attrs (primary e)\<rparr>"
    by (auto simp: alt_frame_def on_alt_def)
qed

text \<open>
  C22: the alternate screen is transparent. Entering it (mode 1049), running any program that
  neither resets the terminal nor switches screens itself, and leaving it again gives back the
  primary screen: the same cells, scroll region and pen, and the cursor where it was, only a
  pending wrap is pulled back into the last column.
\<close>
theorem alt_screen_transparent:
  assumes "wf_emulator e" "\<not> useAlt e" "\<forall>a \<in> set acts. keeps_alt a"
    and "foldM (\<lambda>a e. dispatch e a) (enterAlt # acts @ [leaveAlt]) e = Some e'"
  shows "\<not> useAlt e' \<and> curScreen e' = (primary e)\<lparr>cx := min (cx (primary e)) (cols e - 1)\<rparr>"
proof -
  obtain e1 e2 where e1: "dispatch e enterAlt = Some e1"
    and e2: "foldM (\<lambda>a e. dispatch e a) acts e1 = Some e2" and e3: "dispatch e2 leaveAlt = Some e'"
    using assms(4) by (auto simp: foldM_append bind_eq_Some_conv split: option.splits)
  note f1 = enterAlt_frame [OF assms(1,2) e1]
  have f2: "alt_frame e1 e2" using dispatches_alt [OF e2 f1(1) assms(3)] .
  have e': "e' = restoreCursor (switchAltScreen e2 False)"
    using e3 by (simp add: dispatch_def leaveAlt_def dispatchCSI_def setDecMode_def split: option.splits)
  have c: "cur e = RefPrimary" using assms(1,2) by (simp add: wf_emulator_def)
  then have ok: "ok_screen (cols e) (rows e) (primary e)"
    using wf_curScreen [OF assms(1)] by (simp add: curScreen_def)
  note s = ok_screenD [OF ok]
  have u: "useAlt e2" "primary e2 = primary e" "savedCursor e2 = savedCursor e1"
    using f1 f2 by (auto simp: alt_frame_def)
  show ?thesis using u f1(5) s wf_dims [OF assms(1)]
    by (cases "primary e") (simp add: e' restoreCursor_def clampCursor_def switchAltScreen_def Let_def curScreen_def mark_def setCur_def min_def)
qed

text \<open>Witness for \<open>alt_screen_transparent\<close>: a full-screen program that prints one character.\<close>
theorem alt_screen_transparent_witness:
  "\<exists>e'. foldM (\<lambda>a e. dispatch e a) (enterAlt # [actPrint 0x41] @ [leaveAlt]) (NewEmulator 2 1) = Some e' \<and>
     \<not> useAlt e' \<and> curScreen e' = (primary (NewEmulator 2 1))\<lparr>cx := min (cx (primary (NewEmulator 2 1)))
       (cols (NewEmulator 2 1) - 1)\<rparr>"
proof -
  have wf: "wf_emulator (NewEmulator 2 1)" by (simp add: NewEmulator_wf maxDim_def)
  have safe: "safe_action e a" if "a \<in> {enterAlt, actPrint 0x41, leaveAlt}" for e a
    using that by (auto simp: safe_action_def enterAlt_def leaveAlt_def bounded_params_def maxParam_def)
  obtain e' where e': "foldM (\<lambda>a e. dispatch e a) (enterAlt # [actPrint 0x41] @ [leaveAlt]) (NewEmulator 2 1) = Some e'"
    using foldM_rule [where I = wf_emulator and f = "\<lambda>a e. dispatch e a" and s = "NewEmulator 2 1"
        and xs = "enterAlt # [actPrint 0x41] @ [leaveAlt]"] dispatch_wf safe wf by fastforce
  from alt_screen_transparent [OF wf _ _ e'] show ?thesis using e'
    by (auto simp: NewEmulator_def keeps_alt_def)
qed

subsection \<open>Operating-system commands\<close>

definition osc_sequence :: "byte list \<Rightarrow> byte list" where
  "osc_sequence payload = 0x1B # 0x5D # payload @ [0x07]"

lemma feedBytes_osc:
  assumes "state p = stOSCString" "\<forall>b \<in> set bs. 0x20 \<le> b" "length (oscBuf p) + length bs < oscCap"
  shows "feedBytes p bs = Some (replicate (length bs) actNone, p\<lparr>oscBuf := oscBuf p @ bs\<rparr>)"
  using assms
proof (induction bs arbitrary: p)
  case Nil
  then show ?case by simp
next
  case (Cons b bs)
  have "\<not> b < 0x20" "b \<noteq> 0x07" using Cons.prems(2) by (auto simp: byte_arith)
  then have "feedByte p b = Some (actNone, stOSCString, p\<lparr>oscBuf := oscBuf p @ [b]\<rparr>)"
    using Cons.prems by (simp add: feedByte_def push_osc_def)
  then show ?case using Cons.IH [of "p\<lparr>oscBuf := oscBuf p @ [b]\<rparr>"] Cons.prems by simp
qed

lemma feedBytes_osc_open:
  "feedBytes p [0x1B, 0x5D] = Some ([actNone, actNone], p\<lparr>inter := [], oscBuf := [], state := stOSCString\<rparr>)"
  by (simp add: feedByte_def handleC0_def goto_state_def)

lemma feedByte_osc_close:
  "state p = stOSCString \<Longrightarrow> feedByte p 0x07 = Some (actOSC (oscBuf p), stGround, p\<lparr>oscBuf := [], state := stGround\<rparr>)"
  by (simp add: feedByte_def handleC0_def finish_def buildOSC_def)

lemma Write_osc:
  assumes "\<forall>b \<in> set payload. 0x20 \<le> b \<and> b < 0x80" "length payload < oscCap"
  shows "\<exists>p'. state p' = stGround \<and> Write e (osc_sequence payload) =
    Some (handleOSC (e\<lparr>utf8Buf := [], ps := p'\<rparr>) payload)"
proof -
  let ?q = "(ps e)\<lparr>inter := [], oscBuf := [], state := stOSCString\<rparr>"
  have "feedBytes ?q payload = Some (replicate (length payload) actNone, ?q\<lparr>oscBuf := payload\<rparr>)"
    using feedBytes_osc [of ?q payload] assms by simp
  then have "feedBytes ?q (payload @ [0x07]) = Some (replicate (length payload) actNone @ [actOSC payload],
      ?q\<lparr>oscBuf := [], state := stGround\<rparr>)"
    by (simp add: feedBytes_append feedByte_osc_close)
  then have "feedBytes (ps e) ([0x1B, 0x5D] @ payload @ [0x07]) =
      Some ([actNone, actNone] @ replicate (length payload) actNone @ [actOSC payload], ?q\<lparr>oscBuf := [], state := stGround\<rparr>)"
    by (simp only: feedBytes_append [of "ps e"] feedBytes_osc_open option.case prod.case)
  then have "feedBytes (ps e) (osc_sequence payload) =
      Some (replicate (length payload + 2) actNone @ [actOSC payload], ?q\<lparr>oscBuf := [], state := stGround\<rparr>)"
    by (simp add: osc_sequence_def)
  from Write_one_action [OF this] assms show ?thesis
    by (intro exI [of _ "?q\<lparr>oscBuf := [], state := stGround\<rparr>"]) (auto simp: osc_sequence_def dispatch_def)
qed

text \<open>
  Prompt markers. From any parser state, an OSC 133 marker sets the prompt state its letter
  stands for (A, B and D: at the prompt, C: running) and changes nothing of the rendered screen.
\<close>
theorem Write_prompt_marker:
  assumes "c \<in> {0x41, 0x42, 0x43, 0x44}"
  shows "\<exists>e'. Write e (osc_sequence [0x31, 0x33, 0x33, 0x3B, c]) = Some e' \<and>
    GetPromptState e' = (if c = 0x43 then PromptRunning else PromptAtPrompt) \<and>
    view e' = view e \<and> Rev e' = Rev e"
proof -
  have "\<forall>b \<in> set [0x31, 0x33, 0x33, 0x3B, c]. 0x20 \<le> b \<and> b < 0x80" using assms by auto
  then obtain p' where "Write e (osc_sequence [0x31, 0x33, 0x33, 0x3B, c]) =
      Some (handleOSC (e\<lparr>utf8Buf := [], ps := p'\<rparr>) [0x31, 0x33, 0x33, 0x3B, c])"
    using Write_osc [of "[0x31, 0x33, 0x33, 0x3B, c]" e] by (auto simp: oscCap_def)
  then show ?thesis using assms by (auto simp: handleOSC_def GetPromptState_def view_def Rev_def)
qed

text \<open>Witness for \<open>Write_prompt_marker\<close>: a command starts running.\<close>
theorem Write_prompt_marker_witness:
  "\<exists>e'. Write (NewEmulator 2 1) (osc_sequence [0x31, 0x33, 0x33, 0x3B, 0x43]) = Some e' \<and>
    GetPromptState e' = (if (0x43 :: byte) = 0x43 then PromptRunning else PromptAtPrompt) \<and>
    view e' = view (NewEmulator 2 1) \<and> Rev e' = Rev (NewEmulator 2 1)"
  by (rule Write_prompt_marker) simp

text \<open>
  A character outside ASCII in an OSC string (a window title, for instance) does not stay in
  the string: it is printed on the grid at the cursor.
\<close>
theorem Write_osc_leaks:
  assumes "valid_rune r" "0x80 \<le> r"
  shows "\<exists>p1 p2. Write e (osc_sequence ([0x30, 0x3B] @ utf8_encode r)) =
    map_option (\<lambda>e'. e'\<lparr>ps := p2\<rparr>) (printRune (e\<lparr>utf8Buf := [], ps := p1\<rparr>) r)"
proof -
  let ?p1 = "(ps e)\<lparr>inter := [], oscBuf := [0x30, 0x3B], state := stOSCString\<rparr>"
  let ?p2 = "?p1\<lparr>oscBuf := [], state := stGround\<rparr>" and ?e1 = "e\<lparr>utf8Buf := [], ps := ?p1\<rparr>"
  have "feedBytes (ps e) ([0x1B, 0x5D] @ [0x30, 0x3B]) = Some (replicate 3 actNone @ [actNone], ?p1)"
    unfolding feedBytes_append feedBytes_osc_open
    by (simp add: feedBytes_osc oscCap_def numeral_3_eq_3 del: feedBytes.simps)
  from Write_one_action [OF this] have a: "Write e [0x1B, 0x5D, 0x30, 0x3B] = Some ?e1"
    by (simp add: dispatch_def)
  have b: "Write ?e1 (utf8_encode r) = printRune ?e1 r" by (rule Write_rune_high [OF assms]) simp
  have c: "Write e2 [0x07] = Some (e2\<lparr>ps := ?p2\<rparr>)" if "printRune ?e1 r = Some e2" for e2
  proof -
    have "ps e2 = ?p1" "utf8Buf e2 = []" using printRune_ps [OF that] by simp_all
    then show ?thesis using feedByte_osc_close [of ?p1]
      by (simp add: Write_foldM writeByte_ascii dispatch_def handleOSC_def)
  qed
  have "osc_sequence ([0x30, 0x3B] @ utf8_encode r) = [0x1B, 0x5D, 0x30, 0x3B] @ utf8_encode r @ [0x07]"
    by (simp add: osc_sequence_def)
  then have "Write e (osc_sequence ([0x30, 0x3B] @ utf8_encode r)) =
      map_option (\<lambda>e'. e'\<lparr>ps := ?p2\<rparr>) (printRune ?e1 r)"
    using b c by (simp only: Write_append a bind.bind_lunit) (cases "printRune ?e1 r"; simp)
  then show ?thesis by blast
qed

text \<open>Witness for \<open>Write_osc_leaks\<close>: a title with an accented letter.\<close>
theorem Write_osc_leaks_witness:
  "\<exists>p1 p2. Write (NewEmulator 2 1) (osc_sequence ([0x30, 0x3B] @ utf8_encode 0xE9)) =
    map_option (\<lambda>e'. e'\<lparr>ps := p2\<rparr>) (printRune ((NewEmulator 2 1)\<lparr>utf8Buf := [], ps := p1\<rparr>) 0xE9)"
  by (rule Write_osc_leaks) (simp_all add: valid_rune_def)

end
