(* ===== verification/Hub_Domain.thy ===== *)
theory Hub_Domain
  imports Go_Prelude "HOL-Library.AList"
begin

text \<open>
  The hub's domain (\<^verbatim>\<open>internal/hub/domain\<close>): machines, sessions, projects and audit events, the
  errors its packages define, and Go maps.

  \<^item> A Go \<open>map[string]T\<close> is an association list with distinct keys. The order in which \<open>range\<close>
    visits it is not specified by the language; here it is the order of the list, and no theorem
    depends on it.
  \<^item> An error value is the sentinel it wraps: the code only ever inspects errors with \<open>errors.Is\<close>.
\<close>

subsection \<open>Go maps\<close>

type_synonym 'v gomap = "(string \<times> 'v) list"

definition m_get :: "'v gomap \<Rightarrow> string \<Rightarrow> 'v option" where
  "m_get m k = map_of m k"

definition m_put :: "string \<Rightarrow> 'v \<Rightarrow> 'v gomap \<Rightarrow> 'v gomap" where
  "m_put k v m = AList.update k v m"

definition m_del :: "string \<Rightarrow> 'v gomap \<Rightarrow> 'v gomap" where
  "m_del k m = AList.delete k m"

text \<open>The values in iteration order, and the loop that rewrites each entry.\<close>

definition m_vals :: "'v gomap \<Rightarrow> 'v list" where
  "m_vals m = map snd m"

definition m_each :: "('v \<Rightarrow> 'v) \<Rightarrow> 'v gomap \<Rightarrow> 'v gomap" where
  "m_each f m = map (\<lambda>(k, v). (k, f v)) m"

definition wf_map :: "'v gomap \<Rightarrow> bool" where
  "wf_map m \<longleftrightarrow> distinct (map fst m)"

text \<open>Any store with a lookup that these laws describe behaves like a finite map.\<close>

locale keyed_store =
  fixes look :: "'s \<Rightarrow> 'k \<Rightarrow> 'v option"
    and put :: "'k \<Rightarrow> 'v \<Rightarrow> 's \<Rightarrow> 's"
    and del :: "'k \<Rightarrow> 's \<Rightarrow> 's"
  assumes look_put: "look (put k v s) k' = (if k' = k then Some v else look s k')"
    and look_del: "look (del k s) k' = (if k' = k then None else look s k')"
begin

lemma look_put_same: "look (put k v s) k = Some v"
  by (simp add: look_put)

lemma look_del_same: "look (del k s) k = None"
  by (simp add: look_del)

lemma put_put: "look (put k v (put k w s)) = look (put k v s)"
  by (rule ext) (simp add: look_put)

lemma put_commute: "k \<noteq> l \<Longrightarrow> look (put k v (put l w s)) = look (put l w (put k v s))"
  by (rule ext) (simp add: look_put)

lemma del_put: "look s k = None \<Longrightarrow> look (del k (put k v s)) = look s"
  by (rule ext) (simp add: look_put look_del)

end

interpretation gomap: keyed_store m_get m_put m_del
  by unfold_locales (simp_all add: m_get_def m_put_def m_del_def update_conv' delete_conv')

lemmas m_get_simps [simp] = gomap.look_put gomap.look_del

lemma m_get_empty [simp]: "m_get [] k = None"
  by (simp add: m_get_def)

lemma m_get_each [simp]: "m_get (m_each f m) k = map_option f (m_get m k)"
  by (induction m) (auto simp: m_get_def m_each_def)

lemma m_vals_iff: "wf_map m \<Longrightarrow> v \<in> set (m_vals m) \<longleftrightarrow> (\<exists>k. m_get m k = Some v)"
  by (force simp: m_vals_def m_get_def wf_map_def image_iff map_of_eq_Some_iff)

lemma wf_map_ops [simp]:
  "wf_map []" "wf_map m \<Longrightarrow> wf_map (m_put k v m)" "wf_map m \<Longrightarrow> wf_map (m_del k m)"
  "wf_map (m_each f m) = wf_map m"
  by (simp_all add: wf_map_def m_put_def m_del_def distinct_update distinct_delete)
    (simp add: m_each_def case_prod_unfold comp_def)

subsection \<open>Errors\<close>

datatype hubError =
    ErrMachineNotFound | ErrSessionNotFound | ErrSessionEnded | ErrProjectNotFound
  | ErrProjectInvalid | ErrDuplicatePath | ErrSessionRunning | ErrHasSessions
  | ErrInvalidToken | ErrRevoked | ErrUnknownMachine | ErrNotRevoked
  | ErrInvalidCredential | ErrNoOperator | ErrOperatorExists | ErrWebAuthnUnavailable
  | ErrChallengeNotFound | ErrMachineOffline | ErrOpenRejected string | ErrOther string

type_synonym 'a result = "hubError + 'a"

subsection \<open>Machines (domain/machine)\<close>

record machine =
  mId :: string
  mInstanceID :: string
  mName :: string
  mOS :: string
  mArch :: string
  mAgentVersion :: string
  mEnrolledAt :: int
  mLastSeenAt :: int
  mRevokedAt :: int

definition NewMachine :: "string \<Rightarrow> string \<Rightarrow> string \<Rightarrow> string \<Rightarrow> string \<Rightarrow> string \<Rightarrow> int \<Rightarrow> machine" where
  "NewMachine i inst n osn arch ver enrolledAt = \<lparr>mId = i, mInstanceID = inst, mName = n, mOS = osn,
     mArch = arch, mAgentVersion = ver, mEnrolledAt = enrolledAt, mLastSeenAt = enrolledAt, mRevokedAt = 0\<rparr>"

definition RehydrateFull ::
    "string \<Rightarrow> string \<Rightarrow> string \<Rightarrow> string \<Rightarrow> string \<Rightarrow> string \<Rightarrow> int \<Rightarrow> int \<Rightarrow> int \<Rightarrow> machine" where
  "RehydrateFull i inst n osn arch ver enrolledAt lastSeenAt revokedAt = \<lparr>mId = i, mInstanceID = inst,
     mName = n, mOS = osn, mArch = arch, mAgentVersion = ver, mEnrolledAt = enrolledAt,
     mLastSeenAt = lastSeenAt, mRevokedAt = revokedAt\<rparr>"

definition machine_Rehydrate ::
    "string \<Rightarrow> string \<Rightarrow> string \<Rightarrow> string \<Rightarrow> string \<Rightarrow> string \<Rightarrow> int \<Rightarrow> int \<Rightarrow> machine" where
  "machine_Rehydrate i inst n osn arch ver enrolledAt lastSeenAt = \<lparr>mId = i, mInstanceID = inst,
     mName = n, mOS = osn, mArch = arch, mAgentVersion = ver, mEnrolledAt = enrolledAt,
     mLastSeenAt = lastSeenAt, mRevokedAt = 0\<rparr>"

definition Revoked :: "machine \<Rightarrow> bool" where
  "Revoked m \<longleftrightarrow> mRevokedAt m \<noteq> 0"

definition machine_MarkRevoked :: "int \<Rightarrow> machine \<Rightarrow> machine" where
  "machine_MarkRevoked ts m = m\<lparr>mRevokedAt := ts\<rparr>"

definition machine_ClearRevoked :: "machine \<Rightarrow> machine" where
  "machine_ClearRevoked m = m\<lparr>mRevokedAt := 0\<rparr>"

definition machine_Touch :: "int \<Rightarrow> machine \<Rightarrow> machine" where
  "machine_Touch ts m = m\<lparr>mLastSeenAt := ts\<rparr>"

subsection \<open>Sessions (domain/session)\<close>

datatype sessionStatus = SRunning | SExited | SLost | SDisconnected

record hsession =
  sId :: string
  sProjectID :: string
  sMachineID :: string
  sTitle :: string
  sShell :: string
  sCwd :: string
  sStatus :: sessionStatus
  sExitCode :: int
  sAutoRelaunch :: bool
  sCreatedAt :: int
  sLastActiveAt :: int
  sActivity :: string
  sPwd :: string

definition NewHubSession ::
    "string \<Rightarrow> string \<Rightarrow> string \<Rightarrow> string \<Rightarrow> string \<Rightarrow> string \<Rightarrow> int \<Rightarrow> hsession" where
  "NewHubSession i machineID projectID title shell cwd createdAt = \<lparr>sId = i, sProjectID = projectID,
     sMachineID = machineID, sTitle = title, sShell = shell, sCwd = cwd, sStatus = SRunning,
     sExitCode = 0, sAutoRelaunch = False, sCreatedAt = createdAt, sLastActiveAt = createdAt,
     sActivity = [], sPwd = []\<rparr>"

definition session_Rehydrate :: "string \<Rightarrow> string \<Rightarrow> string \<Rightarrow> string \<Rightarrow> string \<Rightarrow> string \<Rightarrow> sessionStatus \<Rightarrow> int \<Rightarrow> bool \<Rightarrow>
    int \<Rightarrow> int \<Rightarrow> hsession" where
  "session_Rehydrate i projectID machineID title shell cwd status exitCode autoRelaunch createdAt lastActiveAt =
     \<lparr>sId = i, sProjectID = projectID, sMachineID = machineID, sTitle = title, sShell = shell, sCwd = cwd,
      sStatus = status, sExitCode = exitCode, sAutoRelaunch = autoRelaunch, sCreatedAt = createdAt,
      sLastActiveAt = lastActiveAt, sActivity = [], sPwd = []\<rparr>"

definition session_SetStatus :: "sessionStatus \<Rightarrow> hsession \<Rightarrow> hsession" where
  "session_SetStatus st s = s\<lparr>sStatus := st\<rparr>"

definition session_SetExited :: "int \<Rightarrow> int \<Rightarrow> hsession \<Rightarrow> hsession" where
  "session_SetExited code ts s = s\<lparr>sStatus := SExited, sExitCode := code, sLastActiveAt := ts\<rparr>"

definition session_Touch :: "int \<Rightarrow> hsession \<Rightarrow> hsession" where
  "session_Touch ts s = s\<lparr>sLastActiveAt := ts\<rparr>"

definition session_SetTitle :: "string \<Rightarrow> hsession \<Rightarrow> hsession" where
  "session_SetTitle t s = s\<lparr>sTitle := t\<rparr>"

definition session_SetActivity :: "string \<Rightarrow> hsession \<Rightarrow> hsession" where
  "session_SetActivity a s = s\<lparr>sActivity := a\<rparr>"

definition session_SetPwd :: "string \<Rightarrow> hsession \<Rightarrow> hsession" where
  "session_SetPwd p s = s\<lparr>sPwd := p\<rparr>"

definition session_SetAutoRelaunch :: "bool \<Rightarrow> hsession \<Rightarrow> hsession" where
  "session_SetAutoRelaunch v s = s\<lparr>sAutoRelaunch := v\<rparr>"

lemmas session_defs = session_SetStatus_def session_SetExited_def session_Touch_def session_SetTitle_def
  session_SetActivity_def session_SetPwd_def session_SetAutoRelaunch_def

subsection \<open>Projects (domain/project)\<close>

record project =
  pId :: string
  pMachineID :: string
  pName :: string
  pPath :: string
  pColor :: string
  pCreatedAt :: int

text \<open>
  \<open>strings.TrimSpace\<close> removes leading and trailing Unicode white space. Strings are byte
  sequences, so these are the UTF-8 encodings of the white-space characters.
\<close>

definition space_seqs :: "string list" where
  "space_seqs = map (map (\<lambda>n :: nat. char_of n)) ([[9], [10], [11], [12], [13], [32], [0xC2, 0x85], [0xC2, 0xA0],
     [0xE1, 0x9A, 0x80]] @ map (\<lambda>n. [0xE2, 0x80, n]) ([0x80..<0x8B] @ [0xA8, 0xA9, 0xAF]) @
     [[0xE2, 0x81, 0x9F], [0xE3, 0x80, 0x80]])"

function strip_prefixes :: "string list \<Rightarrow> string \<Rightarrow> string" where
  "strip_prefixes qs s = (case find (\<lambda>q. q \<noteq> [] \<and> take (length q) s = q) qs of
     None \<Rightarrow> s | Some q \<Rightarrow> strip_prefixes qs (drop (length q) s))"
  by pat_completeness auto
termination
  by (relation "measure (\<lambda>(qs, s). length s)") (auto simp: find_Some_iff, metis le_zero_eq length_0_conv
      length_drop length_greater_0_conv diff_less take_eq_Nil)

declare strip_prefixes.simps [simp del]

definition TrimSpace :: "string \<Rightarrow> string" where
  "TrimSpace s = rev (strip_prefixes (map rev space_seqs) (rev (strip_prefixes space_seqs s)))"

definition NewProject :: "string \<Rightarrow> string \<Rightarrow> string \<Rightarrow> string \<Rightarrow> string \<Rightarrow> int \<Rightarrow> project result" where
  "NewProject id0 machineID0 name0 path0 color0 createdAt =
     (let i = TrimSpace id0; machineID = TrimSpace machineID0; n = TrimSpace name0;
          path = TrimSpace path0; color = TrimSpace color0
      in if i = [] then Inl ErrProjectInvalid
         else if machineID = [] then Inl ErrProjectInvalid
         else if n = [] then Inl ErrProjectInvalid
         else if path = [] then Inl ErrProjectInvalid
         else Inr \<lparr>pId = i, pMachineID = machineID, pName = n, pPath = path, pColor = color, pCreatedAt = createdAt\<rparr>)"

definition project_Rehydrate :: "string \<Rightarrow> string \<Rightarrow> string \<Rightarrow> string \<Rightarrow> string \<Rightarrow> int \<Rightarrow> project" where
  "project_Rehydrate i machineID n path color createdAt =
     \<lparr>pId = i, pMachineID = machineID, pName = n, pPath = path, pColor = color, pCreatedAt = createdAt\<rparr>"

subsection \<open>Audit events (domain/audit)\<close>

datatype auditAction =
    ActionLogin | ActionEnroll | ActionAttach | ActionOpen | ActionClose | ActionDelete
  | ActionRevoke | ActionRelaunch | ActionUnrevoke | ActionMachineDelete

record event =
  evTS :: int
  evActor :: string
  evAction :: auditAction
  evMachineID :: string
  evSessionID :: string
  evDetail :: string

definition NewEvent :: "int \<Rightarrow> string \<Rightarrow> auditAction \<Rightarrow> string \<Rightarrow> string \<Rightarrow> string \<Rightarrow> event" where
  "NewEvent ts actor a machineID sessionID detail = \<lparr>evTS = ts, evActor = actor, evAction = a,
     evMachineID = machineID, evSessionID = sessionID, evDetail = detail\<rparr>"

text \<open>The actor carried by a request context, if any.\<close>

definition ActorFromContext :: "string option \<Rightarrow> string" where
  "ActorFromContext ctx = (case ctx of Some v \<Rightarrow> if v \<noteq> [] then v else ''operator'' | None \<Rightarrow> ''operator'')"

end
