(* ===== verification/Memory_Stores.thy ===== *)
theory Memory_Stores
  imports Hub_Domain
begin

text \<open>
  The in-memory stores, \<^verbatim>\<open>internal/hub/adapter/secondary/memory\<close>. Every method runs under its
  store's mutex, so it is one function from the store's contents to a result and new contents;
  a method that can fail returns an error and leaves the contents alone.
\<close>

subsection \<open>SessionStore\<close>

type_synonym sessionStore = "hsession gomap"

definition ss_Create :: "hsession \<Rightarrow> sessionStore \<Rightarrow> sessionStore result" where
  "ss_Create ss d = Inr (m_put (sId ss) ss d)"

definition ss_ByID :: "string \<Rightarrow> sessionStore \<Rightarrow> hsession result" where
  "ss_ByID i d = (case m_get d i of None \<Rightarrow> Inl ErrSessionNotFound | Some ss \<Rightarrow> Inr ss)"

definition ss_List :: "sessionStore \<Rightarrow> hsession list result" where
  "ss_List d = Inr (m_vals d)"

definition ss_ListByMachine :: "string \<Rightarrow> sessionStore \<Rightarrow> hsession list result" where
  "ss_ListByMachine machineID d = Inr (filter (\<lambda>ss. sMachineID ss = machineID) (m_vals d))"

definition ss_AutoRelaunchSessions :: "string \<Rightarrow> sessionStore \<Rightarrow> hsession list result" where
  "ss_AutoRelaunchSessions machineID d =
     Inr (filter (\<lambda>ss. sMachineID ss = machineID \<and> (sStatus ss = SRunning \<or> sStatus ss = SDisconnected) \<and>
       sAutoRelaunch ss) (m_vals d))"

definition ss_CountByProject :: "string \<Rightarrow> sessionStore \<Rightarrow> int result" where
  "ss_CountByProject projectID d = Inr (int (length (filter (\<lambda>ss. sProjectID ss = projectID) (m_vals d))))"

text \<open>The lookup-modify-store pattern of the single-session setters.\<close>

definition ss_modify :: "(hsession \<Rightarrow> hsession) \<Rightarrow> string \<Rightarrow> sessionStore \<Rightarrow> sessionStore result" where
  "ss_modify f i d = (case m_get d i of None \<Rightarrow> Inl ErrSessionNotFound | Some ss \<Rightarrow> Inr (m_put i (f ss) d))"

definition ss_SetExited :: "string \<Rightarrow> int \<Rightarrow> int \<Rightarrow> sessionStore \<Rightarrow> sessionStore result" where
  "ss_SetExited i exitCode ts = ss_modify (session_SetExited exitCode ts) i"

definition ss_MarkRunningLost :: "string \<Rightarrow> int \<Rightarrow> sessionStore \<Rightarrow> sessionStore result" where
  "ss_MarkRunningLost machineID ts d =
     Inr (m_each (\<lambda>ss. if sMachineID ss = machineID \<and> (sStatus ss = SRunning \<or> sStatus ss = SDisconnected) \<and>
         \<not> sAutoRelaunch ss then session_Touch ts (session_SetStatus SLost ss) else ss) d)"

definition ss_MarkRunningDisconnected :: "string \<Rightarrow> int \<Rightarrow> sessionStore \<Rightarrow> sessionStore result" where
  "ss_MarkRunningDisconnected machineID ts d =
     Inr (m_each (\<lambda>ss. if sMachineID ss = machineID \<and> sStatus ss = SRunning
       then session_Touch ts (session_SetStatus SDisconnected ss) else ss) d)"

definition ss_MarkDisconnectedRunning :: "string \<Rightarrow> sessionStore \<Rightarrow> sessionStore result" where
  "ss_MarkDisconnectedRunning machineID d =
     Inr (m_each (\<lambda>ss. if sMachineID ss = machineID \<and> sStatus ss = SDisconnected
       then session_SetStatus SRunning ss else ss) d)"

definition ss_SetRunning :: "string \<Rightarrow> sessionStore \<Rightarrow> sessionStore result" where
  "ss_SetRunning = ss_modify (session_SetStatus SRunning)"

definition ss_SetLost :: "string \<Rightarrow> int \<Rightarrow> sessionStore \<Rightarrow> sessionStore result" where
  "ss_SetLost i ts = ss_modify (\<lambda>ss. session_Touch ts (session_SetStatus SLost ss)) i"

definition ss_SetTitle :: "string \<Rightarrow> string \<Rightarrow> sessionStore \<Rightarrow> sessionStore result" where
  "ss_SetTitle i title = ss_modify (session_SetTitle title) i"

definition ss_SetAutoRelaunch :: "string \<Rightarrow> bool \<Rightarrow> sessionStore \<Rightarrow> sessionStore result" where
  "ss_SetAutoRelaunch i v = ss_modify (session_SetAutoRelaunch v) i"

definition ss_Delete :: "string \<Rightarrow> sessionStore \<Rightarrow> sessionStore result" where
  "ss_Delete i d = (case m_get d i of None \<Rightarrow> Inl ErrSessionNotFound | Some _ \<Rightarrow> Inr (m_del i d))"

definition ss_SetStat :: "string \<Rightarrow> string \<Rightarrow> string \<Rightarrow> int \<Rightarrow> sessionStore \<Rightarrow> sessionStore result" where
  "ss_SetStat i activity pwd lastActiveAt =
     ss_modify (\<lambda>ss. let s1 = (if activity \<noteq> [] then session_SetActivity activity ss else ss);
                         s2 = (if pwd \<noteq> [] then session_SetPwd pwd s1 else s1)
                     in if lastActiveAt > 0 then session_Touch lastActiveAt s2 else s2) i"

text \<open>Every stored session is stored under its own ID.\<close>

definition wf_sessions :: "sessionStore \<Rightarrow> bool" where
  "wf_sessions d \<longleftrightarrow> wf_map d \<and> (\<forall>k ss. m_get d k = Some ss \<longrightarrow> sId ss = k)"

lemma ss_modify_wf:
  "wf_sessions d \<Longrightarrow> (\<And>ss. sId (f ss) = sId ss) \<Longrightarrow> ss_modify f i d = Inr d' \<Longrightarrow> wf_sessions d'"
  by (auto simp: ss_modify_def wf_sessions_def split: option.splits if_splits)

lemma m_each_wf: "wf_sessions d \<Longrightarrow> (\<And>ss. sId (f ss) = sId ss) \<Longrightarrow> wf_sessions (m_each f d)"
  by (auto simp: wf_sessions_def)

subsection \<open>MachineStore\<close>

type_synonym machineStore = "machine gomap"

definition ms_Upsert :: "machine \<Rightarrow> machineStore \<Rightarrow> machineStore result" where
  "ms_Upsert m d = (case m_get d (mId m) of
     Some existing \<Rightarrow> Inr (m_put (mId m) (RehydrateFull (mId m) (mInstanceID m) (mName m) (mOS m) (mArch m)
       (mAgentVersion m) (mEnrolledAt existing) (mLastSeenAt m) (mRevokedAt existing)) d)
   | None \<Rightarrow> Inr (m_put (mId m) m d))"

definition ms_UpdateLastSeen :: "string \<Rightarrow> int \<Rightarrow> machineStore \<Rightarrow> machineStore result" where
  "ms_UpdateLastSeen i ts d = (case m_get d i of None \<Rightarrow> Inl ErrMachineNotFound
   | Some m \<Rightarrow> Inr (m_put i (RehydrateFull (mId m) (mInstanceID m) (mName m) (mOS m) (mArch m)
       (mAgentVersion m) (mEnrolledAt m) ts (mRevokedAt m)) d))"

definition ms_MarkRevoked :: "string \<Rightarrow> int \<Rightarrow> machineStore \<Rightarrow> machineStore result" where
  "ms_MarkRevoked i ts d = (case m_get d i of None \<Rightarrow> Inl ErrMachineNotFound
   | Some m \<Rightarrow> Inr (m_put i (machine_MarkRevoked ts m) d))"

definition ms_ClearRevoked :: "string \<Rightarrow> machineStore \<Rightarrow> machineStore result" where
  "ms_ClearRevoked i d = (case m_get d i of None \<Rightarrow> Inl ErrMachineNotFound
   | Some m \<Rightarrow> Inr (m_put i (machine_ClearRevoked m) d))"

definition ms_Delete :: "string \<Rightarrow> machineStore \<Rightarrow> machineStore result" where
  "ms_Delete i d = (case m_get d i of None \<Rightarrow> Inl ErrMachineNotFound | Some _ \<Rightarrow> Inr (m_del i d))"

definition ms_List :: "machineStore \<Rightarrow> machine list result" where
  "ms_List d = Inr (m_vals d)"

definition ms_ByID :: "string \<Rightarrow> machineStore \<Rightarrow> machine result" where
  "ms_ByID i d = (case m_get d i of None \<Rightarrow> Inl ErrMachineNotFound | Some m \<Rightarrow> Inr m)"

subsection \<open>ProjectStore\<close>

type_synonym projectStore = "project gomap"

definition ps_Create :: "project \<Rightarrow> projectStore \<Rightarrow> projectStore result" where
  "ps_Create p d =
     (if list_ex (\<lambda>e. pMachineID e = pMachineID p \<and> pPath e = pPath p) (m_vals d) then Inl ErrDuplicatePath
      else Inr (m_put (pId p) p d))"

definition ps_ByID :: "string \<Rightarrow> projectStore \<Rightarrow> project result" where
  "ps_ByID i d = (case m_get d i of None \<Rightarrow> Inl ErrProjectNotFound | Some p \<Rightarrow> Inr p)"

definition ps_List :: "projectStore \<Rightarrow> project list result" where
  "ps_List d = Inr (m_vals d)"

definition ps_ListByMachine :: "string \<Rightarrow> projectStore \<Rightarrow> project list result" where
  "ps_ListByMachine machineID d = Inr (filter (\<lambda>p. pMachineID p = machineID) (m_vals d))"

definition ps_Delete :: "string \<Rightarrow> projectStore \<Rightarrow> projectStore result" where
  "ps_Delete i d = (case m_get d i of None \<Rightarrow> Inl ErrProjectNotFound | Some _ \<Rightarrow> Inr (m_del i d))"

subsection \<open>CredentialStore and EnrollTokenStore\<close>

type_synonym credentialStore = "byte list gomap"

definition cs_Save :: "string \<Rightarrow> byte list \<Rightarrow> credentialStore \<Rightarrow> credentialStore result" where
  "cs_Save machineID publicKey d = Inr (m_put machineID publicKey d)"

definition cs_PublicKey :: "string \<Rightarrow> credentialStore \<Rightarrow> byte list result" where
  "cs_PublicKey machineID d = (case m_get d machineID of None \<Rightarrow> Inl ErrUnknownMachine | Some k \<Rightarrow> Inr k)"

record enrollToken =
  etExpiresAt :: int
  etUsedAt :: int
  etUsed :: bool

type_synonym enrollTokenStore = "enrollToken gomap"

definition et_Create :: "string \<Rightarrow> int \<Rightarrow> enrollTokenStore \<Rightarrow> enrollTokenStore result" where
  "et_Create tokenHash expiresAt d = Inr (m_put tokenHash \<lparr>etExpiresAt = expiresAt, etUsedAt = 0, etUsed = False\<rparr> d)"

definition et_Consume :: "string \<Rightarrow> int \<Rightarrow> enrollTokenStore \<Rightarrow> enrollTokenStore result" where
  "et_Consume tokenHash now d = (case m_get d tokenHash of None \<Rightarrow> Inl ErrInvalidToken
   | Some t \<Rightarrow> if etUsed t \<or> etExpiresAt t \<le> now then Inl ErrInvalidToken
      else Inr (m_put tokenHash (t\<lparr>etUsed := True, etUsedAt := now\<rparr>) d))"

subsection \<open>OperatorStore, OperatorSessionStore, ChallengeStore\<close>

record operatorStore =
  opTotpSecret :: string
  opHasTOTP :: bool
  opTotpLastStep :: int
  opRecoveryCodes :: "unit gomap"
  opWebauthnCreds :: "byte list list"

definition NewOperatorStore :: operatorStore where
  "NewOperatorStore = \<lparr>opTotpSecret = [], opHasTOTP = False, opTotpLastStep = 0, opRecoveryCodes = [], opWebauthnCreds = []\<rparr>"

definition op_HasOperator :: "operatorStore \<Rightarrow> bool" where
  "op_HasOperator d = opHasTOTP d"

definition op_TOTPSecret :: "operatorStore \<Rightarrow> string option" where
  "op_TOTPSecret d = (if opHasTOTP d then Some (opTotpSecret d) else None)"

definition op_SaveTOTP :: "string \<Rightarrow> operatorStore \<Rightarrow> operatorStore" where
  "op_SaveTOTP secret d = d\<lparr>opTotpSecret := secret, opHasTOTP := True\<rparr>"

definition op_SaveRecoveryCodes :: "string list \<Rightarrow> operatorStore \<Rightarrow> operatorStore" where
  "op_SaveRecoveryCodes hashes d = d\<lparr>opRecoveryCodes := fold (\<lambda>h. m_put h ()) hashes (opRecoveryCodes d)\<rparr>"

definition op_ConsumeRecoveryCode :: "string \<Rightarrow> operatorStore \<Rightarrow> bool \<times> operatorStore" where
  "op_ConsumeRecoveryCode h d = (case m_get (opRecoveryCodes d) h of None \<Rightarrow> (False, d)
   | Some _ \<Rightarrow> (True, d\<lparr>opRecoveryCodes := m_del h (opRecoveryCodes d)\<rparr>))"

definition op_WebAuthnCredentials :: "operatorStore \<Rightarrow> byte list list" where
  "op_WebAuthnCredentials d = opWebauthnCreds d"

definition op_SaveWebAuthnCredential :: "byte list \<Rightarrow> operatorStore \<Rightarrow> operatorStore" where
  "op_SaveWebAuthnCredential cred d = d\<lparr>opWebauthnCreds := opWebauthnCreds d @ [cred]\<rparr>"

definition op_LastTOTPStep :: "operatorStore \<Rightarrow> int" where
  "op_LastTOTPStep d = opTotpLastStep d"

definition op_SetTOTPStep :: "int \<Rightarrow> operatorStore \<Rightarrow> operatorStore" where
  "op_SetTOTPStep step d = d\<lparr>opTotpLastStep := step\<rparr>"

record operatorSession =
  osCreatedAt :: int
  osExpiresAt :: int
  osLastSeenAt :: int

type_synonym operatorSessionStore = "operatorSession gomap"

definition os_Create :: "string \<Rightarrow> int \<Rightarrow> int \<Rightarrow> operatorSessionStore \<Rightarrow> operatorSessionStore" where
  "os_Create i createdAt expiresAt d =
     m_put i \<lparr>osCreatedAt = createdAt, osExpiresAt = expiresAt, osLastSeenAt = 0\<rparr> d"

definition os_Validate :: "string \<Rightarrow> int \<Rightarrow> operatorSessionStore \<Rightarrow> (bool \<times> int) \<times> operatorSessionStore" where
  "os_Validate i now d = (case m_get d i of None \<Rightarrow> ((False, 0), d)
   | Some sess \<Rightarrow> if osExpiresAt sess \<le> now then ((False, 0), d)
      else ((True, osExpiresAt sess), m_put i (sess\<lparr>osLastSeenAt := now\<rparr>) d))"

definition os_Refresh :: "string \<Rightarrow> int \<Rightarrow> operatorSessionStore \<Rightarrow> operatorSessionStore" where
  "os_Refresh i expiresAt d = (case m_get d i of None \<Rightarrow> d
   | Some sess \<Rightarrow> m_put i (sess\<lparr>osExpiresAt := expiresAt\<rparr>) d)"

definition os_Delete :: "string \<Rightarrow> operatorSessionStore \<Rightarrow> operatorSessionStore" where
  "os_Delete i d = m_del i d"

record challengeEntry =
  ceSession :: "byte list"
  ceExpiresAt :: int

type_synonym challengeStore = "challengeEntry gomap"

definition ch_Put :: "string \<Rightarrow> byte list \<Rightarrow> int \<Rightarrow> challengeStore \<Rightarrow> challengeStore" where
  "ch_Put key session expiresAt d = m_put key \<lparr>ceSession = session, ceExpiresAt = expiresAt\<rparr> d"

definition ch_Take :: "string \<Rightarrow> int \<Rightarrow> challengeStore \<Rightarrow> byte list option \<times> challengeStore" where
  "ch_Take key now d = (case m_get d key of None \<Rightarrow> (None, d)
   | Some e \<Rightarrow> let d' = m_del key d in if now \<ge> ceExpiresAt e then (None, d') else (Some (ceSession e), d'))"

subsection \<open>AuditStore\<close>

type_synonym auditStore = "event list"

definition as_Append :: "event \<Rightarrow> auditStore \<Rightarrow> auditStore" where
  "as_Append e d = d @ [e]"

text \<open>A negative limit makes \<open>make\<close> panic.\<close>

definition as_List :: "int \<Rightarrow> auditStore \<Rightarrow> event list option" where
  "as_List limit0 d =
     (let n = int (length d); limit = (if limit0 > n then n else limit0) in
      if limit < 0 then None
      else Some (map (\<lambda>i. d ! nat (n - 1 - int i)) [0..<nat limit]))"

lemma as_List_newest_first: "0 \<le> k \<Longrightarrow> as_List k d = Some (take (nat k) (rev d))"
  by (auto simp: as_List_def Let_def rev_nth nat_diff_distrib intro!: nth_equalityI arg_cong [where f = "(!) d"])

end
