(* ===== verification/Sessions_App.thy ===== *)
theory Sessions_App
  imports Memory_Stores
begin

text \<open>
  The sessions use case, \<^verbatim>\<open>internal/hub/app/sessions\<close>, and the audit use case it records to,
  \<^verbatim>\<open>internal/hub/app/audit\<close>.

  \<^item> The ports are records of functions, as the Go interfaces are: the session store (with its
    state type \<open>'s\<close>) and the agent gateway (with its state type \<open>'g\<close>). The contract the use case
    needs from a store is the locale \<open>session_store_laws\<close>; the in-memory store satisfies it.
  \<^item> The clock's value, the generated ID and the random name are inputs of the operations.
  \<^item> Logging is left out.
\<close>

subsection \<open>Audit (app/audit)\<close>

definition audit_Record :: "int \<Rightarrow> string option \<Rightarrow> auditAction \<Rightarrow> string \<Rightarrow> string \<Rightarrow> string \<Rightarrow> auditStore \<Rightarrow> auditStore" where
  "audit_Record now ctx a machineID sessionID detail d =
     as_Append (NewEvent now (ActorFromContext ctx) a machineID sessionID detail) d"

subsection \<open>Ports\<close>

record 's session_port =
  spCreate :: "hsession \<Rightarrow> 's \<Rightarrow> 's result"
  spByID :: "string \<Rightarrow> 's \<Rightarrow> hsession result"
  spList :: "'s \<Rightarrow> hsession list result"
  spListByMachine :: "string \<Rightarrow> 's \<Rightarrow> hsession list result"
  spAutoRelaunchSessions :: "string \<Rightarrow> 's \<Rightarrow> hsession list result"
  spSetExited :: "string \<Rightarrow> int \<Rightarrow> int \<Rightarrow> 's \<Rightarrow> 's result"
  spMarkRunningLost :: "string \<Rightarrow> int \<Rightarrow> 's \<Rightarrow> 's result"
  spMarkRunningDisconnected :: "string \<Rightarrow> int \<Rightarrow> 's \<Rightarrow> 's result"
  spMarkDisconnectedRunning :: "string \<Rightarrow> 's \<Rightarrow> 's result"
  spSetRunning :: "string \<Rightarrow> 's \<Rightarrow> 's result"
  spSetLost :: "string \<Rightarrow> int \<Rightarrow> 's \<Rightarrow> 's result"
  spSetTitle :: "string \<Rightarrow> string \<Rightarrow> 's \<Rightarrow> 's result"
  spSetAutoRelaunch :: "string \<Rightarrow> bool \<Rightarrow> 's \<Rightarrow> 's result"
  spSetStat :: "string \<Rightarrow> string \<Rightarrow> string \<Rightarrow> int \<Rightarrow> 's \<Rightarrow> 's result"
  spDelete :: "string \<Rightarrow> 's \<Rightarrow> 's result"

record 'g agent_gateway =
  gwOpenSession :: "string \<Rightarrow> string \<Rightarrow> string \<Rightarrow> string \<Rightarrow> int \<Rightarrow> int \<Rightarrow> bool \<Rightarrow> bool \<Rightarrow> 'g \<Rightarrow> int result \<times> 'g"
  gwCloseSession :: "string \<Rightarrow> string \<Rightarrow> 'g \<Rightarrow> unit result \<times> 'g"

record ('s, 'g) sessions_world =
  swStore :: 's
  swGateway :: 'g
  swAudit :: auditStore
  swNow :: int
  swActor :: "string option"

definition sw_record :: "auditAction \<Rightarrow> string \<Rightarrow> string \<Rightarrow> string \<Rightarrow> ('s, 'g) sessions_world \<Rightarrow> ('s, 'g) sessions_world" where
  "sw_record a machineID sessionID detail w =
     w\<lparr>swAudit := audit_Record (swNow w) (swActor w) a machineID sessionID detail (swAudit w)\<rparr>"

subsection \<open>Names (names.go)\<close>

definition sessionAdjectives :: "string list" where
  "sessionAdjectives = [''amber'', ''bold'', ''brave'', ''brisk'', ''calm'', ''clever'', ''cosmic'', ''crimson'',
     ''crisp'', ''dapper'', ''deft'', ''eager'', ''fancy'', ''fleet'', ''fuzzy'', ''gentle'',
     ''golden'', ''happy'', ''hidden'', ''jolly'', ''keen'', ''lively'', ''lucky'', ''lunar'',
     ''mellow'', ''merry'', ''mighty'', ''nimble'', ''noble'', ''plucky'', ''proud'', ''quick'',
     ''quiet'', ''rapid'', ''royal'', ''rusty'', ''sage'', ''shiny'', ''silent'', ''sleek'',
     ''snappy'', ''solar'', ''spry'', ''sturdy'', ''sunny'', ''swift'', ''tidy'', ''vivid'',
     ''witty'', ''zesty'']"

definition sessionNouns :: "string list" where
  "sessionNouns = [''otter'', ''falcon'', ''maple'', ''comet'', ''willow'', ''badger'', ''cedar'', ''heron'',
     ''lynx'', ''raven'', ''puffin'', ''marlin'', ''panda'', ''koala'', ''ferret'', ''beacon'',
     ''harbor'', ''canyon'', ''meadow'', ''summit'', ''ember'', ''pebble'', ''quartz'', ''onyx'',
     ''cobalt'', ''indigo'', ''violet'', ''ribbon'', ''anchor'', ''lantern'', ''compass'', ''kettle'',
     ''acorn'', ''thistle'', ''clover'', ''fennel'', ''ginger'', ''saffron'', ''walnut'', ''almond'',
     ''pixel'', ''cipher'', ''vector'', ''matrix'', ''module'', ''socket'', ''spruce'', ''nimbus'',
     ''zephyr'', ''tundra'']"

text \<open>The two random draws, each an index below the pool's size or a failure of the generator.\<close>

definition generateSessionName :: "nat option \<Rightarrow> nat option \<Rightarrow> string" where
  "generateSessionName adj noun = (case (adj, noun) of
     (Some a, Some n) \<Rightarrow> sessionAdjectives ! a @ ''-'' @ sessionNouns ! n
   | _ \<Rightarrow> [])"

subsection \<open>Opening\<close>

record openInput =
  oiMachineID :: string
  oiProjectID :: string
  oiTitle :: string
  oiCwd :: string
  oiShell :: string
  oiCols :: int
  oiRows :: int
  oiCreateDir :: bool

text \<open>
  \<open>Open\<close> blocks on the agent between its two halves, and other requests run meanwhile, so the
  halves are separate steps: the call of the gateway, and what happens with its answer.
\<close>

definition Open_request :: "'g agent_gateway \<Rightarrow> openInput \<Rightarrow> string \<Rightarrow> ('s, 'g) sessions_world \<Rightarrow>
    int result \<times> ('s, 'g) sessions_world" where
  "Open_request g inp i w =
     (let c = (if oiCols inp \<le> 0 then 80 else oiCols inp);
          r = (if oiRows inp \<le> 0 then 24 else oiRows inp);
          (res, gw) = gwOpenSession g (oiMachineID inp) i (oiCwd inp) (oiShell inp) c r (oiCreateDir inp) False (swGateway w)
      in (res, w\<lparr>swGateway := gw\<rparr>))"

definition Open_persist :: "'s session_port \<Rightarrow> 'g agent_gateway \<Rightarrow> openInput \<Rightarrow> string \<Rightarrow> string \<Rightarrow>
    ('s, 'g) sessions_world \<Rightarrow> hsession result \<times> ('s, 'g) sessions_world" where
  "Open_persist p g inp i name w =
     (let title = (if oiTitle inp = [] then name else oiTitle inp);
          s = NewHubSession i (oiMachineID inp) (oiProjectID inp) title (oiShell inp) (oiCwd inp) (swNow w)
      in case spCreate p s (swStore w) of
           Inl err \<Rightarrow> (Inl err, w\<lparr>swGateway := snd (gwCloseSession g (oiMachineID inp) i (swGateway w))\<rparr>)
         | Inr st \<Rightarrow> (Inr s, sw_record ActionOpen (oiMachineID inp) i [] (w\<lparr>swStore := st\<rparr>)))"

definition uc_Open :: "'s session_port \<Rightarrow> 'g agent_gateway \<Rightarrow> openInput \<Rightarrow> string \<Rightarrow> string \<Rightarrow>
    ('s, 'g) sessions_world \<Rightarrow> hsession result \<times> ('s, 'g) sessions_world" where
  "uc_Open p g inp i name w = (case Open_request g inp i w of
     (Inl err, w1) \<Rightarrow> (Inl err, w1)
   | (Inr pid, w1) \<Rightarrow> Open_persist p g inp i name w1)"

definition uc_List :: "'s session_port \<Rightarrow> ('s, 'g) sessions_world \<Rightarrow> hsession list result" where
  "uc_List p w = spList p (swStore w)"

definition uc_ListByMachine :: "'s session_port \<Rightarrow> string \<Rightarrow> ('s, 'g) sessions_world \<Rightarrow> hsession list result" where
  "uc_ListByMachine p machineID w = spListByMachine p machineID (swStore w)"

definition uc_ByID :: "'s session_port \<Rightarrow> string \<Rightarrow> ('s, 'g) sessions_world \<Rightarrow> hsession result" where
  "uc_ByID p i w = spByID p i (swStore w)"

subsection \<open>Closing and deleting\<close>

definition uc_Close :: "'s session_port \<Rightarrow> 'g agent_gateway \<Rightarrow> string \<Rightarrow> ('s, 'g) sessions_world \<Rightarrow>
    unit result \<times> ('s, 'g) sessions_world" where
  "uc_Close p g i w = (case spByID p i (swStore w) of
     Inl err \<Rightarrow> (Inl err, w)
   | Inr s \<Rightarrow> (case gwCloseSession g (sMachineID s) i (swGateway w) of
       (Inl err, gw) \<Rightarrow> (Inl err, w\<lparr>swGateway := gw\<rparr>)
     | (Inr _, gw) \<Rightarrow> (Inr (), sw_record ActionClose (sMachineID s) i [] (w\<lparr>swGateway := gw\<rparr>))))"

definition uc_Delete :: "'s session_port \<Rightarrow> string \<Rightarrow> ('s, 'g) sessions_world \<Rightarrow> unit result \<times> ('s, 'g) sessions_world" where
  "uc_Delete p i w = (case spByID p i (swStore w) of
     Inl err \<Rightarrow> (Inl err, w)
   | Inr s \<Rightarrow>
       if sStatus s = SRunning \<or> sStatus s = SDisconnected then (Inl ErrSessionRunning, w)
       else (case spDelete p i (swStore w) of
         Inl err \<Rightarrow> (Inl err, w)
       | Inr st \<Rightarrow> (Inr (), sw_record ActionDelete (sMachineID s) i [] (w\<lparr>swStore := st\<rparr>))))"

definition uc_ForceDelete :: "'s session_port \<Rightarrow> 'g agent_gateway \<Rightarrow> string \<Rightarrow> ('s, 'g) sessions_world \<Rightarrow>
    unit result \<times> ('s, 'g) sessions_world" where
  "uc_ForceDelete p g i w = (case spByID p i (swStore w) of
     Inl err \<Rightarrow> (Inl err, w)
   | Inr s \<Rightarrow>
       (let w1 = (if sStatus s = SRunning \<or> sStatus s = SDisconnected
                  then w\<lparr>swGateway := snd (gwCloseSession g (sMachineID s) i (swGateway w))\<rparr> else w)
        in case spDelete p i (swStore w1) of
             Inl err \<Rightarrow> (Inl err, w1)
           | Inr st \<Rightarrow> (Inr (), sw_record ActionDelete (sMachineID s) i ''force'' (w1\<lparr>swStore := st\<rparr>))))"

text \<open>Running a store operation and keeping the new contents if it succeeds.\<close>

definition store_step :: "('s \<Rightarrow> 's result) \<Rightarrow> ('s, 'g) sessions_world \<Rightarrow> unit result \<times> ('s, 'g) sessions_world" where
  "store_step f w = (case f (swStore w) of Inl err \<Rightarrow> (Inl err, w) | Inr st \<Rightarrow> (Inr (), w\<lparr>swStore := st\<rparr>))"

definition ignore_not_found :: "unit result \<times> 'w \<Rightarrow> unit result \<times> 'w" where
  "ignore_not_found r = (case r of (Inl err, w) \<Rightarrow> (if err = ErrSessionNotFound then (Inr (), w) else (Inl err, w))
     | (Inr x, w) \<Rightarrow> (Inr (), w))"

definition uc_MarkExited :: "'s session_port \<Rightarrow> string \<Rightarrow> int \<Rightarrow> ('s, 'g) sessions_world \<Rightarrow> unit result \<times> ('s, 'g) sessions_world" where
  "uc_MarkExited p i exitCode w = ignore_not_found (store_step (spSetExited p i exitCode (swNow w)) w)"

subsection \<open>Agent restarts and connection drops\<close>

fun relaunch_loop :: "'s session_port \<Rightarrow> 'g agent_gateway \<Rightarrow> string \<Rightarrow> int \<Rightarrow> hsession list \<Rightarrow>
    ('s, 'g) sessions_world \<Rightarrow> ('s, 'g) sessions_world" where
  "relaunch_loop p g machineID ts [] w = w"
| "relaunch_loop p g machineID ts (s # ss) w =
     (case gwOpenSession g machineID (sId s) (sCwd s) (sShell s) 80 24 False True (swGateway w) of
        (Inl rerr, gw) \<Rightarrow>
          relaunch_loop p g machineID ts ss (snd (store_step (spSetLost p (sId s) ts) (w\<lparr>swGateway := gw\<rparr>)))
      | (Inr pid, gw) \<Rightarrow>
          relaunch_loop p g machineID ts ss (sw_record ActionRelaunch machineID (sId s) []
            (snd (store_step (spSetRunning p (sId s)) (w\<lparr>swGateway := gw\<rparr>)))))"

definition uc_ReconcileMachineRestart :: "'s session_port \<Rightarrow> 'g agent_gateway \<Rightarrow> string \<Rightarrow> ('s, 'g) sessions_world \<Rightarrow>
    unit result \<times> ('s, 'g) sessions_world" where
  "uc_ReconcileMachineRestart p g machineID w =
     (let ts = swNow w in
      case spAutoRelaunchSessions p machineID (swStore w) of
        Inl err \<Rightarrow> store_step (spMarkRunningLost p machineID ts) w
      | Inr revivals \<Rightarrow>
          store_step (spMarkRunningLost p machineID ts) (relaunch_loop p g machineID ts revivals w))"

definition uc_MarkMachineDisconnected :: "'s session_port \<Rightarrow> string \<Rightarrow> ('s, 'g) sessions_world \<Rightarrow> unit result \<times> ('s, 'g) sessions_world" where
  "uc_MarkMachineDisconnected p machineID w = store_step (spMarkRunningDisconnected p machineID (swNow w)) w"

definition uc_RestoreMachineSessions :: "'s session_port \<Rightarrow> string \<Rightarrow> ('s, 'g) sessions_world \<Rightarrow> unit result \<times> ('s, 'g) sessions_world" where
  "uc_RestoreMachineSessions p machineID w = store_step (spMarkDisconnectedRunning p machineID) w"

definition uc_SetAutoRelaunch :: "'s session_port \<Rightarrow> string \<Rightarrow> bool \<Rightarrow> ('s, 'g) sessions_world \<Rightarrow> unit result \<times> ('s, 'g) sessions_world" where
  "uc_SetAutoRelaunch p i v w = store_step (spSetAutoRelaunch p i v) w"

definition uc_Rename :: "'s session_port \<Rightarrow> string \<Rightarrow> string \<Rightarrow> ('s, 'g) sessions_world \<Rightarrow> unit result \<times> ('s, 'g) sessions_world" where
  "uc_Rename p i title w = store_step (spSetTitle p i title) w"

definition known_activities :: "string list" where
  "known_activities = [''active'', ''idle'', ''awaiting-input'', ''unknown'']"

definition uc_RecordStat :: "'s session_port \<Rightarrow> string \<Rightarrow> string \<Rightarrow> string \<Rightarrow> ('s, 'g) sessions_world \<Rightarrow>
    unit result \<times> ('s, 'g) sessions_world" where
  "uc_RecordStat p i activity0 pwd w =
     (let activity = (if activity0 \<in> set known_activities then activity0 else [])
      in if activity = [] \<and> pwd = [] then (Inr (), w)
         else let lastActiveAt = (if activity = ''active'' then swNow w else 0)
              in ignore_not_found (store_step (spSetStat p i activity pwd lastActiveAt) w))"

subsection \<open>The contract of a session store\<close>

text \<open>
  What the use case relies on: the store is a finite map from session IDs (\<open>look\<close>), kept
  consistent (\<open>ok\<close>); single-session setters change one entry or report \<open>ErrNotFound\<close>, bulk
  operations rewrite the entries they select.
\<close>

definition updates_one :: "('s \<Rightarrow> string \<Rightarrow> hsession option) \<Rightarrow> ('s \<Rightarrow> bool) \<Rightarrow> ('s \<Rightarrow> 's result) \<Rightarrow> string \<Rightarrow>
    (hsession \<Rightarrow> hsession) \<Rightarrow> bool" where
  "updates_one look ok op i f \<longleftrightarrow> (\<forall>s. ok s \<longrightarrow> (case look s i of
     None \<Rightarrow> op s = Inl ErrSessionNotFound
   | Some x \<Rightarrow> \<exists>s'. op s = Inr s' \<and> ok s' \<and> look s' = (look s)(i \<mapsto> f x)))"

definition updates_all :: "('s \<Rightarrow> string \<Rightarrow> hsession option) \<Rightarrow> ('s \<Rightarrow> bool) \<Rightarrow> ('s \<Rightarrow> 's result) \<Rightarrow>
    (hsession \<Rightarrow> hsession) \<Rightarrow> bool" where
  "updates_all look ok op f \<longleftrightarrow> (\<forall>s. ok s \<longrightarrow> (\<exists>s'. op s = Inr s' \<and> ok s' \<and> (\<forall>i. look s' i = map_option f (look s i))))"

definition live_on :: "string \<Rightarrow> hsession \<Rightarrow> bool" where
  "live_on machineID x \<longleftrightarrow> sMachineID x = machineID \<and> (sStatus x = SRunning \<or> sStatus x = SDisconnected)"

definition lost_at :: "int \<Rightarrow> hsession \<Rightarrow> hsession" where
  "lost_at ts x = session_Touch ts (session_SetStatus SLost x)"

lemma live_on_simps [simp]:
  "\<not> live_on m (lost_at ts x)" "sAutoRelaunch (lost_at ts x) = sAutoRelaunch x"
  "sAutoRelaunch (session_SetStatus st x) = sAutoRelaunch x"
  by (simp_all add: live_on_def lost_at_def session_defs)

text \<open>A session after a relaunch round: running again, lost, or not concerned.\<close>

definition relaunched :: "string set \<Rightarrow> string set \<Rightarrow> int \<Rightarrow> string \<Rightarrow> hsession \<Rightarrow> hsession" where
  "relaunched succ tried ts i x = (if i \<in> succ then session_SetStatus SRunning x
     else if i \<in> tried then lost_at ts x else x)"

text \<open>A session after the reconciliation of an agent restart, \<open>succ\<close> being the IDs relaunched.\<close>

definition reconciled :: "string set \<Rightarrow> string \<Rightarrow> int \<Rightarrow> hsession \<Rightarrow> hsession" where
  "reconciled succ m ts x = (if \<not> live_on m x then x
     else if sId x \<in> succ then session_SetStatus SRunning x else lost_at ts x)"

locale session_store_laws =
  fixes p :: "'s session_port"
    and look :: "'s \<Rightarrow> string \<Rightarrow> hsession option"
    and ok :: "'s \<Rightarrow> bool"
  assumes keyed: "ok s \<Longrightarrow> look s i = Some x \<Longrightarrow> sId x = i"
    and ByID_law: "ok s \<Longrightarrow> spByID p i s = (case look s i of None \<Rightarrow> Inl ErrSessionNotFound | Some x \<Rightarrow> Inr x)"
    and Create_law: "ok s \<Longrightarrow> spCreate p (NewHubSession i m pr t sh cwd now) s = Inr s' \<Longrightarrow>
      ok s' \<and> look s' = (look s)(i \<mapsto> NewHubSession i m pr t sh cwd now)"
    and Delete_law: "ok s \<Longrightarrow> look s i = Some x \<Longrightarrow> \<exists>s'. spDelete p i s = Inr s' \<and> ok s' \<and> look s' = (look s)(i := None)"
    and Auto_law: "ok s \<Longrightarrow> \<exists>xs. spAutoRelaunchSessions p m s = Inr xs \<and> distinct (map sId xs) \<and>
      (\<forall>x. x \<in> set xs \<longleftrightarrow> look s (sId x) = Some x \<and> live_on m x \<and> sAutoRelaunch x)"
    and SetExited_law: "updates_one look ok (spSetExited p i code ts) i (session_SetExited code ts)"
    and SetRunning_law: "updates_one look ok (spSetRunning p i) i (session_SetStatus SRunning)"
    and SetLost_law: "updates_one look ok (spSetLost p i ts) i (lost_at ts)"
    and MarkLost_law: "updates_all look ok (spMarkRunningLost p m ts)
      (\<lambda>x. if live_on m x \<and> \<not> sAutoRelaunch x then lost_at ts x else x)"
    and MarkDisc_law: "updates_all look ok (spMarkRunningDisconnected p m ts)
      (\<lambda>x. if sMachineID x = m \<and> sStatus x = SRunning then session_Touch ts (session_SetStatus SDisconnected x) else x)"
    and MarkRun_law: "updates_all look ok (spMarkDisconnectedRunning p m)
      (\<lambda>x. if sMachineID x = m \<and> sStatus x = SDisconnected then session_SetStatus SRunning x else x)"
begin

lemma one_found:
  "updates_one look ok op i f \<Longrightarrow> ok s \<Longrightarrow> look s i = Some x \<Longrightarrow> \<exists>s'. op s = Inr s' \<and> ok s' \<and> look s' = (look s)(i \<mapsto> f x)"
  by (auto simp: updates_one_def dest!: spec [of _ s])

lemma one_missing: "updates_one look ok op i f \<Longrightarrow> ok s \<Longrightarrow> look s i = None \<Longrightarrow> op s = Inl ErrSessionNotFound"
  by (auto simp: updates_one_def dest!: spec [of _ s])

lemma all_found: "updates_all look ok op f \<Longrightarrow> ok s \<Longrightarrow> \<exists>s'. op s = Inr s' \<and> ok s' \<and> look s' = (\<lambda>i. map_option f (look s i))"
  by (auto simp: updates_all_def dest!: spec [of _ s])

text \<open>
  Opening: a session is recorded, as running and with one event, or the request failed and nothing is
  recorded; and if the agent had started it already, it is told to close it.
\<close>

lemma Open_outcome:
  assumes "ok (swStore w)" "uc_Open p g inp i name w = (res, w')"
  shows "case res of
      Inr s \<Rightarrow> ok (swStore w') \<and> look (swStore w') = (look (swStore w))(i \<mapsto> s) \<and> sId s = i \<and> sStatus s = SRunning \<and>
        sMachineID s = oiMachineID inp \<and>
        swAudit w' = swAudit w @ [NewEvent (swNow w) (ActorFromContext (swActor w)) ActionOpen (oiMachineID inp) i []]
    | Inl err \<Rightarrow> swStore w' = swStore w \<and> swAudit w' = swAudit w \<and>
        (\<forall>pid w1. Open_request g inp i w = (Inr pid, w1) \<longrightarrow>
           swGateway w' = snd (gwCloseSession g (oiMachineID inp) i (swGateway w1)))"
proof (cases "fst (Open_request g inp i w)")
  case (Inl err)
  then show ?thesis using assms(2) by (auto simp: uc_Open_def Open_request_def Let_def split: prod.splits)
next
  case (Inr pid)
  obtain w1 where w1: "Open_request g inp i w = (Inr pid, w1)" using Inr by (metis prod.collapse)
  then have same: "swStore w1 = swStore w" "swAudit w1 = swAudit w" "swNow w1 = swNow w" "swActor w1 = swActor w"
    by (auto simp: Open_request_def Let_def split: prod.splits)
  let ?s = "NewHubSession i (oiMachineID inp) (oiProjectID inp) (if oiTitle inp = [] then name else oiTitle inp) (oiShell inp) (oiCwd inp) (swNow w)"
  have run: "Open_persist p g inp i name w1 = (res, w')" using assms(2) w1 by (simp add: uc_Open_def)
  show ?thesis
  proof (cases "spCreate p ?s (swStore w)")
    case (Inl err)
    then show ?thesis using run w1 same by (auto simp: Open_persist_def)
  next
    case (Inr st)
    from Create_law [OF assms(1) this] Inr run same show ?thesis
      by (auto simp: Open_persist_def sw_record_def audit_Record_def as_Append_def) (simp_all add: NewHubSession_def)
  qed
qed

text \<open>Deleting a record: refused exactly for live sessions, and it removes nothing else.\<close>

lemma Delete_outcome:
  assumes "ok (swStore w)"
  shows "case look (swStore w) i of
      None \<Rightarrow> uc_Delete p i w = (Inl ErrSessionNotFound, w)
    | Some x \<Rightarrow> if sStatus x = SRunning \<or> sStatus x = SDisconnected then uc_Delete p i w = (Inl ErrSessionRunning, w)
        else \<exists>w'. uc_Delete p i w = (Inr (), w') \<and> ok (swStore w') \<and> look (swStore w') = (look (swStore w))(i := None)"
proof (cases "look (swStore w) i")
  case None
  then show ?thesis using ByID_law [OF assms, of i] by (simp add: uc_Delete_def)
next
  case (Some x)
  obtain s' where "spDelete p i (swStore w) = Inr s'" "ok s'" "look s' = (look (swStore w))(i := None)"
    using Delete_law [OF assms Some] by blast
  then show ?thesis using Some ByID_law [OF assms, of i] by (simp add: uc_Delete_def sw_record_def)
qed

text \<open>Relaunching a list of distinct stored sessions.\<close>

lemma relaunch_outcome:
  assumes "ok (swStore w)" "distinct (map sId xs)" "\<forall>x \<in> set xs. look (swStore w) (sId x) = Some x"
  shows "\<exists>succ evs. succ \<subseteq> sId ` set xs \<and>
    (let w' = relaunch_loop p g m ts xs w in ok (swStore w') \<and> swNow w' = swNow w \<and>
      (\<forall>i. look (swStore w') i = map_option (relaunched succ (sId ` set xs) ts i) (look (swStore w) i)) \<and>
      swAudit w' = swAudit w @ evs \<and> evSessionID ` set evs = succ \<and> (\<forall>ev \<in> set evs. evAction ev = ActionRelaunch))"
  using assms
proof (induction xs arbitrary: w)
  case Nil
  show ?case by (rule exI [of _ "{}"], rule exI [of _ "[]"]) (use Nil in \<open>simp add: relaunched_def map_option.identity [unfolded id_def]\<close>)
next
  case (Cons x xs)
  obtain res gw where r: "gwOpenSession g m (sId x) (sCwd x) (sShell x) 80 24 False True (swGateway w) = (res, gw)"
    by (cases "gwOpenSession g m (sId x) (sCwd x) (sShell x) 80 24 False True (swGateway w)")
  have x: "look (swStore w) (sId x) = Some x" using Cons.prems(3) by simp
  define f where "f = (case res of Inl _ \<Rightarrow> lost_at ts | Inr _ \<Rightarrow> session_SetStatus SRunning)"
  define w1 where "w1 = (case res of
      Inl _ \<Rightarrow> snd (store_step (spSetLost p (sId x) ts) (w\<lparr>swGateway := gw\<rparr>))
    | Inr _ \<Rightarrow> sw_record ActionRelaunch m (sId x) [] (snd (store_step (spSetRunning p (sId x)) (w\<lparr>swGateway := gw\<rparr>))))"
  have loop: "relaunch_loop p g m ts (x # xs) w = relaunch_loop p g m ts xs w1"
    using r by (cases res) (simp_all add: w1_def)
  have w1: "ok (swStore w1)" "look (swStore w1) = (look (swStore w))(sId x \<mapsto> f x)" "swNow w1 = swNow w"
  proof -
    obtain s1 where "spSetLost p (sId x) ts (swStore w) = Inr s1" "ok s1" "look s1 = (look (swStore w))(sId x \<mapsto> lost_at ts x)"
      using one_found [OF SetLost_law Cons.prems(1) x] by blast
    moreover obtain s2 where "spSetRunning p (sId x) (swStore w) = Inr s2" "ok s2"
      "look s2 = (look (swStore w))(sId x \<mapsto> session_SetStatus SRunning x)"
      using one_found [OF SetRunning_law Cons.prems(1) x] by blast
    ultimately show "ok (swStore w1)" "look (swStore w1) = (look (swStore w))(sId x \<mapsto> f x)" "swNow w1 = swNow w"
      by (cases res; simp add: w1_def f_def store_step_def sw_record_def)+
  qed
  have a1: "swAudit w1 = swAudit w @ (case res of Inl _ \<Rightarrow> [] | Inr _ \<Rightarrow>
      [NewEvent (swNow w) (ActorFromContext (swActor w)) ActionRelaunch m (sId x) []])"
    by (cases res) (auto simp: w1_def store_step_def sw_record_def audit_Record_def as_Append_def split: sum.splits)
  have "\<forall>y \<in> set xs. look (swStore w1) (sId y) = Some y"
    using Cons.prems(2,3) w1(2) by (auto simp: image_iff)
  then obtain succ evs where IH: "succ \<subseteq> sId ` set xs"
    "let w' = relaunch_loop p g m ts xs w1 in ok (swStore w') \<and> swNow w' = swNow w1 \<and>
      (\<forall>i. look (swStore w') i = map_option (relaunched succ (sId ` set xs) ts i) (look (swStore w1) i)) \<and>
      swAudit w' = swAudit w1 @ evs \<and> evSessionID ` set evs = succ \<and> (\<forall>ev \<in> set evs. evAction ev = ActionRelaunch)"
    using Cons.IH [OF w1(1)] Cons.prems(2) by auto
  let ?succ = "case res of Inl _ \<Rightarrow> succ | Inr _ \<Rightarrow> insert (sId x) succ"
  have nx: "sId x \<notin> sId ` set xs" using Cons.prems(2) by simp
  let ?w' = "relaunch_loop p g m ts xs w1"
  have l: "look (swStore ?w') i = map_option (relaunched ?succ (sId ` set (x # xs)) ts i) (look (swStore w) i)" for i
  proof (cases "i = sId x")
    case True
    then have "look (swStore ?w') i = Some (f x)" using IH nx w1(2) by (auto simp: Let_def relaunched_def)
    then show ?thesis using True x IH(1) nx by (cases res) (auto simp: relaunched_def f_def)
  next
    case False
    then show ?thesis using IH(2) w1(2)
      by (cases res; cases "look (swStore w) i") (auto simp: Let_def relaunched_def)
  qed
  have "evSessionID ` set ((case res of Inl _ \<Rightarrow> [] | Inr _ \<Rightarrow>
      [NewEvent (swNow w) (ActorFromContext (swActor w)) ActionRelaunch m (sId x) []]) @ evs) = ?succ"
    using IH(2) by (cases res) (auto simp: Let_def NewEvent_def)
  moreover have "?succ \<subseteq> sId ` set (x # xs)" using IH(1) by (cases res) auto
  moreover have "swAudit ?w' = swAudit w @ ((case res of Inl _ \<Rightarrow> [] | Inr _ \<Rightarrow>
      [NewEvent (swNow w) (ActorFromContext (swActor w)) ActionRelaunch m (sId x) []]) @ evs)"
    using IH(2) a1 by (simp add: Let_def)
  moreover have "\<forall>ev \<in> set ((case res of Inl _ \<Rightarrow> [] | Inr _ \<Rightarrow>
      [NewEvent (swNow w) (ActorFromContext (swActor w)) ActionRelaunch m (sId x) []]) @ evs). evAction ev = ActionRelaunch"
    using IH(2) by (cases res) (auto simp: Let_def NewEvent_def)
  moreover have "ok (swStore ?w')" "swNow ?w' = swNow w" using IH(2) w1(3) by (simp_all add: Let_def)
  ultimately show ?case unfolding loop Let_def using l by blast
qed

text \<open>The whole reconciliation.\<close>

lemma Reconcile_outcome:
  assumes "ok (swStore w)"
  shows "\<exists>w' succ evs. uc_ReconcileMachineRestart p g m w = (Inr (), w') \<and> ok (swStore w') \<and>
    (\<forall>i. look (swStore w') i = map_option (reconciled succ m (swNow w)) (look (swStore w) i)) \<and>
    (\<forall>i \<in> succ. \<exists>x. look (swStore w) i = Some x \<and> live_on m x \<and> sAutoRelaunch x) \<and>
    swAudit w' = swAudit w @ evs \<and> evSessionID ` set evs = succ \<and> (\<forall>ev \<in> set evs. evAction ev = ActionRelaunch)"
proof -
  obtain xs where xs: "spAutoRelaunchSessions p m (swStore w) = Inr xs" "distinct (map sId xs)"
    "\<And>x. x \<in> set xs \<longleftrightarrow> look (swStore w) (sId x) = Some x \<and> live_on m x \<and> sAutoRelaunch x"
    using Auto_law [OF assms, of m] by blast
  define w1 where "w1 = relaunch_loop p g m (swNow w) xs w"
  obtain succ evs where R: "succ \<subseteq> sId ` set xs" "ok (swStore w1)"
    "\<And>i. look (swStore w1) i = map_option (relaunched succ (sId ` set xs) (swNow w) i) (look (swStore w) i)"
    "swAudit w1 = swAudit w @ evs" "evSessionID ` set evs = succ" "\<forall>ev \<in> set evs. evAction ev = ActionRelaunch"
    using relaunch_outcome [OF assms xs(2), of g m "swNow w"] xs(3) by (auto simp: Let_def w1_def)
  obtain s2 where s2: "spMarkRunningLost p m (swNow w) (swStore w1) = Inr s2" "ok s2"
    "look s2 = (\<lambda>i. map_option (\<lambda>x. if live_on m x \<and> \<not> sAutoRelaunch x then lost_at (swNow w) x else x) (look (swStore w1) i))"
    using all_found [OF MarkLost_law R(2)] by blast
  have "uc_ReconcileMachineRestart p g m w = (Inr (), w1\<lparr>swStore := s2\<rparr>)"
    using xs(1) s2(1) by (simp add: uc_ReconcileMachineRestart_def store_step_def w1_def)
  moreover have "look s2 i = map_option (reconciled succ m (swNow w)) (look (swStore w) i)" for i
  proof (cases "look (swStore w) i")
    case None
    then show ?thesis using s2(3) R(3) by simp
  next
    case (Some x)
    then have i: "sId x = i" using keyed [OF assms] by blast
    have t: "i \<in> sId ` set xs \<longleftrightarrow> live_on m x \<and> sAutoRelaunch x"
    proof
      assume "i \<in> sId ` set xs"
      then obtain y where "y \<in> set xs" "sId y = i" by blast
      then show "live_on m x \<and> sAutoRelaunch x" using xs(3) [of y] Some by simp
    next
      assume "live_on m x \<and> sAutoRelaunch x"
      then have "x \<in> set xs" using xs(3) [of x] Some i by simp
      then show "i \<in> sId ` set xs" using i by blast
    qed
    have sub: "i \<in> succ \<Longrightarrow> live_on m x \<and> sAutoRelaunch x" using R(1) t by blast
    have "look s2 i = Some (let y = relaunched succ (sId ` set xs) (swNow w) i x in
        if live_on m y \<and> \<not> sAutoRelaunch y then lost_at (swNow w) y else y)"
      using s2(3) R(3) [of i] Some by (simp add: Let_def)
    then show ?thesis using t sub Some i
      by (cases "i \<in> succ"; cases "live_on m x"; cases "sAutoRelaunch x")
        (simp_all add: Let_def relaunched_def reconciled_def)
  qed
  moreover have "\<forall>i \<in> succ. \<exists>x. look (swStore w) i = Some x \<and> live_on m x \<and> sAutoRelaunch x"
  proof
    fix i assume "i \<in> succ"
    then obtain x where "x \<in> set xs" "sId x = i" using R(1) by blast
    then show "\<exists>x. look (swStore w) i = Some x \<and> live_on m x \<and> sAutoRelaunch x" using xs(3) [of x] by blast
  qed
  ultimately show ?thesis using s2(2) R(4-6) by (intro exI [of _ "w1\<lparr>swStore := s2\<rparr>"] exI [of _ succ] exI [of _ evs]) simp
qed

text \<open>A dropped connection and the reconnect of the same agent process.\<close>

lemma Disconnect_restore_outcome:
  assumes "ok (swStore w)"
  shows "\<exists>w1 w2. uc_MarkMachineDisconnected p m w = (Inr (), w1) \<and> uc_RestoreMachineSessions p m w1 = (Inr (), w2) \<and>
    ok (swStore w2) \<and> (\<forall>i. map_option sStatus (look (swStore w2) i) = map_option
      (\<lambda>x. if sMachineID x = m \<and> sStatus x = SDisconnected then SRunning else sStatus x) (look (swStore w) i))"
proof -
  obtain s1 where s1: "spMarkRunningDisconnected p m (swNow w) (swStore w) = Inr s1" "ok s1"
    "look s1 = (\<lambda>i. map_option (\<lambda>x. if sMachineID x = m \<and> sStatus x = SRunning
       then session_Touch (swNow w) (session_SetStatus SDisconnected x) else x) (look (swStore w) i))"
    using all_found [OF MarkDisc_law assms] by blast
  obtain s2 where s2: "spMarkDisconnectedRunning p m s1 = Inr s2" "ok s2"
    "look s2 = (\<lambda>i. map_option (\<lambda>x. if sMachineID x = m \<and> sStatus x = SDisconnected
       then session_SetStatus SRunning x else x) (look s1 i))"
    using all_found [OF MarkRun_law s1(2)] by blast
  show ?thesis
    by (rule exI [of _ "w\<lparr>swStore := s1\<rparr>"], rule exI [of _ "w\<lparr>swStore := s2\<rparr>"])
      (use s1 s2 in \<open>auto simp: uc_MarkMachineDisconnected_def uc_RestoreMachineSessions_def store_step_def
         option.map_comp comp_def session_defs intro!: arg_cong2 [where f = map_option]\<close>)
qed

end

subsection \<open>The in-memory store satisfies the contract\<close>

definition memory_port :: "sessionStore session_port" where
  "memory_port = \<lparr>spCreate = ss_Create, spByID = ss_ByID, spList = ss_List, spListByMachine = ss_ListByMachine,
     spAutoRelaunchSessions = ss_AutoRelaunchSessions, spSetExited = ss_SetExited, spMarkRunningLost = ss_MarkRunningLost,
     spMarkRunningDisconnected = ss_MarkRunningDisconnected, spMarkDisconnectedRunning = ss_MarkDisconnectedRunning,
     spSetRunning = ss_SetRunning, spSetLost = ss_SetLost, spSetTitle = ss_SetTitle,
     spSetAutoRelaunch = ss_SetAutoRelaunch, spSetStat = ss_SetStat, spDelete = ss_Delete\<rparr>"

lemma memory_updates_one:
  "(\<And>x. sId (f x) = sId x) \<Longrightarrow> updates_one m_get wf_sessions (ss_modify f i) i f"
  by (auto simp: updates_one_def ss_modify_def wf_sessions_def fun_eq_iff split: option.split if_splits)

lemma memory_updates_all:
  "(\<And>x. sId (f x) = sId x) \<Longrightarrow> (\<And>d. op d = Inr (m_each f d)) \<Longrightarrow> updates_all m_get wf_sessions op f"
  by (auto simp: updates_all_def m_each_wf)

lemma memory_auto:
  assumes "wf_sessions d"
  shows "\<exists>xs. ss_AutoRelaunchSessions m d = Inr xs \<and> distinct (map sId xs) \<and>
    (\<forall>x. x \<in> set xs \<longleftrightarrow> m_get d (sId x) = Some x \<and> live_on m x \<and> sAutoRelaunch x)"
proof -
  have d: "wf_map d" "\<And>k x. m_get d k = Some x \<Longrightarrow> sId x = k" using assms by (auto simp: wf_sessions_def)
  have "map sId (m_vals d) = map fst d"
    unfolding m_vals_def map_map comp_def
    using d by (intro map_cong) (auto simp: wf_map_def m_get_def map_of_eq_Some_iff)
  then have "distinct (map sId (m_vals d))" using d(1) by (simp add: wf_map_def)
  moreover have "x \<in> set (m_vals d) \<longleftrightarrow> m_get d (sId x) = Some x" for x
    using m_vals_iff [OF d(1), of x] d(2) by metis
  ultimately show ?thesis
    by (auto simp: ss_AutoRelaunchSessions_def live_on_def distinct_map_filter)
qed

interpretation mem: session_store_laws memory_port m_get wf_sessions
proof
  show "wf_sessions s \<Longrightarrow> m_get s i = Some x \<Longrightarrow> sId x = i" for s i x by (auto simp: wf_sessions_def)
  show "wf_sessions s \<Longrightarrow> spByID memory_port i s = (case m_get s i of None \<Rightarrow> Inl ErrSessionNotFound | Some x \<Rightarrow> Inr x)" for s i
    by (simp add: memory_port_def ss_ByID_def)
  show "wf_sessions s \<Longrightarrow> spCreate memory_port (NewHubSession i m pr t sh cwd now) s = Inr s' \<Longrightarrow>
      wf_sessions s' \<and> m_get s' = (m_get s)(i \<mapsto> NewHubSession i m pr t sh cwd now)" for s i m pr t sh cwd now s'
    by (auto simp: memory_port_def ss_Create_def wf_sessions_def fun_eq_iff NewHubSession_def split: if_splits)
  show "wf_sessions s \<Longrightarrow> m_get s i = Some x \<Longrightarrow>
      \<exists>s'. spDelete memory_port i s = Inr s' \<and> wf_sessions s' \<and> m_get s' = (m_get s)(i := None)" for s i x
    by (auto simp: memory_port_def ss_Delete_def wf_sessions_def fun_eq_iff)
  show "wf_sessions s \<Longrightarrow> \<exists>xs. spAutoRelaunchSessions memory_port m s = Inr xs \<and> distinct (map sId xs) \<and>
      (\<forall>x. x \<in> set xs \<longleftrightarrow> m_get s (sId x) = Some x \<and> live_on m x \<and> sAutoRelaunch x)" for s m
    using memory_auto by (simp add: memory_port_def)
  show "updates_one m_get wf_sessions (spSetExited memory_port i code ts) i (session_SetExited code ts)" for i code ts
    by (simp add: memory_port_def ss_SetExited_def) (rule memory_updates_one, simp add: session_defs)
  show "updates_one m_get wf_sessions (spSetRunning memory_port i) i (session_SetStatus SRunning)" for i
    by (simp add: memory_port_def ss_SetRunning_def) (rule memory_updates_one, simp add: session_defs)
  show "updates_one m_get wf_sessions (spSetLost memory_port i ts) i (lost_at ts)" for i ts
    by (simp add: memory_port_def ss_SetLost_def lost_at_def [abs_def]) (rule memory_updates_one, simp add: session_defs)
  show "updates_all m_get wf_sessions (spMarkRunningLost memory_port m ts)
      (\<lambda>x. if live_on m x \<and> \<not> sAutoRelaunch x then lost_at ts x else x)" for m ts
    by (rule memory_updates_all) (auto simp: memory_port_def ss_MarkRunningLost_def live_on_def lost_at_def session_defs
        intro!: arg_cong [where f = "\<lambda>f. m_each f _"])
  show "updates_all m_get wf_sessions (spMarkRunningDisconnected memory_port m ts)
      (\<lambda>x. if sMachineID x = m \<and> sStatus x = SRunning then session_Touch ts (session_SetStatus SDisconnected x) else x)" for m ts
    by (rule memory_updates_all) (auto simp: memory_port_def ss_MarkRunningDisconnected_def session_defs)
  show "updates_all m_get wf_sessions (spMarkDisconnectedRunning memory_port m)
      (\<lambda>x. if sMachineID x = m \<and> sStatus x = SDisconnected then session_SetStatus SRunning x else x)" for m
    by (rule memory_updates_all) (auto simp: memory_port_def ss_MarkDisconnectedRunning_def session_defs)
qed

subsection \<open>What the use case guarantees\<close>

text \<open>
  Reconciliation after an agent restart. It always succeeds on the in-memory store; afterwards
  every live session of that machine (running or disconnected) is either one of the auto-relaunch
  sessions the agent re-opened, and running, or marked lost; no session of another machine and no
  ended session changes; and exactly the re-opened sessions have a relaunch event in the audit log.
\<close>
theorem ReconcileMachineRestart_spec:
  assumes "wf_sessions (swStore w)"
  shows "\<exists>w' succ evs. uc_ReconcileMachineRestart memory_port g m w = (Inr (), w') \<and> wf_sessions (swStore w') \<and>
    (\<forall>i. m_get (swStore w') i = map_option (reconciled succ m (swNow w)) (m_get (swStore w) i)) \<and>
    (\<forall>i \<in> succ. \<exists>x. m_get (swStore w) i = Some x \<and> live_on m x \<and> sAutoRelaunch x) \<and>
    swAudit w' = swAudit w @ evs \<and> evSessionID ` set evs = succ \<and> (\<forall>ev \<in> set evs. evAction ev = ActionRelaunch)"
  using assms by (rule mem.Reconcile_outcome)

text \<open>A store with one running session, and a gateway that refuses every request.\<close>

definition demoSession :: hsession where
  "demoSession = (NewHubSession ''s1'' ''m1'' [] ''t'' ''sh'' ''/'' 100)\<lparr>sAutoRelaunch := True\<rparr>"

definition demoWorld :: "(sessionStore, unit) sessions_world" where
  "demoWorld = \<lparr>swStore = [(''s1'', demoSession)], swGateway = (), swAudit = [], swNow = 200, swActor = None\<rparr>"

definition refusingGateway :: "unit agent_gateway" where
  "refusingGateway = \<lparr>gwOpenSession = (\<lambda>_ _ _ _ _ _ _ _ gw. (Inl ErrMachineOffline, gw)),
     gwCloseSession = (\<lambda>_ _ gw. (Inl ErrMachineOffline, gw))\<rparr>"

lemma demoWorld_wf: "wf_sessions (swStore demoWorld)"
  by (simp add: demoWorld_def demoSession_def wf_sessions_def wf_map_def m_get_def NewHubSession_def)

text \<open>Witness for \<open>ReconcileMachineRestart_spec\<close>: the agent refuses the relaunch.\<close>
theorem ReconcileMachineRestart_spec_witness:
  "\<exists>w' succ evs. uc_ReconcileMachineRestart memory_port refusingGateway ''m1'' demoWorld = (Inr (), w') \<and>
    wf_sessions (swStore w') \<and>
    (\<forall>i. m_get (swStore w') i = map_option (reconciled succ ''m1'' (swNow demoWorld)) (m_get (swStore demoWorld) i)) \<and>
    (\<forall>i \<in> succ. \<exists>x. m_get (swStore demoWorld) i = Some x \<and> live_on ''m1'' x \<and> sAutoRelaunch x) \<and>
    swAudit w' = swAudit demoWorld @ evs \<and> evSessionID ` set evs = succ \<and> (\<forall>ev \<in> set evs. evAction ev = ActionRelaunch)"
  by (rule ReconcileMachineRestart_spec [OF demoWorld_wf])

text \<open>
  A dropped connection that comes back is invisible. When an agent's connection drops and the
  same agent process reconnects, every session has the status it had before; only sessions that
  were already marked disconnected become running.
\<close>
theorem disconnect_restore_roundtrip:
  assumes "wf_sessions (swStore w)"
  shows "\<exists>w1 w2. uc_MarkMachineDisconnected memory_port m w = (Inr (), w1) \<and>
    uc_RestoreMachineSessions memory_port m w1 = (Inr (), w2) \<and> wf_sessions (swStore w2) \<and>
    (\<forall>i. map_option sStatus (m_get (swStore w2) i) = map_option
      (\<lambda>x. if sMachineID x = m \<and> sStatus x = SDisconnected then SRunning else sStatus x) (m_get (swStore w) i))"
  using assms by (rule mem.Disconnect_restore_outcome)

text \<open>Witness for \<open>disconnect_restore_roundtrip\<close>: the demo store.\<close>
theorem disconnect_restore_roundtrip_witness:
  "\<exists>w1 w2. uc_MarkMachineDisconnected memory_port ''m1'' demoWorld = (Inr (), w1) \<and>
    uc_RestoreMachineSessions memory_port ''m1'' w1 = (Inr (), w2) \<and> wf_sessions (swStore w2) \<and>
    (\<forall>i. map_option sStatus (m_get (swStore w2) i) = map_option
      (\<lambda>x. if sMachineID x = ''m1'' \<and> sStatus x = SDisconnected then SRunning else sStatus x) (m_get (swStore demoWorld) i))"
  by (rule disconnect_restore_roundtrip [OF demoWorld_wf])

text \<open>
  Deleting a session record. A live session (running, or disconnected and possibly alive) is
  always refused and nothing changes; an unknown ID is reported; otherwise exactly that record goes.
\<close>
theorem Delete_refuses_live:
  assumes "wf_sessions (swStore w)"
  shows "case m_get (swStore w) i of
      None \<Rightarrow> uc_Delete memory_port i w = (Inl ErrSessionNotFound, w)
    | Some x \<Rightarrow> if sStatus x = SRunning \<or> sStatus x = SDisconnected
        then uc_Delete memory_port i w = (Inl ErrSessionRunning, w)
        else \<exists>w'. uc_Delete memory_port i w = (Inr (), w') \<and> wf_sessions (swStore w') \<and>
          m_get (swStore w') = (m_get (swStore w))(i := None)"
  using assms by (rule mem.Delete_outcome)

text \<open>Witness for \<open>Delete_refuses_live\<close>: the running demo session.\<close>
theorem Delete_refuses_live_witness:
  "uc_Delete memory_port ''s1'' demoWorld = (Inl ErrSessionRunning, demoWorld)"
  using Delete_refuses_live [OF demoWorld_wf, of "''s1''"]
  by (simp add: demoWorld_def demoSession_def m_get_def NewHubSession_def)

text \<open>
  An exit report that overtakes the persisting half of \<open>Open\<close> is lost. The shell may end right
  after the agent has answered; if its exit report is handled before the record is created, the
  report is dropped as ``not found'' and the session is then recorded as running, for good.
\<close>
theorem Open_exit_report_lost:
  assumes "Open_request g inp i w = (Inr pid, w1)" "m_get (swStore w1) i = None"
  shows "\<exists>s w3. uc_MarkExited memory_port i code w1 = (Inr (), w1) \<and>
    Open_persist memory_port g inp i name w1 = (Inr s, w3) \<and>
    m_get (swStore w3) i = Some s \<and> sStatus s = SRunning"
  using assms(2)
  by (auto simp: uc_MarkExited_def memory_port_def ss_SetExited_def ss_modify_def store_step_def ignore_not_found_def
      Open_persist_def Let_def ss_Create_def sw_record_def NewHubSession_def)

text \<open>Witness for \<open>Open_exit_report_lost\<close>: an agent that answers with pid 7.\<close>

definition acceptingGateway :: "unit agent_gateway" where
  "acceptingGateway = \<lparr>gwOpenSession = (\<lambda>_ _ _ _ _ _ _ _ gw. (Inr 7, gw)), gwCloseSession = (\<lambda>_ _ gw. (Inr (), gw))\<rparr>"

theorem Open_exit_report_lost_witness:
  "\<exists>s w3. uc_MarkExited memory_port ''s2'' 0 demoWorld = (Inr (), demoWorld) \<and>
    Open_persist memory_port acceptingGateway \<lparr>oiMachineID = ''m1'', oiProjectID = [], oiTitle = [], oiCwd = ''/'',
      oiShell = ''sh'', oiCols = 0, oiRows = 0, oiCreateDir = False\<rparr> ''s2'' ''brave-otter'' demoWorld = (Inr s, w3) \<and>
    m_get (swStore w3) ''s2'' = Some s \<and> sStatus s = SRunning"
  by (rule Open_exit_report_lost [where pid = 7 and w = demoWorld])
    (simp_all add: Open_request_def acceptingGateway_def demoWorld_def m_get_def)

text \<open>
  When the auto-relaunch sessions cannot be fetched, the fallback marks only the other sessions
  lost: an auto-relaunch session stays running although its process is gone.
\<close>

lemma Reconcile_fallback_orphans:
  assumes "spAutoRelaunchSessions p m (swStore w) = Inl err" "spMarkRunningLost p = ss_MarkRunningLost"
    "m_get (swStore w) i = Some x" "sAutoRelaunch x"
  shows "\<exists>w'. uc_ReconcileMachineRestart p g m w = (Inr (), w') \<and> m_get (swStore w') i = Some x"
  using assms by (simp add: uc_ReconcileMachineRestart_def store_step_def ss_MarkRunningLost_def)

text \<open>
  Heartbeat statistics change statistics only. Whatever an agent reports, no session's
  identity, ownership, title, directory, status, exit code or relaunch flag changes, no session
  appears or disappears, and a report for an unknown session is ignored; an activity outside of
  the four known ones is never stored.
\<close>
theorem RecordStat_frame:
  assumes "wf_sessions (swStore w)"
  shows "\<exists>w'. uc_RecordStat memory_port i activity pwd w = (Inr (), w') \<and> wf_sessions (swStore w') \<and>
    (\<forall>j. case m_get (swStore w) j of None \<Rightarrow> m_get (swStore w') j = None
       | Some x \<Rightarrow> \<exists>a d t. m_get (swStore w') j = Some (x\<lparr>sActivity := a, sPwd := d, sLastActiveAt := t\<rparr>) \<and>
           (a = sActivity x \<or> a \<in> set known_activities))"
proof -
  define act where "act = (if activity \<in> set known_activities then activity else [])"
  define f where "f = (\<lambda>ss. let s1 = (if act \<noteq> [] then session_SetActivity act ss else ss);
      s2 = (if pwd \<noteq> [] then session_SetPwd pwd s1 else s1);
      la = (if act = ''active'' then swNow w else 0) in if la > 0 then session_Touch la s2 else s2)"
  have f: "\<exists>a d t. f x = x\<lparr>sActivity := a, sPwd := d, sLastActiveAt := t\<rparr> \<and> (a = sActivity x \<or> a \<in> set known_activities)" for x
    by (rule exI [of _ "sActivity (f x)"], rule exI [of _ "sPwd (f x)"], rule exI [of _ "sLastActiveAt (f x)"])
      (auto simp: f_def act_def session_defs Let_def)
  have self: "\<exists>a d t. x = x\<lparr>sActivity := a, sPwd := d, sLastActiveAt := t\<rparr> \<and> (a = sActivity x \<or> a \<in> set known_activities)" for x :: hsession
    by (rule exI [of _ "sActivity x"], rule exI [of _ "sPwd x"], rule exI [of _ "sLastActiveAt x"]) simp
  have fid: "sId (f x) = sId x" for x by (simp add: f_def session_defs Let_def)
  have uc: "uc_RecordStat memory_port i activity pwd w = (if act = [] \<and> pwd = [] then (Inr (), w)
      else ignore_not_found (store_step (ss_modify f i) w))"
    unfolding uc_RecordStat_def f_def act_def [symmetric] by (simp add: memory_port_def ss_SetStat_def Let_def)
  show ?thesis
  proof (cases "act = [] \<and> pwd = [] \<or> m_get (swStore w) i = None")
    case True
    then have "uc_RecordStat memory_port i activity pwd w = (Inr (), w)"
      by (auto simp: uc ss_modify_def store_step_def ignore_not_found_def)
    then show ?thesis using assms self by (auto split: option.split)
  next
    case False
    then obtain x where x: "m_get (swStore w) i = Some x" by blast
    then have "uc_RecordStat memory_port i activity pwd w = (Inr (), w\<lparr>swStore := m_put i (f x) (swStore w)\<rparr>)"
      using False by (auto simp: uc ss_modify_def store_step_def ignore_not_found_def)
    moreover have "wf_sessions (m_put i (f x) (swStore w))"
      using ss_modify_wf [OF assms fid, of i "m_put i (f x) (swStore w)"] x by (simp add: ss_modify_def)
    ultimately show ?thesis using self f x by (auto split: option.split)
  qed
qed

text \<open>Witness for \<open>RecordStat_frame\<close>: a bogus activity with a directory.\<close>
theorem RecordStat_frame_witness:
  "\<exists>w'. uc_RecordStat memory_port ''s1'' ''dancing'' ''/tmp'' demoWorld = (Inr (), w') \<and> wf_sessions (swStore w') \<and>
    (\<forall>j. case m_get (swStore demoWorld) j of None \<Rightarrow> m_get (swStore w') j = None
       | Some x \<Rightarrow> \<exists>a d t. m_get (swStore w') j = Some (x\<lparr>sActivity := a, sPwd := d, sLastActiveAt := t\<rparr>) \<and>
           (a = sActivity x \<or> a \<in> set known_activities))"
  by (rule RecordStat_frame [OF demoWorld_wf])

end
