(* ===== verification/Auth_App.thy ===== *)
theory Auth_App
  imports Sessions_App
begin

text \<open>
  Operator authentication, \<^verbatim>\<open>internal/hub/app/auth\<close>, over the in-memory stores, and the TOTP
  matcher of \<^verbatim>\<open>internal/hub/adapter/secondary/totp\<close>.

  \<^item> The third-party code generator (\<open>gen secret step\<close>, \<open>None\<close> for an error), SHA-256 (\<open>sha\<close>) and the
    WebAuthn library (a record of functions, or none when unconfigured) are parameters.
  \<^item> Random tokens, the secret and the recovery codes are inputs; a failing random generator is
    not modelled.
  \<^item> The session life time \<open>ttl\<close> is a whole number of seconds.
\<close>

subsection \<open>TOTP (totp.go)\<close>

fun first_match :: "(string \<Rightarrow> int \<Rightarrow> string option) \<Rightarrow> string \<Rightarrow> string \<Rightarrow> int list \<Rightarrow> int option" where
  "first_match gen secret code [] = None"
| "first_match gen secret code (s # ss) = (case gen secret s of
     None \<Rightarrow> first_match gen secret code ss
   | Some expected \<Rightarrow> if expected = code then Some s else first_match gen secret code ss)"

definition Matches :: "(string \<Rightarrow> int \<Rightarrow> string option) \<Rightarrow> string \<Rightarrow> string \<Rightarrow> int \<Rightarrow> int option" where
  "Matches gen secret code now =
     (let currentStep = go_div now 30 in first_match gen secret code [currentStep - 1, currentStep, currentStep + 1])"

definition Verify :: "(string \<Rightarrow> int \<Rightarrow> string option) \<Rightarrow> string \<Rightarrow> string \<Rightarrow> int \<Rightarrow> bool" where
  "Verify gen secret code now \<longleftrightarrow> Matches gen secret code now \<noteq> None"

lemma first_match_in: "first_match gen secret code ss = Some s \<Longrightarrow> s \<in> set ss \<and> gen secret s = Some code"
  by (induction ss) (auto split: option.splits if_splits)

subsection \<open>State\<close>

record auth_world =
  awOps :: operatorStore
  awSessions :: operatorSessionStore
  awChallenges :: challengeStore
  awAudit :: auditStore
  awNow :: int
  awActor :: "string option"

record webauthn =
  waBeginRegistration :: "byte list list \<Rightarrow> (byte list \<times> byte list) result"
  waFinishRegistration :: "byte list list \<Rightarrow> byte list \<Rightarrow> byte list \<Rightarrow> byte list result"
  waBeginLogin :: "byte list list \<Rightarrow> (byte list \<times> byte list) result"
  waFinishLogin :: "byte list list \<Rightarrow> byte list \<Rightarrow> byte list \<Rightarrow> unit result"

definition challengeTTL :: int where "challengeTTL = 5 * 60"
definition sessionRenewSkew :: int where "sessionRenewSkew = 5 * 60"

definition aw_login_event :: "string \<Rightarrow> auth_world \<Rightarrow> auth_world" where
  "aw_login_event detail w = w\<lparr>awAudit := audit_Record (awNow w) (awActor w) ActionLogin [] [] detail (awAudit w)\<rparr>"

subsection \<open>Operations\<close>

definition auth_HasOperator :: "auth_world \<Rightarrow> bool" where
  "auth_HasOperator w = op_HasOperator (awOps w)"

definition BootstrapTOTP :: "(string \<Rightarrow> string) \<Rightarrow> (string \<times> string) result \<Rightarrow> string list \<Rightarrow> auth_world \<Rightarrow>
    (string \<times> string \<times> string list) result \<times> auth_world" where
  "BootstrapTOTP sha generated codes w =
     (if op_HasOperator (awOps w) then (Inl ErrOperatorExists, w)
      else case generated of
        Inl err \<Rightarrow> (Inl err, w)
      | Inr (secret, uri) \<Rightarrow>
          (Inr (secret, uri, codes),
           w\<lparr>awOps := op_SaveTOTP secret (op_SaveRecoveryCodes (map sha codes) (awOps w))\<rparr>))"

text \<open>\<open>newSession\<close>: \<open>tok\<close> is the random session token.\<close>

definition newSession :: "int \<Rightarrow> string \<Rightarrow> auth_world \<Rightarrow> auth_world" where
  "newSession ttl tok w = w\<lparr>awSessions := os_Create tok (awNow w) (awNow w + ttl) (awSessions w)\<rparr>"

text \<open>
  \<open>LoginTOTP\<close> reads the last accepted step and writes the new one in two separate critical
  sections of the store, so two requests can interleave between its halves.
\<close>

definition LoginTOTP_check :: "(string \<Rightarrow> int \<Rightarrow> string option) \<Rightarrow> string \<Rightarrow> auth_world \<Rightarrow> int result" where
  "LoginTOTP_check gen code w = (case op_TOTPSecret (awOps w) of
     None \<Rightarrow> Inl ErrNoOperator
   | Some secret \<Rightarrow>
       (case Matches gen secret code (awNow w) of
          None \<Rightarrow> Inl ErrInvalidCredential
        | Some step \<Rightarrow> if step \<le> op_LastTOTPStep (awOps w) then Inl ErrInvalidCredential else Inr step))"

definition LoginTOTP_commit :: "int \<Rightarrow> int \<Rightarrow> string \<Rightarrow> auth_world \<Rightarrow> string \<times> auth_world" where
  "LoginTOTP_commit ttl step tok w =
     (tok, aw_login_event ''totp'' (newSession ttl tok (w\<lparr>awOps := op_SetTOTPStep step (awOps w)\<rparr>)))"

definition LoginTOTP :: "(string \<Rightarrow> int \<Rightarrow> string option) \<Rightarrow> int \<Rightarrow> string \<Rightarrow> string \<Rightarrow> auth_world \<Rightarrow>
    string result \<times> auth_world" where
  "LoginTOTP gen ttl code tok w = (case LoginTOTP_check gen code w of
     Inl err \<Rightarrow> (Inl err, w)
   | Inr step \<Rightarrow> (case LoginTOTP_commit ttl step tok w of (sid, w') \<Rightarrow> (Inr sid, w')))"

definition LoginRecovery :: "(string \<Rightarrow> string) \<Rightarrow> int \<Rightarrow> string \<Rightarrow> string \<Rightarrow> auth_world \<Rightarrow> string result \<times> auth_world" where
  "LoginRecovery sha ttl code tok w =
     (case op_ConsumeRecoveryCode (sha code) (awOps w) of
        (ok, ops) \<Rightarrow>
          if \<not> ok then (Inl ErrInvalidCredential, w\<lparr>awOps := ops\<rparr>)
          else (Inr tok, aw_login_event ''recovery'' (newSession ttl tok (w\<lparr>awOps := ops\<rparr>))))"

definition ValidateSession :: "int \<Rightarrow> string \<Rightarrow> auth_world \<Rightarrow> (bool \<times> bool) \<times> auth_world" where
  "ValidateSession ttl sid w =
     (case os_Validate sid (awNow w) (awSessions w) of
        ((live, expiresAt), ss) \<Rightarrow>
          (let w1 = w\<lparr>awSessions := ss\<rparr> in
           if \<not> live then ((False, False), w1)
           else if ttl \<le> 0 then ((True, False), w1)
           else let newExpiry = awNow w + ttl in
             if newExpiry - expiresAt < sessionRenewSkew then ((True, False), w1)
             else ((True, True), w1\<lparr>awSessions := os_Refresh sid newExpiry ss\<rparr>)))"

definition Logout :: "string \<Rightarrow> auth_world \<Rightarrow> auth_world" where
  "Logout sid w = w\<lparr>awSessions := os_Delete sid (awSessions w)\<rparr>"

definition BeginPasskeyRegistration :: "webauthn option \<Rightarrow> string \<Rightarrow> auth_world \<Rightarrow> (byte list \<times> string) result \<times> auth_world" where
  "BeginPasskeyRegistration wa key w = (case wa of
     None \<Rightarrow> (Inl ErrWebAuthnUnavailable, w)
   | Some a \<Rightarrow> (case waBeginRegistration a (op_WebAuthnCredentials (awOps w)) of
       Inl err \<Rightarrow> (Inl err, w)
     | Inr (options, session) \<Rightarrow>
         (Inr (options, key), w\<lparr>awChallenges := ch_Put key session (awNow w + challengeTTL) (awChallenges w)\<rparr>)))"

definition FinishPasskeyRegistration :: "webauthn option \<Rightarrow> string \<Rightarrow> byte list \<Rightarrow> auth_world \<Rightarrow> unit result \<times> auth_world" where
  "FinishPasskeyRegistration wa key body w = (case wa of
     None \<Rightarrow> (Inl ErrWebAuthnUnavailable, w)
   | Some a \<Rightarrow> (case ch_Take key (awNow w) (awChallenges w) of
       (None, ch) \<Rightarrow> (Inl ErrChallengeNotFound, w\<lparr>awChallenges := ch\<rparr>)
     | (Some session, ch) \<Rightarrow>
         (let w1 = w\<lparr>awChallenges := ch\<rparr> in
          case waFinishRegistration a (op_WebAuthnCredentials (awOps w1)) session body of
            Inl err \<Rightarrow> (Inl err, w1)
          | Inr cred \<Rightarrow> (Inr (), w1\<lparr>awOps := op_SaveWebAuthnCredential cred (awOps w1)\<rparr>))))"

definition BeginPasskeyLogin :: "webauthn option \<Rightarrow> string \<Rightarrow> auth_world \<Rightarrow> (byte list \<times> string) result \<times> auth_world" where
  "BeginPasskeyLogin wa key w = (case wa of
     None \<Rightarrow> (Inl ErrWebAuthnUnavailable, w)
   | Some a \<Rightarrow>
       if op_WebAuthnCredentials (awOps w) = [] then (Inl ErrNoOperator, w)
       else (case waBeginLogin a (op_WebAuthnCredentials (awOps w)) of
         Inl err \<Rightarrow> (Inl err, w)
       | Inr (options, session) \<Rightarrow>
           (Inr (options, key), w\<lparr>awChallenges := ch_Put key session (awNow w + challengeTTL) (awChallenges w)\<rparr>)))"

definition FinishPasskeyLogin :: "webauthn option \<Rightarrow> int \<Rightarrow> string \<Rightarrow> byte list \<Rightarrow> string \<Rightarrow> auth_world \<Rightarrow>
    string result \<times> auth_world" where
  "FinishPasskeyLogin wa ttl key body tok w = (case wa of
     None \<Rightarrow> (Inl ErrWebAuthnUnavailable, w)
   | Some a \<Rightarrow> (case ch_Take key (awNow w) (awChallenges w) of
       (None, ch) \<Rightarrow> (Inl ErrChallengeNotFound, w\<lparr>awChallenges := ch\<rparr>)
     | (Some session, ch) \<Rightarrow>
         (let w1 = w\<lparr>awChallenges := ch\<rparr> in
          case waFinishLogin a (op_WebAuthnCredentials (awOps w1)) session body of
            Inl err \<Rightarrow> (Inl err, w1)
          | Inr _ \<Rightarrow> (Inr tok, aw_login_event ''passkey'' (newSession ttl tok w1)))))"

lemmas auth_defs = BootstrapTOTP_def newSession_def LoginTOTP_check_def LoginTOTP_commit_def LoginTOTP_def
  LoginRecovery_def ValidateSession_def Logout_def BeginPasskeyRegistration_def FinishPasskeyRegistration_def
  BeginPasskeyLogin_def FinishPasskeyLogin_def aw_login_event_def

lemmas op_defs = op_HasOperator_def op_TOTPSecret_def op_SaveTOTP_def op_SaveRecoveryCodes_def op_ConsumeRecoveryCode_def
  op_WebAuthnCredentials_def op_SaveWebAuthnCredential_def op_LastTOTPStep_def op_SetTOTPStep_def

lemmas os_defs = os_Create_def os_Validate_def os_Refresh_def os_Delete_def

subsection \<open>Requests in sequence\<close>

datatype auth_event =
    AeBootstrap "(string \<times> string) result" "string list" | AeTOTP string string | AeRecovery string string
  | AeValidate string | AeLogout string | AeBeginReg string | AeFinishReg string "byte list"
  | AeBeginLogin string | AeFinishLogin string "byte list" string | AeTick int

record auth_config =
  acGen :: "string \<Rightarrow> int \<Rightarrow> string option"
  acSha :: "string \<Rightarrow> string"
  acWebauthn :: "webauthn option"
  acTtl :: int

fun aw_apply :: "auth_config \<Rightarrow> auth_event \<Rightarrow> auth_world \<Rightarrow> auth_world" where
  "aw_apply c (AeBootstrap generated codes) w = snd (BootstrapTOTP (acSha c) generated codes w)"
| "aw_apply c (AeTOTP code tok) w = snd (LoginTOTP (acGen c) (acTtl c) code tok w)"
| "aw_apply c (AeRecovery code tok) w = snd (LoginRecovery (acSha c) (acTtl c) code tok w)"
| "aw_apply c (AeValidate sid) w = snd (ValidateSession (acTtl c) sid w)"
| "aw_apply c (AeLogout sid) w = Logout sid w"
| "aw_apply c (AeBeginReg key) w = snd (BeginPasskeyRegistration (acWebauthn c) key w)"
| "aw_apply c (AeFinishReg key body) w = snd (FinishPasskeyRegistration (acWebauthn c) key body w)"
| "aw_apply c (AeBeginLogin key) w = snd (BeginPasskeyLogin (acWebauthn c) key w)"
| "aw_apply c (AeFinishLogin key body tok) w = snd (FinishPasskeyLogin (acWebauthn c) (acTtl c) key body tok w)"
| "aw_apply c (AeTick t) w = w\<lparr>awNow := t\<rparr>"

definition aw_run :: "auth_config \<Rightarrow> auth_event list \<Rightarrow> auth_world \<Rightarrow> auth_world" where
  "aw_run c evs w = fold (aw_apply c) evs w"

subsection \<open>A time step is accepted once\<close>

lemma totp_step_mono: "opTotpLastStep (awOps w) \<le> opTotpLastStep (awOps (aw_apply c ev w))"
  by (cases ev) (auto simp: auth_defs op_defs Let_def split: sum.splits option.splits prod.splits if_splits)

lemma totp_run_mono: "opTotpLastStep (awOps w) \<le> opTotpLastStep (awOps (aw_run c evs w))"
  unfolding aw_run_def
proof (induction evs arbitrary: w)
  case Nil
  then show ?case by simp
next
  case (Cons ev evs)
  then show ?case using totp_step_mono [of w c ev] order_trans by fastforce
qed

lemma operator_stays: "opHasTOTP (awOps w) \<Longrightarrow> opHasTOTP (awOps (aw_apply c ev w)) \<and> opTotpSecret (awOps (aw_apply c ev w)) = opTotpSecret (awOps w)"
  by (cases ev) (auto simp: auth_defs op_defs Let_def split: sum.splits option.splits prod.splits if_splits)

lemma operator_stays_run: "opHasTOTP (awOps w) \<Longrightarrow> opHasTOTP (awOps (aw_run c evs w)) \<and> opTotpSecret (awOps (aw_run c evs w)) = opTotpSecret (awOps w)"
  unfolding aw_run_def by (induction evs arbitrary: w) (auto simp: operator_stays)

text \<open>
  C26: TOTP codes cannot be replayed one after the other. If a login with a code was accepted for
  some time step, then, whatever requests come in between, a later login whose code matches that
  step or an earlier one is rejected.
\<close>
theorem totp_step_accepted_once:
  assumes "LoginTOTP (acGen c) (acTtl c) code tok w = (Inr sid, w1)" "Matches (acGen c) (opTotpSecret (awOps w)) code (awNow w) = Some step"
    and "w' = aw_run c evs w1" "Matches (acGen c) (opTotpSecret (awOps w')) code' (awNow w') = Some step'" "step' \<le> step"
  shows "LoginTOTP (acGen c) (acTtl c) code' tok' w' = (Inl ErrInvalidCredential, w')"
proof -
  have "opTotpLastStep (awOps w1) = step" "opHasTOTP (awOps w1)"
    using assms(1,2) by (auto simp: auth_defs op_defs split: sum.splits option.splits if_splits)
  then have "step' \<le> opTotpLastStep (awOps w')" "opHasTOTP (awOps w')"
    using totp_run_mono [of w1 c evs] operator_stays_run [of w1 c evs] assms(3,5) by auto
  then show ?thesis using assms(4) by (auto simp: auth_defs op_defs)
qed

text \<open>A code generator whose code is its step number, for the witnesses.\<close>

definition demoConfig :: auth_config where
  "demoConfig = \<lparr>acGen = (\<lambda>secret s. Some (replicate (nat s) CHR ''x'')), acSha = (\<lambda>x. x), acWebauthn = None, acTtl = 3600\<rparr>"

definition demoAuth :: auth_world where
  "demoAuth = \<lparr>awOps = NewOperatorStore\<lparr>opTotpSecret := ''k'', opHasTOTP := True, opRecoveryCodes := [(''r1'', ())]\<rparr>,
     awSessions = [], awChallenges = [], awAudit = [], awNow = 60, awActor = None\<rparr>"

text \<open>Witness for \<open>totp_step_accepted_once\<close>: the same code again ten seconds later.\<close>
theorem totp_step_accepted_once_witness:
  "LoginTOTP (acGen demoConfig) (acTtl demoConfig) ''xx'' ''tok2'' (aw_run demoConfig [AeTick 70]
     (snd (LoginTOTP (acGen demoConfig) (acTtl demoConfig) ''xx'' ''tok1'' demoAuth))) =
   (Inl ErrInvalidCredential, aw_run demoConfig [AeTick 70]
     (snd (LoginTOTP (acGen demoConfig) (acTtl demoConfig) ''xx'' ''tok1'' demoAuth)))"
proof (rule totp_step_accepted_once [where step = 2 and step' = 2 and sid = "''tok1''" and code = "''xx''" and w = demoAuth])
  show "LoginTOTP (acGen demoConfig) (acTtl demoConfig) ''xx'' ''tok1'' demoAuth =
      (Inr ''tok1'', snd (LoginTOTP (acGen demoConfig) (acTtl demoConfig) ''xx'' ''tok1'' demoAuth))" by code_simp
  show "Matches (acGen demoConfig) (opTotpSecret (awOps demoAuth)) ''xx'' (awNow demoAuth) = Some 2" by code_simp
  show "Matches (acGen demoConfig) (opTotpSecret (awOps (aw_run demoConfig [AeTick 70]
      (snd (LoginTOTP (acGen demoConfig) (acTtl demoConfig) ''xx'' ''tok1'' demoAuth))))) ''xx''
      (awNow (aw_run demoConfig [AeTick 70] (snd (LoginTOTP (acGen demoConfig) (acTtl demoConfig) ''xx'' ''tok1'' demoAuth)))) = Some 2"
    by code_simp
qed simp_all

text \<open>
  Two concurrent logins can share one TOTP code. The check of the last step and its update are
  separate critical sections: when a second request with the same code is checked before the first
  one commits, both are accepted and both get a session.
\<close>
theorem totp_concurrent_replay:
  assumes "LoginTOTP_check gen code w = Inr step" "tok1 \<noteq> tok2"
  shows "\<exists>w1 w2. LoginTOTP_check gen code w = Inr step \<and>
    LoginTOTP_commit ttl step tok1 w = (tok1, w1) \<and> LoginTOTP_commit ttl step tok2 w1 = (tok2, w2) \<and>
    m_get (awSessions w2) tok1 = Some \<lparr>osCreatedAt = awNow w, osExpiresAt = awNow w + ttl, osLastSeenAt = 0\<rparr> \<and>
    m_get (awSessions w2) tok2 = Some \<lparr>osCreatedAt = awNow w, osExpiresAt = awNow w + ttl, osLastSeenAt = 0\<rparr>"
  using assms by (simp add: auth_defs op_defs os_defs)

text \<open>Witness for \<open>totp_concurrent_replay\<close>: two requests with the code of step 2.\<close>
theorem totp_concurrent_replay_witness:
  "\<exists>w1 w2. LoginTOTP_check (acGen demoConfig) ''xx'' demoAuth = Inr 2 \<and>
    LoginTOTP_commit 3600 2 ''a'' demoAuth = (''a'', w1) \<and> LoginTOTP_commit 3600 2 ''b'' w1 = (''b'', w2) \<and>
    m_get (awSessions w2) ''a'' = Some \<lparr>osCreatedAt = awNow demoAuth, osExpiresAt = awNow demoAuth + 3600, osLastSeenAt = 0\<rparr> \<and>
    m_get (awSessions w2) ''b'' = Some \<lparr>osCreatedAt = awNow demoAuth, osExpiresAt = awNow demoAuth + 3600, osLastSeenAt = 0\<rparr>"
proof (rule totp_concurrent_replay)
  show "LoginTOTP_check (acGen demoConfig) ''xx'' demoAuth = Inr 2" by code_simp
qed simp

subsection \<open>Recovery codes are one-shot\<close>

lemma recovery_gone_step:
  "opHasTOTP (awOps w) \<Longrightarrow> m_get (opRecoveryCodes (awOps w)) h = None \<Longrightarrow> m_get (opRecoveryCodes (awOps (aw_apply c ev w))) h = None"
  by (cases ev) (auto simp: auth_defs op_defs Let_def split: sum.splits option.splits prod.splits if_splits)

lemma recovery_gone_run:
  "opHasTOTP (awOps w) \<Longrightarrow> m_get (opRecoveryCodes (awOps w)) h = None \<Longrightarrow> m_get (opRecoveryCodes (awOps (aw_run c evs w))) h = None"
  unfolding aw_run_def by (induction evs arbitrary: w) (auto simp: recovery_gone_step operator_stays)

text \<open>
  A recovery code logs in once. After a successful recovery login on a set-up hub, no later
  login with that code succeeds, whatever requests come in between.
\<close>
theorem recovery_code_one_shot:
  assumes "LoginRecovery (acSha c) (acTtl c) code tok w = (Inr sid, w1)" "op_HasOperator (awOps w)"
  shows "fst (LoginRecovery (acSha c) (acTtl c) code tok2 (aw_run c evs w1)) = Inl ErrInvalidCredential"
proof -
  have "opHasTOTP (awOps w1)" "m_get (opRecoveryCodes (awOps w1)) (acSha c code) = None"
    using assms by (auto simp: auth_defs op_defs split: option.splits prod.splits if_splits)
  from recovery_gone_run [OF this] show ?thesis by (simp add: auth_defs op_defs)
qed

text \<open>Witness for \<open>recovery_code_one_shot\<close>: the code \<open>r1\<close>.\<close>
theorem recovery_code_one_shot_witness:
  "fst (LoginRecovery (acSha demoConfig) (acTtl demoConfig) ''r1'' ''t2'' (aw_run demoConfig [AeTick 99]
     (snd (LoginRecovery (acSha demoConfig) (acTtl demoConfig) ''r1'' ''t1'' demoAuth)))) = Inl ErrInvalidCredential"
proof (rule recovery_code_one_shot [where w = demoAuth and tok = "''t1''" and sid = "''t1''"])
  show "LoginRecovery (acSha demoConfig) (acTtl demoConfig) ''r1'' ''t1'' demoAuth =
      (Inr ''t1'', snd (LoginRecovery (acSha demoConfig) (acTtl demoConfig) ''r1'' ''t1'' demoAuth))" by code_simp
qed (simp add: demoAuth_def op_defs)

subsection \<open>Operator sessions\<close>

text \<open>A session is dead when it is unknown or expired; only issuing its token anew revives it.\<close>

definition dead_session :: "string \<Rightarrow> auth_world \<Rightarrow> bool" where
  "dead_session sid w \<longleftrightarrow> (case m_get (awSessions w) sid of None \<Rightarrow> True | Some s \<Rightarrow> osExpiresAt s \<le> awNow w)"

definition issues :: "string \<Rightarrow> auth_event \<Rightarrow> bool" where
  "issues sid ev \<longleftrightarrow> (case ev of AeTOTP code tok \<Rightarrow> tok = sid | AeRecovery code tok \<Rightarrow> tok = sid
     | AeFinishLogin key body tok \<Rightarrow> tok = sid | _ \<Rightarrow> False)"

definition backwards :: "auth_world \<Rightarrow> auth_event \<Rightarrow> bool" where
  "backwards w ev \<longleftrightarrow> (case ev of AeTick t \<Rightarrow> t < awNow w | _ \<Rightarrow> False)"

lemma dead_session_step:
  "dead_session sid w \<Longrightarrow> \<not> issues sid ev \<Longrightarrow> \<not> backwards w ev \<Longrightarrow> dead_session sid (aw_apply c ev w)"
  by (cases ev) (auto simp: auth_defs os_defs dead_session_def issues_def backwards_def Let_def
      split: sum.splits option.splits prod.splits if_splits)

fun forward :: "auth_config \<Rightarrow> auth_world \<Rightarrow> auth_event list \<Rightarrow> bool" where
  "forward c w [] \<longleftrightarrow> True"
| "forward c w (ev # evs) \<longleftrightarrow> \<not> backwards w ev \<and> forward c (aw_apply c ev w) evs"

lemma dead_session_run:
  "dead_session sid w \<Longrightarrow> forward c w evs \<Longrightarrow> \<forall>ev \<in> set evs. \<not> issues sid ev \<Longrightarrow> dead_session sid (aw_run c evs w)"
  unfolding aw_run_def by (induction evs arbitrary: w) (auto simp: dead_session_step)

lemma dead_session_rejected: "dead_session sid w \<Longrightarrow> fst (ValidateSession ttl sid w) = (False, False)"
  by (auto simp: ValidateSession_def os_Validate_def dead_session_def Let_def split: option.splits)

text \<open>
  C32: an ended session stays ended. Once an operator session has expired or was logged out, no
  later request with it is accepted, however the requests interleave, as long as the clock does
  not run backwards and the token is not issued again: the sliding renewal never revives it.
\<close>
theorem ended_session_stays_ended:
  assumes "dead_session sid w \<or> (\<exists>w0. w = Logout sid w0)" "forward c w evs" "\<forall>ev \<in> set evs. \<not> issues sid ev"
  shows "fst (ValidateSession (acTtl c) sid (aw_run c evs w)) = (False, False)"
proof -
  have "dead_session sid w" using assms(1) by (auto simp: dead_session_def Logout_def os_defs)
  then show ?thesis using dead_session_run [OF _ assms(2,3)] dead_session_rejected by blast
qed

text \<open>Witness for \<open>ended_session_stays_ended\<close>: validation after a logout and a tick.\<close>
theorem ended_session_stays_ended_witness:
  "fst (ValidateSession (acTtl demoConfig) ''t1'' (aw_run demoConfig [AeTick 100, AeValidate ''t1''] (Logout ''t1'' demoAuth))) = (False, False)"
proof (rule ended_session_stays_ended)
  show "dead_session ''t1'' (Logout ''t1'' demoAuth) \<or> (\<exists>w0. Logout ''t1'' demoAuth = Logout ''t1'' w0)" by blast
  show "forward demoConfig (Logout ''t1'' demoAuth) [AeTick 100, AeValidate ''t1'']" by code_simp
qed (simp add: issues_def)

text \<open>
  Sessions slide, but not too far. A validation succeeds exactly for an unexpired session;
  afterwards its expiry is unchanged or, if that moves it by at least the renewal threshold,
  exactly one life time from now, and \<open>renewed\<close> tells which.
\<close>
theorem ValidateSession_slides:
  "case m_get (awSessions w) sid of
     None \<Rightarrow> fst (ValidateSession ttl sid w) = (False, False)
   | Some s \<Rightarrow> \<exists>renewed w'. ValidateSession ttl sid w = ((awNow w < osExpiresAt s, renewed), w') \<and>
       map_option osExpiresAt (m_get (awSessions w') sid) = Some (if renewed then awNow w + ttl else osExpiresAt s) \<and>
       renewed = (awNow w < osExpiresAt s \<and> 0 < ttl \<and> sessionRenewSkew \<le> awNow w + ttl - osExpiresAt s)"
  by (auto simp: ValidateSession_def os_defs Let_def split: option.split)

end
