(* ===== verification/Rate_Limit.thy ===== *)
theory Rate_Limit
  imports Hub_Domain
begin

text \<open>
  The login rate limiter, \<^verbatim>\<open>internal/hub/adapter/primary/httpapi/ratelimit.go\<close>, and the client
  address it is keyed by. Instants and durations are integers (nanoseconds). Every call of \<open>allow\<close>
  runs under the limiter's mutex.
\<close>

subsection \<open>Definitions\<close>

definition second :: int where "second = 1000000000"

definition loginIPMax :: int where "loginIPMax = 5"
definition loginGlobalMax :: int where "loginGlobalMax = 15"
definition loginWindow :: int where "loginWindow = 60 * second"

record rlEntry =
  rlCount :: int
  rlWindowEnd :: int

record rateLimiter =
  rlMax :: int
  rlWindow :: int
  rlEntries :: "rlEntry gomap"
  rlCallCount :: int
  rlEvictInterval :: int

definition newRateLimiter :: "int \<Rightarrow> int \<Rightarrow> rateLimiter" where
  "newRateLimiter mx window = \<lparr>rlMax = mx, rlWindow = window, rlEntries = [], rlCallCount = 0, rlEvictInterval = 100\<rparr>"

definition rl_evict :: "int \<Rightarrow> rateLimiter \<Rightarrow> rateLimiter" where
  "rl_evict now l = l\<lparr>rlEntries := filter (\<lambda>(k, e). \<not> now > rlWindowEnd e) (rlEntries l)\<rparr>"

definition rl_allow :: "string \<Rightarrow> int \<Rightarrow> rateLimiter \<Rightarrow> (bool \<times> int) \<times> rateLimiter" where
  "rl_allow key now l0 =
     (let l1 = l0\<lparr>rlCallCount := rlCallCount l0 + 1\<rparr>;
          l = (if rlCallCount l1 mod rlEvictInterval l1 = 0 then rl_evict now l1 else l1);
          fresh = ((True, 0), l\<lparr>rlEntries := m_put key \<lparr>rlCount = 1, rlWindowEnd = now + rlWindow l\<rparr> (rlEntries l)\<rparr>)
      in case m_get (rlEntries l) key of
           None \<Rightarrow> fresh
         | Some e \<Rightarrow>
             if now > rlWindowEnd e then fresh
             else if rlCount e \<ge> rlMax l then ((False, rlWindowEnd e - now), l)
             else ((True, 0), l\<lparr>rlEntries := m_put key (e\<lparr>rlCount := rlCount e + 1\<rparr>) (rlEntries l)\<rparr>))"

text \<open>The \<open>Retry-After\<close> header: whole seconds, rounded down, plus one.\<close>

definition retryAfterHeader :: "int \<Rightarrow> int" where
  "retryAfterHeader ra = go_div ra second + 1"

text \<open>
  \<open>clientIP\<close>: the first hop of the \<open>X-Forwarded-For\<close> header, or the host of the peer address, which
  \<open>splitHostPort\<close> (package \<open>net\<close>) extracts or rejects.
\<close>

definition clientIP :: "(string \<Rightarrow> string option) \<Rightarrow> string \<Rightarrow> string \<Rightarrow> string" where
  "clientIP splitHostPort xff remoteAddr =
     (let ip = TrimSpace (takeWhile (\<lambda>c. c \<noteq> CHR '','') xff)
      in if xff \<noteq> [] \<and> ip \<noteq> [] then ip
         else case splitHostPort remoteAddr of None \<Rightarrow> remoteAddr | Some host \<Rightarrow> host)"

subsection \<open>Eviction is invisible\<close>

text \<open>
  The specification forgets nothing: every key has its latest window, and a window counts as long
  as it has not ended.
\<close>

definition live_entry :: "rateLimiter \<Rightarrow> int \<Rightarrow> string \<Rightarrow> rlEntry option" where
  "live_entry l now k = (case m_get (rlEntries l) k of None \<Rightarrow> None
     | Some e \<Rightarrow> if now > rlWindowEnd e then None else Some e)"

definition spec_allow :: "rateLimiter \<Rightarrow> string \<Rightarrow> int \<Rightarrow> rlEntry option \<Rightarrow> (bool \<times> int) \<times> rlEntry" where
  "spec_allow l key now cur = (case cur of
     None \<Rightarrow> ((True, 0), \<lparr>rlCount = 1, rlWindowEnd = now + rlWindow l\<rparr>)
   | Some e \<Rightarrow> if rlCount e \<ge> rlMax l then ((False, rlWindowEnd e - now), e)
       else ((True, 0), e\<lparr>rlCount := rlCount e + 1\<rparr>))"

lemma m_get_filter:
  "wf_map m \<Longrightarrow> m_get (filter (\<lambda>(k, v). P v) m) k = (case m_get m k of None \<Rightarrow> None | Some v \<Rightarrow> if P v then Some v else None)"
proof (induction m)
  case (Cons kv m)
  obtain k' v where kv: "kv = (k', v)" by (cases kv)
  have "k' \<notin> fst ` set m" "wf_map m" using Cons.prems by (auto simp: wf_map_def kv)
  then have "m_get m k' = None" by (simp add: m_get_def map_of_eq_None_iff)
  then show ?case using Cons.IH [OF \<open>wf_map m\<close>] kv by (auto simp: m_get_def split: option.splits)
qed (simp add: m_get_def)

lemma wf_map_filter: "wf_map m \<Longrightarrow> wf_map (filter P m)"
  by (simp add: wf_map_def distinct_map_filter)

lemma live_entry_evict: "wf_map (rlEntries l) \<Longrightarrow> now \<le> t \<Longrightarrow> live_entry (rl_evict now l) t k = live_entry l t k"
  using m_get_filter [of "rlEntries l" "\<lambda>e. \<not> now > rlWindowEnd e" k]
  by (auto simp: live_entry_def rl_evict_def split: option.splits)

lemma evict_keeps [simp]:
  "rlMax (rl_evict now l) = rlMax l" "rlWindow (rl_evict now l) = rlWindow l"
  by (simp_all add: rl_evict_def)

lemma allow_keeps:
  assumes "rl_allow key now l = (r, l')"
  shows "rlMax l' = rlMax l" "rlWindow l' = rlWindow l" "wf_map (rlEntries l) \<Longrightarrow> wf_map (rlEntries l')"
  using assms wf_map_filter [of "rlEntries l"]
  by (auto simp: rl_allow_def Let_def rl_evict_def split: option.splits if_splits)

lemma live_put:
  "live_entry (l\<lparr>rlEntries := m_put key e (rlEntries l)\<rparr>) t k =
     (if k = key then if t > rlWindowEnd e then None else Some e else live_entry l t k)"
  by (simp add: live_entry_def)

lemma rl_allow_spec:
  assumes "wf_map (rlEntries l)"
  shows "\<exists>l'. rl_allow key now l = (fst (spec_allow l key now (live_entry l now key)), l') \<and> wf_map (rlEntries l') \<and>
    rlMax l' = rlMax l \<and> rlWindow l' = rlWindow l \<and>
    (\<forall>t \<ge> now. \<forall>k. live_entry l' t k = (if k = key then (let e = snd (spec_allow l key now (live_entry l now key))
       in if t > rlWindowEnd e then None else Some e) else live_entry l t k))"
proof -
  define l1 where "l1 = l\<lparr>rlCallCount := rlCallCount l + 1\<rparr>"
  define l2 where "l2 = (if rlCallCount l1 mod rlEvictInterval l1 = 0 then rl_evict now l1 else l1)"
  have live: "live_entry l2 t k = live_entry l t k" if "now \<le> t" for t k
  proof -
    have "live_entry l1 t k = live_entry l t k" by (simp add: l1_def live_entry_def)
    then show ?thesis using live_entry_evict [of l1 now t k] that assms by (simp add: l2_def l1_def)
  qed
  let ?s = "spec_allow l key now (live_entry l now key)"
  have same: "rlMax l2 = rlMax l" "rlWindow l2 = rlWindow l" by (simp_all add: l2_def l1_def)
  have wf: "wf_map (rlEntries l2)" using assms wf_map_filter by (auto simp: l2_def l1_def rl_evict_def)
  have "rl_allow key now l = (fst ?s, if fst (fst ?s) then l2\<lparr>rlEntries := m_put key (snd ?s) (rlEntries l2)\<rparr> else l2)"
    using live [of now key] same unfolding rl_allow_def l1_def [symmetric] l2_def [symmetric] Let_def
    by (auto simp: spec_allow_def live_entry_def split: option.splits if_splits)
  moreover have "snd ?s = e \<and> live_entry l now key = Some e" if "\<not> fst (fst ?s)" "snd ?s = e" for e
    using that by (auto simp: spec_allow_def split: option.splits if_splits)
  ultimately show ?thesis using wf same live
    by (cases "fst (fst ?s)") (auto simp: live_put Let_def live_entry_def split: option.splits if_splits)
qed

text \<open>
  Eviction is invisible. The limiter, which now and then throws away ended windows, answers every
  call exactly as the specification, which keeps all of them, and leaves every key with the window
  the specification gives it, as seen from this and every later instant.
\<close>
theorem rl_allow_refines:
  assumes "wf_map (rlEntries l)"
  shows "\<exists>l'. rl_allow key now l = (fst (spec_allow l key now (live_entry l now key)), l') \<and> wf_map (rlEntries l') \<and>
    rlMax l' = rlMax l \<and> rlWindow l' = rlWindow l \<and>
    (\<forall>t \<ge> now. \<forall>k. live_entry l' t k = (if k = key then (let e = snd (spec_allow l key now (live_entry l now key))
       in if t > rlWindowEnd e then None else Some e) else live_entry l t k))"
  using assms by (rule rl_allow_spec)

subsection \<open>How many calls get through\<close>

fun rl_accepted :: "string \<Rightarrow> (string \<times> int) list \<Rightarrow> rateLimiter \<Rightarrow> nat" where
  "rl_accepted k [] l = 0"
| "rl_accepted k ((key, now) # calls) l = (case rl_allow key now l of ((ok, _), l') \<Rightarrow>
     (if key = k \<and> ok then 1 else 0) + rl_accepted k calls l')"

fun rl_after :: "(string \<times> int) list \<Rightarrow> rateLimiter \<Rightarrow> rateLimiter" where
  "rl_after [] l = l"
| "rl_after ((key, now) # calls) l = rl_after calls (snd (rl_allow key now l))"

text \<open>Between calls: every window that has not ended has let through between one and \<open>max\<close> calls.\<close>

definition wf_limiter :: "int \<Rightarrow> rateLimiter \<Rightarrow> bool" where
  "wf_limiter now l \<longleftrightarrow> wf_map (rlEntries l) \<and> 1 \<le> rlMax l \<and> 0 \<le> rlWindow l \<and>
     (\<forall>k e. live_entry l now k = Some e \<longrightarrow> 1 \<le> rlCount e \<and> rlCount e \<le> rlMax l)"

lemma live_later: "live_entry l now k = None \<Longrightarrow> now \<le> t \<Longrightarrow> live_entry l t k = None"
  "live_entry l now k = Some e \<Longrightarrow> now \<le> t \<Longrightarrow> live_entry l t k = (if t > rlWindowEnd e then None else Some e)"
  by (auto simp: live_entry_def split: option.splits if_splits)

lemma live_earlier: "live_entry l t k = Some e \<Longrightarrow> now \<le> t \<Longrightarrow> live_entry l now k = Some e"
  by (auto simp: live_entry_def split: option.splits if_splits)

lemma wf_limiter_later: "wf_limiter now l \<Longrightarrow> now \<le> t \<Longrightarrow> wf_limiter t l"
  by (auto simp: wf_limiter_def dest: live_earlier)

text \<open>One call, in terms of the windows.\<close>

lemma allow_step:
  assumes "wf_limiter now l"
  obtains ok ra l' where "rl_allow key now l = ((ok, ra), l')" "wf_limiter now l'" "rlMax l' = rlMax l" "rlWindow l' = rlWindow l"
    and "\<And>k. k \<noteq> key \<Longrightarrow> live_entry l' now k = live_entry l now k"
    and "case live_entry l now key of
      None \<Rightarrow> ok \<and> live_entry l' now key = Some \<lparr>rlCount = 1, rlWindowEnd = now + rlWindow l\<rparr>
    | Some e \<Rightarrow> if rlCount e = rlMax l then \<not> ok \<and> ra = rlWindowEnd e - now \<and> live_entry l' now key = Some e
        else ok \<and> live_entry l' now key = Some (e\<lparr>rlCount := rlCount e + 1\<rparr>)"
proof -
  have wf: "wf_map (rlEntries l)" "1 \<le> rlMax l" "0 \<le> rlWindow l"
    and cnt: "\<And>k e. live_entry l now k = Some e \<Longrightarrow> 1 \<le> rlCount e \<and> rlCount e \<le> rlMax l"
    using assms by (auto simp: wf_limiter_def)
  let ?s = "spec_allow l key now (live_entry l now key)"
  from rl_allow_spec [OF wf(1), of key now] obtain l' where
    l': "rl_allow key now l = (fst ?s, l')" "wf_map (rlEntries l')" "rlMax l' = rlMax l" "rlWindow l' = rlWindow l"
    and live: "\<And>k. live_entry l' now k = (if k = key then (let e = snd ?s in if now > rlWindowEnd e then None else Some e)
      else live_entry l now k)" by auto
  have "\<not> now > rlWindowEnd e" if "live_entry l now key = Some e" for e
    using that by (auto simp: live_entry_def split: option.splits if_splits)
  then have end_ok: "\<not> now > rlWindowEnd (snd ?s)" using wf(3) by (auto simp: spec_allow_def split: option.split)
  have "1 \<le> rlCount (snd ?s) \<and> rlCount (snd ?s) \<le> rlMax l"
    using wf(2) cnt by (fastforce simp: spec_allow_def split: option.split)
  then have "wf_limiter now l'" using l' wf cnt end_ok by (auto simp: wf_limiter_def live Let_def split: if_splits)
  moreover have "live_entry l' now key = Some (snd ?s)" using live [of key] end_ok by (simp add: Let_def)
  then have "case live_entry l now key of
      None \<Rightarrow> fst (fst ?s) \<and> live_entry l' now key = Some \<lparr>rlCount = 1, rlWindowEnd = now + rlWindow l\<rparr>
    | Some e \<Rightarrow> if rlCount e = rlMax l then \<not> fst (fst ?s) \<and> snd (fst ?s) = rlWindowEnd e - now \<and> live_entry l' now key = Some e
        else fst (fst ?s) \<and> live_entry l' now key = Some (e\<lparr>rlCount := rlCount e + 1\<rparr>)"
    using cnt [of key] by (auto simp: spec_allow_def split: option.split)
  ultimately show ?thesis using that [of "fst (fst ?s)" "snd (fst ?s)" l'] l' live by simp
qed

definition rl_budget :: "string \<Rightarrow> int \<Rightarrow> rateLimiter \<Rightarrow> int" where
  "rl_budget k now l = (case live_entry l now k of None \<Rightarrow> 0 | Some e \<Rightarrow> rlMax l - rlCount e)"

text \<open>As long as the current window lasts, only its remaining budget gets through.\<close>

lemma accepted_in_window:
  assumes "wf_limiter now l" "live_entry l now k = Some e"
    and "sorted (map snd calls)" "\<forall>(key, s) \<in> set calls. now \<le> s \<and> s \<le> rlWindowEnd e"
  shows "int (rl_accepted k calls l) \<le> rlMax l - rlCount e"
  using assms
proof (induction calls arbitrary: now l e)
  case Nil
  then show ?case by (auto simp: wf_limiter_def)
next
  case (Cons call calls)
  obtain key s where call: "call = (key, s)" by (cases call)
  with Cons.prems have s: "now \<le> s" "s \<le> rlWindowEnd e" "sorted (map snd calls)"
    "\<forall>(key, s') \<in> set calls. s \<le> s' \<and> s' \<le> rlWindowEnd e" by auto
  have wf: "wf_limiter s l" and live: "live_entry l s k = Some e"
    using wf_limiter_later [OF Cons.prems(1) s(1)] live_later(2) [OF Cons.prems(2) s(1)] s(2) by auto
  from wf obtain ok ra l' where l': "rl_allow key s l = ((ok, ra), l')" "wf_limiter s l'" "rlMax l' = rlMax l"
    and other: "k \<noteq> key \<Longrightarrow> live_entry l' s k = live_entry l s k"
    and own: "case live_entry l s key of
      None \<Rightarrow> ok \<and> live_entry l' s key = Some \<lparr>rlCount = 1, rlWindowEnd = s + rlWindow l\<rparr>
    | Some e \<Rightarrow> if rlCount e = rlMax l then \<not> ok \<and> ra = rlWindowEnd e - s \<and> live_entry l' s key = Some e
        else ok \<and> live_entry l' s key = Some (e\<lparr>rlCount := rlCount e + 1\<rparr>)"
    by (rule allow_step) blast
  show ?case
  proof (cases "key = k \<and> rlCount e \<noteq> rlMax l")
    case True
    then show ?thesis using Cons.IH [OF l'(2), of "e\<lparr>rlCount := rlCount e + 1\<rparr>"] own live l' s call by auto
  next
    case False
    then have "live_entry l' s k = Some e" "\<not> (key = k \<and> ok)" using own other live by (cases "key = k"; auto)+
    then show ?thesis using Cons.IH [OF l'(2), of e] l' s call by auto
  qed
qed

lemma accepted_bound:
  assumes "wf_limiter now l" "sorted (map snd calls)"
    and "\<forall>(key, s) \<in> set calls. now \<le> s \<and> t \<le> s \<and> s \<le> t + rlWindow l"
  shows "int (rl_accepted k calls l) \<le> rl_budget k now l + rlMax l"
  using assms
proof (induction calls arbitrary: now l)
  case Nil
  then show ?case by (auto simp: rl_budget_def wf_limiter_def split: option.split)
next
  case (Cons call calls)
  obtain key s where call: "call = (key, s)" by (cases call)
  with Cons.prems have s: "now \<le> s" "t \<le> s" "s \<le> t + rlWindow l" "sorted (map snd calls)"
    "\<forall>(key, s') \<in> set calls. s \<le> s' \<and> t \<le> s' \<and> s' \<le> t + rlWindow l" by auto
  have wf: "wf_limiter s l" using wf_limiter_later [OF Cons.prems(1) s(1)] .
  then obtain ok ra l' where l': "rl_allow key s l = ((ok, ra), l')" "wf_limiter s l'" "rlMax l' = rlMax l" "rlWindow l' = rlWindow l"
    and other: "k \<noteq> key \<Longrightarrow> live_entry l' s k = live_entry l s k"
    and own: "case live_entry l s key of
      None \<Rightarrow> ok \<and> live_entry l' s key = Some \<lparr>rlCount = 1, rlWindowEnd = s + rlWindow l\<rparr>
    | Some e \<Rightarrow> if rlCount e = rlMax l then \<not> ok \<and> ra = rlWindowEnd e - s \<and> live_entry l' s key = Some e
        else ok \<and> live_entry l' s key = Some (e\<lparr>rlCount := rlCount e + 1\<rparr>)"
    by (rule allow_step) blast
  have IH: "int (rl_accepted k calls l') \<le> rl_budget k s l' + rlMax l" using Cons.IH [OF l'(2)] l' s by simp
  have sum: "rl_accepted k (call # calls) l = (if key = k \<and> ok then 1 else 0) + rl_accepted k calls l'"
    using l'(1) call by simp
  show ?case
  proof (cases "live_entry l s k")
    case None
    have pos: "0 \<le> rl_budget k now l" using Cons.prems(1) by (auto simp: rl_budget_def wf_limiter_def split: option.split)
    show ?thesis
    proof (cases "key = k")
      case True
      then have "live_entry l' s k = Some \<lparr>rlCount = 1, rlWindowEnd = s + rlWindow l\<rparr>" using own None by simp
      from accepted_in_window [OF l'(2) this s(4)] s(2,5) l'(3) have "int (rl_accepted k calls l') \<le> rlMax l - 1" by fastforce
      then show ?thesis using sum pos by auto
    qed (use IH sum pos other None in \<open>auto simp: rl_budget_def\<close>)
  next
    case (Some e)
    then have "live_entry l now k = Some e" using live_earlier s(1) by blast
    moreover have "1 \<le> rlCount e \<and> rlCount e \<le> rlMax l" using wf Some by (simp add: wf_limiter_def)
    ultimately show ?thesis using IH sum own other Some l'(3) by (cases "key = k") (auto simp: rl_budget_def split: if_splits)
  qed
qed

lemma after_wf:
  assumes "wf_limiter now l" "sorted (map snd calls)" "\<forall>(key, s) \<in> set calls. now \<le> s \<and> s \<le> t" "now \<le> t"
  shows "wf_limiter t (rl_after calls l) \<and> rlMax (rl_after calls l) = rlMax l \<and> rlWindow (rl_after calls l) = rlWindow l"
  using assms
proof (induction calls arbitrary: now l)
  case Nil
  then show ?case using wf_limiter_later by simp
next
  case (Cons call calls)
  obtain key s where call: "call = (key, s)" by (cases call)
  with Cons.prems have "wf_limiter s l" using wf_limiter_later [of now l s] by simp
  then obtain r l' where "rl_allow key s l = (r, l')" "wf_limiter s l'" "rlMax l' = rlMax l" "rlWindow l' = rlWindow l"
    by (rule allow_step) blast
  moreover have "\<forall>(key, s') \<in> set calls. s \<le> s' \<and> s' \<le> t" using Cons.prems call by auto
  ultimately show ?case using Cons.IH [of s l'] Cons.prems call by simp
qed

lemma after_other_keys:
  assumes "wf_limiter now l" "sorted (map snd calls)" "\<forall>(key, s) \<in> set calls. now \<le> s \<and> s \<le> t \<and> key \<noteq> k" "now \<le> t"
  shows "live_entry (rl_after calls l) t k = live_entry l t k"
  using assms
proof (induction calls arbitrary: now l)
  case (Cons call calls)
  obtain key s where call: "call = (key, s)" by (cases call)
  with Cons.prems have wf: "wf_limiter s l" using wf_limiter_later [of now l s] by simp
  then obtain r l' where l': "rl_allow key s l = (r, l')" "wf_limiter s l'" by (rule allow_step) blast
  have "live_entry l' t k = live_entry l t k"
    using rl_allow_spec [of l key s] wf l' Cons.prems call by (auto simp: wf_limiter_def)
  moreover have "\<forall>(key, s') \<in> set calls. s \<le> s' \<and> s' \<le> t \<and> key \<noteq> k" using Cons.prems call by auto
  ultimately show ?case using Cons.IH [OF l'(2)] Cons.prems call l'(1) by simp
qed simp

lemma new_wf: "1 \<le> mx \<Longrightarrow> 0 \<le> window \<Longrightarrow> wf_limiter now (newRateLimiter mx window)"
  by (simp add: wf_limiter_def newRateLimiter_def live_entry_def)

lemma limiter_bound:
  assumes "1 \<le> mx" "0 \<le> window" "sorted (map snd (before @ calls))"
    and "\<forall>(key, s) \<in> set calls. t \<le> s \<and> s \<le> t + window"
  shows "int (rl_accepted k calls (rl_after before (newRateLimiter mx window))) \<le> 2 * mx - 1"
proof (cases calls)
  case (Cons call rest)
  define t0 where "t0 = Min (insert (snd call) (snd ` set before))"
  let ?l = "rl_after before (newRateLimiter mx window)"
  have sorted: "sorted (map snd before)" "sorted (map snd calls)" "\<forall>(key, s) \<in> set before. s \<le> snd call"
    "\<forall>(key, s) \<in> set calls. snd call \<le> s"
    using assms(3) Cons by (auto simp: sorted_append)
  have "\<forall>(key, s) \<in> set before. t0 \<le> s \<and> s \<le> snd call" "t0 \<le> snd call"
    using sorted(3) by (auto simp: t0_def intro!: Min_le image_eqI)
  from after_wf [OF new_wf [OF assms(1,2)] sorted(1) this]
  have wf: "wf_limiter (snd call) ?l" "rlMax ?l = mx" "rlWindow ?l = window" by (simp_all add: newRateLimiter_def)
  have "int (rl_accepted k calls ?l) \<le> rl_budget k (snd call) ?l + rlMax ?l"
    using accepted_bound [OF wf(1) sorted(2), of t] sorted(4) assms(4) wf(3) by fastforce
  moreover have "rl_budget k (snd call) ?l \<le> mx - 1"
    using wf assms(1) by (fastforce simp: rl_budget_def wf_limiter_def split: option.split)
  ultimately show ?thesis using wf(2) by simp
qed (use assms(1) in simp)

text \<open>
  The rate limit. In every stretch of time as long as the window, and however the calls of all
  keys are interleaved, at most \<open>2 * max - 1\<close> calls with one key are let through.
\<close>
theorem rate_limiter_bound:
  assumes "1 \<le> mx" "0 \<le> window" "sorted (map snd (before @ calls))"
    and "\<forall>(key, s) \<in> set calls. t \<le> s \<and> s \<le> t + window"
  shows "int (rl_accepted k calls (rl_after before (newRateLimiter mx window))) \<le> 2 * mx - 1"
  using assms by (rule limiter_bound)

text \<open>Witness for \<open>rate_limiter_bound\<close>: three attempts of one client in a row.\<close>
theorem rate_limiter_bound_witness:
  "int (rl_accepted ''ip'' [(''ip'', 7), (''ip'', 8), (''other'', 8)]
     (rl_after [(''ip'', 0)] (newRateLimiter loginIPMax loginWindow))) \<le> 2 * loginIPMax - 1"
  by (rule rate_limiter_bound [where t = 7]) (simp_all add: loginIPMax_def loginWindow_def second_def)

text \<open>
  The bound is reached, so a client can get nearly twice the documented budget. One attempt opens
  a window; four more at its very end and five right after it are all let through: nine attempts
  within one nanosecond, where the limiter's documentation promises at most five in any window.
\<close>
theorem rate_limiter_burst:
  "rl_accepted k (replicate 4 (k, loginWindow) @ replicate 5 (k, loginWindow + 1))
     (rl_after [(k, 0)] (newRateLimiter loginIPMax loginWindow)) = 9"
  by (simp add: eval_nat_numeral rl_allow_def newRateLimiter_def loginIPMax_def loginWindow_def second_def Let_def)

text \<open>
  Waiting as told helps. A client that was refused and calls again after the number of seconds
  in the \<open>Retry-After\<close> header is let through, whatever other clients did in the meantime.
\<close>
theorem retry_after_suffices:
  assumes "wf_limiter now l" "rl_allow key now l = ((False, ra), l')"
    and "sorted (map snd calls)" "\<forall>(key', s) \<in> set calls. now \<le> s \<and> s \<le> t \<and> key' \<noteq> key"
    and "now + retryAfterHeader ra * second \<le> t"
  shows "fst (rl_allow key t (rl_after calls l')) = (True, 0)"
proof -
  obtain e where e: "wf_limiter now l'" "live_entry l' now key = Some e" "ra = rlWindowEnd e - now"
    using allow_step [OF assms(1), of key] assms(2) by (fastforce split: option.splits if_splits)
  then have "0 \<le> ra" by (auto simp: live_entry_def split: option.splits if_splits)
  then have "ra < retryAfterHeader ra * second"
    unfolding retryAfterHeader_def second_def by (simp add: go_div_nonneg)
  then have late: "rlWindowEnd e < t" "now \<le> t" using e(3) assms(5) \<open>0 \<le> ra\<close> by auto
  have "live_entry (rl_after calls l') t key = None"
    using after_other_keys [OF e(1) assms(3,4) late(2)] live_later(2) [OF e(2) late(2)] late(1) by simp
  moreover have "wf_map (rlEntries (rl_after calls l'))"
    using after_wf [OF e(1) assms(3) _ late(2)] assms(4) by (fastforce simp: wf_limiter_def)
  ultimately show ?thesis using rl_allow_spec [of "rl_after calls l'" key t] by (auto simp: spec_allow_def)
qed

text \<open>Witness for \<open>retry_after_suffices\<close>: a limiter with budget one, called at 0 and at 1.\<close>
theorem retry_after_suffices_witness:
  "fst (rl_allow ''ip'' 5000000000 (rl_after [(''other'', 7)]
     (snd (rl_allow ''ip'' 1 (rl_after [(''ip'', 0)] (newRateLimiter 1 3000000000)))))) = (True, 0)"
proof (rule retry_after_suffices [where now = 1 and ra = 2999999999 and l = "rl_after [(''ip'', 0)] (newRateLimiter 1 3000000000)"])
  have "wf_limiter 0 (newRateLimiter 1 3000000000)" by (rule new_wf) simp_all
  then show "wf_limiter 1 (rl_after [(''ip'', 0)] (newRateLimiter 1 3000000000))"
    using after_wf [of 0 "newRateLimiter 1 3000000000" "[(''ip'', 0)]" 1] by simp
  show "rl_allow ''ip'' 1 (rl_after [(''ip'', 0)] (newRateLimiter 1 3000000000)) =
    ((False, 2999999999), snd (rl_allow ''ip'' 1 (rl_after [(''ip'', 0)] (newRateLimiter 1 3000000000))))" by code_simp
  show "1 + retryAfterHeader 2999999999 * second \<le> 5000000000" by code_simp
qed simp_all

text \<open>Witness for \<open>rl_allow_refines\<close>: the first call of a client.\<close>
theorem rl_allow_refines_witness:
  "\<exists>l'. rl_allow ''ip'' 3 (newRateLimiter 5 60) =
     (fst (spec_allow (newRateLimiter 5 60) ''ip'' 3 (live_entry (newRateLimiter 5 60) 3 ''ip'')), l') \<and> wf_map (rlEntries l')"
proof -
  have "wf_map (rlEntries (newRateLimiter 5 60))" by (simp add: newRateLimiter_def)
  from rl_allow_refines [OF this, of "''ip''" 3] show ?thesis by auto
qed

end
