(* ===== verification/Projects_App.thy ===== *)
theory Projects_App
  imports Sessions_App
begin

text \<open>
  The projects use case (\<^verbatim>\<open>internal/hub/app/projects\<close>) over the in-memory stores, and the attach use
  case (\<^verbatim>\<open>internal/hub/app/attach\<close>) over abstract ports. The clock's value and the generated ID are
  inputs; a data stream is a value of the type the gateway returns.
\<close>

subsection \<open>Projects\<close>

record createInput =
  ciMachineID :: string
  ciName :: string
  ciPath :: string
  ciColor :: string

record projects_world =
  pwProjects :: projectStore
  pwSessions :: sessionStore
  pwNow :: int

definition CreateProject :: "createInput \<Rightarrow> string \<Rightarrow> projects_world \<Rightarrow> project result \<times> projects_world" where
  "CreateProject inp i w = (case NewProject i (ciMachineID inp) (ciName inp) (ciPath inp) (ciColor inp) (pwNow w) of
     Inl err \<Rightarrow> (Inl err, w)
   | Inr p \<Rightarrow> (case ps_Create p (pwProjects w) of
       Inl err \<Rightarrow> (Inl err, w)
     | Inr d \<Rightarrow> (Inr p, w\<lparr>pwProjects := d\<rparr>)))"

definition ListProjects :: "projects_world \<Rightarrow> project list result" where
  "ListProjects w = ps_List (pwProjects w)"

definition ListProjectsByMachine :: "string \<Rightarrow> projects_world \<Rightarrow> project list result" where
  "ListProjectsByMachine machineID w = ps_ListByMachine machineID (pwProjects w)"

definition ProjectByID :: "string \<Rightarrow> projects_world \<Rightarrow> project result" where
  "ProjectByID i w = ps_ByID i (pwProjects w)"

definition DeleteProject :: "string \<Rightarrow> projects_world \<Rightarrow> unit result \<times> projects_world" where
  "DeleteProject i w = (case ps_ByID i (pwProjects w) of
     Inl err \<Rightarrow> (Inl err, w)
   | Inr p \<Rightarrow> (case ss_CountByProject i (pwSessions w) of
       Inl err \<Rightarrow> (Inl err, w)
     | Inr n \<Rightarrow>
         if n > 0 then (Inl ErrHasSessions, w)
         else (case ps_Delete i (pwProjects w) of
           Inl err \<Rightarrow> (Inl err, w)
         | Inr d \<Rightarrow> (Inr (), w\<lparr>pwProjects := d\<rparr>))))"

text \<open>
  The invariant of the project store: projects are stored under their own ID, no two have the same
  path on the same machine, and no identifying field is blank.
\<close>

definition wf_projects :: "projectStore \<Rightarrow> bool" where
  "wf_projects d \<longleftrightarrow> wf_map d \<and>
     (\<forall>k p. m_get d k = Some p \<longrightarrow> pId p = k \<and> pId p \<noteq> [] \<and> pMachineID p \<noteq> [] \<and> pName p \<noteq> [] \<and> pPath p \<noteq> []) \<and>
     (\<forall>k k' p p'. m_get d k = Some p \<longrightarrow> m_get d k' = Some p' \<longrightarrow> pMachineID p = pMachineID p' \<longrightarrow> pPath p = pPath p' \<longrightarrow> k = k')"

lemma wf_projects_put:
  assumes "wf_projects d" "\<not> list_ex (\<lambda>e. pMachineID e = pMachineID p \<and> pPath e = pPath p) (m_vals d)"
    and "pId p \<noteq> []" "pMachineID p \<noteq> []" "pName p \<noteq> []" "pPath p \<noteq> []"
  shows "wf_projects (m_put (pId p) p d)"
proof -
  have "pMachineID q \<noteq> pMachineID p \<or> pPath q \<noteq> pPath p" if "m_get d k = Some q" for k q
    using assms(1,2) that m_vals_iff [of d q] by (auto simp: wf_projects_def list_ex_iff)
  then show ?thesis using assms unfolding wf_projects_def by (auto split: if_splits) metis+
qed

lemma wf_projects_del: "wf_projects d \<Longrightarrow> wf_projects (m_del k d)"
  unfolding wf_projects_def by (auto split: if_splits)

lemma NewProject_fields:
  "NewProject i m n p c t = Inr x \<Longrightarrow> pId x \<noteq> [] \<and> pMachineID x \<noteq> [] \<and> pName x \<noteq> [] \<and> pPath x \<noteq> []"
  by (auto simp: NewProject_def Let_def split: if_splits)

datatype project_event = PeCreate createInput string | PeDelete string

fun pw_apply :: "project_event \<Rightarrow> projects_world \<Rightarrow> projects_world" where
  "pw_apply (PeCreate inp i) w = snd (CreateProject inp i w)"
| "pw_apply (PeDelete i) w = snd (DeleteProject i w)"

lemma pw_apply_wf: "wf_projects (pwProjects w) \<Longrightarrow> wf_projects (pwProjects (pw_apply ev w))"
  by (cases ev) (auto simp: CreateProject_def ps_Create_def DeleteProject_def ps_Delete_def wf_projects_del
      dest!: NewProject_fields intro!: wf_projects_put split: sum.splits option.splits if_splits)

text \<open>
  Projects stay well formed. After every sequence of creations and deletions, no two projects
  share a machine and a path, every project is stored under its own ID, and its ID, machine, name
  and path are not blank.
\<close>
theorem projects_invariant:
  assumes "wf_projects (pwProjects w)"
  shows "wf_projects (pwProjects (fold pw_apply evs w))"
  using assms by (induction evs arbitrary: w) (auto simp: pw_apply_wf)

text \<open>Witness for \<open>projects_invariant\<close>: a project created in an empty store.\<close>
theorem projects_invariant_witness:
  "wf_projects (pwProjects (fold pw_apply [PeCreate \<lparr>ciMachineID = ''m'', ciName = ''n'', ciPath = ''/p'', ciColor = []\<rparr> ''1'']
     \<lparr>pwProjects = [], pwSessions = [], pwNow = 0\<rparr>))"
  by (rule projects_invariant) (simp add: wf_projects_def)

text \<open>
  A project with sessions cannot be deleted. The deletion succeeds exactly if the project exists
  and no session belongs to it, and then removes exactly that project; otherwise nothing changes
  and the error says which condition failed.
\<close>
theorem DeleteProject_spec:
  "DeleteProject i w =
     (case m_get (pwProjects w) i of
        None \<Rightarrow> (Inl ErrProjectNotFound, w)
      | Some p \<Rightarrow> if list_ex (\<lambda>s. sProjectID s = i) (m_vals (pwSessions w)) then (Inl ErrHasSessions, w)
          else (Inr (), w\<lparr>pwProjects := m_del i (pwProjects w)\<rparr>))"
proof -
  have "0 < length (filter (\<lambda>s. sProjectID s = i) xs) \<longleftrightarrow> list_ex (\<lambda>s. sProjectID s = i) xs" for xs
    by (auto simp: list_ex_iff filter_empty_conv)
  then show ?thesis by (auto simp: DeleteProject_def ps_ByID_def ps_Delete_def ss_CountByProject_def split: option.split)
qed

subsection \<open>Attach\<close>

record ('g, 'st) attach_gateway =
  agOpenDataStream :: "string \<Rightarrow> string \<Rightarrow> 'g \<Rightarrow> 'st result \<times> 'g"
  agResize :: "string \<Rightarrow> string \<Rightarrow> int \<Rightarrow> int \<Rightarrow> 'g \<Rightarrow> unit result \<times> 'g"

definition OpenStream :: "'s session_port \<Rightarrow> ('g, 'st) attach_gateway \<Rightarrow> string \<Rightarrow> ('s, 'g) sessions_world \<Rightarrow>
    (string \<times> 'st) result \<times> ('s, 'g) sessions_world" where
  "OpenStream p g i w = (case spByID p i (swStore w) of
     Inl err \<Rightarrow> (Inl err, w)
   | Inr s \<Rightarrow>
       if sStatus s = SExited \<or> sStatus s = SLost then (Inl ErrSessionEnded, w)
       else (case agOpenDataStream g (sMachineID s) i (swGateway w) of
         (Inl err, gw) \<Rightarrow> (Inl err, w\<lparr>swGateway := gw\<rparr>)
       | (Inr stream, gw) \<Rightarrow>
           (Inr (sMachineID s, stream), sw_record ActionAttach (sMachineID s) i [] (w\<lparr>swGateway := gw\<rparr>))))"

definition attach_Resize :: "'s session_port \<Rightarrow> ('g, 'st) attach_gateway \<Rightarrow> string \<Rightarrow> int \<Rightarrow> int \<Rightarrow> ('s, 'g) sessions_world \<Rightarrow>
    unit result \<times> ('s, 'g) sessions_world" where
  "attach_Resize p g i c r w = (case spByID p i (swStore w) of
     Inl err \<Rightarrow> (Inl err, w)
   | Inr s \<Rightarrow> (case agResize g (sMachineID s) i c r (swGateway w) of (res, gw) \<Rightarrow> (res, w\<lparr>swGateway := gw\<rparr>)))"

text \<open>
  Attaching. An ended session is refused without contacting the agent and without an audit record,
  so a browser that retries leaves no trace; a refused or failed attachment is never recorded; and
  every successful one is recorded once, for the machine that owns the session.
\<close>
theorem OpenStream_audited:
  "case m_get (swStore w) i of
      None \<Rightarrow> OpenStream memory_port g i w = (Inl ErrSessionNotFound, w)
    | Some s \<Rightarrow> if sStatus s \<in> {SExited, SLost} then OpenStream memory_port g i w = (Inl ErrSessionEnded, w)
        else case agOpenDataStream g (sMachineID s) i (swGateway w) of
          (Inl err, gw) \<Rightarrow> OpenStream memory_port g i w = (Inl err, w\<lparr>swGateway := gw\<rparr>)
        | (Inr stream, gw) \<Rightarrow> \<exists>w'. OpenStream memory_port g i w = (Inr (sMachineID s, stream), w') \<and>
            swStore w' = swStore w \<and> swGateway w' = gw \<and>
            swAudit w' = swAudit w @ [NewEvent (swNow w) (ActorFromContext (swActor w)) ActionAttach (sMachineID s) i []]"
  by (auto simp: OpenStream_def memory_port_def ss_ByID_def sw_record_def audit_Record_def as_Append_def
      split: option.split prod.split sum.split)

end
