(* ===== verification/Scrollback.thy ===== *)
theory Scrollback
  imports Go_Prelude
begin

text \<open>
  The scrollback ring of \<^verbatim>\<open>internal/agent/domain/terminal/scrollback.go\<close>: a bounded buffer of
  the latest output bytes with absolute stream offsets, read by any number of blocking readers.

  \<^item> Every exported method runs under the mutex; \<open>ReadFrom\<close> is a loop whose body holds the lock
    and which blocks, outside of the lock, on the broadcast channel it saw there.
  \<^item> The channel \<open>wait\<close> is replaced and the old one closed by every write and by \<open>Close\<close>. It is
    modelled by a generation number: the channels of earlier generations are the closed ones.
  \<^item> Offsets are unbounded; the code's 64-bit offset would wrap after 2^63 bytes of output.
\<close>

definition defaultScrollbackBytes :: int where
  "defaultScrollbackBytes = 256 * 1024"

record scrollback =
  sb_buf :: "byte list"
  sb_max :: int
  sb_start :: int
  sb_closed :: bool
  sb_wait :: nat

definition NewScrollback :: "int \<Rightarrow> scrollback" where
  "NewScrollback m = \<lparr>sb_buf = [], sb_max = (if m \<le> 0 then defaultScrollbackBytes else m),
     sb_start = 0, sb_closed = False, sb_wait = 0\<rparr>"

definition sbWrite :: "scrollback \<Rightarrow> byte list \<Rightarrow> scrollback" where
  "sbWrite s p0 =
     (let (p, s1) = (if int (length p0) > sb_max s
                     then let dr = int (length p0) - sb_max s in
                       (drop (nat dr) p0,
                        s\<lparr>sb_start := sb_start s + int (length (sb_buf s)) + dr, sb_buf := []\<rparr>)
                     else (p0, s));
          s2 = s1\<lparr>sb_buf := sb_buf s1 @ p\<rparr>;
          s3 = (if int (length (sb_buf s2)) > sb_max s2
                then let dr = int (length (sb_buf s2)) - sb_max s2 in
                  s2\<lparr>sb_buf := take (nat (sb_max s2)) (go_copy (sb_buf s2) (drop (nat dr) (sb_buf s2))),
                     sb_start := sb_start s2 + dr\<rparr>
                else s2)
      in s3\<lparr>sb_wait := Suc (sb_wait s3)\<rparr>)"

definition sbClose :: "scrollback \<Rightarrow> scrollback" where
  "sbClose s = s\<lparr>sb_closed := True, sb_wait := Suc (sb_wait s)\<rparr>"

definition Oldest :: "scrollback \<Rightarrow> int" where
  "Oldest s = sb_start s"

definition Snapshot_bytes :: "scrollback \<Rightarrow> byte list" where
  "Snapshot_bytes s = sb_buf s"

definition NewScrollbackWithData :: "int \<Rightarrow> byte list \<Rightarrow> scrollback" where
  "NewScrollbackWithData m data =
     (let sb = NewScrollback m in if data \<noteq> [] then sbWrite sb data else sb)"

text \<open>
  A call of \<open>ReadFrom\<close>: about to take the lock with a cursor, blocked on a channel generation, or
  returned with data, next cursor and the flag.
\<close>

datatype reader = AtLock int | Waiting int nat | Returned "byte list" int bool

definition ReadFrom_body :: "scrollback \<Rightarrow> int \<Rightarrow> reader" where
  "ReadFrom_body s cursor0 =
     (let e = sb_start s + int (length (sb_buf s));
          cursor = (if cursor0 < sb_start s then sb_start s else cursor0)
      in if cursor < e then Returned (drop (nat (cursor - sb_start s)) (sb_buf s)) e True
         else if sb_closed s then Returned [] cursor False
         else Waiting cursor (sb_wait s))"

text \<open>The interleavings of one reader with writers and \<open>Close\<close>.\<close>

inductive sb_step :: "scrollback \<times> reader \<Rightarrow> scrollback \<times> reader \<Rightarrow> bool" where
  rd_lock: "sb_step (s, AtLock c) (s, ReadFrom_body s c)"
| rd_wake: "g < sb_wait s \<Longrightarrow> sb_step (s, Waiting c g) (s, AtLock c)"
| rd_cancel: "sb_step (s, Waiting c g) (s, Returned [] c False)"
| wr_bytes: "sb_step (s, r) (sbWrite s p, r)"
| wr_close: "sb_step (s, r) (sbClose s, r)"

inductive_cases sb_step_elim: "sb_step (s, r) t"

subsection \<open>The retained suffix\<close>

text \<open>
  What the ring stands for: after the output \<open>hist\<close> it holds exactly its last \<open>max\<close> bytes, and
  \<open>start\<close> is the offset of the first of them.
\<close>

definition retains :: "scrollback \<Rightarrow> byte list \<Rightarrow> bool" where
  "retains s hist \<longleftrightarrow> 0 < sb_max s \<and> sb_buf s = drop (length hist - nat (sb_max s)) hist \<and>
     sb_start s = int (length hist - nat (sb_max s))"

lemma go_copy_shift: "d \<le> length xs \<Longrightarrow> take (length xs - d) (go_copy xs (drop d xs)) = drop d xs"
  by (simp add: go_copy_def)

lemma sbWrite_fields [simp]:
  "sb_max (sbWrite s p) = sb_max s" "sb_closed (sbWrite s p) = sb_closed s"
  "sb_wait (sbWrite s p) = Suc (sb_wait s)"
  by (simp_all add: sbWrite_def Let_def split: prod.split)

lemma retains_new: "retains (NewScrollback m) []"
  by (simp add: retains_def NewScrollback_def defaultScrollbackBytes_def)

lemma retains_write:
  assumes "retains s hist"
  shows "retains (sbWrite s p) (hist @ p)"
proof -
  obtain m where m: "sb_max s = int m" "0 < m"
    using assms by (cases "sb_max s") (auto simp: retains_def)
  have s: "sb_buf s = drop (length hist - m) hist" "sb_start s = int (length hist - m)"
    using assms m by (simp_all add: retains_def)
  show ?thesis
  proof (cases "length p > m")
    case True
    then have "sb_buf (sbWrite s p) = drop (length p - m) p"
      "sb_start (sbWrite s p) = int (length hist - m) + int (length (sb_buf s)) + int (length p - m)"
      using m s by (simp_all add: sbWrite_def Let_def nat_diff_distrib of_nat_diff)
    then show ?thesis using True m s by (simp add: retains_def)
  next
    case False
    let ?b = "sb_buf s @ p"
    show ?thesis
    proof (cases "length ?b > m")
      case over: True
      have "take (nat (int m)) (go_copy ?b (drop (length ?b - m) ?b)) = drop (length ?b - m) ?b"
        using go_copy_shift [of "length ?b - m" ?b] over by simp
      then have "sb_buf (sbWrite s p) = drop (length ?b - m) ?b"
        "sb_start (sbWrite s p) = sb_start s + int (length ?b - m)"
        using over m False by (simp_all add: sbWrite_def Let_def nat_diff_distrib nat_add_distrib of_nat_diff)
      then show ?thesis using over m s False by (auto simp: retains_def)
    next
      case under: False
      then have "sb_buf (sbWrite s p) = ?b" "sb_start (sbWrite s p) = sb_start s"
        using m False by (simp_all add: sbWrite_def Let_def)
      moreover from under have "p = [] \<or> length hist + length p \<le> m" using s by (cases p) auto
      ultimately show ?thesis using m s by (auto simp: retains_def)
    qed
  qed
qed

text \<open>
  The interface the session manager relies on: a log that keeps the last \<open>cap\<close> bytes of what was
  appended to it.
\<close>

locale byte_log =
  fixes app :: "'s \<Rightarrow> byte list \<Rightarrow> 's"
    and contents :: "'s \<Rightarrow> byte list"
    and oldest :: "'s \<Rightarrow> int"
    and cap :: "'s \<Rightarrow> nat"
    and holds :: "'s \<Rightarrow> byte list \<Rightarrow> bool"
  assumes holds_app: "holds s h \<Longrightarrow> holds (app s p) (h @ p)"
    and cap_app: "cap (app s p) = cap s"
    and holds_contents: "holds s h \<Longrightarrow> contents s = drop (length h - cap s) h"
    and holds_oldest: "holds s h \<Longrightarrow> oldest s = int (length h - cap s)"
begin

lemma holds_foldl: "holds s h \<Longrightarrow> holds (foldl app s ps) (h @ concat ps)"
proof (induction ps arbitrary: s h)
  case Nil
  then show ?case by simp
next
  case (Cons p ps)
  show ?case using Cons.IH [OF holds_app [OF Cons.prems, of p]] by simp
qed

lemma cap_foldl: "cap (foldl app s ps) = cap s"
  by (induction ps arbitrary: s) (simp_all add: cap_app)

lemma contents_foldl:
  "holds s [] \<Longrightarrow> contents (foldl app s ps) = drop (length (concat ps) - cap s) (concat ps)"
  using holds_contents [OF holds_foldl [of s "[]" ps]] by (simp add: cap_foldl)

lemma contents_complete:
  assumes "holds s h" "length h \<le> cap s"
  shows "contents s = h" "oldest s = 0"
  using holds_contents [OF assms(1)] holds_oldest [OF assms(1)] assms(2) by simp_all

end

interpretation ring: byte_log sbWrite Snapshot_bytes Oldest "\<lambda>s. nat (sb_max s)" retains
  by unfold_locales (auto simp: retains_write, auto simp: retains_def Snapshot_bytes_def Oldest_def)

text \<open>
  The scrollback keeps exactly the tail of the output. However the output is cut into writes,
  and also when the ring was pre-seeded from an archive, the retained bytes are the last \<open>max\<close>
  bytes of everything written.
\<close>
theorem Scrollback_retains_tail:
  "Snapshot_bytes (foldl sbWrite (NewScrollbackWithData m data) ps) =
     (let h = data @ concat ps in drop (length h - nat (if m \<le> 0 then defaultScrollbackBytes else m)) h)"
proof -
  have h: "retains (NewScrollbackWithData m data) data"
    using retains_new [of m] retains_write [OF retains_new [of m], of data]
    by (auto simp: NewScrollbackWithData_def Let_def)
  have "sb_max (NewScrollbackWithData m data) = (if m \<le> 0 then defaultScrollbackBytes else m)"
    by (simp add: NewScrollbackWithData_def Let_def) (simp add: NewScrollback_def)
  then show ?thesis using ring.holds_contents [OF ring.holds_foldl [OF h]] ring.cap_foldl
    by (simp add: Let_def)
qed

subsection \<open>Blocking readers\<close>

text \<open>A reader parked on the current generation has seen everything.\<close>

definition parked_ok :: "scrollback \<times> reader \<Rightarrow> bool" where
  "parked_ok t = (case t of (s, Waiting c g) \<Rightarrow> g \<le> sb_wait s \<and>
     (g = sb_wait s \<longrightarrow> \<not> sb_closed s \<and> c \<ge> sb_start s + int (length (sb_buf s))) | _ \<Rightarrow> True)"

lemma parked_ok_step: "sb_step t u \<Longrightarrow> parked_ok t \<Longrightarrow> parked_ok u"
  by (induction rule: sb_step.induct)
    (auto simp: parked_ok_def ReadFrom_body_def sbClose_def Let_def split: reader.splits)

text \<open>
  C24: no wake-up is lost. Under every interleaving with writers and \<open>Close\<close>, a blocked reader
  whose channel has not been closed yet has no unread byte in front of it and the buffer is not
  closed; so as soon as there is something to deliver, the reader is woken.
\<close>
theorem Scrollback_no_lost_wakeup:
  assumes "sb_step\<^sup>*\<^sup>* (s0, AtLock c0) (s, Waiting c g)" "sb_closed s \<or> c < sb_start s + int (length (sb_buf s))"
  shows "sb_step (s, Waiting c g) (s, AtLock c)"
proof -
  have "parked_ok (s0, AtLock c0)" by (simp add: parked_ok_def)
  with assms(1) have "parked_ok (s, Waiting c g)"
    by (induction rule: rtranclp_induct) (auto intro: parked_ok_step)
  then have "g < sb_wait s" using assms(2) by (auto simp: parked_ok_def)
  then show ?thesis by (rule sb_step.rd_wake)
qed

text \<open>Witness for \<open>Scrollback_no_lost_wakeup\<close>: a reader of an empty ring, then a write.\<close>
theorem Scrollback_no_lost_wakeup_witness:
  "sb_step (sbWrite (NewScrollback 8) [1], Waiting 0 0) (sbWrite (NewScrollback 8) [1], AtLock 0)"
proof (rule Scrollback_no_lost_wakeup)
  have "sb_step (NewScrollback 8, AtLock 0) (NewScrollback 8, Waiting 0 0)"
    using sb_step.rd_lock [of "NewScrollback 8" 0] by (simp add: ReadFrom_body_def NewScrollback_def)
  then show "sb_step\<^sup>*\<^sup>* (NewScrollback 8, AtLock 0) (sbWrite (NewScrollback 8) [1], Waiting 0 0)"
    by (rule rtranclp.rtrancl_into_rtrancl [OF r_into_rtranclp [where r = sb_step] sb_step.wr_bytes])
  show "sb_closed (sbWrite (NewScrollback 8) [1]) \<or>
      0 < sb_start (sbWrite (NewScrollback 8) [1]) + int (length (sb_buf (sbWrite (NewScrollback 8) [1])))"
    by (simp add: sbWrite_def NewScrollback_def)
qed

subsection \<open>The attach stream\<close>

text \<open>
  The attach loop calls \<open>ReadFrom\<close> again and again with the cursor the last call returned and
  forwards the data. The state pairs the ring and the reader with the output written so far, the
  bytes forwarded, and a flag that remembers whether the reader ever fell out of the window.
\<close>

record attach =
  at_sb :: scrollback
  at_rd :: reader
  at_hist :: "byte list"
  at_out :: "byte list"
  at_lost :: bool

inductive at_step :: "attach \<Rightarrow> attach \<Rightarrow> bool" where
  at_lock: "at_rd t = AtLock c \<Longrightarrow>
    at_step t (t\<lparr>at_rd := ReadFrom_body (at_sb t) c, at_lost := at_lost t \<or> c < sb_start (at_sb t)\<rparr>)"
| at_wake: "at_rd t = Waiting c g \<Longrightarrow> g < sb_wait (at_sb t) \<Longrightarrow> at_step t (t\<lparr>at_rd := AtLock c\<rparr>)"
| at_cancel: "at_rd t = Waiting c g \<Longrightarrow> at_step t (t\<lparr>at_rd := Returned [] c False\<rparr>)"
| at_deliver: "at_rd t = Returned d c True \<Longrightarrow> at_step t (t\<lparr>at_rd := AtLock c, at_out := at_out t @ d\<rparr>)"
| at_write: "at_step t (t\<lparr>at_sb := sbWrite (at_sb t) p, at_hist := at_hist t @ p\<rparr>)"
| at_close: "at_step t (t\<lparr>at_sb := sbClose (at_sb t)\<rparr>)"

fun rd_cursor :: "reader \<Rightarrow> int" where
  "rd_cursor (AtLock c) = c"
| "rd_cursor (Waiting c g) = c"
| "rd_cursor (Returned d c k) = c"

fun rd_pending :: "reader \<Rightarrow> byte list" where
  "rd_pending (Returned d c True) = d"
| "rd_pending r = []"

text \<open>The bytes between two offsets of the stream.\<close>

definition segment :: "byte list \<Rightarrow> int \<Rightarrow> int \<Rightarrow> byte list" where
  "segment h a b = drop (nat a) (take (nat b) h)"

definition at_inv :: "int \<Rightarrow> attach \<Rightarrow> bool" where
  "at_inv c0 t \<longleftrightarrow> retains (at_sb t) (at_hist t) \<and> 0 \<le> c0 \<and> c0 \<le> rd_cursor (at_rd t) \<and>
     rd_cursor (at_rd t) \<le> int (length (at_hist t)) \<and>
     (\<not> at_lost t \<longrightarrow> at_out t @ rd_pending (at_rd t) = segment (at_hist t) c0 (rd_cursor (at_rd t)))"

lemma segment_append: "0 \<le> b \<Longrightarrow> b \<le> int (length h) \<Longrightarrow> segment (h @ p) a b = segment h a b"
  by (simp add: segment_def)

lemma segment_join:
  assumes "0 \<le> a" "a \<le> b" "b \<le> int (length h)"
  shows "segment h a b @ drop (nat b) h = segment h a (int (length h))"
proof -
  have "nat a \<le> length (take (nat b) h)" using assms by auto
  then have "drop (nat a) (take (nat b) h @ drop (nat b) h) = drop (nat a) (take (nat b) h) @ drop (nat b) h"
    by (simp only: drop_append) simp
  then show ?thesis by (simp add: segment_def)
qed

lemma retains_window:
  assumes "retains s h"
  shows "0 \<le> sb_start s" "sb_start s \<le> int (length h)" "sb_start s + int (length (sb_buf s)) = int (length h)"
    "sb_start s \<le> c \<Longrightarrow> drop (nat (c - sb_start s)) (sb_buf s) = drop (nat c) h"
proof -
  show "0 \<le> sb_start s" "sb_start s \<le> int (length h)" "sb_start s + int (length (sb_buf s)) = int (length h)"
    using assms by (auto simp: retains_def)
  assume "sb_start s \<le> c"
  then show "drop (nat (c - sb_start s)) (sb_buf s) = drop (nat c) h"
    using assms by (auto simp: retains_def nat_diff_distrib)
qed

lemma at_inv_lock:
  assumes "at_inv c0 t" "at_rd t = AtLock c"
  shows "at_inv c0 (t\<lparr>at_rd := ReadFrom_body (at_sb t) c, at_lost := at_lost t \<or> c < sb_start (at_sb t)\<rparr>)"
proof -
  note I = assms(1)[unfolded at_inv_def]
  note w = retains_window [OF conjunct1 [OF I]]
  let ?c = "if c < sb_start (at_sb t) then sb_start (at_sb t) else c"
  have c: "0 \<le> c0" "c0 \<le> c" "c \<le> int (length (at_hist t))" using I assms(2) by simp_all
  have j: "\<not> at_lost t \<Longrightarrow> at_out t @ drop (nat c) (at_hist t) = segment (at_hist t) c0 (int (length (at_hist t)))"
    using I assms(2) segment_join [OF c] by simp
  show ?thesis using I assms(2) c j w(1-3) w(4) [of c]
    by (auto simp: at_inv_def ReadFrom_body_def Let_def)
qed

lemma at_inv_step: "at_step t u \<Longrightarrow> at_inv c0 t \<Longrightarrow> at_inv c0 u"
proof (induction rule: at_step.induct)
  case (at_lock t c)
  then show ?case by (intro at_inv_lock)
next
  case (at_write t p)
  then show ?case by (auto simp: at_inv_def retains_write segment_append)
next
  case (at_close t)
  then show ?case by (simp add: at_inv_def retains_def sbClose_def)
qed (auto simp: at_inv_def)

text \<open>
  C23: an attached client sees the stream. Under every interleaving with the writer, what the
  attach loop has forwarded, together with what the last read returned, is exactly the output
  from the offset it attached at up to its cursor, without gap, repetition or reordering, as long
  as its cursor never fell out of the retained window.
\<close>
theorem attach_exact_stream:
  assumes "retains s hist" "at_step\<^sup>*\<^sup>* \<lparr>at_sb = s, at_rd = AtLock (Oldest s), at_hist = hist, at_out = [], at_lost = False\<rparr> t"
    and "\<not> at_lost t"
  shows "at_out t @ rd_pending (at_rd t) = segment (at_hist t) (Oldest s) (rd_cursor (at_rd t))"
proof -
  let ?t0 = "\<lparr>at_sb = s, at_rd = AtLock (Oldest s), at_hist = hist, at_out = [], at_lost = False\<rparr>"
  have "at_inv (Oldest s) ?t0"
    using assms(1) retains_window [OF assms(1)] by (simp add: at_inv_def Oldest_def segment_def)
  with assms(2) have "at_inv (Oldest s) t"
    by (induction rule: rtranclp_induct) (auto intro: at_inv_step)
  then show ?thesis using assms(3) by (simp add: at_inv_def)
qed

text \<open>Witness for \<open>attach_exact_stream\<close>: attaching to a ring that already holds two bytes.\<close>
theorem attach_exact_stream_witness:
  "let s = sbWrite (NewScrollback 8) [1, 2];
       t = \<lparr>at_sb = s, at_rd = ReadFrom_body s (Oldest s), at_hist = [1, 2], at_out = [], at_lost = False \<or> Oldest s < sb_start s\<rparr>
   in at_out t @ rd_pending (at_rd t) = segment (at_hist t) (Oldest s) (rd_cursor (at_rd t)) \<and> rd_pending (at_rd t) = [1, 2]"
proof -
  let ?s = "sbWrite (NewScrollback 8) [1, 2]"
  let ?t0 = "\<lparr>at_sb = ?s, at_rd = AtLock (Oldest ?s), at_hist = [1, 2], at_out = [], at_lost = False\<rparr>"
  have r: "retains ?s [1, 2]" using retains_write [OF retains_new, of 8 "[1, 2]"] by simp
  have st: "at_step ?t0 (?t0\<lparr>at_rd := ReadFrom_body ?s (Oldest ?s), at_lost := False \<or> Oldest ?s < sb_start ?s\<rparr>)"
    using at_step.at_lock [of ?t0 "Oldest ?s"] by simp
  have "rd_pending (ReadFrom_body ?s (Oldest ?s)) = [1, 2]"
    by (simp add: sbWrite_def NewScrollback_def ReadFrom_body_def Oldest_def)
  then show ?thesis
    using attach_exact_stream [OF r r_into_rtranclp [where r = at_step, OF st]] by (simp add: Let_def Oldest_def)
qed

end
