(* ===== verification/Scrollback_Archive.thy ===== *)
theory Scrollback_Archive
  imports Hub_Domain
begin

text \<open>
  The scrollback archive on disk, \<^verbatim>\<open>internal/agent/adapter/secondary/scrollbackfile\<close>.

  \<^item> The archive directory is a finite map from file names to contents and modification times. The
    names the code forms are \<open><sessionID>.scrollback\<close> and \<open>.sb-tmp-<random>\<close>.
  \<^item> Which file-system calls fail, how many bytes a write gets to disk, the random part of a temporary
    name and the clock are inputs (\<open>fsOutcome\<close>).
  \<^item> The archive carries the directory states it has gone through (\<open>arPast\<close>, not part of the code), so
    that a crash between two system calls can be spoken about.
  \<^item> \<open>sort.Slice\<close> by modification time is a stable sort here; no theorem depends on the order of
    files of the same age.
\<close>

subsection \<open>Definitions\<close>

record diskFile =
  flData :: "byte list"
  flMtime :: int

type_synonym dir = "diskFile gomap"

record archive =
  arDir :: dir
  arPast :: "dir list"
  arCap :: int

definition defaultDiskCap :: int where "defaultDiskCap = 64 * 1024 * 1024"

definition NewArchive :: "dir \<Rightarrow> int \<Rightarrow> archive" where
  "NewArchive d capBytes = \<lparr>arDir = d, arPast = [], arCap = (if capBytes \<le> 0 then defaultDiskCap else capBytes)\<rparr>"

text \<open>The system calls that change the directory.\<close>

definition fs_call :: "(dir \<Rightarrow> dir) \<Rightarrow> archive \<Rightarrow> archive" where
  "fs_call f a = a\<lparr>arDir := f (arDir a), arPast := arDir a # arPast a\<rparr>"

definition fs_put :: "string \<Rightarrow> byte list \<Rightarrow> int \<Rightarrow> archive \<Rightarrow> archive" where
  "fs_put n data now = fs_call (m_put n \<lparr>flData = data, flMtime = now\<rparr>)"

definition fs_remove :: "(string \<Rightarrow> bool) \<Rightarrow> string \<Rightarrow> archive \<Rightarrow> archive" where
  "fs_remove removeOk n a = (if removeOk n then fs_call (m_del n) a else a)"

definition fs_rename :: "string \<Rightarrow> string \<Rightarrow> archive \<Rightarrow> archive" where
  "fs_rename old new a = (case m_get (arDir a) old of None \<Rightarrow> a
     | Some f \<Rightarrow> fs_call (\<lambda>d. m_put new f (m_del old d)) a)"

definition hasInfix :: "string \<Rightarrow> string \<Rightarrow> bool" where
  "hasInfix p s = list_ex (\<lambda>i. take (length p) (drop i s) = p) [0..<Suc (length s)]"

definition hasSuffix :: "string \<Rightarrow> string \<Rightarrow> bool" where
  "hasSuffix p s \<longleftrightarrow> length p \<le> length s \<and> drop (length s - length p) s = p"

definition hasPrefix :: "string \<Rightarrow> string \<Rightarrow> bool" where
  "hasPrefix p s \<longleftrightarrow> take (length p) s = p"

definition validateID :: "string \<Rightarrow> bool" where
  "validateID i \<longleftrightarrow> i \<noteq> [] \<and> CHR ''/'' \<notin> set i \<and> CHR 0x5C \<notin> set i \<and> \<not> hasInfix ''..'' i"

definition archive_path :: "string \<Rightarrow> string" where
  "archive_path sessionID = sessionID @ ''.scrollback''"

definition temp_path :: "string \<Rightarrow> string" where
  "temp_path rand = ''.sb-tmp-'' @ rand"

record archiveEntry =
  aePath :: string
  aeSize :: int
  aeMtime :: int

definition is_archive :: "string \<Rightarrow> bool" where
  "is_archive n = hasSuffix ''.scrollback'' n"

definition is_temp :: "string \<Rightarrow> bool" where
  "is_temp n = hasPrefix ''.sb-tmp-'' n"

record fsOutcome =
  fsMkdirOk :: bool
  fsCreateOk :: bool
  fsTemp :: string
  fsWritten :: nat
  fsCloseOk :: bool
  fsRenameOk :: bool
  fsReadDirOk :: bool
  fsInfoOk :: "string \<Rightarrow> bool"
  fsRemoveOk :: "string \<Rightarrow> bool"
  fsNow :: int

text \<open>The scan: the archives found, their total size, and the archive after the removals it makes.\<close>

fun scan_loop :: "fsOutcome \<Rightarrow> (string \<times> diskFile) list \<Rightarrow> archiveEntry list \<Rightarrow> int \<Rightarrow> archive \<Rightarrow>
    archiveEntry list \<times> int \<times> archive" where
  "scan_loop fs [] out tot a = (out, tot, a)"
| "scan_loop fs ((n, f) # es) out tot a =
     (if \<not> is_archive n then scan_loop fs es out tot a
      else if \<not> fsInfoOk fs n then scan_loop fs es out tot a
      else if is_temp n then scan_loop fs es out tot (fs_remove (fsRemoveOk fs) n a)
      else scan_loop fs es (out @ [\<lparr>aePath = n, aeSize = int (length (flData f)), aeMtime = flMtime f\<rparr>])
             (tot + int (length (flData f))) a)"

definition scanDir :: "fsOutcome \<Rightarrow> archive \<Rightarrow> archiveEntry list \<times> int \<times> archive" where
  "scanDir fs a = (if \<not> fsReadDirOk fs then ([], 0, a) else scan_loop fs (arDir a) [] 0 a)"

fun evict_loop :: "(string \<Rightarrow> bool) \<Rightarrow> string \<Rightarrow> archiveEntry list \<Rightarrow> int \<Rightarrow> archive \<Rightarrow> archive" where
  "evict_loop removeOk protected [] tot a = a"
| "evict_loop removeOk protected (e # es) tot a =
     (if tot \<le> arCap a then a
      else if aePath e = protected then evict_loop removeOk protected es tot a
      else if removeOk (aePath e) then evict_loop removeOk protected es (tot - aeSize e) (fs_remove removeOk (aePath e) a)
      else evict_loop removeOk protected es tot a)"

definition enforceCap :: "fsOutcome \<Rightarrow> string \<Rightarrow> archive \<Rightarrow> archive" where
  "enforceCap fs justWritten a = (case scanDir fs a of (entries, tot, a1) \<Rightarrow>
     if tot \<le> arCap a1 then a1
     else evict_loop (fsRemoveOk fs) (archive_path justWritten) (sort_key aeMtime entries) tot a1)"

definition archive_Save :: "fsOutcome \<Rightarrow> string \<Rightarrow> byte list \<Rightarrow> archive \<Rightarrow> bool \<times> archive" where
  "archive_Save fs sessionID data a =
     (if \<not> validateID sessionID then (False, a)
      else if \<not> fsMkdirOk fs then (False, a)
      else if \<not> fsCreateOk fs then (False, a)
      else let tmp = temp_path (fsTemp fs);
               a2 = fs_put tmp (take (fsWritten fs) data) (fsNow fs) (fs_put tmp [] (fsNow fs) a)
        in if fsWritten fs < length data then (False, fs_remove (fsRemoveOk fs) tmp a2)
           else if \<not> fsCloseOk fs then (False, fs_remove (fsRemoveOk fs) tmp a2)
           else if \<not> fsRenameOk fs then (False, fs_remove (fsRemoveOk fs) tmp a2)
           else (True, enforceCap fs sessionID (fs_rename tmp (archive_path sessionID) a2)))"

text \<open>\<open>readOk\<close>: whether the file can be read; a missing file is no error.\<close>

definition archive_Load :: "bool \<Rightarrow> string \<Rightarrow> archive \<Rightarrow> byte list option" where
  "archive_Load readOk sessionID a =
     (if \<not> validateID sessionID then None
      else case m_get (arDir a) (archive_path sessionID) of None \<Rightarrow> Some []
        | Some f \<Rightarrow> if readOk then Some (flData f) else None)"

definition archive_Delete :: "(string \<Rightarrow> bool) \<Rightarrow> string \<Rightarrow> archive \<Rightarrow> bool \<times> archive" where
  "archive_Delete removeOk sessionID a =
     (if \<not> validateID sessionID then (False, a)
      else if m_get (arDir a) (archive_path sessionID) = None then (True, a)
      else (removeOk (archive_path sessionID), fs_remove removeOk (archive_path sessionID) a))"

subsection \<open>Names\<close>

lemma drop_snoc: "drop (length xs - length ys) (xs :: 'a list) = ys \<Longrightarrow> length ys \<le> length xs \<Longrightarrow> \<exists>zs. xs = zs @ ys"
  by (metis append_take_drop_id)

definition digits :: "string \<Rightarrow> bool" where
  "digits r = list_all (\<lambda>c. c \<in> set ''0123456789'') r"

text \<open>A name of a temporary file is never taken for an archive: the random part consists of digits.\<close>

lemma temp_not_archive: "digits rand \<Longrightarrow> \<not> is_archive (temp_path rand)"
proof
  assume dg: "digits rand" and "is_archive (temp_path rand)"
  then obtain zs where zs: "''.sb-tmp-'' @ rand = zs @ ''.scrollback''"
    unfolding is_archive_def hasSuffix_def temp_path_def using drop_snoc by blast
  have "length (''.sb-tmp-'' @ rand) = length (zs @ ''.scrollback'')" by (rule arg_cong [OF zs])
  then have "rand \<noteq> []" by auto
  then have "last rand = CHR ''k''" using arg_cong [OF zs, of last] by simp
  moreover have "last rand \<in> set ''0123456789''" using dg \<open>rand \<noteq> []\<close> by (simp add: digits_def list_all_iff)
  ultimately show False by simp
qed

lemma archive_path_archive [simp]: "is_archive (archive_path i)"
  by (simp add: is_archive_def hasSuffix_def archive_path_def)

lemma archive_path_eq [simp]: "archive_path i = archive_path j \<longleftrightarrow> i = j"
  by (simp add: archive_path_def)

lemma temp_not_path: "digits r \<Longrightarrow> temp_path r \<noteq> archive_path i"
  using temp_not_archive [of r] archive_path_archive [of i] by metis

subsection \<open>What the removals keep\<close>

lemma fs_call_simps [simp]:
  "arDir (fs_call f a) = f (arDir a)" "arPast (fs_call f a) = arDir a # arPast a" "arCap (fs_call f a) = arCap a"
  by (simp_all add: fs_call_def)

lemma cap_simps [simp]:
  "arCap (fs_put n x t a) = arCap a" "arCap (fs_remove ok n a) = arCap a" "arCap (fs_rename n m a) = arCap a"
  by (simp_all add: fs_put_def fs_remove_def fs_rename_def split: option.split)

lemma scan_loop_keeps:
  "(\<And>n b. is_archive n \<Longrightarrow> is_temp n \<Longrightarrow> J b \<Longrightarrow> J (fs_remove (fsRemoveOk fs) n b)) \<Longrightarrow> J a \<Longrightarrow>
   J (snd (snd (scan_loop fs es out t a)))"
  by (induction fs es out t a rule: scan_loop.induct) simp_all

lemma evict_loop_keeps:
  "(\<And>n b. n \<noteq> protected \<Longrightarrow> J b \<Longrightarrow> J (fs_remove ok n b)) \<Longrightarrow> J a \<Longrightarrow> J (evict_loop ok protected es t a)"
  by (induction ok protected es t a rule: evict_loop.induct) simp_all

text \<open>Whatever removing another file keeps, \<open>enforceCap\<close> keeps.\<close>

lemma enforceCap_keeps:
  assumes rm: "\<And>n b. n \<noteq> archive_path i \<Longrightarrow> J b \<Longrightarrow> J (fs_remove (fsRemoveOk fs) n b)"
    and "\<not> is_temp (archive_path i)" "J a"
  shows "J (enforceCap fs i a)"
proof -
  obtain es t a1 where sc: "scanDir fs a = (es, t, a1)" by (cases "scanDir fs a") auto
  have "J (snd (snd (scan_loop fs (arDir a) [] 0 a)))"
    by (rule scan_loop_keeps [of J]) (use assms(2,3) in \<open>auto intro: rm\<close>)
  then have "J a1" using sc assms(3) by (auto simp: scanDir_def split: if_splits)
  moreover have "J (evict_loop (fsRemoveOk fs) (archive_path i) xs t a1)" for xs
    by (rule evict_loop_keeps [of "archive_path i" J]) (use rm \<open>J a1\<close> in auto)
  ultimately show ?thesis by (simp add: enforceCap_def sc)
qed

lemma enforceCap_keeps_all:
  assumes rm: "\<And>n b. J b \<Longrightarrow> J (fs_remove (fsRemoveOk fs) n b)" and "J a"
  shows "J (enforceCap fs i a)"
proof -
  obtain es t a1 where sc: "scanDir fs a = (es, t, a1)" by (cases "scanDir fs a") auto
  have "J (snd (snd (scan_loop fs (arDir a) [] 0 a)))"
    by (rule scan_loop_keeps [of J]) (use assms(2) in \<open>auto intro: rm\<close>)
  then have "J a1" using sc assms(2) by (auto simp: scanDir_def split: if_splits)
  moreover have "J (evict_loop (fsRemoveOk fs) (archive_path i) xs t a1)" for xs
    by (rule evict_loop_keeps [of "archive_path i" J]) (use rm \<open>J a1\<close> in auto)
  ultimately show ?thesis by (simp add: enforceCap_def sc)
qed

definition disk_states :: "archive \<Rightarrow> dir set" where
  "disk_states a = insert (arDir a) (set (arPast a))"

text \<open>
  C21: saving is atomic. At every moment of a \<open>Save\<close>, between any two of its system calls and whichever
  of them fails, the directory holds for the session either exactly what it held before or exactly
  the new bytes; when \<open>Save\<close> succeeds, a later \<open>Load\<close> returns the saved bytes.
\<close>
theorem archive_Save_atomic:
  assumes "digits (fsTemp fs)" "\<not> is_temp (archive_path i)" "arPast a = []" "archive_Save fs i data a = (ok, b)"
  shows "(\<forall>d \<in> disk_states b. m_get d (archive_path i) = m_get (arDir a) (archive_path i) \<or>
      map_option flData (m_get d (archive_path i)) = Some data) \<and>
    (ok \<longrightarrow> archive_Load True i b = Some data)"
proof -
  let ?p = "archive_path i" and ?t = "temp_path (fsTemp fs)"
  let ?a2 = "fs_put ?t (take (fsWritten fs) data) (fsNow fs) (fs_put ?t [] (fsNow fs) a)"
  define J where "J b \<longleftrightarrow> (\<forall>d \<in> disk_states b. m_get d ?p = m_get (arDir a) ?p \<or> map_option flData (m_get d ?p) = Some data)" for b :: archive
  define K where "K b \<longleftrightarrow> map_option flData (m_get (arDir b) ?p) = Some data" for b :: archive
  note tp = temp_not_path [OF assms(1), of i]
  have J2: "J ?a2" using tp assms(3) by (auto simp: J_def disk_states_def fs_put_def)
  have Jrm: "n \<noteq> ?p \<Longrightarrow> J b \<Longrightarrow> J (fs_remove okf n b)" for n b okf
    by (auto simp: J_def disk_states_def fs_remove_def)
  have Krm: "n \<noteq> ?p \<Longrightarrow> K b \<Longrightarrow> K (fs_remove okf n b)" for n b okf
    by (auto simp: K_def fs_remove_def)
  have ren: "J (fs_rename ?t ?p ?a2)" "K (fs_rename ?t ?p ?a2)" if "\<not> fsWritten fs < length data"
    using J2 that by (auto simp: J_def K_def disk_states_def fs_rename_def fs_put_def)
  have fin: "J (enforceCap fs i (fs_rename ?t ?p ?a2))" "K (enforceCap fs i (fs_rename ?t ?p ?a2))"
    if "\<not> fsWritten fs < length data"
    using enforceCap_keeps [of i J, OF Jrm assms(2) ren(1)] enforceCap_keeps [of i K, OF Krm assms(2) ren(2)] that
    by blast+
  have J0: "J a" by (simp add: J_def disk_states_def assms(3))
  have "J b" using assms(4) J0 Jrm [OF tp J2] fin(1)
    by (auto simp: archive_Save_def Let_def split: if_splits)
  moreover have "archive_Load True i b = Some data" if ok
    using assms(4) that fin(2) by (auto simp: archive_Save_def archive_Load_def K_def Let_def split: if_splits)
  ultimately show ?thesis by (simp add: J_def)
qed

text \<open>Witness for \<open>archive_Save_atomic\<close>: a second save of a session under a cap that evicts another one.\<close>
theorem archive_Save_atomic_witness:
  "let fs = \<lparr>fsMkdirOk = True, fsCreateOk = True, fsTemp = ''17'', fsWritten = 2, fsCloseOk = True, fsRenameOk = True,
       fsReadDirOk = True, fsInfoOk = (\<lambda>_. True), fsRemoveOk = (\<lambda>_. True), fsNow = 9\<rparr>;
     a = NewArchive [(''A.scrollback'', \<lparr>flData = [1], flMtime = 5\<rparr>), (''B.scrollback'', \<lparr>flData = [7], flMtime = 3\<rparr>)] 2
   in archive_Load True ''A'' (snd (archive_Save fs ''A'' [1, 2] a)) = Some [1, 2] \<and>
      archive_Load True ''B'' (snd (archive_Save fs ''A'' [1, 2] a)) = Some []"
proof -
  let ?fs = "\<lparr>fsMkdirOk = True, fsCreateOk = True, fsTemp = ''17'', fsWritten = 2, fsCloseOk = True, fsRenameOk = True,
       fsReadDirOk = True, fsInfoOk = (\<lambda>_. True), fsRemoveOk = (\<lambda>_. True), fsNow = 9\<rparr>"
  let ?a = "NewArchive [(''A.scrollback'', \<lparr>flData = [1], flMtime = 5\<rparr>), (''B.scrollback'', \<lparr>flData = [7], flMtime = 3\<rparr>)] 2"
  have b: "fst (archive_Save ?fs ''A'' [1, 2] ?a)" "archive_Load True ''B'' (snd (archive_Save ?fs ''A'' [1, 2] ?a)) = Some []"
    by (code_simp, code_simp)
  have "digits (fsTemp ?fs)" "\<not> is_temp (archive_path ''A'')" "arPast ?a = []"
    by (simp add: digits_def, simp add: is_temp_def hasPrefix_def archive_path_def, simp add: NewArchive_def)
  from archive_Save_atomic [OF this prod.collapse [symmetric]] b show ?thesis by (simp add: Let_def)
qed

subsection \<open>The disk cap\<close>

definition archive_name :: "string \<Rightarrow> bool" where
  "archive_name n \<longleftrightarrow> is_archive n \<and> \<not> is_temp n"

definition archive_total :: "dir \<Rightarrow> int" where
  "archive_total d = (\<Sum>(n, f) \<leftarrow> filter (\<lambda>(n, f). archive_name n) d. int (length (flData f)))"

definition file_entry :: "string \<times> diskFile \<Rightarrow> archiveEntry" where
  "file_entry nf = \<lparr>aePath = fst nf, aeSize = int (length (flData (snd nf))), aeMtime = flMtime (snd nf)\<rparr>"

lemma scan_loop_result:
  assumes "\<And>n. fsInfoOk fs n"
  shows "fst (scan_loop fs es out t a) = out @ map file_entry (filter (\<lambda>(n, f). archive_name n) es)"
    "fst (snd (scan_loop fs es out t a)) = t + archive_total es"
  using assms by (induction fs es out t a rule: scan_loop.induct)
    (auto simp: archive_name_def archive_total_def file_entry_def)

lemma m_del_filter: "m_del n d = filter (\<lambda>(k, f). k \<noteq> n) d"
  by (simp add: m_del_def AList.delete_eq) (rule filter_cong, auto)

lemma archive_total_del:
  assumes "wf_map d" "m_get d n = Some f"
  shows "archive_total (m_del n d) = archive_total d - (if archive_name n then int (length (flData f)) else 0)"
  using assms
proof (induction d)
  case (Cons e d)
  obtain k g where e: "e = (k, g)" by (cases e)
  have "k \<notin> fst ` set d" "wf_map d" using Cons.prems e by (auto simp: wf_map_def)
  then have "k = n \<Longrightarrow> m_del n d = d" by (force simp: m_del_filter filter_id_conv)
  then show ?case using Cons e \<open>wf_map d\<close>
    by (auto simp: archive_total_def m_get_def m_del_filter)
qed simp

lemma fs_remove_dir: "arDir (fs_remove (\<lambda>_. True) n a) = m_del n (arDir a)"
  by (simp add: fs_remove_def)

text \<open>The loop of \<open>enforceCap\<close>, all removals succeeding, from a correct list of entries.\<close>

definition evictable :: "string \<Rightarrow> archiveEntry list \<Rightarrow> int \<Rightarrow> archive \<Rightarrow> bool" where
  "evictable p es t a \<longleftrightarrow> wf_map (arDir a) \<and> t = archive_total (arDir a) \<and> distinct (map aePath es) \<and>
     (\<forall>e \<in> set es. archive_name (aePath e) \<and>
        (\<exists>f. m_get (arDir a) (aePath e) = Some f \<and> aeSize e = int (length (flData f)) \<and> aeMtime e = flMtime f)) \<and>
     (\<forall>n f. m_get (arDir a) n = Some f \<longrightarrow> archive_name n \<longrightarrow> n \<noteq> p \<longrightarrow> n \<in> aePath ` set es)"

lemma evictable_entry:
  assumes "evictable p es t a" "m_get (arDir a) n = Some f" "archive_name n" "n \<noteq> p"
  obtains x where "x \<in> set es" "aePath x = n" "aeMtime x = flMtime f"
proof -
  obtain x where x: "x \<in> set es" "aePath x = n" using assms unfolding evictable_def by blast
  then have "aeMtime x = flMtime f" using assms(1,2) unfolding evictable_def by auto
  then show ?thesis using x that by blast
qed

lemma evictable_skip: "evictable p (e # es) t a \<Longrightarrow> aePath e = p \<Longrightarrow> evictable p es t a"
  by (auto simp: evictable_def)

lemma evictable_remove:
  assumes "evictable p (e # es) t a"
  shows "evictable p es (t - aeSize e) (fs_remove (\<lambda>_. True) (aePath e) a)"
proof -
  obtain f where f: "m_get (arDir a) (aePath e) = Some f" "aeSize e = int (length (flData f))" "archive_name (aePath e)"
    using assms by (auto simp: evictable_def)
  have "archive_total (m_del (aePath e) (arDir a)) = t - aeSize e"
    using archive_total_del [OF _ f(1)] assms f by (simp add: evictable_def)
  then show ?thesis using assms by (auto simp: evictable_def fs_remove_dir) (metis image_eqI)+
qed

lemma evict_loop_bounded:
  "evictable p es t a \<Longrightarrow> (let b = evict_loop (\<lambda>_. True) p es t a in
     archive_total (arDir b) \<le> arCap a \<or> (\<forall>n f. m_get (arDir b) n = Some f \<longrightarrow> archive_name n \<longrightarrow> n = p))"
proof (induction es arbitrary: t a)
  case Nil
  then show ?case by (auto simp: evictable_def)
next
  case (Cons e es)
  show ?case using Cons.IH [OF evictable_skip [OF Cons.prems]] Cons.IH [OF evictable_remove [OF Cons.prems]] Cons.prems
    by (auto simp: Let_def) (auto simp: evictable_def)
qed

lemma evict_loop_gone:
  "m_get (arDir a) n = None \<Longrightarrow> m_get (arDir (evict_loop (\<lambda>_. True) p es t a)) n = None"
  by (induction "\<lambda>_ :: string. True" p es t a rule: evict_loop.induct) (auto simp: fs_remove_dir)

lemma evict_loop_oldest:
  assumes "sorted (map aeMtime es)" "n \<in> aePath ` set es" "evictable p es t a"
    and "m_get (arDir (evict_loop (\<lambda>_. True) p es t a)) n \<noteq> None" "n \<noteq> p"
    and "e \<in> set es" "m_get (arDir (evict_loop (\<lambda>_. True) p es t a)) (aePath e) = None"
  shows "\<forall>e' \<in> set es. aePath e' = n \<longrightarrow> aeMtime e \<le> aeMtime e'"
  using assms
proof (induction es arbitrary: t a)
  case (Cons x es)
  show ?case
  proof (cases "t \<le> arCap a")
    case True
    then show ?thesis using Cons.prems by (auto simp: evictable_def)
  next
    case False
    show ?thesis
    proof (cases "aePath x = p")
      case True
      then show ?thesis
        using Cons.IH [OF _ _ evictable_skip [OF Cons.prems(3)]] Cons.prems False by fastforce
    next
      case ne: False
      let ?a = "fs_remove (\<lambda>_. True) (aePath x) a"
      have run: "evict_loop (\<lambda>_. True) p (x # es) t a = evict_loop (\<lambda>_. True) p es (t - aeSize x) ?a"
        using ne False by simp
      have "m_get (arDir (evict_loop (\<lambda>_. True) p es (t - aeSize x) ?a)) (aePath x) = None"
        by (rule evict_loop_gone) (simp add: fs_remove_dir)
      then have "n \<noteq> aePath x" using Cons.prems(4) run by auto
      then show ?thesis
        using Cons.IH [OF _ _ evictable_remove [OF Cons.prems(3)]] Cons.prems run by fastforce
    qed
  qed
qed simp

lemma m_del_absent: "m_get d n = None \<Longrightarrow> m_del n d = d"
  by (simp add: m_get_def m_del_def map_of_eq_None_iff delete_id)

text \<open>What the scan leaves alone: everything about the archives proper.\<close>

definition same_archives :: "archive \<Rightarrow> archive \<Rightarrow> bool" where
  "same_archives a b \<longleftrightarrow> wf_map (arDir b) \<and> arCap b = arCap a \<and> archive_total (arDir b) = archive_total (arDir a) \<and>
     (\<forall>n. archive_name n \<longrightarrow> m_get (arDir b) n = m_get (arDir a) n)"

lemma same_archives_remove: "same_archives a b \<Longrightarrow> \<not> archive_name n \<Longrightarrow> same_archives a (fs_remove ok n b)"
  using archive_total_del [of "arDir b" n] m_del_absent [of "arDir b" n]
  by (cases "m_get (arDir b) n") (auto simp: same_archives_def fs_remove_def)

lemma scan_evictable:
  assumes "wf_map (arDir a)" "fsReadDirOk fs" "\<And>n. fsInfoOk fs n" "scanDir fs a = (es, t, a1)"
  shows "same_archives a a1 \<and> evictable p (sort_key aeMtime es) t a1"
proof -
  have r: "es = map file_entry (filter (\<lambda>(n, f). archive_name n) (arDir a))" "t = archive_total (arDir a)"
    "a1 = snd (snd (scan_loop fs (arDir a) [] 0 a))"
    using scan_loop_result [OF assms(3), where es = "arDir a" and out = "[]" and t = 0 and a = a] assms(2,4) by (auto simp: scanDir_def)
  have s: "same_archives a a1"
    unfolding r by (rule scan_loop_keeps) (use assms(1) in \<open>auto simp: same_archives_remove archive_name_def\<close>,
      simp add: same_archives_def)
  have "distinct (map aePath es)"
    using assms(1) unfolding r by (simp add: wf_map_def file_entry_def comp_def distinct_map_filter)
  then have "distinct (map aePath (sort_key aeMtime es))"
    by (metis (no_types, lifting) distinct_map distinct_sort set_sort)
  moreover have "m_get (arDir a) n = Some f \<longleftrightarrow> (n, f) \<in> set (arDir a)" for n f
    using assms(1) by (simp add: m_get_def wf_map_def)
  ultimately show ?thesis using s assms(1)
    by (auto simp: r(1,2) evictable_def same_archives_def file_entry_def image_iff)
qed

text \<open>
  The disk cap. After a successful \<open>Save\<close> during which no removal fails, the archives together fit
  the cap, unless the one just written is the only one left; and the archives that were removed to get
  there are the least recently written ones.
\<close>
theorem archive_cap:
  assumes "wf_map (arDir a)" "digits (fsTemp fs)" "fsReadDirOk fs" "\<And>n. fsInfoOk fs n" "fsRemoveOk fs = (\<lambda>_. True)"
    and "archive_Save fs i data a = (True, b)"
  shows "(archive_total (arDir b) \<le> arCap a \<or> (\<forall>n. m_get (arDir b) n \<noteq> None \<longrightarrow> archive_name n \<longrightarrow> n = archive_path i)) \<and>
    (\<forall>n f m g. m_get (arDir a) n = Some f \<and> archive_name n \<and> n \<noteq> archive_path i \<and> m_get (arDir b) n = None \<longrightarrow>
       m_get (arDir b) m = Some g \<and> archive_name m \<and> m \<noteq> archive_path i \<longrightarrow> flMtime f \<le> flMtime g)"
proof -
  let ?p = "archive_path i" and ?t = "temp_path (fsTemp fs)"
  define c where "c = fs_rename ?t ?p (fs_put ?t (take (fsWritten fs) data) (fsNow fs) (fs_put ?t [] (fsNow fs) a))"
  have c: "wf_map (arDir c)" "arCap c = arCap a" "archive_name n \<Longrightarrow> n \<noteq> ?p \<Longrightarrow> m_get (arDir c) n = m_get (arDir a) n" for n
    using assms(1) temp_not_archive [OF assms(2)]
    by (auto simp: c_def fs_rename_def fs_put_def archive_name_def)
  have b: "b = enforceCap fs i c"
    using assms(6) by (auto simp: archive_Save_def c_def Let_def split: if_splits)
  obtain es t a1 where sc: "scanDir fs c = (es, t, a1)" by (cases "scanDir fs c") auto
  note ev = scan_evictable [OF c(1) assms(3,4) sc, of ?p]
  let ?es = "sort_key aeMtime es"
  have run: "b = (if t \<le> arCap a1 then a1 else evict_loop (\<lambda>_. True) ?p ?es t a1)"
    by (simp add: b enforceCap_def sc assms(5))
  have cap: "archive_total (arDir b) \<le> arCap a \<or> (\<forall>n. m_get (arDir b) n \<noteq> None \<longrightarrow> archive_name n \<longrightarrow> n = ?p)"
    using evict_loop_bounded [of ?p ?es t a1] ev c(2)
    by (auto simp: run Let_def same_archives_def) (auto simp: evictable_def)
  have old: "flMtime f \<le> flMtime g"
    if n: "m_get (arDir a) n = Some f" "archive_name n" "n \<noteq> ?p" "m_get (arDir b) n = None"
      and m: "m_get (arDir b) m = Some g" "archive_name m" "m \<noteq> ?p" for n f m g
  proof -
    have over: "b = evict_loop (\<lambda>_. True) ?p ?es t a1"
      using n m ev c(3) by (auto simp: run same_archives_def split: if_splits)
    have "m_get (arDir b) m = Some g \<longrightarrow> m_get (arDir a1) m = Some g"
      unfolding over by (rule evict_loop_keeps) (auto simp: fs_remove_dir)
    then have a1: "m_get (arDir a1) n = Some f" "m_get (arDir a1) m = Some g"
      using n m ev c(3) by (auto simp: same_archives_def)
    have es: "evictable ?p ?es t a1" using ev by simp
    obtain x where x: "x \<in> set ?es" "aePath x = n" "aeMtime x = flMtime f"
      using evictable_entry [OF es a1(1) n(2,3)] by blast
    obtain y where y: "y \<in> set ?es" "aePath y = m" "aeMtime y = flMtime g"
      using evictable_entry [OF es a1(2) m(2,3)] by blast
    with x show ?thesis
      using evict_loop_oldest [of ?es m ?p t a1 x] ev n m over by fastforce
  qed
  show ?thesis using cap old by blast
qed

text \<open>Witness for \<open>archive_cap\<close>: three archives under a cap of four bytes; the older of the other two goes.\<close>
theorem archive_cap_witness:
  "let fs = \<lparr>fsMkdirOk = True, fsCreateOk = True, fsTemp = ''17'', fsWritten = 2, fsCloseOk = True, fsRenameOk = True,
       fsReadDirOk = True, fsInfoOk = (\<lambda>_. True), fsRemoveOk = (\<lambda>_. True), fsNow = 9\<rparr>;
     a = NewArchive [(''B.scrollback'', \<lparr>flData = [7, 7], flMtime = 5\<rparr>), (''C.scrollback'', \<lparr>flData = [8], flMtime = 3\<rparr>)] 4;
     b = snd (archive_Save fs ''A'' [1, 2] a)
   in (archive_total (arDir b) \<le> 4 \<or> (\<forall>n. m_get (arDir b) n \<noteq> None \<longrightarrow> archive_name n \<longrightarrow> n = archive_path ''A'')) \<and>
      m_get (arDir b) ''B.scrollback'' \<noteq> None \<and> m_get (arDir b) ''C.scrollback'' = None"
proof -
  let ?fs = "\<lparr>fsMkdirOk = True, fsCreateOk = True, fsTemp = ''17'', fsWritten = 2, fsCloseOk = True, fsRenameOk = True,
       fsReadDirOk = True, fsInfoOk = (\<lambda>_. True), fsRemoveOk = (\<lambda>_. True), fsNow = 9\<rparr>"
  let ?a = "NewArchive [(''B.scrollback'', \<lparr>flData = [7, 7], flMtime = 5\<rparr>), (''C.scrollback'', \<lparr>flData = [8], flMtime = 3\<rparr>)] 4"
  let ?b = "snd (archive_Save ?fs ''A'' [1, 2] ?a)"
  have b: "m_get (arDir ?b) ''C.scrollback'' = None" "map_option flMtime (m_get (arDir ?b) ''B.scrollback'') = Some 5"
    "fst (archive_Save ?fs ''A'' [1, 2] ?a)"
    by (code_simp, code_simp, code_simp)
  then have sv: "archive_Save ?fs ''A'' [1, 2] ?a = (True, ?b)" by (intro prod_eqI) simp_all
  have h: "wf_map (arDir ?a)" "digits (fsTemp ?fs)" "fsReadDirOk ?fs" "\<And>n. fsInfoOk ?fs n"
    "fsRemoveOk ?fs = (\<lambda>_. True)" "arCap ?a = 4"
    by (simp_all add: wf_map_def NewArchive_def digits_def)
  have "m_get (arDir ?b) ''B.scrollback'' \<noteq> None" using b(2) by (cases "m_get (arDir ?b) ''B.scrollback''") simp_all
  with conjunct1 [OF archive_cap [OF h(1-5) sv]] b(1) show ?thesis unfolding Let_def h(6) by blast
qed

text \<open>
  The scan tests the suffix before the prefix, so the branch that is meant to clear away temporary
  files never sees one: a temporary file that a crash, or a failed removal, has left in the directory
  survives every later \<open>Save\<close>.
\<close>

lemma scan_keeps_temp:
  assumes "digits r" "digits (fsTemp fs)" "r \<noteq> fsTemp fs" "m_get (arDir a) (temp_path r) = Some f"
  shows "m_get (arDir (snd (archive_Save fs i data a))) (temp_path r) = Some f"
proof -
  let ?J = "\<lambda>b. m_get (arDir b) (temp_path r) = Some f"
  note nt = temp_not_archive [OF assms(1)]
  have rm: "n \<noteq> temp_path r \<Longrightarrow> ?J b \<Longrightarrow> ?J (fs_remove ok n b)" for n b ok by (simp add: fs_remove_def)
  have "?J (snd (snd (scan_loop fs es out t b)))" if "?J b" for es out t b
    by (rule scan_loop_keeps [of ?J]) (use nt that in \<open>auto intro: rm\<close>)
  then have scan: "?J (snd (snd (scanDir fs b)))" if "?J b" for b using that by (simp add: scanDir_def)
  have evict: "\<forall>e \<in> set es. is_archive (aePath e) \<Longrightarrow> ?J b \<Longrightarrow> ?J (evict_loop ok p es t b)" for ok p es t b
  proof (induction ok p es t b rule: evict_loop.induct)
    case (2 ok p e es t b)
    then have "?J (fs_remove ok (aePath e) b)" using nt by (intro rm) auto
    then show ?case using 2 by simp
  qed simp
  have "\<forall>e \<in> set out. is_archive (aePath e) \<Longrightarrow> \<forall>e \<in> set (fst (scan_loop fs es out t b)). is_archive (aePath e)" for es out t b
    by (induction fs es out t b rule: scan_loop.induct) simp_all
  from this [of "[]"] have names: "\<forall>e \<in> set (fst (scanDir fs b)). is_archive (aePath e)" for b by (simp add: scanDir_def)
  have cap: "?J (enforceCap fs i b)" if "?J b" for b
    using scan [OF that] evict [of "sort_key aeMtime (fst (scanDir fs b))"] names [of b]
    by (auto simp: enforceCap_def split: prod.split)
  have "temp_path r \<noteq> temp_path (fsTemp fs)" "temp_path r \<noteq> archive_path i"
    using assms(3) temp_not_path [OF assms(1)] by (simp_all add: temp_path_def)
  then show ?thesis using assms(4)
    by (auto simp: archive_Save_def Let_def fs_put_def fs_rename_def rm intro!: cap)
qed

subsection \<open>The port\<close>

text \<open>
  What the session manager relies on (\<^verbatim>\<open>session.ScrollbackArchive\<close>): a successful save is what the next
  load returns, until the session's archive is deleted; whatever fails, a load returns what it did
  before, or what was saved last, or nothing; and one session's calls never give another session
  anything. The operations take the outcome of the system calls as an argument.
\<close>

locale scrollback_archive =
  fixes Save :: "'o \<Rightarrow> string \<Rightarrow> byte list \<Rightarrow> 's \<Rightarrow> bool \<times> 's"
    and Load :: "bool \<Rightarrow> string \<Rightarrow> 's \<Rightarrow> byte list option"
    and Delete :: "'o \<Rightarrow> string \<Rightarrow> 's \<Rightarrow> bool \<times> 's"
    and idOk :: "string \<Rightarrow> bool"
    and outOk :: "'o \<Rightarrow> bool"
  assumes save_load: "idOk i \<Longrightarrow> outOk w \<Longrightarrow> Save w i x s = (True, s') \<Longrightarrow> Load True i s' = Some x"
    and save_self: "outOk w \<Longrightarrow> Save w i x s = (ok, s') \<Longrightarrow> Load True i s' \<in> {Load True i s, Some x, Some []}"
    and save_other: "outOk w \<Longrightarrow> i \<noteq> j \<Longrightarrow> Save w i x s = (ok, s') \<Longrightarrow> Load True j s' \<in> {Load True j s, Some []}"
    and delete_load: "Delete w i s = (True, s') \<Longrightarrow> Load True i s' = Some []"
    and delete_self: "Delete w i s = (ok, s') \<Longrightarrow> Load True i s' \<in> {Load True i s, Some []}"
    and delete_other: "i \<noteq> j \<Longrightarrow> Delete w i s = (ok, s') \<Longrightarrow> Load True j s' = Load True j s"
begin

text \<open>In one law: what a load can return after a save or a delete.\<close>

lemma after_save:
  "outOk w \<Longrightarrow> Load True j (snd (Save w i x s)) \<in> {Load True j s, Some []} \<union> (if i = j then {Some x} else {})"
  using save_self [of w i x s "fst (Save w i x s)" "snd (Save w i x s)"]
    save_other [of w i j x s "fst (Save w i x s)" "snd (Save w i x s)"] by auto

lemma after_delete: "Load True j (snd (Delete w i s)) \<in> {Load True j s, Some []}"
  using delete_self [of w i s "fst (Delete w i s)" "snd (Delete w i s)"]
    delete_other [of i j w s "fst (Delete w i s)" "snd (Delete w i s)"] by (cases "i = j") auto

end

definition plainID :: "string \<Rightarrow> bool" where
  "plainID i \<longleftrightarrow> validateID i \<and> \<not> is_temp (archive_path i)"

definition archived :: "string \<Rightarrow> archive \<Rightarrow> byte list option" where
  "archived i a = map_option flData (m_get (arDir a) (archive_path i))"

lemma archive_Load_archived:
  "archive_Load True i a = (if validateID i then Some (case archived i a of None \<Rightarrow> [] | Some x \<Rightarrow> x) else None)"
  by (simp add: archive_Load_def archived_def split: option.split)

lemma archived_remove [simp]:
  "archived i (fs_remove ok n a) = (if ok n \<and> n = archive_path i then None else archived i a)"
  by (auto simp: archived_def fs_remove_def)

lemma archived_put_temp [simp]: "digits r \<Longrightarrow> archived i (fs_put (temp_path r) x t a) = archived i a"
  using temp_not_path [of r i] by (simp add: archived_def fs_put_def)

lemma archived_rename:
  "digits r \<Longrightarrow> archived i (fs_rename (temp_path r) (archive_path j) (fs_put (temp_path r) x t a)) =
     (if i = j then Some x else archived i a)"
  using temp_not_path [of r i] by (auto simp: archived_def fs_rename_def fs_put_def)

lemma archive_Save_archived:
  assumes "digits (fsTemp fs)"
  shows "archived j (snd (archive_Save fs i x a)) \<in> {archived j a, None} \<union> (if i = j then {Some x} else {})"
    "plainID i \<Longrightarrow> fst (archive_Save fs i x a) \<Longrightarrow> archived i (snd (archive_Save fs i x a)) = Some x"
proof -
  define J where "J b \<longleftrightarrow> archived j b \<in> {archived j a, None} \<union> (if i = j then {Some x} else {})" for b
  have cap: "J b \<Longrightarrow> J (enforceCap fs i b)" for b
    by (rule enforceCap_keeps_all [where J = J]) (auto simp: J_def)
  let ?t = "temp_path (fsTemp fs)"
  let ?a2 = "fs_put ?t (take (fsWritten fs) x) (fsNow fs) (fs_put ?t [] (fsNow fs) a)"
  have "J a" "\<And>y. J (fs_remove (fsRemoveOk fs) ?t (fs_put ?t y (fsNow fs) (fs_put ?t [] (fsNow fs) a)))"
    using assms by (auto simp: J_def)
  moreover have "J (fs_rename ?t (archive_path i) ?a2)" if "length x \<le> fsWritten fs"
    using that assms by (simp add: J_def archived_rename)
  ultimately have "J (snd (archive_Save fs i x a))"
    by (simp add: archive_Save_def Let_def cap)
  then show "archived j (snd (archive_Save fs i x a)) \<in> {archived j a, None} \<union> (if i = j then {Some x} else {})"
    by (simp add: J_def)
  assume p: "plainID i" "fst (archive_Save fs i x a)"
  have keep: "archived i b = Some x \<Longrightarrow> archived i (enforceCap fs i b) = Some x" for b
    by (rule enforceCap_keeps [where J = "\<lambda>b. archived i b = Some x"]) (use p in \<open>auto simp: plainID_def\<close>)
  show "archived i (snd (archive_Save fs i x a)) = Some x" using p temp_not_path [OF assms, of i]
    by (auto simp: archive_Save_def Let_def archived_rename [OF assms] intro!: keep split: if_splits)
qed

lemma archive_Delete_archived:
  "archived j (snd (archive_Delete ok i a)) \<in> {archived j a, None}"
  "i \<noteq> j \<Longrightarrow> archived j (snd (archive_Delete ok i a)) = archived j a"
  "fst (archive_Delete ok i a) \<Longrightarrow> validateID i \<and> archived i (snd (archive_Delete ok i a)) = None"
  by (auto simp: archive_Delete_def) (auto simp: archived_def split: if_splits)

interpretation diskArchive: scrollback_archive archive_Save archive_Load "\<lambda>fs. archive_Delete (fsRemoveOk fs)"
    plainID "\<lambda>fs. digits (fsTemp fs)"
proof (unfold_locales, goal_cases)
  case (1 i w x s s')
  then show ?case using archive_Save_archived(2) [of w i x s] by (simp add: archive_Load_archived plainID_def)
next
  case (2 w i x s ok s')
  then show ?case using archive_Save_archived(1) [of w i i x s] by (auto simp: archive_Load_archived)
next
  case (3 w i j x s ok s')
  then show ?case using archive_Save_archived(1) [of w j i x s] by (auto simp: archive_Load_archived)
next
  case (4 w i s s')
  then show ?case using archive_Delete_archived(3) [of "fsRemoveOk w" i s] by (simp add: archive_Load_archived)
next
  case (5 w i s ok s')
  then show ?case using archive_Delete_archived(1) [of i "fsRemoveOk w" i s] by (auto simp: archive_Load_archived)
next
  case (6 i j w s ok s')
  then show ?case using archive_Delete_archived(2) [of i j "fsRemoveOk w" s] by (simp add: archive_Load_archived)
qed

end
