(* ===== verification/Interleaving.thy ===== *)
theory Interleaving
  imports Main
begin

text \<open>
  Goroutines over shared state: a configuration is the shared state and the list of the program
  counters, and a step of the system is a step of one of them. A goroutine that starts another one
  hands the new program counter to the list.
\<close>

inductive par_step :: "('s \<times> 't \<Rightarrow> 's \<times> 't \<times> 't list \<Rightarrow> bool) \<Rightarrow> 's \<times> 't list \<Rightarrow> 's \<times> 't list \<Rightarrow> bool"
  for step where
  par_step: "step (s, t) (s', t', new) \<Longrightarrow> par_step step (s, ts1 @ t # ts2) (s', ts1 @ t' # ts2 @ new)"

inductive_cases par_step_elim: "par_step step (s, ts) c"

text \<open>An invariant is established by looking at one goroutine among the others.\<close>

lemma par_invariant:
  assumes "(par_step step)\<^sup>*\<^sup>* c c'" "P c"
    and "\<And>s t s' t' new ts1 ts2. P (s, ts1 @ t # ts2) \<Longrightarrow> step (s, t) (s', t', new) \<Longrightarrow> P (s', ts1 @ t' # ts2 @ new)"
  shows "P c'"
  using assms(1,2) by (induction rule: rtranclp_induct) (auto elim!: par_step_elim intro: assms(3) simp: split_paired_all)

text \<open>Extending a schedule by one step of the goroutine at a given place.\<close>

lemma par_extend:
  assumes "(par_step step)\<^sup>*\<^sup>* c (s, ts)" "i < length ts" "step (s, ts ! i) (s', t', new)"
  shows "(par_step step)\<^sup>*\<^sup>* c (s', ts[i := t'] @ new)"
proof -
  have "ts = take i ts @ ts ! i # drop (Suc i) ts" using assms(2) by (rule id_take_nth_drop)
  moreover have "ts[i := t'] @ new = take i ts @ t' # drop (Suc i) ts @ new"
    using assms(2) by (simp add: upd_conv_take_nth_drop)
  ultimately have "par_step step (s, ts) (s', ts[i := t'] @ new)"
    using par_step.par_step [of step, OF assms(3), of "take i ts" "drop (Suc i) ts"] by simp
  with assms(1) show ?thesis by (rule rtranclp.rtrancl_into_rtrancl)
qed

subsection \<open>Running a schedule\<close>

text \<open>
  Concrete interleavings are computed: \<open>f\<close> performs the step of a program counter, given the choice
  the environment makes, and a schedule lists which goroutine steps with which choice.
\<close>

fun par_exec :: "('c \<Rightarrow> 's \<times> 't \<Rightarrow> ('s \<times> 't \<times> 't list) option) \<Rightarrow> (nat \<times> 'c) list \<Rightarrow> 's \<times> 't list \<Rightarrow> ('s \<times> 't list) option" where
  "par_exec f [] c = Some c"
| "par_exec f ((i, ch) # sched) (s, ts) =
     (if i < length ts
      then (case f ch (s, ts ! i) of None \<Rightarrow> None | Some (s', t', new) \<Rightarrow> par_exec f sched (s', ts[i := t'] @ new))
      else None)"

lemma par_exec_reachable:
  assumes "\<And>ch s t s' t' new. f ch (s, t) = Some (s', t', new) \<Longrightarrow> step (s, t) (s', t', new)"
    and "par_exec f sched c = Some c'"
  shows "(par_step step)\<^sup>*\<^sup>* c c'"
proof -
  have "(par_step step)\<^sup>*\<^sup>* c0 c'" if "(par_step step)\<^sup>*\<^sup>* c0 c" "par_exec f sched c = Some c'" for c0 c
    using that
  proof (induction sched arbitrary: c)
    case (Cons ic sched)
    obtain i ch s ts where c: "ic = (i, ch)" "c = (s, ts)" by (cases ic; cases c) auto
    with Cons.prems(2) obtain s' t' new where i: "i < length ts" and f: "f ch (s, ts ! i) = Some (s', t', new)"
      and rest: "par_exec f sched (s', ts[i := t'] @ new) = Some c'"
      by (auto split: if_splits option.splits)
    from par_extend [of step, OF Cons.prems(1) [unfolded c(2)] i assms(1) [OF f]] rest show ?case by (rule Cons.IH)
  qed simp
  then show ?thesis using assms(2) by blast
qed

end
