(* ===== verification/Session_Manager.thy ===== *)
theory Session_Manager
  imports Vt_View Scrollback Scrollback_Archive Interleaving
begin

text \<open>
  The agent's session manager, \<^verbatim>\<open>internal/agent/app/session/manager.go\<close>.

  \<^item> A \<open>*liveSession\<close> is an address in the heap \<open>mgLive\<close>; the session map holds addresses. The screen is
    the emulator, the only implementation of the \<open>Screen\<close> port; the archive is the one of
    \<open>Scrollback_Archive\<close>.
  \<^item> The terminal device is the operating system's: what it outputs, when it exits and whether its calls
    fail are inputs of the operations.
  \<^item> The operations that hold the lock only in parts are given twice: as one function, the way a single
    caller sees them, and cut at the points where another goroutine can run (\<open>mg_exec\<close>).
  \<^item> Loops over the session map take its entries in the order of the association list.
\<close>

subsection \<open>State\<close>

record PTYSpec =
  specShell :: string
  specCwd :: string
  specCols :: int
  specRows :: int
  specEnv :: "string list"
  specCreateDir :: bool

record pty =
  ptPid :: int
  ptCols :: int
  ptRows :: int
  ptClosed :: bool

record liveSession =
  lsPty :: pty
  lsSb :: scrollback
  lsScreen :: "emulator option"
  lsLastOutputAt :: int
  lsDirty :: bool

text \<open>The factory's errors: the working directory does not exist, or anything else.\<close>

datatype ptyError = ErrCwdNotFound | PtyFailed string

datatype mgError = MgExists | MgOpenPTY ptyError | MgNotFound | MgPty

record manager =
  mgScrollbackBytes :: int
  mgArchive :: "archive option"
  mgScreens :: bool
  mgSessions :: "nat gomap"
  mgLive :: "liveSession list"
  mgNotified :: "(string \<times> int) list"

definition NewManager :: "int \<Rightarrow> archive option \<Rightarrow> manager" where
  "NewManager scrollbackBytes ar = \<lparr>mgScrollbackBytes = scrollbackBytes, mgArchive = ar, mgScreens = False,
     mgSessions = [], mgLive = [], mgNotified = []\<rparr>"

definition SetScreenFactory :: "bool \<Rightarrow> manager \<Rightarrow> manager" where
  "SetScreenFactory f m = m\<lparr>mgScreens := f\<rparr>"

definition ls_upd :: "nat \<Rightarrow> (liveSession \<Rightarrow> liveSession) \<Rightarrow> manager \<Rightarrow> manager" where
  "ls_upd a f m = m\<lparr>mgLive := (mgLive m)[a := f (mgLive m ! a)]\<rparr>"

definition mg_lookup :: "string \<Rightarrow> manager \<Rightarrow> mgError + nat" where
  "mg_lookup sessionID m = (case m_get (mgSessions m) sessionID of None \<Rightarrow> Inl MgNotFound | Some a \<Rightarrow> Inr a)"

subsection \<open>Opening\<close>

text \<open>The bytes of the line that separates restored history from live output; U+2500 is the rule character.\<close>

definition restoredSeparator :: "byte list" where
  "restoredSeparator = concat (map utf8_encode ([13, 10] @ replicate 4 0x2500 @
     runes_of '' session restored after restart '' @ replicate 4 0x2500 @ [13, 10]))"

definition Open_scrollback :: "bool \<Rightarrow> string \<Rightarrow> manager \<Rightarrow> scrollback" where
  "Open_scrollback readOk sessionID m =
     (let prior = (case mgArchive m of None \<Rightarrow> []
        | Some ar \<Rightarrow> (case archive_Load readOk sessionID ar of None \<Rightarrow> [] | Some prior \<Rightarrow> prior))
      in if prior \<noteq> [] then sbWrite (NewScrollbackWithData (mgScrollbackBytes m) prior) restoredSeparator
         else NewScrollback (mgScrollbackBytes m))"

definition Open_insert :: "string \<Rightarrow> PTYSpec \<Rightarrow> scrollback \<Rightarrow> int \<Rightarrow> manager \<Rightarrow> manager" where
  "Open_insert sessionID spec sb pid m =
     m\<lparr>mgLive := mgLive m @ [\<lparr>lsPty = \<lparr>ptPid = pid, ptCols = specCols spec, ptRows = specRows spec, ptClosed = False\<rparr>,
         lsSb = sb, lsScreen = (if mgScreens m then Some (NewEmulator (specCols spec) (specRows spec)) else None),
         lsLastOutputAt = 0, lsDirty = False\<rparr>],
       mgSessions := m_put sessionID (length (mgLive m)) (mgSessions m)\<rparr>"

text \<open>\<open>started\<close> is the factory's result: the process ID, or its error.\<close>

definition Open :: "bool \<Rightarrow> ptyError + int \<Rightarrow> string \<Rightarrow> PTYSpec \<Rightarrow> manager \<Rightarrow> (mgError + int) \<times> manager" where
  "Open readOk started sessionID spec m =
     (if m_get (mgSessions m) sessionID \<noteq> None then (Inl MgExists, m)
      else case started of Inl err \<Rightarrow> (Inl (MgOpenPTY err), m)
        | Inr pid \<Rightarrow> (Inr pid, Open_insert sessionID spec (Open_scrollback readOk sessionID m) pid m))"

subsection \<open>The read pump\<close>

definition pump_bytes :: "nat \<Rightarrow> byte list \<Rightarrow> int \<Rightarrow> manager \<Rightarrow> manager" where
  "pump_bytes a p now = ls_upd a (\<lambda>ls. ls\<lparr>lsLastOutputAt := now, lsSb := sbWrite (lsSb ls) p\<rparr>)"

text \<open>\<open>None\<close> is a panic inside the emulator.\<close>

definition pump_screen :: "nat \<Rightarrow> byte list \<Rightarrow> manager \<Rightarrow> manager option" where
  "pump_screen a p m =
     (case lsScreen (mgLive m ! a) of None \<Rightarrow> Some (ls_upd a (\<lambda>ls. ls\<lparr>lsDirty := True\<rparr>) m)
      | Some e \<Rightarrow> (case Write e p of None \<Rightarrow> None
          | Some e' \<Rightarrow> Some (ls_upd a (\<lambda>ls. ls\<lparr>lsDirty := True, lsScreen := Some e'\<rparr>) m)))"

definition readPump_chunk :: "nat \<Rightarrow> byte list \<Rightarrow> int \<Rightarrow> manager \<Rightarrow> manager option" where
  "readPump_chunk a p now m = (if p = [] then Some m else pump_screen a p (pump_bytes a p now m))"

definition pump_closeSb :: "nat \<Rightarrow> manager \<Rightarrow> manager" where
  "pump_closeSb a = ls_upd a (\<lambda>ls. ls\<lparr>lsSb := sbClose (lsSb ls)\<rparr>)"

definition pump_remove :: "string \<Rightarrow> manager \<Rightarrow> manager" where
  "pump_remove sessionID m = m\<lparr>mgSessions := m_del sessionID (mgSessions m)\<rparr>"

definition notify_exit :: "string \<Rightarrow> int \<Rightarrow> manager \<Rightarrow> manager" where
  "notify_exit sessionID code m = m\<lparr>mgNotified := mgNotified m @ [(sessionID, code)]\<rparr>"

definition readPump_exit :: "string \<Rightarrow> nat \<Rightarrow> int \<Rightarrow> manager \<Rightarrow> manager" where
  "readPump_exit sessionID a code m = notify_exit sessionID code (pump_remove sessionID (pump_closeSb a m))"

subsection \<open>Resizing and closing\<close>

text \<open>The outer \<open>None\<close> is a panic; \<open>resizeOk\<close> and \<open>closeOk\<close> say whether the device call succeeds.\<close>

definition mg_Resize :: "bool \<Rightarrow> string \<Rightarrow> int \<Rightarrow> int \<Rightarrow> manager \<Rightarrow> ((mgError + unit) \<times> manager) option" where
  "mg_Resize resizeOk sessionID c r m = (case mg_lookup sessionID m of Inl err \<Rightarrow> Some (Inl err, m)
     | Inr a \<Rightarrow>
        (case (case lsScreen (mgLive m ! a) of None \<Rightarrow> Some m
                | Some e \<Rightarrow> (case Resize e c r of None \<Rightarrow> None
                    | Some e' \<Rightarrow> Some (ls_upd a (\<lambda>ls. ls\<lparr>lsScreen := Some e'\<rparr>) m)))
         of None \<Rightarrow> None
          | Some m1 \<Rightarrow> Some (if resizeOk
              then (Inr (), ls_upd a (\<lambda>ls. ls\<lparr>lsPty := (lsPty ls)\<lparr>ptCols := c, ptRows := r\<rparr>\<rparr>) m1)
              else (Inl MgPty, m1))))"

definition pty_close :: "nat \<Rightarrow> manager \<Rightarrow> manager" where
  "pty_close a = ls_upd a (\<lambda>ls. ls\<lparr>lsPty := (lsPty ls)\<lparr>ptClosed := True\<rparr>\<rparr>)"

definition delete_archive :: "fsOutcome \<Rightarrow> string \<Rightarrow> manager \<Rightarrow> manager" where
  "delete_archive fs sessionID m = m\<lparr>mgArchive := map_option (\<lambda>ar. snd (archive_Delete (fsRemoveOk fs) sessionID ar)) (mgArchive m)\<rparr>"

definition mg_Close :: "bool \<Rightarrow> fsOutcome \<Rightarrow> string \<Rightarrow> manager \<Rightarrow> (mgError + unit) \<times> manager" where
  "mg_Close closeOk fs sessionID m = (case mg_lookup sessionID m of Inl err \<Rightarrow> (Inl err, m)
     | Inr a \<Rightarrow> (if closeOk then Inr () else Inl MgPty, delete_archive fs sessionID (pty_close a m)))"

subsection \<open>Flushing\<close>

text \<open>The save of one entry; \<open>fs\<close> gives the outcome of the file-system calls of each save.\<close>

definition flush_save :: "fsOutcome \<Rightarrow> string \<Rightarrow> byte list \<Rightarrow> manager \<Rightarrow> bool \<times> manager" where
  "flush_save fs sessionID data m = (case mgArchive m of None \<Rightarrow> (False, m)
     | Some ar \<Rightarrow> (case archive_Save fs sessionID data ar of (ok, ar') \<Rightarrow> (ok, m\<lparr>mgArchive := Some ar'\<rparr>)))"

definition clear_dirty :: "nat \<Rightarrow> manager \<Rightarrow> manager" where
  "clear_dirty a = ls_upd a (\<lambda>ls. ls\<lparr>lsDirty := False\<rparr>)"

definition flush_entry :: "fsOutcome \<Rightarrow> string \<Rightarrow> nat \<Rightarrow> manager \<Rightarrow> manager" where
  "flush_entry fs sessionID a m =
     (let data = Snapshot_bytes (lsSb (mgLive m ! a)) in
      if data = [] then m
      else case flush_save fs sessionID data m of (ok, m1) \<Rightarrow> if ok then clear_dirty a m1 else m1)"

definition flushDirty :: "(string \<Rightarrow> fsOutcome) \<Rightarrow> manager \<Rightarrow> manager" where
  "flushDirty fs m = fold (\<lambda>(sessionID, a) m. if \<not> lsDirty (mgLive m ! a) then m else flush_entry (fs sessionID) sessionID a m)
     (mgSessions m) m"

definition FlushAll :: "(string \<Rightarrow> fsOutcome) \<Rightarrow> manager \<Rightarrow> manager" where
  "FlushAll fs m = (if mgArchive m = None then m
     else fold (\<lambda>(sessionID, a). flush_entry (fs sessionID) sessionID a) (mgSessions m) m)"

text \<open>\<open>Shutdown\<close> stops the flusher and closes the device of every session that is still in the map.\<close>

definition mg_Shutdown :: "manager \<Rightarrow> manager" where
  "mg_Shutdown m = fold (\<lambda>sessionID m. case mg_lookup sessionID m of Inl err \<Rightarrow> m | Inr a \<Rightarrow> pty_close a m)
     (map fst (mgSessions m)) m"

subsection \<open>Reports\<close>

definition RenderScreen :: "string \<Rightarrow> manager \<Rightarrow> (SessionScreen option \<times> manager) option" where
  "RenderScreen sessionID m = (case m_get (mgSessions m) sessionID of None \<Rightarrow> Some (None, m)
     | Some a \<Rightarrow> (case lsScreen (mgLive m ! a) of None \<Rightarrow> Some (None, m)
        | Some e \<Rightarrow> (case Render e of None \<Rightarrow> None
            | Some ((scr, rv), e') \<Rightarrow>
                Some (Some \<lparr>ssID = sessionID, ssScreen = scr, ssRev = rv\<rparr>, ls_upd a (\<lambda>ls. ls\<lparr>lsScreen := Some e'\<rparr>) m))))"

definition RunningScreenRevs :: "manager \<Rightarrow> SessionRev list" where
  "RunningScreenRevs m = List.map_filter (\<lambda>(sessionID, a). case lsScreen (mgLive m ! a) of None \<Rightarrow> None
     | Some e \<Rightarrow> Some \<lparr>srID = sessionID, srRev = Rev e\<rparr>) (mgSessions m)"

fun render_entries :: "(string \<times> nat) list \<Rightarrow> manager \<Rightarrow> (SessionScreen list \<times> manager) option" where
  "render_entries [] m = Some ([], m)"
| "render_entries ((sessionID, a) # es) m =
     (case lsScreen (mgLive m ! a) of None \<Rightarrow> render_entries es m
      | Some e \<Rightarrow> (case Render e of None \<Rightarrow> None
          | Some ((scr, rv), e') \<Rightarrow>
             (case render_entries es (ls_upd a (\<lambda>ls. ls\<lparr>lsScreen := Some e'\<rparr>) m) of None \<Rightarrow> None
              | Some (out, m') \<Rightarrow> Some (\<lparr>ssID = sessionID, ssScreen = scr, ssRev = rv\<rparr> # out, m'))))"

definition RunningScreens :: "manager \<Rightarrow> (SessionScreen list \<times> manager) option" where
  "RunningScreens m = render_entries (mgSessions m) m"

definition activeWindowSec :: int where "activeWindowSec = 2"

record SessionActivity =
  saID :: string
  saActivity :: "Activity option"
  saPwd :: string

text \<open>\<open>cwd\<close> is the device's answer for a process ID, \<open>lower\<close> is \<open>unicode.ToLower\<close>; no activity is the empty string.\<close>

fun activity_entries :: "(rune \<Rightarrow> rune) \<Rightarrow> (int \<Rightarrow> string) \<Rightarrow> int \<Rightarrow> manager \<Rightarrow> (string \<times> nat) list \<Rightarrow> SessionActivity list option" where
  "activity_entries lower cwd now m [] = Some []"
| "activity_entries lower cwd now m ((sessionID, a) # es) =
     (let ls = mgLive m ! a;
          act = (case lsScreen ls of None \<Rightarrow> Some None
            | Some e \<Rightarrow> (case TailText e of None \<Rightarrow> None
                | Some tail \<Rightarrow> Some (Some (ComputeActivity now (lsLastOutputAt ls) activeWindowSec (GetPromptState e)
                    (TailLooksLikeQuestion lower tail)))))
      in case act of None \<Rightarrow> None
        | Some ac \<Rightarrow> (case activity_entries lower cwd now m es of None \<Rightarrow> None
            | Some out \<Rightarrow> Some (\<lparr>saID = sessionID, saActivity = ac, saPwd = cwd (ptPid (lsPty ls))\<rparr> # out)))"

definition Activities :: "(rune \<Rightarrow> rune) \<Rightarrow> (int \<Rightarrow> string) \<Rightarrow> int \<Rightarrow> manager \<Rightarrow> SessionActivity list option" where
  "Activities lower cwd now m = activity_entries lower cwd now m (mgSessions m)"

definition mg_Sessions :: "manager \<Rightarrow> (string \<times> int) list" where
  "mg_Sessions m = map (\<lambda>(sessionID, a). (sessionID, ptPid (lsPty (mgLive m ! a)))) (mgSessions m)"

subsection \<open>Facts\<close>

lemma ls_upd_simps [simp]:
  "mgSessions (ls_upd a f m) = mgSessions m" "mgArchive (ls_upd a f m) = mgArchive m"
  "mgScrollbackBytes (ls_upd a f m) = mgScrollbackBytes m" "mgNotified (ls_upd a f m) = mgNotified m"
  "mgScreens (ls_upd a f m) = mgScreens m" "length (mgLive (ls_upd a f m)) = length (mgLive m)"
  by (simp_all add: ls_upd_def)

lemma ls_upd_nth [simp]:
  "mgLive (ls_upd a f m) ! b = (if b = a \<and> a < length (mgLive m) then f (mgLive m ! a) else mgLive m ! b)"
  by (cases "a < length (mgLive m)"; cases "b = a") (simp_all add: ls_upd_def list_update_beyond)

lemmas mg_step_defs = pump_bytes_def pump_closeSb_def pump_remove_def notify_exit_def pty_close_def delete_archive_def
  clear_dirty_def

definition sbCap :: "int \<Rightarrow> nat" where
  "sbCap n = nat (if n \<le> 0 then defaultScrollbackBytes else n)"

lemma NewScrollbackWithData_retains:
  "retains (NewScrollbackWithData n data) data \<and> nat (sb_max (NewScrollbackWithData n data)) = sbCap n"
  using retains_new [of n] retains_write [OF retains_new [of n], of data]
  by (auto simp: NewScrollbackWithData_def sbCap_def Let_def) (simp_all add: NewScrollback_def)

text \<open>What an opened session's scrollback starts from.\<close>

definition preload :: "bool \<Rightarrow> string \<Rightarrow> manager \<Rightarrow> byte list" where
  "preload readOk i m = (case Option.bind (mgArchive m) (archive_Load readOk i) of
     Some (b # bs) \<Rightarrow> (b # bs) @ restoredSeparator | _ \<Rightarrow> [])"

lemma Open_scrollback_retains:
  "retains (Open_scrollback readOk i m) (preload readOk i m) \<and> nat (sb_max (Open_scrollback readOk i m)) = sbCap (mgScrollbackBytes m)"
proof -
  have w: "retains (sbWrite (NewScrollbackWithData (mgScrollbackBytes m) (b # bs)) restoredSeparator) (b # bs @ restoredSeparator) \<and>
      nat (sb_max (NewScrollbackWithData (mgScrollbackBytes m) (b # bs))) = sbCap (mgScrollbackBytes m)" for b bs
    using NewScrollbackWithData_retains [of "mgScrollbackBytes m" "b # bs"]
      retains_write [of _ "b # bs" restoredSeparator] by simp
  have n: "nat (sb_max (NewScrollback (mgScrollbackBytes m))) = sbCap (mgScrollbackBytes m)"
    by (simp add: NewScrollback_def sbCap_def)
  show ?thesis using w n retains_new
    by (auto simp: Open_scrollback_def preload_def Let_def split: option.split list.split)
qed

subsection \<open>Restart\<close>

text \<open>The file-system calls of a save of \<open>n\<close> bytes succeed.\<close>

definition fs_good :: "nat \<Rightarrow> fsOutcome \<Rightarrow> bool" where
  "fs_good n fs \<longleftrightarrow> fsMkdirOk fs \<and> fsCreateOk fs \<and> n \<le> fsWritten fs \<and> fsCloseOk fs \<and> fsRenameOk fs \<and> digits (fsTemp fs)"

lemma archive_Save_good:
  "plainID i \<Longrightarrow> fs_good (length x) fs \<Longrightarrow> fst (archive_Save fs i x ar)"
  by (simp add: archive_Save_def fs_good_def plainID_def Let_def)

definition loaded :: "string \<Rightarrow> manager \<Rightarrow> byte list option" where
  "loaded i m = Option.bind (mgArchive m) (archive_Load True i)"

lemma flush_entry_frame [simp]:
  "mgSessions (flush_entry fs i a m) = mgSessions m" "length (mgLive (flush_entry fs i a m)) = length (mgLive m)"
  "lsSb (mgLive (flush_entry fs i a m) ! b) = lsSb (mgLive m ! b)"
  "(mgArchive (flush_entry fs i a m) = None) = (mgArchive m = None)"
  by (auto simp: flush_entry_def flush_save_def Let_def clear_dirty_def split: option.split prod.split)

lemma flush_entry_saves:
  assumes "plainID i" "mgArchive m \<noteq> None" "fs_good (length x) fs" "x = Snapshot_bytes (lsSb (mgLive m ! a))" "x \<noteq> []"
  shows "loaded i (flush_entry fs i a m) = Some x"
proof -
  obtain ar where ar: "mgArchive m = Some ar" using assms(2) by blast
  obtain ar' where s: "archive_Save fs i x ar = (True, ar')"
    using archive_Save_good [OF assms(1,3), of ar] by (cases "archive_Save fs i x ar") auto
  have "digits (fsTemp fs)" using assms(3) by (simp add: fs_good_def)
  from diskArchive.save_load [OF assms(1) this s] show ?thesis
    using assms(4,5) ar s by (simp add: loaded_def flush_entry_def flush_save_def clear_dirty_def Let_def)
qed

lemma flush_entry_other:
  assumes "i \<noteq> j" "digits (fsTemp fs)" "mgArchive m \<noteq> None"
  shows "loaded i (flush_entry fs j a m) \<in> {loaded i m, Some []}"
proof -
  obtain ar where ar: "mgArchive m = Some ar" using assms(3) by blast
  have "archive_Load True i (snd (archive_Save fs j x ar)) \<in> {archive_Load True i ar, Some []}" for x
    using diskArchive.after_save [OF assms(2), of i j x ar] assms(1) by auto
  then show ?thesis using ar
    by (auto simp: loaded_def flush_entry_def flush_save_def clear_dirty_def Let_def split: prod.split)
      (metis snd_conv)+
qed

lemma flush_others:
  assumes "\<forall>(j, a) \<in> set es. j \<noteq> i \<and> digits (fsTemp (fs j))" "mgArchive m \<noteq> None"
  shows "loaded i (fold (\<lambda>(j, a). flush_entry (fs j) j a) es m) \<in> {loaded i m, Some []}"
  using assms
proof (induction es arbitrary: m)
  case (Cons e es)
  obtain j a where e: "e = (j, a)" by (cases e)
  have "loaded i (flush_entry (fs j) j a m) \<in> {loaded i m, Some []}"
    using flush_entry_other [of i j "fs j" m a] Cons.prems e by auto
  then show ?case using Cons.IH [of "flush_entry (fs j) j a m"] Cons.prems e by auto
qed simp

lemma flush_fold_frame:
  "(mgArchive (fold (\<lambda>(j, a). flush_entry (fs j) j a) es m) = None) = (mgArchive m = None)"
  "lsSb (mgLive (fold (\<lambda>(j, a). flush_entry (fs j) j a) es m) ! b) = lsSb (mgLive m ! b)"
  by (induction es arbitrary: m) auto

lemma FlushAll_saves:
  assumes "wf_map (mgSessions m)" "\<forall>(j, b) \<in> set (mgSessions m). plainID j \<and> digits (fsTemp (fs j))"
    and "m_get (mgSessions m) i = Some a" "mgArchive m \<noteq> None"
    and "x = Snapshot_bytes (lsSb (mgLive m ! a))" "x \<noteq> []" "fs_good (length x) (fs i)"
  shows "loaded i (FlushAll fs m) \<in> {Some x, Some []}"
proof -
  let ?f = "\<lambda>(j, b). flush_entry (fs j) j b"
  obtain xs ys where sp: "mgSessions m = xs @ (i, a) # ys"
    using assms(3) split_list [of "(i, a)" "mgSessions m"] by (auto simp: m_get_def dest: map_of_SomeD)
  have "i \<notin> fst ` set ys" using assms(1) sp by (simp add: wf_map_def)
  then have ni: "(i, b) \<notin> set ys" for b by (metis fst_conv image_eqI)
  have dis: "\<forall>(j, b) \<in> set ys. plainID j \<and> j \<noteq> i \<and> digits (fsTemp (fs j))" "plainID i"
    using assms(2) sp ni by auto
  let ?m = "fold ?f xs m"
  have "loaded i (flush_entry (fs i) i a ?m) = Some x"
    using assms(4-7) dis(2) by (intro flush_entry_saves) (simp_all add: flush_fold_frame)
  moreover have "loaded i (fold ?f ys (flush_entry (fs i) i a ?m)) \<in> {loaded i (flush_entry (fs i) i a ?m), Some []}"
    using assms(4) dis by (intro flush_others) (auto simp: flush_fold_frame)
  ultimately show ?thesis using assms(4) by (auto simp: FlushAll_def sp)
qed



end
