(* ===== verification/Session_Interleaving.thy ===== *)
theory Session_Interleaving
  imports Session_Manager
begin

text \<open>
  The goroutines of the session manager (\<^verbatim>\<open>manager.go\<close>): callers of \<open>Open\<close> and \<open>Close\<close>, one read pump per
  session, and the background flusher, interleaved between their critical sections. The shared state
  is the manager together with, for each heap address, the session ID it was opened under and
  everything its scrollback has been given (ghost state).
\<close>

subsection \<open>Program counters\<close>

datatype mg_pc =
    OpenReq string PTYSpec
  | OpenChecked string PTYSpec
  | OpenLoaded string PTYSpec "byte list" scrollback
  | OpenEnd "mgError + int"
  | Pump string nat
  | PumpWritten string nat "byte list"
  | PumpExited string nat int
  | PumpClosedSb string nat int
  | PumpRemoved string nat int
  | PumpEnd string nat int
  | CloseReq string
  | CloseFound string nat
  | CloseEnd "mgError + unit"
  | FlushIdle
  | FlushList "(string \<times> nat) list"
  | FlushData string nat "byte list" "(string \<times> nat) list"
  | FlushSaved nat "(string \<times> nat) list"

text \<open>The choices of the environment.\<close>

datatype mg_choice = Go | ReadOk bool | Started "ptyError + int" | Output "byte list" int | Exit int | Fs fsOutcome

type_synonym mg_ghost = "(string \<times> byte list) list"

type_synonym mg_conf = "(manager \<times> mg_ghost) \<times> mg_pc"

definition mg_exec :: "mg_choice \<Rightarrow> mg_conf \<Rightarrow> ((manager \<times> mg_ghost) \<times> mg_pc \<times> mg_pc list) option" where
  "mg_exec ch c = (case c of ((m, g), pc) \<Rightarrow> (case pc of
     OpenReq i spec \<Rightarrow>
       Some ((m, g), if m_get (mgSessions m) i \<noteq> None then OpenEnd (Inl MgExists) else OpenChecked i spec, [])
   | OpenChecked i spec \<Rightarrow> (case ch of
       ReadOk rd \<Rightarrow> Some ((m, g), OpenLoaded i spec (preload rd i m) (Open_scrollback rd i m), []) | _ \<Rightarrow> None)
   | OpenLoaded i spec pre sb \<Rightarrow> (case ch of
       Started (Inl err) \<Rightarrow> Some ((m, g), OpenEnd (Inl (MgOpenPTY err)), [])
     | Started (Inr pid) \<Rightarrow>
         Some ((Open_insert i spec sb pid m, g @ [(i, pre)]), OpenEnd (Inr pid), [Pump i (length (mgLive m))])
     | _ \<Rightarrow> None)
   | Pump i a \<Rightarrow> (case ch of
       Output p now \<Rightarrow>
         (if p = [] then None
          else Some ((pump_bytes a p now m, g[a := (fst (g ! a), snd (g ! a) @ p)]), PumpWritten i a p, []))
     | Exit code \<Rightarrow> Some ((m, g), PumpExited i a code, [])
     | _ \<Rightarrow> None)
   | PumpWritten i a p \<Rightarrow> (case pump_screen a p m of None \<Rightarrow> None | Some m' \<Rightarrow> Some ((m', g), Pump i a, []))
   | PumpExited i a code \<Rightarrow> Some ((pump_closeSb a m, g), PumpClosedSb i a code, [])
   | PumpClosedSb i a code \<Rightarrow> Some ((pump_remove i m, g), PumpRemoved i a code, [])
   | PumpRemoved i a code \<Rightarrow> Some ((notify_exit i code m, g), PumpEnd i a code, [])
   | CloseReq i \<Rightarrow>
       Some (case mg_lookup i m of Inl err \<Rightarrow> ((m, g), CloseEnd (Inl err), []) | Inr a \<Rightarrow> ((pty_close a m, g), CloseFound i a, []))
   | CloseFound i a \<Rightarrow> (case ch of Fs fs \<Rightarrow> Some ((delete_archive fs i m, g), CloseEnd (Inr ()), []) | _ \<Rightarrow> None)
   | FlushIdle \<Rightarrow> Some ((m, g), FlushList (mgSessions m), [])
   | FlushList [] \<Rightarrow> Some ((m, g), FlushIdle, [])
   | FlushList ((i, a) # es) \<Rightarrow>
       (let data = Snapshot_bytes (lsSb (mgLive m ! a)) in
        Some ((m, g), if \<not> lsDirty (mgLive m ! a) then FlushList es
                      else if data = [] then FlushList es else FlushData i a data es, []))
   | FlushData i a data es \<Rightarrow> (case ch of
       Fs fs \<Rightarrow> (case flush_save fs i data m of (ok, m') \<Rightarrow> Some ((m', g), if ok then FlushSaved a es else FlushList es, []))
     | _ \<Rightarrow> None)
   | FlushSaved a es \<Rightarrow> Some ((clear_dirty a m, g), FlushList es, [])
   | _ \<Rightarrow> None))"

text \<open>The random part of a temporary name consists of digits (\<^verbatim>\<open>os.CreateTemp\<close>).\<close>

definition choice_ok :: "mg_choice \<Rightarrow> bool" where
  "choice_ok ch = (case ch of Fs fs \<Rightarrow> digits (fsTemp fs) | _ \<Rightarrow> True)"

inductive mg_step :: "mg_conf \<Rightarrow> (manager \<times> mg_ghost) \<times> mg_pc \<times> mg_pc list \<Rightarrow> bool" where
  mg_step: "mg_exec ch c = Some c' \<Longrightarrow> choice_ok ch \<Longrightarrow> mg_step c c'"

definition mg_run :: "(nat \<times> mg_choice) list \<Rightarrow> (manager \<times> mg_ghost) \<times> mg_pc list \<Rightarrow> ((manager \<times> mg_ghost) \<times> mg_pc list) option" where
  "mg_run = par_exec (\<lambda>ch c. if choice_ok ch then mg_exec ch c else None)"

lemma mg_run_reachable: "mg_run sched c = Some c' \<Longrightarrow> (par_step mg_step)\<^sup>*\<^sup>* c c'"
  unfolding mg_run_def
  by (rule par_exec_reachable [of "\<lambda>ch c. if choice_ok ch then mg_exec ch c else None"])
    (auto intro: mg_step split: if_splits)

subsection \<open>What the archive can hold\<close>

text \<open>
  \<open>x\<close> is what some session of ID \<open>i\<close> had in its scrollback at some moment: the last \<open>n\<close> bytes of a
  prefix of what it was given.
\<close>

definition is_snap :: "nat \<Rightarrow> mg_ghost \<Rightarrow> string \<Rightarrow> byte list \<Rightarrow> bool" where
  "is_snap n g i x \<longleftrightarrow> (\<exists>a < length g. fst (g ! a) = i \<and> (\<exists>k \<le> length (snd (g ! a)). x = drop (k - n) (take k (snd (g ! a)))))"

definition owns :: "mg_ghost \<Rightarrow> string \<Rightarrow> nat \<Rightarrow> bool" where
  "owns g i a \<longleftrightarrow> a < length g \<and> fst (g ! a) = i"

definition grows :: "mg_ghost \<Rightarrow> mg_ghost \<Rightarrow> bool" where
  "grows g g' \<longleftrightarrow> length g \<le> length g' \<and> (\<forall>a < length g. fst (g' ! a) = fst (g ! a) \<and> (\<exists>y. snd (g' ! a) = snd (g ! a) @ y))"

definition sb_ok :: "int \<Rightarrow> scrollback \<Rightarrow> byte list \<Rightarrow> bool" where
  "sb_ok n sb h \<longleftrightarrow> retains sb h \<and> nat (sb_max sb) = sbCap n"

fun pc_ok :: "int \<Rightarrow> mg_ghost \<Rightarrow> mg_pc \<Rightarrow> bool" where
  "pc_ok n g (OpenLoaded i spec pre sb) = sb_ok n sb pre"
| "pc_ok n g (Pump i a) = owns g i a"
| "pc_ok n g (PumpWritten i a p) = owns g i a"
| "pc_ok n g (PumpExited i a code) = owns g i a"
| "pc_ok n g (PumpClosedSb i a code) = owns g i a"
| "pc_ok n g (PumpRemoved i a code) = owns g i a"
| "pc_ok n g (FlushList es) = (\<forall>(i, a) \<in> set es. owns g i a)"
| "pc_ok n g (FlushData i a data es) = (is_snap (sbCap n) g i data \<and> (\<forall>(i, a) \<in> set es. owns g i a))"
| "pc_ok n g (FlushSaved a es) = (\<forall>(i, a) \<in> set es. owns g i a)"
| "pc_ok n g pc = True"

definition mg_ok :: "int \<Rightarrow> archive option \<Rightarrow> manager \<Rightarrow> mg_ghost \<Rightarrow> bool" where
  "mg_ok n ar m g \<longleftrightarrow> mgScrollbackBytes m = n \<and> length g = length (mgLive m) \<and>
     (\<forall>a < length g. sb_ok n (lsSb (mgLive m ! a)) (snd (g ! a))) \<and>
     (\<forall>(i, a) \<in> set (mgSessions m). owns g i a) \<and>
     (\<forall>i. loaded i m \<in> {Option.bind ar (archive_Load True i), Some []} \<or> (\<exists>x. loaded i m = Some x \<and> is_snap (sbCap n) g i x))"

lemma grows_refl [simp]: "grows g g"
  by (simp add: grows_def)

lemma grows_app [simp]: "grows g (g @ [e])"
  by (simp add: grows_def nth_append)

lemma grows_out [simp]: "grows g (g[a := (fst (g ! a), snd (g ! a) @ p)])"
  by (cases "a < length g") (auto simp: grows_def nth_list_update list_update_beyond)

lemma owns_grows: "grows g g' \<Longrightarrow> owns g i a \<Longrightarrow> owns g' i a"
  by (auto simp: grows_def owns_def)

lemma is_snap_grows: "grows g g' \<Longrightarrow> is_snap n g i x \<Longrightarrow> is_snap n g' i x"
proof -
  assume g: "grows g g'" and "is_snap n g i x"
  then obtain a k where a: "a < length g" "fst (g ! a) = i" "k \<le> length (snd (g ! a))" "x = drop (k - n) (take k (snd (g ! a)))"
    by (auto simp: is_snap_def)
  moreover obtain y where "snd (g' ! a) = snd (g ! a) @ y" using g a(1) by (auto simp: grows_def)
  ultimately show ?thesis using g unfolding is_snap_def grows_def
    by (intro exI [of _ a] conjI exI [of _ k]) auto
qed

lemma pc_ok_grows: "grows g g' \<Longrightarrow> pc_ok n g pc \<Longrightarrow> pc_ok n g' pc"
  by (cases pc) (auto simp: owns_grows is_snap_grows)

subsection \<open>Every step keeps it\<close>

lemma mg_okD:
  assumes "mg_ok n ar m g"
  shows "mgScrollbackBytes m = n" "length g = length (mgLive m)"
    "a < length g \<Longrightarrow> sb_ok n (lsSb (mgLive m ! a)) (snd (g ! a))"
    "(i, a) \<in> set (mgSessions m) \<Longrightarrow> owns g i a"
    "loaded i m \<in> {Option.bind ar (archive_Load True i), Some []} \<or> (\<exists>x. loaded i m = Some x \<and> is_snap (sbCap n) g i x)"
  using assms unfolding mg_ok_def by blast+

lemma loaded_cong: "mgArchive m' = mgArchive m \<Longrightarrow> loaded i m' = loaded i m"
  by (simp add: loaded_def)

text \<open>A step that leaves the archive alone and gives no scrollback any bytes.\<close>

lemma mg_ok_quiet:
  assumes "mg_ok n ar m g" "mgScrollbackBytes m' = mgScrollbackBytes m" "length (mgLive m') = length (mgLive m)"
    and "mgArchive m' = mgArchive m" "set (mgSessions m') \<subseteq> set (mgSessions m)"
    and "\<And>a h. a < length (mgLive m) \<Longrightarrow> sb_ok n (lsSb (mgLive m ! a)) h \<Longrightarrow> sb_ok n (lsSb (mgLive m' ! a)) h"
  shows "mg_ok n ar m' g"
  using assms loaded_cong [OF assms(4)] unfolding mg_ok_def by fastforce

lemma sb_ok_close: "sb_ok n sb h \<Longrightarrow> sb_ok n (sbClose sb) h"
  by (simp add: sb_ok_def retains_def sbClose_def)

lemma mg_ok_upd:
  assumes "mg_ok n ar m g" "\<And>ls. lsSb (f ls) = lsSb ls \<or> lsSb (f ls) = sbClose (lsSb ls)"
  shows "mg_ok n ar (ls_upd a f m) g"
proof (rule mg_ok_quiet [OF assms(1)])
  fix b h assume "b < length (mgLive m)" "sb_ok n (lsSb (mgLive m ! b)) h"
  then show "sb_ok n (lsSb (mgLive (ls_upd a f m) ! b)) h"
    using assms(2) [of "mgLive m ! a"] by (auto simp: sb_ok_close)
qed simp_all

lemma mg_ok_bytes:
  assumes "mg_ok n ar m g" "owns g i a"
  shows "mg_ok n ar (pump_bytes a p now m) (g[a := (fst (g ! a), snd (g ! a) @ p)])"
proof -
  note I = mg_okD [OF assms(1)]
  let ?g = "g[a := (fst (g ! a), snd (g ! a) @ p)]"
  have g: "grows g ?g" by simp
  have "sb_ok n (lsSb (mgLive (pump_bytes a p now m) ! b)) (snd (?g ! b))" if "b < length ?g" for b
    using I(3) [of b] that I(2) by (auto simp: pump_bytes_def nth_list_update sb_ok_def retains_write)
  moreover have "loaded j (pump_bytes a p now m) = loaded j m" for j by (simp add: loaded_def pump_bytes_def)
  moreover have "mgSessions (pump_bytes a p now m) = mgSessions m" "mgScrollbackBytes (pump_bytes a p now m) = mgScrollbackBytes m"
    "length (mgLive (pump_bytes a p now m)) = length (mgLive m)" by (simp_all add: pump_bytes_def)
  ultimately show ?thesis using I(1,2) I(4,5) owns_grows [OF g] is_snap_grows [OF g]
    unfolding mg_ok_def by (auto, blast)
qed

lemma m_put_subset: "set (m_put k v d) \<subseteq> insert (k, v) (set d)"
  by (induction d) (auto simp: m_put_def)

lemma m_del_subset: "set (m_del k d) \<subseteq> set d"
  by (auto simp: m_del_filter)

lemma mg_ok_insert:
  assumes "mg_ok n ar m g" "sb_ok n sb pre"
  shows "mg_ok n ar (Open_insert i spec sb pid m) (g @ [(i, pre)])"
proof -
  note I = mg_okD [OF assms(1)]
  let ?g = "g @ [(i, pre)]" and ?m = "Open_insert i spec sb pid m"
  have g: "grows g ?g" by simp
  have "sb_ok n (lsSb (mgLive ?m ! b)) (snd (?g ! b))" if "b < length ?g" for b
    using I(3) [of b] that I(2) assms(2) by (auto simp: Open_insert_def nth_append)
  moreover have "owns ?g j b" if "(j, b) \<in> set (mgSessions ?m)" for j b
    using that I(2,4) owns_grows [OF g] m_put_subset [of i "length (mgLive m)" "mgSessions m"]
    by (auto simp: Open_insert_def owns_def nth_append dest!: subsetD)
  moreover have "loaded j ?m = loaded j m" for j by (simp add: loaded_def Open_insert_def)
  moreover have "mgScrollbackBytes ?m = n" "length (mgLive ?m) = length ?g" using I(1,2) by (simp_all add: Open_insert_def)
  ultimately show ?thesis using I(5) is_snap_grows [OF g] unfolding mg_ok_def by (auto, blast)
qed

text \<open>A step that only touches the archive, by the archive's laws.\<close>

lemma mg_ok_archive:
  assumes "mg_ok n ar m g"
    and "\<And>j. loaded j (m\<lparr>mgArchive := ar'\<rparr>) \<in> {loaded j m, Some []} \<or> (\<exists>x. loaded j (m\<lparr>mgArchive := ar'\<rparr>) = Some x \<and> is_snap (sbCap n) g j x)"
  shows "mg_ok n ar (m\<lparr>mgArchive := ar'\<rparr>) g"
proof -
  have "loaded j (m\<lparr>mgArchive := ar'\<rparr>) \<in> {Option.bind ar (archive_Load True j), Some []} \<or>
      (\<exists>x. loaded j (m\<lparr>mgArchive := ar'\<rparr>) = Some x \<and> is_snap (sbCap n) g j x)" for j
    using assms(2) [of j] mg_okD(5) [OF assms(1), of j] by auto
  then show ?thesis using mg_okD(1-4) [OF assms(1)] unfolding mg_ok_def by auto
qed

lemma mg_ok_save:
  assumes "mg_ok n ar m g" "digits (fsTemp fs)" "is_snap (sbCap n) g i x" "flush_save fs i x m = (ok, m')"
  shows "mg_ok n ar m' g"
proof (cases "mgArchive m")
  case None
  then show ?thesis using assms(1,4) by (simp add: flush_save_def)
next
  case (Some a)
  have "m' = m\<lparr>mgArchive := Some (snd (archive_Save fs i x a))\<rparr>"
    using assms(4) Some by (auto simp: flush_save_def split: prod.splits)
  moreover have "loaded j (m\<lparr>mgArchive := Some (snd (archive_Save fs i x a))\<rparr>) \<in> {loaded j m, Some []} \<or>
      (\<exists>y. loaded j (m\<lparr>mgArchive := Some (snd (archive_Save fs i x a))\<rparr>) = Some y \<and> is_snap (sbCap n) g j y)" for j
    using diskArchive.after_save [OF assms(2), of j i x a] assms(3) Some by (auto simp: loaded_def split: if_splits)
  ultimately show ?thesis using mg_ok_archive [OF assms(1)] by blast
qed

lemma mg_ok_delete: "mg_ok n ar m g \<Longrightarrow> mg_ok n ar (delete_archive fs i m) g"
  unfolding delete_archive_def
proof (rule mg_ok_archive)
  fix j
  show "loaded j (m\<lparr>mgArchive := map_option (\<lambda>ar. snd (archive_Delete (fsRemoveOk fs) i ar)) (mgArchive m)\<rparr>) \<in> {loaded j m, Some []} \<or>
    (\<exists>x. loaded j (m\<lparr>mgArchive := map_option (\<lambda>ar. snd (archive_Delete (fsRemoveOk fs) i ar)) (mgArchive m)\<rparr>) = Some x \<and> is_snap (sbCap n) g j x)"
    using diskArchive.after_delete [of j fs i] by (cases "mgArchive m") (auto simp: loaded_def)
qed

lemma snapshot_is_snap:
  assumes "mg_ok n ar m g" "owns g i a"
  shows "is_snap (sbCap n) g i (Snapshot_bytes (lsSb (mgLive m ! a)))"
proof -
  have "sb_ok n (lsSb (mgLive m ! a)) (snd (g ! a))" using assms mg_okD(3) [OF assms(1)] by (simp add: owns_def)
  then have "Snapshot_bytes (lsSb (mgLive m ! a)) = drop (length (snd (g ! a)) - sbCap n) (snd (g ! a))"
    using ring.holds_contents [of "lsSb (mgLive m ! a)"] by (simp add: sb_ok_def)
  then show ?thesis using assms(2) unfolding is_snap_def owns_def by force
qed

lemma mg_step_ok:
  assumes "mg_step ((m, g), pc) ((m', g'), pc', new)" "mg_ok n ar m g" "pc_ok n g pc"
  shows "mg_ok n ar m' g' \<and> grows g g' \<and> (\<forall>x \<in> set (pc' # new). pc_ok n g' x)"
proof -
  obtain ch where ex: "mg_exec ch ((m, g), pc) = Some ((m', g'), pc', new)" "choice_ok ch"
    using assms(1) by (auto elim: mg_step.cases)
  note I = assms(2,3)
  show ?thesis
  proof (cases pc)
    case (OpenLoaded i spec pre sb)
    then show ?thesis using ex I mg_ok_insert [OF I(1), of sb pre] mg_okD(2) [OF I(1)]
      by (auto simp: mg_exec_def owns_def nth_append split: mg_choice.splits sum.splits)
  next
    case (OpenChecked i spec)
    then show ?thesis using ex I Open_scrollback_retains mg_okD(1) [OF I(1)]
      by (auto simp: mg_exec_def sb_ok_def split: mg_choice.splits)
  next
    case (Pump i a)
    then show ?thesis using ex I mg_ok_bytes [OF I(1), of i a] owns_grows [OF grows_out, of g i a]
      by (auto simp: mg_exec_def split: mg_choice.splits if_splits)
  next
    case (PumpWritten i a p)
    then show ?thesis using ex I
      by (auto simp: mg_exec_def pump_screen_def split: option.splits intro!: mg_ok_upd)
  next
    case (PumpClosedSb i a code)
    have "mg_ok n ar (pump_remove i m) g"
      using m_del_subset [of i "mgSessions m"] by (intro mg_ok_quiet [OF I(1)]) (auto simp: pump_remove_def)
    then show ?thesis using PumpClosedSb ex I by (auto simp: mg_exec_def)
  next
    case (PumpRemoved i a code)
    have "mg_ok n ar (notify_exit i code m) g" by (intro mg_ok_quiet [OF I(1)]) (auto simp: notify_exit_def)
    then show ?thesis using PumpRemoved ex I by (auto simp: mg_exec_def)
  next
    case (FlushList es)
    then show ?thesis using ex I snapshot_is_snap [OF I(1)]
      by (cases es) (auto simp: mg_exec_def Let_def split: if_splits)
  next
    case FlushIdle
    then show ?thesis using ex I mg_okD(4) [OF I(1)] by (auto simp: mg_exec_def)
  next
    case (FlushData i a data es)
    then show ?thesis using ex I mg_ok_save [OF I(1), of _ i data]
      by (auto simp: mg_exec_def choice_ok_def split: mg_choice.splits prod.splits)
  next
    case (CloseFound i a)
    then show ?thesis using ex I mg_ok_delete [OF I(1)] by (auto simp: mg_exec_def split: mg_choice.splits)
  qed (use ex I in \<open>auto simp: mg_exec_def mg_step_defs split: sum.splits if_splits intro!: mg_ok_upd\<close>)
qed

text \<open>
  C2: persistence never mixes things up. Under every interleaving of opens, closes, read pumps and the
  flusher, and whatever file-system calls fail: each session's scrollback is exactly the tail of what
  that session was given; and what the archive holds for a session ID is what it held initially,
  nothing, or what some session of that very ID had in its scrollback at some moment, never a torn
  mixture and never another session's output.
\<close>
theorem session_output_isolated:
  assumes "(par_step mg_step)\<^sup>*\<^sup>* ((NewManager n ar, []), ts0) ((m, g), ts)" "\<forall>pc \<in> set ts0. pc_ok n [] pc"
  shows "(\<forall>a < length (mgLive m). \<exists>i h. g ! a = (i, h) \<and> Snapshot_bytes (lsSb (mgLive m ! a)) = drop (length h - sbCap n) h) \<and>
    (\<forall>i. loaded i m = Option.bind ar (archive_Load True i) \<or> loaded i m = Some [] \<or>
      (\<exists>x. loaded i m = Some x \<and> is_snap (sbCap n) g i x))"
proof -
  let ?P = "\<lambda>((m, g), ts). mg_ok n ar m g \<and> (\<forall>pc \<in> set ts. pc_ok n g pc)"
  have "?P ((m, g), ts)"
  proof (rule par_invariant [OF assms(1)])
    show "?P ((NewManager n ar, []), ts0)" using assms(2) by (simp add: mg_ok_def NewManager_def loaded_def)
    fix s t s' t' new ts1 ts2
    assume P: "?P (s, ts1 @ t # ts2)" and st: "mg_step (s, t) (s', t', new)"
    obtain m g m' g' where s: "s = (m, g)" "s' = (m', g')" by (cases s; cases s') auto
    show "?P (s', ts1 @ t' # ts2 @ new)"
      using mg_step_ok [of m g t m' g' t' new n ar] P st s pc_ok_grows [of g g' n] by auto
  qed
  then have I: "mg_ok n ar m g" by simp
  have "Snapshot_bytes (lsSb (mgLive m ! a)) = drop (length (snd (g ! a)) - sbCap n) (snd (g ! a))" if "a < length (mgLive m)" for a
    using mg_okD(2,3) [OF I] that ring.holds_contents [of "lsSb (mgLive m ! a)"] by (simp add: sb_ok_def)
  then show ?thesis using mg_okD(5) [OF I] by (metis insert_iff prod.collapse singletonD)
qed

subsection \<open>Schedules\<close>

definition spec0 :: PTYSpec where
  "spec0 = \<lparr>specShell = [], specCwd = [], specCols = 80, specRows = 24, specEnv = [], specCreateDir = False\<rparr>"

definition fs0 :: fsOutcome where
  "fs0 = \<lparr>fsMkdirOk = True, fsCreateOk = True, fsTemp = ''17'', fsWritten = 99, fsCloseOk = True, fsRenameOk = True,
     fsReadDirOk = True, fsInfoOk = (\<lambda>_. True), fsRemoveOk = (\<lambda>_. True), fsNow = 9\<rparr>"

definition flush_race :: "(nat \<times> mg_choice) list" where
  "flush_race = [(0, Go), (0, ReadOk True), (0, Started (Inr 1)), (2, Output [104] 5), (2, Go), (1, Go), (1, Go),
     (2, Output [105] 6), (2, Go), (1, Fs fs0), (1, Go), (1, Go)]"

definition close_race :: "(nat \<times> mg_choice) list" where
  "close_race = [(0, Go), (0, ReadOk True), (0, Started (Inr 1)), (3, Output [104] 5), (3, Go), (2, Go), (2, Fs fs0),
     (1, Go), (1, Go), (1, Fs fs0), (1, Go), (1, Go), (3, Exit 0), (3, Go), (3, Go), (3, Go)]"

definition open_race :: "(nat \<times> mg_choice) list" where
  "open_race = [(0, Go), (1, Go), (0, ReadOk True), (1, ReadOk True), (0, Started (Inr 1)), (1, Started (Inr 2)),
     (2, Exit 0), (2, Go), (2, Go), (2, Go)]"

text \<open>Witness for \<open>session_output_isolated\<close>: a session whose output is flushed while more of it arrives.\<close>
theorem session_output_isolated_witness:
  "\<exists>m g ts. mg_run flush_race ((NewManager 0 (Some (NewArchive [] 0)), []), [OpenReq ''A'' spec0, FlushIdle]) = Some ((m, g), ts) \<and>
     g = [(''A'', [104, 105])] \<and> loaded ''A'' m = Some [104] \<and>
     (loaded ''A'' m = Some [] \<or> (\<exists>x. loaded ''A'' m = Some x \<and> is_snap (sbCap 0) g ''A'' x))"
proof -
  let ?c = "((NewManager 0 (Some (NewArchive [] 0)), []), [OpenReq ''A'' spec0, FlushIdle])"
  have e: "(case mg_run flush_race ?c of Some ((m, g), ts) \<Rightarrow> g = [(''A'', [104, 105])] \<and> loaded ''A'' m = Some [104] | None \<Rightarrow> False)"
    by code_simp
  then obtain m g ts where r: "mg_run flush_race ?c = Some ((m, g), ts)" "g = [(''A'', [104, 105])]" "loaded ''A'' m = Some [104]"
    by (auto split: option.splits prod.splits)
  have l: "archive_Load True ''A'' (NewArchive [] 0) = Some []" by code_simp
  have p: "\<forall>pc \<in> set [OpenReq ''A'' spec0, FlushIdle]. pc_ok 0 [] pc" by simp
  have "loaded ''A'' m = Some [] \<or> (\<exists>x. loaded ''A'' m = Some x \<and> is_snap (sbCap 0) g ''A'' x)"
    using conjunct2 [OF session_output_isolated [OF mg_run_reachable [OF r(1)] p], THEN spec, of "''A''"] l by simp
  then show ?thesis using r by blast
qed

subsection \<open>Three races\<close>

text \<open>
  The flusher can lose the dirty mark. It reads the scrollback, saves, and only then clears the
  mark; output that arrives while it saves sets the mark first and has it cleared afterwards. A state
  is reachable in which the flusher is idle, the session counts as clean, the archive lacks its last
  byte, and every later pass of the flusher leaves it so.
\<close>
theorem flusher_loses_output:
  "\<exists>m g. (par_step mg_step)\<^sup>*\<^sup>* ((NewManager 0 (Some (NewArchive [] 0)), []), [OpenReq ''A'' spec0, FlushIdle])
       ((m, g), [OpenEnd (Inr 1), FlushIdle, Pump ''A'' 0]) \<and>
     m_get (mgSessions m) ''A'' = Some 0 \<and> Snapshot_bytes (lsSb (mgLive m ! 0)) = [104, 105] \<and>
     loaded ''A'' m = Some [104] \<and> (\<forall>fs. flushDirty fs m = m)"
proof -
  let ?c = "((NewManager 0 (Some (NewArchive [] 0)), []), [OpenReq ''A'' spec0, FlushIdle])"
  have e: "(case mg_run flush_race ?c of Some ((m, g), ts) \<Rightarrow> ts = [OpenEnd (Inr 1), FlushIdle, Pump ''A'' 0] \<and>
      mgSessions m = [(''A'', 0)] \<and> Snapshot_bytes (lsSb (mgLive m ! 0)) = [104, 105] \<and>
      loaded ''A'' m = Some [104] \<and> \<not> lsDirty (mgLive m ! 0) | None \<Rightarrow> False)"
    by code_simp
  then obtain m g where r: "mg_run flush_race ?c = Some ((m, g), [OpenEnd (Inr 1), FlushIdle, Pump ''A'' 0])"
    "mgSessions m = [(''A'', 0)]" "Snapshot_bytes (lsSb (mgLive m ! 0)) = [104, 105]"
    "loaded ''A'' m = Some [104]" "\<not> lsDirty (mgLive m ! 0)"
    by (auto split: option.splits prod.splits)
  then show ?thesis using mg_run_reachable [OF r(1)]
    by (intro exI [of _ m] exI [of _ g]) (simp add: flushDirty_def m_get_def)
qed

text \<open>
  Closing does not always delete the archive. Between \<open>Close\<close> deleting it and the read pump removing
  the session from the map, the session is still there and may be dirty; a pass of the flusher in that
  window writes the archive again. When everything has ended, the archive of the closed session
  exists, and the next session of that ID would start with its output.
\<close>
theorem close_leaves_archive:
  "\<exists>m g. (par_step mg_step)\<^sup>*\<^sup>* ((NewManager 0 (Some (NewArchive [] 0)), []), [OpenReq ''A'' spec0, FlushIdle, CloseReq ''A''])
       ((m, g), [OpenEnd (Inr 1), FlushIdle, CloseEnd (Inr ()), PumpEnd ''A'' 0 0]) \<and>
     mgSessions m = [] \<and> mgNotified m = [(''A'', 0)] \<and> loaded ''A'' m = Some [104] \<and>
     preload True ''A'' m = [104] @ restoredSeparator"
proof -
  let ?c = "((NewManager 0 (Some (NewArchive [] 0)), []), [OpenReq ''A'' spec0, FlushIdle, CloseReq ''A''])"
  have e: "(case mg_run close_race ?c of Some ((m, g), ts) \<Rightarrow> ts = [OpenEnd (Inr 1), FlushIdle, CloseEnd (Inr ()), PumpEnd ''A'' 0 0] \<and>
      mgSessions m = [] \<and> mgNotified m = [(''A'', 0)] \<and> loaded ''A'' m = Some [104] | None \<Rightarrow> False)"
    by code_simp
  then obtain m g where r: "mg_run close_race ?c = Some ((m, g), [OpenEnd (Inr 1), FlushIdle, CloseEnd (Inr ()), PumpEnd ''A'' 0 0])"
    "mgSessions m = []" "mgNotified m = [(''A'', 0)]" "loaded ''A'' m = Some [104]"
    by (auto split: option.splits prod.splits)
  then show ?thesis using mg_run_reachable [OF r(1)]
    by (intro exI [of _ m] exI [of _ g]) (simp add: preload_def loaded_def)
qed

text \<open>
  Two overlapping opens of one ID both pass the existence check; the one that inserts last wins, and
  when the other one's process exits its pump removes the winner's entry: a running session that no
  operation can reach any more.
\<close>

lemma open_race_orphans:
  "\<exists>m g. (par_step mg_step)\<^sup>*\<^sup>* ((NewManager 0 None, []), [OpenReq ''A'' spec0, OpenReq ''A'' spec0])
       ((m, g), [OpenEnd (Inr 1), OpenEnd (Inr 2), PumpEnd ''A'' 0 0, Pump ''A'' 1]) \<and>
     mgSessions m = [] \<and> \<not> sb_closed (lsSb (mgLive m ! 1)) \<and> mg_lookup ''A'' m = Inl MgNotFound"
proof -
  let ?c = "((NewManager 0 None, []), [OpenReq ''A'' spec0, OpenReq ''A'' spec0])"
  have e: "(case mg_run open_race ?c of Some ((m, g), ts) \<Rightarrow> ts = [OpenEnd (Inr 1), OpenEnd (Inr 2), PumpEnd ''A'' 0 0, Pump ''A'' 1] \<and>
      mgSessions m = [] \<and> \<not> sb_closed (lsSb (mgLive m ! 1)) \<and> mg_lookup ''A'' m = Inl MgNotFound | None \<Rightarrow> False)"
    by code_simp
  then obtain m g where r: "mg_run open_race ?c = Some ((m, g), [OpenEnd (Inr 1), OpenEnd (Inr 2), PumpEnd ''A'' 0 0, Pump ''A'' 1])"
    "mgSessions m = []" "\<not> sb_closed (lsSb (mgLive m ! 1))" "mg_lookup ''A'' m = Inl MgNotFound"
    by (auto split: option.splits prod.splits)
  then show ?thesis using mg_run_reachable [OF r(1)] by blast
qed

end
