(* ===== verification/Snapshot_Producer.thy ===== *)
theory Snapshot_Producer
  imports Session_Manager
begin

text \<open>
  The snapshot producer, \<^verbatim>\<open>internal/agent/app/snapshot/producer.go\<close>, over the session manager as its
  screen provider. Whether the sink accepts a snapshot is an input (\<open>sendOk\<close>); the outcome of a tick lists
  the snapshots handed to it in order.
\<close>

subsection \<open>Definitions\<close>

record producer =
  prEnabled :: bool
  prLastRev :: "64 word gomap"

definition NewProducer :: producer where
  "NewProducer = \<lparr>prEnabled = False, prLastRev = []\<rparr>"

definition SetEnabled :: "bool \<Rightarrow> producer \<Rightarrow> producer" where
  "SetEnabled enabled p = (let p1 = (if enabled then p\<lparr>prLastRev := []\<rparr> else p) in p1\<lparr>prEnabled := enabled\<rparr>)"

type_synonym sends = "(SessionScreen \<times> bool) list"

definition produce_one :: "(string \<Rightarrow> bool) \<Rightarrow> SessionRev \<Rightarrow> sends \<times> producer \<times> manager \<Rightarrow> (sends \<times> producer \<times> manager) option" where
  "produce_one sendOk sr st = (case st of (out, p, m) \<Rightarrow>
     if m_get (prLastRev p) (srID sr) = None \<or> m_get (prLastRev p) (srID sr) \<noteq> Some (srRev sr)
     then (case RenderScreen (srID sr) m of None \<Rightarrow> None
       | Some (None, m1) \<Rightarrow> Some (out, p, m1)
       | Some (Some scr, m1) \<Rightarrow>
           Some (out @ [(scr, sendOk (srID sr))], p\<lparr>prLastRev := m_put (srID sr) (ssRev scr) (prLastRev p)\<rparr>, m1))
     else Some (out, p, m))"

definition prune :: "SessionRev list \<Rightarrow> producer \<Rightarrow> producer" where
  "prune revs p = p\<lparr>prLastRev := filter (\<lambda>(i, r). i \<in> set (map srID revs)) (prLastRev p)\<rparr>"

definition runOnce :: "(string \<Rightarrow> bool) \<Rightarrow> producer \<times> manager \<Rightarrow> (sends \<times> producer \<times> manager) option" where
  "runOnce sendOk st = (case st of (p, m) \<Rightarrow>
     if \<not> prEnabled p then Some ([], p, m)
     else let revs = RunningScreenRevs m in
       case foldM (produce_one sendOk) revs ([], p, m) of None \<Rightarrow> None
       | Some (out, p1, m1) \<Rightarrow> Some (out, prune revs p1, m1))"

subsection \<open>The view the hub has\<close>

text \<open>The last snapshot of each session that the sink accepted.\<close>

definition deliver :: "sends \<Rightarrow> (string \<rightharpoonup> Screen) \<Rightarrow> (string \<rightharpoonup> Screen)" where
  "deliver out sent = foldl (\<lambda>s (scr, ok). if ok then s(ssID scr \<mapsto> ssScreen scr) else s) sent out"

definition screen_of :: "manager \<Rightarrow> string \<Rightarrow> emulator option" where
  "screen_of m i = Option.bind (m_get (mgSessions m) i) (\<lambda>a. lsScreen (mgLive m ! a))"

text \<open>The session map: each address is used by one ID, and the screens are well formed.\<close>

definition wf_manager :: "manager \<Rightarrow> bool" where
  "wf_manager m \<longleftrightarrow> wf_map (mgSessions m) \<and> (\<forall>i a. m_get (mgSessions m) i = Some a \<longrightarrow> a < length (mgLive m)) \<and>
     (\<forall>i j a. m_get (mgSessions m) i = Some a \<longrightarrow> m_get (mgSessions m) j = Some a \<longrightarrow> i = j) \<and>
     (\<forall>i e. screen_of m i = Some e \<longrightarrow> wf_emulator e)"

text \<open>
  Whatever revision the producer remembers for a session is the one of the last accepted snapshot: the
  emulator has not settled since, and as long as it is not dirty it still shows that screen.
\<close>

definition synced :: "producer \<Rightarrow> manager \<Rightarrow> (string \<rightharpoonup> Screen) \<Rightarrow> bool" where
  "synced p m sent \<longleftrightarrow> (\<forall>i e r. screen_of m i = Some e \<longrightarrow> m_get (prLastRev p) i = Some r \<longrightarrow>
     revision e = r \<and> (\<not> dirty e \<longrightarrow> sent i = Some (view e)))"

lemma screen_of_upd:
  assumes "wf_manager m" "m_get (mgSessions m) i = Some a"
    and "\<And>ls. lsScreen (f ls) = h (lsScreen ls)"
  shows "screen_of (ls_upd a f m) = (screen_of m)(i := h (screen_of m i))"
  using assms by (auto simp: fun_eq_iff screen_of_def wf_manager_def split: bind_split)

lemma RenderScreen_eq:
  assumes "wf_manager m" "m_get (mgSessions m) i = Some a" "lsScreen (mgLive m ! a) = Some e"
  shows "RenderScreen i m = Some (Some \<lparr>ssID = i, ssScreen = view e, ssRev = Rev e\<rparr>, ls_upd a (\<lambda>ls. ls\<lparr>lsScreen := Some (settled e)\<rparr>) m)"
proof -
  have "screen_of m i = Some e" using assms(2,3) by (simp add: screen_of_def)
  then have "wf_emulator e" using assms(1) by (simp add: wf_manager_def)
  then show ?thesis using assms by (simp add: RenderScreen_def Render_eq)
qed

lemma wf_manager_upd:
  assumes "wf_manager m" "m_get (mgSessions m) i = Some a" "\<And>ls. lsScreen (f ls) = h (lsScreen ls)"
    and "\<And>e. h (screen_of m i) = Some e \<Longrightarrow> wf_emulator e"
  shows "wf_manager (ls_upd a f m)"
  using assms screen_of_upd [of m i a f h, OF assms(1-3)] by (simp add: wf_manager_def)

lemma deliver_snoc [simp]:
  "deliver (out @ [(scr, ok)]) sent = (if ok then (deliver out sent)(ssID scr \<mapsto> ssScreen scr) else deliver out sent)"
  by (simp add: deliver_def)

text \<open>One iteration of the tick, with a sink that accepts.\<close>

lemma produce_one_synced:
  assumes "wf_manager m" "synced p m (deliver out sent)" "screen_of m (srID sr) = Some e" "srRev sr = Rev e"
  shows "\<exists>out' p' m' e'. produce_one (\<lambda>_. True) sr (out, p, m) = Some (out', p', m') \<and> wf_manager m' \<and>
    synced p' m' (deliver out' sent) \<and> mgSessions m' = mgSessions m \<and> screen_of m' = (screen_of m)(srID sr \<mapsto> e') \<and>
    deliver out' sent = (deliver out sent)(srID sr \<mapsto> view e') \<and> Rev e' = Rev e \<and> view e' = view e"
proof (cases "m_get (prLastRev p) (srID sr) = Some (srRev sr)")
  case True
  then have "revision e = Rev e" "\<not> dirty e \<longrightarrow> deliver out sent (srID sr) = Some (view e)"
    using assms unfolding synced_def by auto
  then have "deliver out sent (srID sr) = Some (view e)" by (simp add: Rev_def split: if_splits)
  then have "deliver out sent = (deliver out sent)(srID sr \<mapsto> view e)" "screen_of m = (screen_of m)(srID sr \<mapsto> e)"
    using assms(3) by auto
  then show ?thesis using assms True by (intro exI [of _ out] exI [of _ p] exI [of _ m] exI [of _ e]) (simp add: produce_one_def)
next
  case False
  let ?i = "srID sr"
  obtain a where a: "m_get (mgSessions m) ?i = Some a" "lsScreen (mgLive m ! a) = Some e"
    using assms(3) by (auto simp: screen_of_def bind_eq_Some_conv)
  let ?m = "ls_upd a (\<lambda>ls. ls\<lparr>lsScreen := Some (settled e)\<rparr>) m"
  let ?p = "p\<lparr>prLastRev := m_put ?i (Rev e) (prLastRev p)\<rparr>"
  let ?out = "out @ [(\<lparr>ssID = ?i, ssScreen = view e, ssRev = Rev e\<rparr>, True)]"
  have sc: "screen_of ?m = (screen_of m)(?i \<mapsto> settled e)"
    using screen_of_upd [OF assms(1) a(1), of _ "\<lambda>_. Some (settled e)"] by simp
  have wfe: "wf_emulator e" using assms(1,3) by (simp add: wf_manager_def)
  have "wf_manager ?m"
    using wfe by (intro wf_manager_upd [OF assms(1) a(1), where h = "\<lambda>_. Some (settled e)"]) auto
  moreover have "synced ?p ?m (deliver ?out sent)"
    using assms(2) unfolding synced_def sc by (auto split: if_splits)
  moreover have "produce_one (\<lambda>_. True) sr (out, p, m) = Some (?out, ?p, ?m)"
    using False RenderScreen_eq [OF assms(1) a] by (simp add: produce_one_def)
  moreover have "Rev (settled e) = Rev e" by (simp add: Rev_def [of "settled e"])
  ultimately show ?thesis using sc
    by (intro exI [of _ ?out] exI [of _ ?p] exI [of _ ?m] exI [of _ "settled e"]) simp
qed

lemma produce_synced:
  assumes "wf_manager m" "synced p m (deliver out sent)" "distinct (map srID srs)"
    and "\<forall>sr \<in> set srs. \<exists>e. screen_of m (srID sr) = Some e \<and> srRev sr = Rev e"
  shows "\<exists>out' p' m'. foldM (produce_one (\<lambda>_. True)) srs (out, p, m) = Some (out', p', m') \<and> wf_manager m' \<and>
    synced p' m' (deliver out' sent) \<and> mgSessions m' = mgSessions m \<and>
    (\<forall>i. i \<notin> srID ` set srs \<longrightarrow> screen_of m' i = screen_of m i \<and> deliver out' sent i = deliver out sent i) \<and>
    (\<forall>i \<in> srID ` set srs. \<exists>e'. screen_of m' i = Some e' \<and> deliver out' sent i = Some (view e'))"
  using assms
proof (induction srs arbitrary: out p m)
  case Nil
  then show ?case by auto
next
  case (Cons sr srs)
  obtain e where e: "screen_of m (srID sr) = Some e" "srRev sr = Rev e" using Cons.prems by auto
  from produce_one_synced [OF Cons.prems(1,2) e] obtain out1 p1 m1 e1 where
    1: "produce_one (\<lambda>_. True) sr (out, p, m) = Some (out1, p1, m1)" "wf_manager m1" "synced p1 m1 (deliver out1 sent)"
      "mgSessions m1 = mgSessions m" "screen_of m1 = (screen_of m)(srID sr \<mapsto> e1)"
      "deliver out1 sent = (deliver out sent)(srID sr \<mapsto> view e1)" by blast
  have "\<forall>sr \<in> set srs. \<exists>e. screen_of m1 (srID sr) = Some e \<and> srRev sr = Rev e"
    using Cons.prems(3,4) unfolding 1(5) by (auto simp: image_iff)
  from Cons.IH [OF 1(2,3) _ this] Cons.prems(3) obtain out2 p2 m2 where
    2: "foldM (produce_one (\<lambda>_. True)) srs (out1, p1, m1) = Some (out2, p2, m2)" "wf_manager m2" "synced p2 m2 (deliver out2 sent)"
      "mgSessions m2 = mgSessions m1"
      "\<forall>i. i \<notin> srID ` set srs \<longrightarrow> screen_of m2 i = screen_of m1 i \<and> deliver out2 sent i = deliver out1 sent i"
      "\<forall>i \<in> srID ` set srs. \<exists>e'. screen_of m2 i = Some e' \<and> deliver out2 sent i = Some (view e')" by auto
  have "srID sr \<notin> srID ` set srs" using Cons.prems(3) by simp
  then show ?case using 1 2 by (intro exI [of _ out2] exI [of _ p2] exI [of _ m2]) auto
qed

lemma map_of_filter_key: "map_of (filter (\<lambda>(i, r). P i) d) i = (if P i then map_of d i else None)"
  by (induction d) auto

lemma map_filter_keys:
  "map srID (List.map_filter (\<lambda>(i, a). case f a of None \<Rightarrow> None | Some e \<Rightarrow> Some \<lparr>srID = i, srRev = Rev e\<rparr>) es) =
     map fst (filter (\<lambda>(i, a). f a \<noteq> None) es)"
  by (induction es) (auto simp: map_filter_simps split: option.splits)

lemma RunningScreenRevs_live:
  assumes "wf_manager m"
  shows "distinct (map srID (RunningScreenRevs m))"
    "srID ` set (RunningScreenRevs m) = {i. screen_of m i \<noteq> None}"
    "sr \<in> set (RunningScreenRevs m) \<Longrightarrow> \<exists>e. screen_of m (srID sr) = Some e \<and> srRev sr = Rev e"
proof -
  have d: "distinct (map fst (mgSessions m))" using assms by (simp add: wf_manager_def wf_map_def)
  have mem: "sr \<in> set (RunningScreenRevs m) \<longleftrightarrow>
      (\<exists>a e. (srID sr, a) \<in> set (mgSessions m) \<and> lsScreen (mgLive m ! a) = Some e \<and> srRev sr = Rev e)" for sr
    by (cases sr) (force simp: RunningScreenRevs_def List.map_filter_def split: option.splits)
  have get: "(i, a) \<in> set (mgSessions m) \<longleftrightarrow> m_get (mgSessions m) i = Some a" for i a
    using d by (simp add: m_get_def)
  have fwd: "sr \<in> set (RunningScreenRevs m) \<Longrightarrow> \<exists>e. screen_of m (srID sr) = Some e \<and> srRev sr = Rev e" for sr
    by (auto simp: mem get screen_of_def)
  then show "sr \<in> set (RunningScreenRevs m) \<Longrightarrow> \<exists>e. screen_of m (srID sr) = Some e \<and> srRev sr = Rev e" .
  have "screen_of m i = Some e \<Longrightarrow> \<lparr>srID = i, srRev = Rev e\<rparr> \<in> set (RunningScreenRevs m)" for i e
    by (auto simp: mem get screen_of_def bind_eq_Some_conv)
  then have "screen_of m i = Some e \<Longrightarrow> i \<in> srID ` set (RunningScreenRevs m)" for i e
    by (metis SessionRev.select_convs(1) image_eqI)
  then show "srID ` set (RunningScreenRevs m) = {i. screen_of m i \<noteq> None}"
    using fwd by fastforce
  have "map srID (RunningScreenRevs m) = map fst (filter (\<lambda>(i, a). lsScreen (mgLive m ! a) \<noteq> None) (mgSessions m))"
    unfolding RunningScreenRevs_def by (rule map_filter_keys)
  then show "distinct (map srID (RunningScreenRevs m))" using d by (simp add: distinct_map_filter)
qed

text \<open>The tick: nothing panics, and afterwards the accepted snapshots show every running session as it is.\<close>

lemma runOnce_synced:
  assumes "wf_manager m" "synced p m sent" "prEnabled p"
  shows "\<exists>out p' m'. runOnce (\<lambda>_. True) (p, m) = Some (out, p', m') \<and> wf_manager m' \<and> synced p' m' (deliver out sent) \<and>
    (\<forall>i e. screen_of m' i = Some e \<longrightarrow> deliver out sent i = Some (view e))"
proof -
  let ?revs = "RunningScreenRevs m"
  note live = RunningScreenRevs_live [OF assms(1)]
  have "synced p m (deliver [] sent)" using assms(2) by (simp add: deliver_def)
  from produce_synced [OF assms(1) this live(1)] live(3) obtain out p1 m1 where
    r: "foldM (produce_one (\<lambda>_. True)) ?revs ([], p, m) = Some (out, p1, m1)" "wf_manager m1"
      "synced p1 m1 (deliver out sent)" "\<forall>i. i \<notin> srID ` set ?revs \<longrightarrow> screen_of m1 i = screen_of m i"
      "\<forall>i \<in> srID ` set ?revs. \<exists>e'. screen_of m1 i = Some e' \<and> deliver out sent i = Some (view e')" by blast
  have "m_get (prLastRev (prune ?revs p1)) i = Some r \<Longrightarrow> m_get (prLastRev p1) i = Some r" for i r
    by (auto simp: prune_def m_get_def map_of_filter_key split: if_splits)
  then have "synced (prune ?revs p1) m1 (deliver out sent)" using r(3) unfolding synced_def by blast
  moreover have "deliver out sent i = Some (view e)" if "screen_of m1 i = Some e" for i e
    using r(4,5) live(2) that by (cases "i \<in> srID ` set ?revs") auto
  ultimately show ?thesis using r(1,2) assms(3) by (simp add: runOnce_def Let_def)
qed

subsection \<open>Histories\<close>

text \<open>
  What happens to the agent between ticks: output, resizes, exits, sessions of new IDs, and the hub
  switching the snapshots on and off. Output is required to leave the screen well formed; it does
  unless it completes one of the emulator's hazardous control sequences.
\<close>

inductive pr_step :: "producer \<times> manager \<times> (string \<rightharpoonup> Screen) \<Rightarrow> producer \<times> manager \<times> (string \<rightharpoonup> Screen) \<Rightarrow> bool" where
  pr_output: "m_get (mgSessions m) i = Some a \<Longrightarrow> pump_screen a x (pump_bytes a x now m) = Some m' \<Longrightarrow>
    (\<And>e. screen_of m' i = Some e \<Longrightarrow> wf_emulator e) \<Longrightarrow> pr_step (p, m, sent) (p, m', sent)"
| pr_resize: "c \<le> maxDim \<Longrightarrow> r \<le> maxDim \<Longrightarrow> mg_Resize ok i c r m = Some (res, m') \<Longrightarrow> pr_step (p, m, sent) (p, m', sent)"
| pr_exit: "pr_step (p, m, sent) (p, readPump_exit i a code m, sent)"
| pr_open: "m_get (prLastRev p) i = None \<Longrightarrow> specCols spec \<le> maxDim \<Longrightarrow> specRows spec \<le> maxDim \<Longrightarrow>
    Open rd started i spec m = (res, m') \<Longrightarrow> pr_step (p, m, sent) (p, m', sent)"
| pr_enable: "pr_step (p, m, sent) (SetEnabled b p, m, sent)"
| pr_tick: "runOnce (\<lambda>_. True) (p, m) = Some (out, p', m') \<Longrightarrow> pr_step (p, m, sent) (p', m', deliver out sent)"

lemma synced_honest:
  assumes "synced p m sent" "screen_of m' = (screen_of m)(i := h)"
    and "h = screen_of m i \<or> (\<exists>e e'. screen_of m i = Some e \<and> h = Some e' \<and> honest e e')"
  shows "synced p m' sent"
  using assms unfolding synced_def by (auto simp: honest_def split: if_splits)

lemma synced_drop:
  assumes "synced p m sent" "\<And>i e. screen_of m' i = Some e \<Longrightarrow> screen_of m i = Some e \<or> m_get (prLastRev p) i = None"
  shows "synced p m' sent"
  using assms unfolding synced_def by fastforce

lemma Resize_honest: "Resize e c r = Some e' \<Longrightarrow> honest e e'"
  by (auto simp: Resize_def Let_def bind_eq_Some_conv honest_mark split: if_splits)

lemma pump_synced:
  assumes "wf_manager m" "synced p m sent" "m_get (mgSessions m) i = Some a"
    and "pump_screen a x (pump_bytes a x now m) = Some m'" "\<And>e. screen_of m' i = Some e \<Longrightarrow> wf_emulator e"
  shows "wf_manager m' \<and> synced p m' sent"
proof -
  let ?m = "pump_bytes a x now m"
  have sc: "screen_of ?m = screen_of m" "m_get (mgSessions ?m) i = Some a"
    using assms(3) by (auto simp: fun_eq_iff screen_of_def pump_bytes_def split: bind_split)
  have wf: "wf_manager ?m" using assms(1) unfolding wf_manager_def sc(1) by (simp add: pump_bytes_def)
  obtain f h where m': "m' = ls_upd a f ?m" "\<And>ls. lsScreen (f ls) = h (lsScreen ls)"
    and h: "h (screen_of m i) = screen_of m i \<or> (\<exists>e e'. screen_of m i = Some e \<and> h (screen_of m i) = Some e' \<and> honest e e')"
  proof (cases "lsScreen (mgLive ?m ! a)")
    case None
    then show thesis using assms(4) that [of "\<lambda>ls. ls\<lparr>lsDirty := True\<rparr>" "\<lambda>s. s"] by (simp add: pump_screen_def)
  next
    case (Some e)
    then obtain e' where e': "Write e x = Some e'" "m' = ls_upd a (\<lambda>ls. ls\<lparr>lsDirty := True, lsScreen := Some e'\<rparr>) ?m"
      using assms(4) by (auto simp: pump_screen_def split: option.splits)
    have "screen_of m i = Some e" using Some sc by (metis bind.bind_lunit screen_of_def)
    then show thesis using e' Write_honest [OF e'(1)] that [of "\<lambda>ls. ls\<lparr>lsDirty := True, lsScreen := Some e'\<rparr>" "\<lambda>_. Some e'"] by simp
  qed
  note sc' = screen_of_upd [of ?m i a f h, OF wf sc(2) m'(2), folded m'(1), unfolded sc(1)]
  have "wf_manager m'"
    using wf_manager_upd [of ?m i a f h, OF wf sc(2) m'(2)] assms(5) sc' sc(1) m'(1) by simp
  then show ?thesis using synced_honest [OF assms(2) sc' h] by blast
qed

lemma resize_synced:
  assumes "wf_manager m" "synced p m sent" "mg_Resize ok i c r m = Some (res, m')" "c \<le> maxDim" "r \<le> maxDim"
  shows "wf_manager m' \<and> synced p m' sent"
proof (cases "m_get (mgSessions m) i")
  case None
  then show ?thesis using assms by (simp add: mg_Resize_def mg_lookup_def)
next
  case (Some a)
  have pty: "screen_of (ls_upd a (\<lambda>ls. ls\<lparr>lsPty := f ls\<rparr>) m1) = screen_of m1" for f m1
    by (auto simp: fun_eq_iff screen_of_def split: bind_split)
  have wfpty: "wf_manager m1 \<Longrightarrow> wf_manager (ls_upd a (\<lambda>ls. ls\<lparr>lsPty := f ls\<rparr>) m1)" for f m1
    by (simp add: wf_manager_def pty)
  have spty: "synced p m1 sent \<Longrightarrow> synced p (ls_upd a (\<lambda>ls. ls\<lparr>lsPty := f ls\<rparr>) m1) sent" for f m1
    by (simp add: synced_def pty)
  show ?thesis
  proof (cases "lsScreen (mgLive m ! a)")
    case None
    then show ?thesis using assms Some wfpty spty by (auto simp: mg_Resize_def mg_lookup_def split: if_splits)
  next
    case e: (Some e)
    have se: "screen_of m i = Some e" using Some e by (simp add: screen_of_def)
    then have "wf_emulator e" using assms(1) by (simp add: wf_manager_def)
    then obtain e' where e': "Resize e c r = Some e'" "wf_emulator e'" using Resize_total [of e c r] assms(4,5) by blast
    let ?m = "ls_upd a (\<lambda>ls. ls\<lparr>lsScreen := Some e'\<rparr>) m"
    have sc: "screen_of ?m = (screen_of m)(i := Some e')"
      using screen_of_upd [of m i a _ "\<lambda>_. Some e'", OF assms(1) Some] by simp
    have "wf_manager ?m" using e' by (intro wf_manager_upd [of m i a _ "\<lambda>_. Some e'", OF assms(1) Some]) auto
    moreover have "synced p ?m sent"
      using se Resize_honest [OF e'(1)] by (intro synced_honest [OF assms(2) sc]) blast
    ultimately show ?thesis using assms(3) Some e e' wfpty spty
      by (auto simp: mg_Resize_def mg_lookup_def split: if_splits)
  qed
qed

lemma open_synced:
  assumes "wf_manager m" "synced p m sent" "Open rd started i spec m = (res, m')" "m_get (prLastRev p) i = None"
    and "specCols spec \<le> maxDim" "specRows spec \<le> maxDim"
  shows "wf_manager m' \<and> synced p m' sent"
proof -
  consider "m' = m" | pid sb where "m_get (mgSessions m) i = None" "m' = Open_insert i spec sb pid m"
    using assms(3) by (auto simp: Open_def split: if_splits sum.splits)
  then show ?thesis
  proof cases
    case 2
    let ?l = "length (mgLive m)"
    have get: "m_get (mgSessions m') j = (if j = i then Some ?l else m_get (mgSessions m) j)" for j
      by (simp add: 2 Open_insert_def)
    have old: "m_get (mgSessions m) j = Some a \<Longrightarrow> a < ?l" for j a using assms(1) by (simp add: wf_manager_def)
    have sc: "screen_of m' j = (if j = i then if mgScreens m then Some (NewEmulator (specCols spec) (specRows spec)) else None
        else screen_of m j)" for j
      using old [of j] unfolding screen_of_def get by (auto simp: 2 Open_insert_def nth_append split: bind_split)
    have "wf_manager m'"
      using assms(1) old get sc NewEmulator_wf [OF assms(5,6)] unfolding wf_manager_def
      by (auto simp: 2 Open_insert_def less_Suc_eq split: if_splits)
    then show ?thesis using synced_drop [OF assms(2), of m'] sc assms(4) by (auto split: if_splits)
  qed (use assms in simp)
qed

lemma exit_synced:
  assumes "wf_manager m" "synced p m sent"
  shows "wf_manager (readPump_exit i a code m) \<and> synced p (readPump_exit i a code m) sent"
proof -
  let ?m = "readPump_exit i a code m"
  have sc: "screen_of ?m j = (if j = i then None else screen_of m j)" for j
    by (auto simp: screen_of_def readPump_exit_def mg_step_defs split: bind_split)
  have "wf_manager ?m" using assms(1) unfolding wf_manager_def sc
    by (auto simp: readPump_exit_def mg_step_defs split: if_splits)
  moreover have "synced p ?m sent" by (rule synced_drop [OF assms(2)]) (simp add: sc split: if_splits)
  ultimately show ?thesis ..
qed

lemma pr_step_synced: "pr_step (p, m, sent) (p', m', sent') \<Longrightarrow> wf_manager m \<and> synced p m sent \<Longrightarrow> wf_manager m' \<and> synced p' m' sent'"
proof (induction rule: pr_step.induct [split_format (complete)])
  case (pr_output m i a x now m' p sent)
  then show ?case using pump_synced by blast
next
  case (pr_resize c r ok i m res m' p sent)
  then show ?case using resize_synced by blast
next
  case (pr_open p i spec rd started m res m' sent)
  then show ?case using open_synced by blast
next
  case (pr_tick p m out p' m' sent)
  show ?case
  proof (cases "prEnabled p")
    case True
    then show ?thesis using runOnce_synced [of m p sent] pr_tick by auto
  next
    case False
    then show ?thesis using pr_tick by (auto simp: runOnce_def deliver_def)
  qed
qed (auto simp: exit_synced, auto simp: synced_def SetEnabled_def Let_def)



subsection \<open>What the tick misses\<close>

text \<open>
  The revision of a snapshot is remembered whether or not the sink accepted it: a snapshot that could
  not be sent is not sent again until the screen changes.
\<close>

lemma failed_send_not_retried:
  assumes "runOnce (\<lambda>_. False) (SetEnabled True NewProducer, snd (Open True (Inr 1) ''A''
      \<lparr>specShell = [], specCwd = [], specCols = 2, specRows = 1, specEnv = [], specCreateDir = False\<rparr>
      (SetScreenFactory True (NewManager 0 None)))) = Some (out, p1, m1)"
  shows "map snd out = [False] \<and> deliver out Map.empty = Map.empty \<and> runOnce (\<lambda>_. True) (p1, m1) = Some ([], p1, m1)"
proof -
  let ?m = "snd (Open True (Inr 1) ''A'' \<lparr>specShell = [], specCwd = [], specCols = 2, specRows = 1, specEnv = [], specCreateDir = False\<rparr>
      (SetScreenFactory True (NewManager 0 None)))"
  let ?e = "NewEmulator 2 1"
  have wf: "wf_emulator ?e" by (simp add: NewEmulator_wf maxDim_def)
  have s: "settled ?e = ?e" "Rev ?e = 0" by (simp_all add: settled_def Rev_def NewEmulator_def Let_def)
  have m: "mgSessions ?m = [(''A'', 0)]" "length (mgLive ?m) = 1" "lsScreen (mgLive ?m ! 0) = Some ?e"
    by (simp_all add: Open_def Open_insert_def SetScreenFactory_def NewManager_def m_put_def)
  have up: "ls_upd 0 (\<lambda>ls. ls\<lparr>lsScreen := Some ?e\<rparr>) ?m = ?m"
    using m by (cases "mgLive ?m") (simp_all add: ls_upd_def)
  have r: "RenderScreen ''A'' ?m = Some (Some \<lparr>ssID = ''A'', ssScreen = view ?e, ssRev = 0\<rparr>, ?m)"
    using m up s Render_eq [OF wf] by (simp add: RenderScreen_def m_get_def)
  have revs: "RunningScreenRevs ?m = [\<lparr>srID = ''A'', srRev = 0\<rparr>]"
    using m s by (simp add: RunningScreenRevs_def map_filter_simps)
  have "out = [(\<lparr>ssID = ''A'', ssScreen = view ?e, ssRev = 0\<rparr>, False)] \<and> p1 = \<lparr>prEnabled = True, prLastRev = [(''A'', 0)]\<rparr> \<and> m1 = ?m"
    using assms by (simp add: runOnce_def revs produce_one_def r SetEnabled_def NewProducer_def prune_def m_put_def)
  then show ?thesis by (simp add: runOnce_def revs produce_one_def m_get_def prune_def deliver_def)
qed

end
