(* ===== verification/Transport.thy ===== *)
theory Transport
  imports Go_Prelude
begin

text \<open>
  The messages between agent and hub (\<^verbatim>\<open>internal/transport/messages.go\<close>, \<^verbatim>\<open>protocol.go\<close>,
  \<^verbatim>\<open>attach.go\<close>) and between the two agent processes (\<^verbatim>\<open>local.go\<close>). A CPU percentage is a value of
  the type parameter \<open>'f\<close>: it is only ever passed on or compared with zero.
\<close>

subsection \<open>Message types\<close>

datatype MessageType =
    TypeHello | TypeHeartbeat | TypeError | TypeSessionOpened | TypeSessionExited | TypeOpenSession | TypeResize
  | TypeCloseSession | TypeEnableSnaps | TypeAttach | TypeSnapStream | TypeSnapshot
  | TypeHostHello | TypeHostInfo | TypeListSessions | TypeLocalStat

subsection \<open>From the agent\<close>

record Hello =
  heMachineID :: string
  heInstanceID :: string
  heName :: string
  heOS :: string
  heArch :: string
  heAgentVersion :: string
  heProtocolVersion :: int

record SessionStat =
  stID :: string
  stStatus :: string
  stBytesOut :: int
  stActivity :: string
  stPwd :: string

record 'f Metrics =
  meCPUPercent :: 'f
  meMemUsedMB :: int
  meMemTotalMB :: int

record 'f Heartbeat =
  hbTS :: int
  hbSessions :: "SessionStat list"
  hbMetrics :: "'f Metrics option"

record SessionOpened =
  soSessionID :: string
  soPID :: int

record SessionExited =
  sxSessionID :: string
  sxExitCode :: int

record ErrorMsg =
  emSessionID :: string
  emCode :: string
  emMessage :: string

subsection \<open>From the hub\<close>

record OpenSessionMsg =
  omSessionID :: string
  omCwd :: string
  omShell :: string
  omCols :: int
  omRows :: int
  omCreateDir :: bool
  omRevive :: bool

record ResizeMsg =
  rmSessionID :: string
  rmCols :: int
  rmRows :: int

text \<open>
  A frame of the control stream: the decoded message, or a type tag whose body does not decode.
\<close>

datatype 'f agentFrame =
    FHello Hello | FHeartbeat "'f Heartbeat" | FSessionOpened SessionOpened | FSessionExited SessionExited
  | FError ErrorMsg | FUndecodable MessageType | FUnknown

datatype hubFrame =
    HOpenSession OpenSessionMsg | HResize ResizeMsg | HCloseSession string | HEnableSnaps bool
  | HError ErrorMsg | HUndecodable MessageType | HUnknown

subsection \<open>Constructors\<close>

definition NewHello :: "string \<Rightarrow> string \<Rightarrow> string \<Rightarrow> string \<Rightarrow> string \<Rightarrow> string \<Rightarrow> int \<Rightarrow> 'f agentFrame" where
  "NewHello machineID instanceID n osn arch agentVersion protocolVersion =
     FHello \<lparr>heMachineID = machineID, heInstanceID = instanceID, heName = n, heOS = osn, heArch = arch,
       heAgentVersion = agentVersion, heProtocolVersion = protocolVersion\<rparr>"

definition NewHeartbeat :: "int \<Rightarrow> SessionStat list \<Rightarrow> 'f Metrics option \<Rightarrow> 'f agentFrame" where
  "NewHeartbeat ts sessions metrics = FHeartbeat \<lparr>hbTS = ts, hbSessions = sessions, hbMetrics = metrics\<rparr>"

definition NewError :: "string \<Rightarrow> string \<Rightarrow> string \<Rightarrow> ErrorMsg" where
  "NewError sessionID code message = \<lparr>emSessionID = sessionID, emCode = code, emMessage = message\<rparr>"

definition NewSessionOpened :: "string \<Rightarrow> int \<Rightarrow> 'f agentFrame" where
  "NewSessionOpened sessionID pid = FSessionOpened \<lparr>soSessionID = sessionID, soPID = pid\<rparr>"

definition NewSessionExited :: "string \<Rightarrow> int \<Rightarrow> 'f agentFrame" where
  "NewSessionExited sessionID exitCode = FSessionExited \<lparr>sxSessionID = sessionID, sxExitCode = exitCode\<rparr>"

definition NewOpenSession :: "string \<Rightarrow> string \<Rightarrow> string \<Rightarrow> int \<Rightarrow> int \<Rightarrow> bool \<Rightarrow> bool \<Rightarrow> hubFrame" where
  "NewOpenSession sessionID cwd shell c r createDir revive =
     HOpenSession \<lparr>omSessionID = sessionID, omCwd = cwd, omShell = shell, omCols = c, omRows = r,
       omCreateDir = createDir, omRevive = revive\<rparr>"

definition NewResize :: "string \<Rightarrow> int \<Rightarrow> int \<Rightarrow> hubFrame" where
  "NewResize sessionID c r = HResize \<lparr>rmSessionID = sessionID, rmCols = c, rmRows = r\<rparr>"

definition NewCloseSession :: "string \<Rightarrow> hubFrame" where
  "NewCloseSession sessionID = HCloseSession sessionID"

definition NewEnableSnaps :: "bool \<Rightarrow> hubFrame" where
  "NewEnableSnaps enabled = HEnableSnaps enabled"

subsection \<open>Versions\<close>

definition LocalProtocolVersion :: int where "LocalProtocolVersion = 3"
definition ProtocolVersion :: int where "ProtocolVersion = 6"
definition MinSupportedProtocol :: int where "MinSupportedProtocol = 1"
definition MaxSupportedProtocol :: int where "MaxSupportedProtocol = 6"

definition ProtocolSupported :: "int \<Rightarrow> bool" where
  "ProtocolSupported v \<longleftrightarrow> v \<ge> MinSupportedProtocol \<and> v \<le> MaxSupportedProtocol"

lemma own_version_supported: "ProtocolSupported ProtocolVersion"
  by (simp add: ProtocolSupported_def ProtocolVersion_def MinSupportedProtocol_def MaxSupportedProtocol_def)

end
