(* ===== verification/Agent_Link.thy ===== *)
theory Agent_Link
  imports Hub_Domain Transport
begin

text \<open>
  Live agent connections on the hub, \<^verbatim>\<open>internal/hub/adapter/secondary/agentlink\<close>.

  \<^item> A \<open>*Conn\<close> is a pointer: an index into the heap \<open>lkHeap\<close>, which only grows. The registry maps a
    machine to the pointer of its current connection.
  \<^item> A reply channel (buffered, capacity one) is an index into \<open>lkChans\<close>: empty, or the result in it.
  \<^item> \<open>lkSent\<close> logs the frames written to control streams; whether a write succeeds is an input.
  \<^item> \<open>OpenSession\<close> waits for the agent, so its two halves are separate.
\<close>

subsection \<open>Connections\<close>

record 'f conn =
  cnMachineID :: string
  cnConnectedAt :: int
  cnPending :: "nat gomap"
  cnMetrics :: "'f Metrics option"

record 'f links =
  lkConns :: "nat gomap"
  lkHeap :: "'f conn list"
  lkChans :: "int result option list"
  lkSent :: "(nat \<times> hubFrame) list"

definition NewRegistry :: "'f links" where
  "NewRegistry = \<lparr>lkConns = [], lkHeap = [], lkChans = [], lkSent = []\<rparr>"

definition NewConn :: "string \<Rightarrow> int \<Rightarrow> 'f links \<Rightarrow> nat \<times> 'f links" where
  "NewConn machineID connectedAt k =
     (length (lkHeap k), k\<lparr>lkHeap := lkHeap k @ [\<lparr>cnMachineID = machineID, cnConnectedAt = connectedAt, cnPending = [], cnMetrics = None\<rparr>]\<rparr>)"

definition sendControl :: "bool \<Rightarrow> nat \<Rightarrow> hubFrame \<Rightarrow> 'f links \<Rightarrow> unit result \<times> 'f links" where
  "sendControl ok c msg k = (if ok then (Inr (), k\<lparr>lkSent := lkSent k @ [(c, msg)]\<rparr>) else (Inl (ErrOther ''write''), k))"

definition set_pending :: "nat \<Rightarrow> nat gomap \<Rightarrow> 'f links \<Rightarrow> 'f links" where
  "set_pending c p k = k\<lparr>lkHeap := (lkHeap k)[c := (lkHeap k ! c)\<lparr>cnPending := p\<rparr>]\<rparr>"

definition awaitOpen :: "nat \<Rightarrow> string \<Rightarrow> 'f links \<Rightarrow> nat \<times> 'f links" where
  "awaitOpen c sessionID k =
     (let ch = length (lkChans k); k1 = k\<lparr>lkChans := lkChans k @ [None]\<rparr>
      in (ch, set_pending c (m_put sessionID ch (cnPending (lkHeap k1 ! c))) k1))"

definition cancelOpen :: "nat \<Rightarrow> string \<Rightarrow> 'f links \<Rightarrow> 'f links" where
  "cancelOpen c sessionID k = set_pending c (m_del sessionID (cnPending (lkHeap k ! c))) k"

definition ResolveOpen :: "nat \<Rightarrow> string \<Rightarrow> int result \<Rightarrow> 'f links \<Rightarrow> 'f links" where
  "ResolveOpen c sessionID res k = (case m_get (cnPending (lkHeap k ! c)) sessionID of
     None \<Rightarrow> k
   | Some ch \<Rightarrow> (let k1 = set_pending c (m_del sessionID (cnPending (lkHeap k ! c))) k
                in k1\<lparr>lkChans := (lkChans k1)[ch := Some res]\<rparr>))"

definition SetMetrics :: "nat \<Rightarrow> 'f Metrics \<Rightarrow> 'f links \<Rightarrow> 'f links" where
  "SetMetrics c m k = k\<lparr>lkHeap := (lkHeap k)[c := (lkHeap k ! c)\<lparr>cnMetrics := Some m\<rparr>]\<rparr>"

definition connMetrics :: "nat \<Rightarrow> 'f links \<Rightarrow> 'f Metrics option" where
  "connMetrics c k = cnMetrics (lkHeap k ! c)"

definition EnableSnaps :: "bool \<Rightarrow> nat \<Rightarrow> bool \<Rightarrow> 'f links \<Rightarrow> unit result \<times> 'f links" where
  "EnableSnaps ok c enabled k = sendControl ok c (NewEnableSnaps enabled) k"

subsection \<open>The registry\<close>

definition lk_Add :: "string \<Rightarrow> nat \<Rightarrow> 'f links \<Rightarrow> 'f links" where
  "lk_Add machineID c k = k\<lparr>lkConns := m_put machineID c (lkConns k)\<rparr>"

definition lk_Remove :: "string \<Rightarrow> 'f links \<Rightarrow> 'f links" where
  "lk_Remove machineID k = k\<lparr>lkConns := m_del machineID (lkConns k)\<rparr>"

definition lk_RemoveIf :: "string \<Rightarrow> nat \<Rightarrow> 'f links \<Rightarrow> bool \<times> 'f links" where
  "lk_RemoveIf machineID c k =
     (if m_get (lkConns k) machineID = Some c then (True, k\<lparr>lkConns := m_del machineID (lkConns k)\<rparr>) else (False, k))"

definition lk_Get :: "string \<Rightarrow> 'f links \<Rightarrow> nat option" where
  "lk_Get machineID k = m_get (lkConns k) machineID"

definition IsOnline :: "string \<Rightarrow> 'f links \<Rightarrow> bool" where
  "IsOnline machineID k \<longleftrightarrow> m_get (lkConns k) machineID \<noteq> None"

definition OnlineIDs :: "'f links \<Rightarrow> string list" where
  "OnlineIDs k = map fst (lkConns k)"

definition UpdateMetrics :: "string \<Rightarrow> 'f Metrics \<Rightarrow> 'f links \<Rightarrow> 'f links" where
  "UpdateMetrics machineID m k = (case m_get (lkConns k) machineID of None \<Rightarrow> k | Some c \<Rightarrow> SetMetrics c m k)"

definition registry_Metrics :: "string \<Rightarrow> 'f links \<Rightarrow> 'f Metrics option" where
  "registry_Metrics machineID k = (case m_get (lkConns k) machineID of None \<Rightarrow> None | Some c \<Rightarrow> connMetrics c k)"

subsection \<open>The gateway\<close>

text \<open>The first half of \<open>OpenSession\<close>: the connection and the channel to wait on, or an error.\<close>

definition OpenSession_send :: "bool \<Rightarrow> string \<Rightarrow> string \<Rightarrow> string \<Rightarrow> string \<Rightarrow> int \<Rightarrow> int \<Rightarrow> bool \<Rightarrow> bool \<Rightarrow> 'f links \<Rightarrow>
    (nat \<times> nat) result \<times> 'f links" where
  "OpenSession_send ok machineID sessionID cwd shell c r createDir revive k = (case lk_Get machineID k of
     None \<Rightarrow> (Inl ErrMachineOffline, k)
   | Some cn \<Rightarrow> (case awaitOpen cn sessionID k of (ch, k1) \<Rightarrow>
       (case sendControl ok cn (NewOpenSession sessionID cwd shell c r createDir revive) k1 of
          (Inl err, k2) \<Rightarrow> (Inl err, cancelOpen cn sessionID k2)
        | (Inr _, k2) \<Rightarrow> (Inr (cn, ch), k2))))"

text \<open>
  The second half: the reply, if there is one; or the context ends or ten seconds pass, and the
  wait is given up.
\<close>

datatype waitOutcome = GotReply | CtxDone | TimedOut

definition OpenSession_wait :: "waitOutcome \<Rightarrow> nat \<Rightarrow> nat \<Rightarrow> string \<Rightarrow> 'f links \<Rightarrow> (int result \<times> 'f links) option" where
  "OpenSession_wait out cn ch sessionID k = (case out of
     GotReply \<Rightarrow> map_option (\<lambda>res. (res, k\<lparr>lkChans := (lkChans k)[ch := None]\<rparr>)) (lkChans k ! ch)
   | CtxDone \<Rightarrow> Some (Inl (ErrOther ''context''), cancelOpen cn sessionID k)
   | TimedOut \<Rightarrow> Some (Inl (ErrOther ''timeout''), cancelOpen cn sessionID k))"

definition gateway_Resize :: "bool \<Rightarrow> string \<Rightarrow> string \<Rightarrow> int \<Rightarrow> int \<Rightarrow> 'f links \<Rightarrow> unit result \<times> 'f links" where
  "gateway_Resize ok machineID sessionID c r k = (case lk_Get machineID k of
     None \<Rightarrow> (Inl ErrMachineOffline, k) | Some cn \<Rightarrow> sendControl ok cn (NewResize sessionID c r) k)"

definition gateway_CloseSession :: "bool \<Rightarrow> string \<Rightarrow> string \<Rightarrow> 'f links \<Rightarrow> unit result \<times> 'f links" where
  "gateway_CloseSession ok machineID sessionID k = (case lk_Get machineID k of
     None \<Rightarrow> (Inl ErrMachineOffline, k) | Some cn \<Rightarrow> sendControl ok cn (NewCloseSession sessionID) k)"

text \<open>\<open>SetSnapshotsEnabled\<close>: the broadcast; connections may come and go, but not within one look-up.\<close>

fun broadcast_snaps :: "(nat \<Rightarrow> bool) \<Rightarrow> bool \<Rightarrow> string list \<Rightarrow> 'f links \<Rightarrow> 'f links" where
  "broadcast_snaps ok enabled [] k = k"
| "broadcast_snaps ok enabled (i # ids) k = (case lk_Get i k of
     None \<Rightarrow> broadcast_snaps ok enabled ids k
   | Some cn \<Rightarrow> broadcast_snaps ok enabled ids (snd (EnableSnaps (ok cn) cn enabled k)))"

definition SetSnapshotsEnabled :: "(nat \<Rightarrow> bool) \<Rightarrow> bool \<Rightarrow> 'f links \<Rightarrow> 'f links" where
  "SetSnapshotsEnabled ok enabled k = broadcast_snaps ok enabled (OnlineIDs k) k"

lemmas link_defs = NewConn_def sendControl_def set_pending_def awaitOpen_def cancelOpen_def ResolveOpen_def SetMetrics_def
  lk_Add_def lk_Remove_def lk_RemoveIf_def lk_Get_def UpdateMetrics_def EnableSnaps_def

subsection \<open>Replies reach their caller\<close>

text \<open>What a conn waits for: channels that exist, are empty, and belong to one wait each.\<close>

definition pend :: "'f links \<Rightarrow> nat \<Rightarrow> string \<Rightarrow> nat option" where
  "pend k c i = (if c < length (lkHeap k) then m_get (cnPending (lkHeap k ! c)) i else None)"

definition link_inv :: "'f links \<Rightarrow> bool" where
  "link_inv k \<longleftrightarrow> (\<forall>c i ch. pend k c i = Some ch \<longrightarrow> ch < length (lkChans k) \<and> lkChans k ! ch = None) \<and>
     (\<forall>c c' i i' ch. pend k c i = Some ch \<longrightarrow> pend k c' i' = Some ch \<longrightarrow> c = c' \<and> i = i')"

datatype 'f link_event =
    LConn string int | LAdd string nat | LRemove string | LRemoveIf string nat | LAwait nat string | LCancel nat string
  | LResolve nat string "int result" | LMetrics string "'f Metrics" | LSend bool nat hubFrame | LTake nat

fun lk_apply :: "'f link_event \<Rightarrow> 'f links \<Rightarrow> 'f links" where
  "lk_apply (LConn m t) k = snd (NewConn m t k)"
| "lk_apply (LAdd m c) k = lk_Add m c k"
| "lk_apply (LRemove m) k = lk_Remove m k"
| "lk_apply (LRemoveIf m c) k = snd (lk_RemoveIf m c k)"
| "lk_apply (LAwait c i) k = snd (awaitOpen c i k)"
| "lk_apply (LCancel c i) k = cancelOpen c i k"
| "lk_apply (LResolve c i res) k = ResolveOpen c i res k"
| "lk_apply (LMetrics m x) k = UpdateMetrics m x k"
| "lk_apply (LSend ok c msg) k = snd (sendControl ok c msg k)"
| "lk_apply (LTake ch) k = k\<lparr>lkChans := (lkChans k)[ch := None]\<rparr>"

text \<open>Code only ever uses the pointers it was given.\<close>

fun valid_ptr :: "'f links \<Rightarrow> 'f link_event \<Rightarrow> bool" where
  "valid_ptr k (LAwait c i) \<longleftrightarrow> c < length (lkHeap k)"
| "valid_ptr k (LCancel c i) \<longleftrightarrow> c < length (lkHeap k)"
| "valid_ptr k (LResolve c i res) \<longleftrightarrow> c < length (lkHeap k)"
| "valid_ptr k _ \<longleftrightarrow> True"

fun valid_run :: "'f links \<Rightarrow> 'f link_event list \<Rightarrow> bool" where
  "valid_run k [] \<longleftrightarrow> True"
| "valid_run k (ev # evs) \<longleftrightarrow> valid_ptr k ev \<and> valid_run (lk_apply ev k) evs"

text \<open>Events that concern the wait for session \<open>i\<close> on connection \<open>c\<close>, or consume channel \<open>ch\<close>.\<close>

fun concerns :: "nat \<Rightarrow> string \<Rightarrow> nat \<Rightarrow> 'f link_event \<Rightarrow> bool" where
  "concerns c i ch (LAwait c' i') \<longleftrightarrow> c' = c \<and> i' = i"
| "concerns c i ch (LCancel c' i') \<longleftrightarrow> c' = c \<and> i' = i"
| "concerns c i ch (LResolve c' i' res) \<longleftrightarrow> c' = c \<and> i' = i"
| "concerns c i ch (LTake ch') \<longleftrightarrow> ch' = ch"
| "concerns c i ch _ \<longleftrightarrow> False"

lemma pend_set_pending: "c < length (lkHeap k) \<Longrightarrow> pend (set_pending c p k) c' i = (if c' = c then m_get p i else pend k c' i)"
  by (auto simp: pend_def set_pending_def nth_list_update)

lemma pend_SetMetrics [simp]: "pend (SetMetrics c m k) = pend k"
  by (intro ext) (cases "c < length (lkHeap k)", auto simp: pend_def SetMetrics_def nth_list_update)

lemma chans_set_pending [simp]: "lkChans (set_pending c p k) = lkChans k"
  by (simp add: set_pending_def)

lemma pend_chans [simp]: "pend (k\<lparr>lkChans := x\<rparr>) = pend k"
  by (intro ext) (simp add: pend_def)

lemma pend_cnPending: "c < length (lkHeap k) \<Longrightarrow> m_get (cnPending (lkHeap k ! c)) i = pend k c i"
  by (simp add: pend_def)

lemma pend_apply:
  assumes "valid_ptr k ev"
  shows "pend (lk_apply ev k) c i = (case ev of
      LAwait c' i' \<Rightarrow> if c' = c \<and> i' = i then Some (length (lkChans k)) else pend k c i
    | LCancel c' i' \<Rightarrow> if c' = c \<and> i' = i then None else pend k c i
    | LResolve c' i' res \<Rightarrow> if c' = c \<and> i' = i then None else pend k c i
    | _ \<Rightarrow> pend k c i)"
proof (cases ev)
  case (LAwait c' i')
  then show ?thesis using assms by (simp add: awaitOpen_def Let_def pend_set_pending) (simp add: pend_def)
next
  case (LCancel c' i')
  then show ?thesis using assms by (simp add: cancelOpen_def pend_set_pending pend_cnPending)
next
  case (LResolve c' i' res)
  then show ?thesis using assms
    by (auto simp: ResolveOpen_def Let_def pend_set_pending pend_cnPending split: option.split)
next
  case (LMetrics m x)
  then show ?thesis by (simp add: UpdateMetrics_def split: option.split)
qed (auto simp: pend_def NewConn_def lk_Add_def lk_Remove_def lk_RemoveIf_def sendControl_def nth_append m_get_def)

lemma chans_apply:
  assumes "valid_ptr k ev"
  shows "lkChans (lk_apply ev k) = (case ev of
      LAwait c i \<Rightarrow> lkChans k @ [None]
    | LResolve c i res \<Rightarrow> (case pend k c i of None \<Rightarrow> lkChans k | Some ch \<Rightarrow> (lkChans k)[ch := Some res])
    | LTake ch \<Rightarrow> (lkChans k)[ch := None]
    | _ \<Rightarrow> lkChans k)"
  using assms by (cases ev)
    (auto simp: awaitOpen_def cancelOpen_def ResolveOpen_def Let_def pend_def NewConn_def lk_Add_def lk_Remove_def
      lk_RemoveIf_def UpdateMetrics_def SetMetrics_def sendControl_def split: option.split)

lemma link_inv_step:
  assumes "link_inv k" "valid_ptr k ev"
  shows "link_inv (lk_apply ev k)"
proof -
  have range: "\<And>c i ch. pend k c i = Some ch \<Longrightarrow> ch < length (lkChans k) \<and> lkChans k ! ch = None"
    and uniq: "\<And>c c' i i' ch. pend k c i = Some ch \<Longrightarrow> pend k c' i' = Some ch \<Longrightarrow> c = c' \<and> i = i'"
    using assms(1) by (auto simp: link_inv_def)
  show ?thesis
  proof (cases ev)
    case (LAwait c i)
    then show ?thesis unfolding link_inv_def pend_apply [OF assms(2)] chans_apply [OF assms(2)]
      using range uniq by (fastforce simp: nth_append dest: range split: if_splits)
  next
    case (LResolve c i res)
    then show ?thesis unfolding link_inv_def pend_apply [OF assms(2)] chans_apply [OF assms(2)]
      using range uniq by (auto simp: nth_list_update split: if_splits option.splits)
  next
    case (LTake ch)
    have "(lkChans k)[ch := None] ! ch' = None" if "lkChans k ! ch' = None" "ch' < length (lkChans k)" for ch'
      using that by (cases "ch' = ch") simp_all
    then show ?thesis unfolding link_inv_def pend_apply [OF assms(2)] chans_apply [OF assms(2)]
      using range uniq LTake by auto
  qed (unfold link_inv_def pend_apply [OF assms(2)] chans_apply [OF assms(2)],
      use range uniq in \<open>auto split: if_splits\<close>)
qed

text \<open>The wait is undisturbed by everything that does not concern it.\<close>

lemma wait_undisturbed:
  assumes "link_inv k" "pend k c i = Some ch" "valid_run k evs" "\<forall>ev \<in> set evs. \<not> concerns c i ch ev"
  shows "link_inv (fold lk_apply evs k) \<and> pend (fold lk_apply evs k) c i = Some ch"
  using assms
proof (induction evs arbitrary: k)
  case (Cons ev evs)
  then have "pend (lk_apply ev k) c i = Some ch" by (auto simp: pend_apply split: link_event.split)
  then show ?case using Cons link_inv_step by auto
qed simp

text \<open>A reply right after the request has been sent.\<close>

lemma open_link_reply:
  assumes "link_inv k" "c < length (lkHeap k)" "awaitOpen c i k = (ch, k1)"
  shows "\<exists>k3. OpenSession_wait GotReply c ch i (ResolveOpen c i res (lk_apply (LSend ok c msg) k1)) = Some (res, k3)"
proof -
  have k1: "k1 = lk_apply (LAwait c i) k" using assms(3) by (auto simp: awaitOpen_def Let_def)
  let ?k2 = "lk_apply (LSend ok c msg) k1"
  have v: "valid_ptr k (LAwait c i)" "valid_ptr k1 (LSend ok c msg)" using assms(2) by simp_all
  have ch: "ch = length (lkChans k)" using assms(3) by (auto simp: awaitOpen_def Let_def)
  have p: "pend ?k2 c i = Some ch" "length (lkChans ?k2) = Suc ch"
    unfolding pend_apply [OF v(2)] chans_apply [OF v(2)] unfolding k1 pend_apply [OF v(1)] chans_apply [OF v(1)]
    by (simp_all add: ch)
  have "c < length (lkHeap ?k2)" using p(1) by (simp add: pend_def split: if_splits)
  then have "lkChans (lk_apply (LResolve c i res) ?k2) = (lkChans ?k2)[ch := Some res]"
    using p(1) by (subst chans_apply) simp_all
  then show ?thesis using p(2) by (simp add: OpenSession_wait_def)
qed

text \<open>
  The agent's reply reaches the caller that waits for it. After a call has registered its wait for a
  session on a connection, the channel stays empty through every interleaving of other calls and of
  other replies; the first reply for that session on that connection then arrives in this channel,
  the caller returns it, and the reply loop is never blocked by it.
\<close>
theorem open_reply_delivered:
  assumes "link_inv k" "c < length (lkHeap k)" "awaitOpen c i k = (ch, k1)"
    and "valid_run k1 evs" "\<forall>ev \<in> set evs. \<not> concerns c i ch ev" "k2 = fold lk_apply evs k1"
  shows "lkChans k2 ! ch = None \<and>
    (\<exists>k3. OpenSession_wait GotReply c ch i (ResolveOpen c i res k2) = Some (res, k3) \<and> pend k3 c i = None \<and> link_inv k3)"
proof -
  have k1: "k1 = lk_apply (LAwait c i) k" "ch = length (lkChans k)" using assms(3) by (auto simp: awaitOpen_def Let_def)
  have "link_inv k1" "pend k1 c i = Some ch" using link_inv_step [OF assms(1)] assms(2) k1 by (auto simp: pend_apply simp del: lk_apply.simps)
  then have k2: "link_inv k2" "pend k2 c i = Some ch" using wait_undisturbed [OF _ _ assms(4,5)] assms(6) by auto
  then have ch: "ch < length (lkChans k2)" "lkChans k2 ! ch = None" "c < length (lkHeap k2)"
    by (auto simp: link_inv_def) (simp add: pend_def split: if_splits)
  let ?r = "lk_apply (LResolve c i res) k2"
  have r: "link_inv ?r" "pend ?r c i = None" "lkChans ?r ! ch = Some res"
    using link_inv_step [OF k2(1), of "LResolve c i res"] ch k2(2)
    by (simp_all add: pend_apply chans_apply del: lk_apply.simps)
  have "link_inv (lk_apply (LTake ch) ?r)" "pend (lk_apply (LTake ch) ?r) c i = None"
    using link_inv_step [OF r(1), of "LTake ch"] r(2) by (simp_all add: pend_apply)
  then show ?thesis using r(3) ch(2) by (auto simp: OpenSession_wait_def)
qed

text \<open>Witness for \<open>open_reply_delivered\<close>: two sessions opened on one connection, the replies crossing.\<close>
theorem open_reply_delivered_witness:
  "\<exists>k3 :: int links. OpenSession_wait GotReply 0 0 ''a'' (ResolveOpen 0 ''a'' (Inr 41)
     (fold lk_apply [LAwait 0 ''b'', LResolve 0 ''b'' (Inr 42)] (snd (awaitOpen 0 ''a'' (snd (NewConn ''m'' 5 NewRegistry)))))) =
     Some (Inr 41, k3) \<and> pend k3 0 ''a'' = None \<and> link_inv k3"
proof -
  let ?k = "snd (NewConn ''m'' 5 NewRegistry) :: int links"
  let ?evs = "[LAwait 0 ''b'', LResolve 0 ''b'' (Inr 42)]"
  have "link_inv ?k" by (simp add: link_inv_def pend_def NewConn_def NewRegistry_def)
  moreover have "0 < length (lkHeap ?k)" by (simp add: NewConn_def)
  moreover have "awaitOpen 0 ''a'' ?k = (0, snd (awaitOpen 0 ''a'' ?k))" by (simp add: awaitOpen_def NewConn_def NewRegistry_def Let_def)
  moreover have "valid_run (snd (awaitOpen 0 ''a'' ?k)) ?evs" by (simp add: link_defs NewRegistry_def Let_def)
  ultimately show ?thesis using open_reply_delivered [of ?k 0 "''a''" 0 _ ?evs _ "Inr 41"] by simp
qed

subsection \<open>The snapshot broadcast\<close>

lemma broadcast_snaps_sent:
  "\<forall>i \<in> set ids. lk_Get i k \<noteq> None \<Longrightarrow>
   broadcast_snaps ok b ids k = k\<lparr>lkSent := lkSent k @ map (\<lambda>c. (c, HEnableSnaps b)) (filter ok (map (\<lambda>i. the (lk_Get i k)) ids))\<rparr>"
proof (induction ids arbitrary: k)
  case (Cons i ids)
  then obtain c where c: "lk_Get i k = Some c" by auto
  let ?k = "snd (EnableSnaps (ok c) c b k)"
  have "lk_Get j ?k = lk_Get j k" for j by (simp add: EnableSnaps_def sendControl_def lk_Get_def)
  then show ?case using Cons c by (auto simp: EnableSnaps_def sendControl_def NewEnableSnaps_def)
qed simp

text \<open>Every connected agent whose stream can be written gets the command, once.\<close>

lemma SetSnapshotsEnabled_sent:
  assumes "wf_map (lkConns k)"
  shows "SetSnapshotsEnabled ok b k = k\<lparr>lkSent := lkSent k @ map (\<lambda>c. (c, HEnableSnaps b)) (filter ok (map snd (lkConns k)))\<rparr>"
proof -
  have "lk_Get i k = Some c" if "(i, c) \<in> set (lkConns k)" for i c
    using assms that by (simp add: lk_Get_def m_get_def wf_map_def map_of_is_SomeI)
  then have "map (\<lambda>i. the (lk_Get i k)) (OnlineIDs k) = map snd (lkConns k)" "\<forall>i \<in> set (OnlineIDs k). lk_Get i k \<noteq> None"
    by (auto simp: OnlineIDs_def)
  then show ?thesis by (simp add: SetSnapshotsEnabled_def broadcast_snaps_sent)
qed

end
