(* ===== verification/Agent_Token.thy ===== *)
theory Agent_Token
  imports Go_Prelude
begin

text \<open>
  Agent authentication tokens, \<^verbatim>\<open>internal/transport/auth.go\<close>. Go strings are byte sequences, here
  character lists; \<open>[]byte(s)\<close> is the identity on them. The ed25519 primitives are parameters:
  \<open>sign\<close> and \<open>verify\<close>. The pieces of the standard library the code uses are modelled first:
  \<open>strconv.FormatInt\<close>/\<open>ParseInt\<close> in base 10, \<open>base64.RawURLEncoding\<close>, \<open>strings.SplitN\<close>.
\<close>

subsection \<open>Decimal integers\<close>

definition digit_char :: "nat \<Rightarrow> char" where
  "digit_char d = char_of (48 + d)"

definition char_digit :: "char \<Rightarrow> nat option" where
  "char_digit c = (let n = (of_char c :: nat) in if 48 \<le> n \<and> n \<le> 57 then Some (n - 48) else None)"

definition FormatInt :: "int \<Rightarrow> string" where
  "FormatInt i = (if i < 0 then CHR ''-'' # map digit_char (dec_digits (nat (- i)))
     else map digit_char (dec_digits (nat i)))"

fun parse_digits :: "string \<Rightarrow> nat list option" where
  "parse_digits [] = Some []"
| "parse_digits (c # cs) = (case char_digit c of None \<Rightarrow> None
     | Some d \<Rightarrow> map_option ((#) d) (parse_digits cs))"

definition ParseUint :: "string \<Rightarrow> nat option" where
  "ParseUint s = (if s = [] then None else case parse_digits s of None \<Rightarrow> None
     | Some ds \<Rightarrow> if dec_value 0 ds < 2 ^ 64 then Some (dec_value 0 ds) else None)"

definition ParseInt :: "string \<Rightarrow> int option" where
  "ParseInt s =
     (if s = [] then None
      else let neg = (hd s = CHR ''-'');
               s' = (if hd s = CHR ''+'' \<or> hd s = CHR ''-'' then tl s else s)
           in case ParseUint s' of
                None \<Rightarrow> None
              | Some un \<Rightarrow>
                  if \<not> neg \<and> un \<ge> 2 ^ 63 then None
                  else if neg \<and> un > 2 ^ 63 then None
                  else Some (if neg then - int un else int un))"

lemma of_char_digit: "d < 10 \<Longrightarrow> (of_char (digit_char d) :: nat) = 48 + d"
  by (simp add: digit_char_def)

lemma char_digit_digit [simp]: "d < 10 \<Longrightarrow> char_digit (digit_char d) = Some d"
  by (simp add: char_digit_def Let_def of_char_digit)

lemma parse_digits_map: "\<forall>d \<in> set ds. d < 10 \<Longrightarrow> parse_digits (map digit_char ds) = Some ds"
  by (induction ds) auto

lemma digit_char_neq: "d < 10 \<Longrightarrow> digit_char d \<notin> {CHR ''-'', CHR ''+'', CHR ''.''}"
  using of_char_digit [of d] by auto

lemma ParseUint_digits: "n < 2 ^ 64 \<Longrightarrow> ParseUint (map digit_char (dec_digits n)) = Some n"
  by (simp add: ParseUint_def parse_digits_map dec_digits_less)

lemma ParseInt_FormatInt:
  assumes "in_int64 i"
  shows "ParseInt (FormatInt i) = Some i"
proof (cases "i < 0")
  case True
  then have "nat (- i) \<le> 2 ^ 63" using assms by (simp add: in_int64_def)
  then have "ParseUint (map digit_char (dec_digits (nat (- i)))) = Some (nat (- i))"
    by (intro ParseUint_digits) simp
  then show ?thesis using True \<open>nat (- i) \<le> 2 ^ 63\<close> by (simp add: ParseInt_def FormatInt_def Let_def)
next
  case False
  then have n: "nat i < 2 ^ 63" using assms by (auto simp: in_int64_def)
  then have u: "ParseUint (map digit_char (dec_digits (nat i))) = Some (nat i)"
    by (intro ParseUint_digits) simp
  obtain d ds where d: "dec_digits (nat i) = d # ds" by (cases "dec_digits (nat i)") auto
  then have "d < 10" using dec_digits_less [of d "nat i"] by simp
  then show ?thesis using False n u d digit_char_neq [of d] by (simp add: ParseInt_def FormatInt_def Let_def)
qed

lemma FormatInt_no_dot: "CHR ''.'' \<notin> set (FormatInt i)"
proof -
  have "CHR ''.'' \<notin> digit_char ` set (dec_digits n)" for n
    using digit_char_neq [OF dec_digits_less [of _ n]] by fastforce
  then show ?thesis by (simp add: FormatInt_def)
qed

lemma FormatInt_inj: "in_int64 i \<Longrightarrow> in_int64 j \<Longrightarrow> FormatInt i = FormatInt j \<Longrightarrow> i = j"
  using ParseInt_FormatInt by (metis option.inject)

subsection \<open>base64url without padding\<close>

definition b64_alphabet :: string where
  "b64_alphabet = ''ABCDEFGHIJKLMNOPQRSTUVWXYZabcdefghijklmnopqrstuvwxyz0123456789-_''"

definition b64_char :: "nat \<Rightarrow> char" where
  "b64_char v = b64_alphabet ! v"

fun index_of :: "'a \<Rightarrow> 'a list \<Rightarrow> nat \<Rightarrow> nat option" where
  "index_of x [] i = None"
| "index_of x (y # ys) i = (if x = y then Some i else index_of x ys (Suc i))"

definition b64_value :: "char \<Rightarrow> nat option" where
  "b64_value c = index_of c b64_alphabet 0"

fun b64_sextets :: "nat list \<Rightarrow> nat list" where
  "b64_sextets [] = []"
| "b64_sextets [a] = [a div 4, a mod 4 * 16]"
| "b64_sextets [a, b] = [a div 4, a mod 4 * 16 + b div 16, b mod 16 * 4]"
| "b64_sextets (a # b # c # bs) =
     a div 4 # (a mod 4 * 16 + b div 16) # (b mod 16 * 4 + c div 64) # c mod 64 # b64_sextets bs"

fun b64_bytes :: "nat list \<Rightarrow> nat list option" where
  "b64_bytes [] = Some []"
| "b64_bytes [s] = None"
| "b64_bytes [s, t] = Some [s * 4 + t div 16]"
| "b64_bytes [s, t, u] = Some [s * 4 + t div 16, t mod 16 * 16 + u div 4]"
| "b64_bytes (s # t # u # v # ss) = map_option (\<lambda>bs. (s * 4 + t div 16) # (t mod 16 * 16 + u div 4) #
     (u mod 4 * 64 + v) # bs) (b64_bytes ss)"

definition EncodeToString :: "byte list \<Rightarrow> string" where
  "EncodeToString bs = map b64_char (b64_sextets (map unat bs))"

text \<open>The decoder skips carriage returns and line feeds anywhere in its input.\<close>

fun b64_values :: "string \<Rightarrow> nat list option" where
  "b64_values [] = Some []"
| "b64_values (c # cs) = (if c = CHR 10 \<or> c = CHR 13 then b64_values cs
     else case b64_value c of None \<Rightarrow> None | Some v \<Rightarrow> map_option ((#) v) (b64_values cs))"

definition DecodeString :: "string \<Rightarrow> byte list option" where
  "DecodeString s = Option.bind (b64_values s) (\<lambda>vs. map_option (map word_of_nat) (b64_bytes vs))"

lemma b64_sextets_less: "\<forall>b \<in> set bs. b < 256 \<Longrightarrow> \<forall>s \<in> set (b64_sextets bs). s < 64"
  by (induction bs rule: b64_sextets.induct) auto

lemma b64_bytes_sextets: "\<forall>b \<in> set bs. b < 256 \<Longrightarrow> b64_bytes (b64_sextets bs) = Some bs"
  by (induction bs rule: b64_sextets.induct) (auto simp: div_mult2_eq [symmetric] div_mult_mod_eq mult.commute)

lemma b64_table: "list_all (\<lambda>v. b64_value (b64_char v) = Some v \<and> b64_char v \<noteq> CHR 10 \<and>
    b64_char v \<noteq> CHR 13 \<and> b64_char v \<noteq> CHR ''.'') [0..<64]"
  by code_simp

lemma b64_value_char: "v < 64 \<Longrightarrow> b64_value (b64_char v) = Some v"
  "v < 64 \<Longrightarrow> b64_char v \<notin> {CHR 10, CHR 13, CHR ''.''}"
  using b64_table by (auto simp: list_all_iff)

lemma b64_values_map: "\<forall>v \<in> set vs. v < 64 \<Longrightarrow> b64_values (map b64_char vs) = Some vs"
  using b64_value_char by (induction vs) auto

lemma unat_byte_less: "\<forall>b \<in> set (map unat (bs :: byte list)). b < 256"
proof -
  have "unat b < 256" for b :: byte using unsigned_less [of b] by simp
  then show ?thesis by auto
qed

lemma DecodeString_EncodeToString: "DecodeString (EncodeToString bs) = Some bs"
proof -
  have "b64_values (EncodeToString bs) = Some (b64_sextets (map unat bs))"
    unfolding EncodeToString_def by (rule b64_values_map [OF b64_sextets_less [OF unat_byte_less]])
  then show ?thesis using b64_bytes_sextets [OF unat_byte_less, of bs]
    by (simp add: DecodeString_def comp_def)
qed

lemma EncodeToString_no_dot: "CHR ''.'' \<notin> set (EncodeToString bs)"
  using b64_sextets_less [OF unat_byte_less, of bs] b64_value_char(2)
  by (force simp: EncodeToString_def)

subsection \<open>strings.SplitN\<close>

text \<open>Splitting at the first \<open>n\<close> separators gives at most \<open>n + 1\<close> parts.\<close>

fun split_at_sep :: "char \<Rightarrow> nat \<Rightarrow> string \<Rightarrow> string \<Rightarrow> string list" where
  "split_at_sep sep n acc [] = [acc]"
| "split_at_sep sep n acc (c # cs) =
     (if c = sep \<and> n > 0 then acc # split_at_sep sep (n - 1) [] cs
      else split_at_sep sep n (acc @ [c]) cs)"

definition SplitN :: "string \<Rightarrow> char \<Rightarrow> nat \<Rightarrow> string list" where
  "SplitN s sep n = split_at_sep sep (n - 1) [] s"

lemma split_at_sep_field:
  "sep \<notin> set x \<Longrightarrow> split_at_sep sep (Suc n) acc (x @ sep # y) = (acc @ x) # split_at_sep sep n [] y"
  by (induction x arbitrary: acc) auto

lemma split_at_sep_rest: "split_at_sep sep 0 acc y = [acc @ y]"
  by (induction y arbitrary: acc) auto

subsection \<open>Tokens\<close>

datatype tokenError = ErrInvalidAgentToken

definition signingInput :: "string \<Rightarrow> int \<Rightarrow> string" where
  "signingInput machineID ts = ''constellate-agent-auth.v1.'' @ machineID @ ''.'' @ FormatInt ts"

definition BuildAgentToken :: "('priv \<Rightarrow> string \<Rightarrow> byte list) \<Rightarrow> string \<Rightarrow> 'priv \<Rightarrow> int \<Rightarrow> string" where
  "BuildAgentToken sign machineID priv unixTs =
     (let input = signingInput machineID unixTs;
          sig = sign priv input;
          encoded = EncodeToString sig
      in ''v1.'' @ machineID @ ''.'' @ FormatInt unixTs @ ''.'' @ encoded)"

definition ParseAgentToken :: "string \<Rightarrow> tokenError + string \<times> int \<times> byte list" where
  "ParseAgentToken token =
     (let parts = SplitN token (CHR ''.'') 4 in
      if length parts \<noteq> 4 then Inl ErrInvalidAgentToken
      else if parts ! 0 \<noteq> ''v1'' then Inl ErrInvalidAgentToken
      else if parts ! 1 = [] then Inl ErrInvalidAgentToken
      else case ParseInt (parts ! 2) of
        None \<Rightarrow> Inl ErrInvalidAgentToken
      | Some unixTs \<Rightarrow>
          (case DecodeString (parts ! 3) of
             None \<Rightarrow> Inl ErrInvalidAgentToken
           | Some sig \<Rightarrow> Inr (parts ! 1, unixTs, sig)))"

definition VerifyAgentToken ::
    "('pub \<Rightarrow> string \<Rightarrow> byte list \<Rightarrow> bool) \<Rightarrow> 'pub \<Rightarrow> string \<Rightarrow> int \<Rightarrow> byte list \<Rightarrow> int \<Rightarrow> int \<Rightarrow> tokenError + unit" where
  "VerifyAgentToken verify pub machineID unixTs sig now skewSeconds =
     (let diff0 = wrap64 (now - unixTs);
          diff = (if diff0 < 0 then wrap64 (- diff0) else diff0)
      in if diff > skewSeconds then Inl ErrInvalidAgentToken
         else if \<not> verify pub (signingInput machineID unixTs) sig then Inl ErrInvalidAgentToken
         else Inr ())"

lemma ParseAgentToken_Build:
  assumes "machineID \<noteq> []" "CHR ''.'' \<notin> set machineID" "in_int64 ts"
  shows "ParseAgentToken (BuildAgentToken sign machineID priv ts) =
    Inr (machineID, ts, sign priv (signingInput machineID ts))"
proof -
  let ?sig = "sign priv (signingInput machineID ts)"
  have "BuildAgentToken sign machineID priv ts =
      ''v1'' @ CHR ''.'' # machineID @ CHR ''.'' # FormatInt ts @ CHR ''.'' # EncodeToString ?sig"
    by (simp add: BuildAgentToken_def Let_def)
  moreover have "split_at_sep (CHR ''.'') (Suc (Suc (Suc 0))) []
      (''v1'' @ CHR ''.'' # machineID @ CHR ''.'' # FormatInt ts @ CHR ''.'' # EncodeToString ?sig) =
      [''v1'', machineID, FormatInt ts, EncodeToString ?sig]"
    using assms(2) FormatInt_no_dot [of ts]
    by (subst split_at_sep_field) (simp_all add: split_at_sep_field split_at_sep_rest)
  ultimately have "SplitN (BuildAgentToken sign machineID priv ts) (CHR ''.'') 4 =
      [''v1'', machineID, FormatInt ts, EncodeToString ?sig]"
    by (simp add: SplitN_def numeral_3_eq_3)
  then show ?thesis using assms by (simp add: ParseAgentToken_def ParseInt_FormatInt DecodeString_EncodeToString)
qed

lemma wrap64_minus: "wrap64 (x - 2 ^ 64) = wrap64 x"
proof -
  have "x - 2 ^ 64 + 2 ^ 63 = x + 2 ^ 63 - 2 ^ 64" by simp
  then show ?thesis unfolding wrap64_def by (simp only: minus_mod_self2)
qed

text \<open>The clock check, away from the extremes of the 64-bit range.\<close>

lemma VerifyAgentToken_clock:
  assumes "0 \<le> now" "now < 2 ^ 62" "in_int64 ts" "0 \<le> skew" "skew < 2 ^ 62"
  shows "(let d0 = wrap64 (now - ts); d = (if d0 < 0 then wrap64 (- d0) else d0) in d > skew) \<longleftrightarrow>
    \<not> (\<bar>now - ts\<bar> \<le> skew \<or> ts = now - 2 ^ 63)"
proof -
  have ts: "- (2 ^ 63) \<le> ts" "ts < 2 ^ 63" using assms(3) by (simp_all add: in_int64_def)
  consider "now - ts < 2 ^ 63" | "now - ts = 2 ^ 63" | "now - ts > 2 ^ 63" by linarith
  then show ?thesis
  proof cases
    case 1
    then have "wrap64 (now - ts) = now - ts" "now - ts < 0 \<Longrightarrow> wrap64 (- (now - ts)) = - (now - ts)"
      using ts assms by (auto intro!: wrap64_id)
    then show ?thesis using 1 assms ts by (auto simp: Let_def)
  next
    case 2
    then show ?thesis using assms by (simp add: wrap64_def Let_def)
  next
    case 3
    have "wrap64 (now - ts) = now - ts - 2 ^ 64"
      using wrap64_id [of "now - ts - 2 ^ 64"] wrap64_minus [of "now - ts"] 3 ts assms by simp
    moreover have "wrap64 (- (now - ts - 2 ^ 64)) = 2 ^ 64 - (now - ts)"
      using 3 ts assms by (subst wrap64_id) auto
    ultimately show ?thesis using 3 ts assms by (auto simp: Let_def)
  qed
qed

text \<open>
  An agent that holds the private key authenticates. For a machine ID without dots, the token
  built with a key pair whose signatures verify is parsed back into exactly its fields and
  accepted by every verifier whose clock is within the allowed skew.
\<close>
theorem agent_token_roundtrip:
  assumes "machineID \<noteq> []" "CHR ''.'' \<notin> set machineID" "in_int64 ts"
    and "0 \<le> now" "now < 2 ^ 62" "0 \<le> skew" "skew < 2 ^ 62" "\<bar>now - ts\<bar> \<le> skew"
    and verify_sign: "\<And>m. verify pub m (sign priv m)"
  shows "\<exists>sig. ParseAgentToken (BuildAgentToken sign machineID priv ts) = Inr (machineID, ts, sig) \<and>
    VerifyAgentToken verify pub machineID ts sig now skew = Inr ()"
  using ParseAgentToken_Build [OF assms(1-3), of sign priv] VerifyAgentToken_clock [OF assms(4,5,3,6,7)] assms(8) verify_sign
  by (auto simp: VerifyAgentToken_def Let_def)

text \<open>
  Witness for \<open>agent_token_roundtrip\<close>: a toy signature scheme in which a key signs with its own
  byte, and the verification hypothesis holds.
\<close>
theorem agent_token_roundtrip_witness:
  "\<exists>sig. ParseAgentToken (BuildAgentToken (\<lambda>k m. [k :: byte]) ''m1'' 7 1000) = Inr (''m1'', 1000, sig) \<and>
    VerifyAgentToken (\<lambda>k m s. s = [k :: byte]) 7 ''m1'' 1000 sig 1060 120 = Inr ()"
  by (rule agent_token_roundtrip) (simp_all add: in_int64_def)

text \<open>
  What an accepted token proves. For clocks in the practical range, a token is accepted
  exactly when its signature verifies and its timestamp is within the skew, or is the one
  timestamp that lies exactly 2^63 seconds in the past: there the 64-bit negation overflows and
  the time check passes.
\<close>
theorem VerifyAgentToken_accepts_iff:
  assumes "0 \<le> now" "now < 2 ^ 62" "in_int64 ts" "0 \<le> skew" "skew < 2 ^ 62"
  shows "VerifyAgentToken verify pub machineID ts sig now skew = Inr () \<longleftrightarrow>
    verify pub (signingInput machineID ts) sig \<and> (\<bar>now - ts\<bar> \<le> skew \<or> ts = now - 2 ^ 63)"
  using VerifyAgentToken_clock [OF assms] by (auto simp: VerifyAgentToken_def Let_def)

text \<open>Witness for \<open>VerifyAgentToken_accepts_iff\<close>: the overflowing timestamp.\<close>
theorem VerifyAgentToken_accepts_iff_witness:
  "VerifyAgentToken (\<lambda>k m s. s = [k :: byte]) 7 ''m1'' (1000 - 2 ^ 63) [7] 1000 120 = Inr () \<longleftrightarrow>
    [7] = [7 :: byte] \<and> (\<bar>1000 - (1000 - 2 ^ 63)\<bar> \<le> (120 :: int) \<or> (1000 :: int) - 2 ^ 63 = 1000 - 2 ^ 63)"
  by (rule VerifyAgentToken_accepts_iff) (simp_all add: in_int64_def)

text \<open>The separator in the signed message is the last dot, so no two requests share it.\<close>

lemma append_last_sep:
  assumes "sep \<notin> set y" "sep \<notin> set y'" "x @ sep # y = x' @ sep # y'"
  shows "x = x' \<and> y = y'"
proof -
  have "rev y @ sep # rev x = rev y' @ sep # rev x'" using arg_cong [OF assms(3), of rev] by simp
  moreover have "takeWhile (\<lambda>c. c \<noteq> sep) (rev z @ sep # w) = rev z" if "sep \<notin> set z" for z w
    using that by (subst takeWhile_append2) auto
  ultimately have "rev y = rev y'" using assms(1,2) by metis
  then show ?thesis using assms(3) by simp
qed

text \<open>
  A signature binds one machine and one timestamp. The signed message determines both, even
  for machine IDs that contain dots, so a signature for one request never verifies another.
\<close>
theorem signingInput_injective:
  assumes "in_int64 ts" "in_int64 ts'"
  shows "signingInput m ts = signingInput m' ts' \<longleftrightarrow> m = m' \<and> ts = ts'"
proof
  assume "signingInput m ts = signingInput m' ts'"
  then have "m @ CHR ''.'' # FormatInt ts = m' @ CHR ''.'' # FormatInt ts'" by (simp add: signingInput_def)
  from append_last_sep [OF FormatInt_no_dot FormatInt_no_dot this]
  show "m = m' \<and> ts = ts'" using FormatInt_inj [OF assms] by blast
qed simp

text \<open>Witness for \<open>signingInput_injective\<close>: a dotted and an undotted machine ID.\<close>
theorem signingInput_injective_witness:
  "signingInput ''a.1'' 2 = signingInput ''a'' 12 \<longleftrightarrow> ''a.1'' = ''a'' \<and> (2 :: int) = 12"
  by (rule signingInput_injective) (simp_all add: in_int64_def)

end
