(* ===== verification/Enroll_App.thy ===== *)
theory Enroll_App
  imports Sessions_App Agent_Token
begin

text \<open>
  Enrolment, agent authentication and revocation, \<^verbatim>\<open>internal/hub/app/enroll\<close>, and the registry
  use case that upserts connecting machines, \<^verbatim>\<open>internal/hub/app/registry\<close>, over the in-memory
  stores. SHA-256 (\<open>sha\<close>, as its lower-case hex string) and ed25519 verification (\<open>verify\<close>) are
  parameters; the clock, generated IDs and random bytes are inputs.
\<close>

subsection \<open>State and operations\<close>

record enroll_world =
  ewTokens :: enrollTokenStore
  ewCreds :: credentialStore
  ewMachines :: machineStore
  ewAudit :: auditStore
  ewNow :: int
  ewActor :: "string option"

definition agentTokenSkew :: int where
  "agentTokenSkew = 120"

record enrollInput =
  eiToken :: string
  eiPublicKey :: "byte list"
  eiName :: string
  eiOS :: string
  eiArch :: string

definition hex_digit :: "nat \<Rightarrow> char" where
  "hex_digit n = ''0123456789abcdef'' ! n"

definition hex_EncodeToString :: "byte list \<Rightarrow> string" where
  "hex_EncodeToString bs = concat (map (\<lambda>b. [hex_digit (unat b div 16), hex_digit (unat b mod 16)]) bs)"

definition tokenHash :: "(string \<Rightarrow> string) \<Rightarrow> string \<Rightarrow> string" where
  "tokenHash sha plaintext = sha plaintext"

definition ew_record :: "auditAction \<Rightarrow> string \<Rightarrow> enroll_world \<Rightarrow> enroll_world" where
  "ew_record a machineID w = w\<lparr>ewAudit := audit_Record (ewNow w) (ewActor w) a machineID [] [] (ewAudit w)\<rparr>"

text \<open>\<open>raw\<close>: the 32 random bytes; \<open>ttl\<close>: the token's life time in seconds.\<close>

definition MintToken :: "(string \<Rightarrow> string) \<Rightarrow> int \<Rightarrow> byte list \<Rightarrow> enroll_world \<Rightarrow> string result \<times> enroll_world" where
  "MintToken sha ttl raw w =
     (let plaintext = hex_EncodeToString raw;
          hash = tokenHash sha plaintext;
          expiresAt = ewNow w + ttl
      in case et_Create hash expiresAt (ewTokens w) of
           Inl err \<Rightarrow> (Inl err, w)
         | Inr t \<Rightarrow> (Inr plaintext, w\<lparr>ewTokens := t\<rparr>))"

definition Enroll :: "(string \<Rightarrow> string) \<Rightarrow> enrollInput \<Rightarrow> string \<Rightarrow> enroll_world \<Rightarrow> string result \<times> enroll_world" where
  "Enroll sha inp machineID w =
     (if length (eiPublicKey inp) \<noteq> 32 then (Inl ErrInvalidToken, w)
      else let hash = tokenHash sha (eiToken inp); now = ewNow w in
        case et_Consume hash now (ewTokens w) of
          Inl err \<Rightarrow> (Inl err, w)
        | Inr t \<Rightarrow>
            (let w1 = w\<lparr>ewTokens := t\<rparr>;
                 m = NewMachine machineID [] (eiName inp) (eiOS inp) (eiArch inp) [] now
             in case ms_Upsert m (ewMachines w1) of
                  Inl err \<Rightarrow> (Inl err, w1)
                | Inr ms \<Rightarrow>
                    (let w2 = w1\<lparr>ewMachines := ms\<rparr> in
                     case cs_Save machineID (eiPublicKey inp) (ewCreds w2) of
                       Inl err \<Rightarrow> (Inl err, w2)
                     | Inr cs \<Rightarrow> (Inr machineID, ew_record ActionEnroll machineID (w2\<lparr>ewCreds := cs\<rparr>)))))"

definition Authenticate :: "(byte list \<Rightarrow> string \<Rightarrow> byte list \<Rightarrow> bool) \<Rightarrow> string \<Rightarrow> enroll_world \<Rightarrow> string result" where
  "Authenticate verify bearerToken w = (case ParseAgentToken bearerToken of
     Inl _ \<Rightarrow> Inl ErrInvalidToken
   | Inr (machineID, unixTs, sig) \<Rightarrow>
       (case cs_PublicKey machineID (ewCreds w) of
          Inl err \<Rightarrow> Inl err
        | Inr pub \<Rightarrow>
            (case ms_ByID machineID (ewMachines w) of
               Inl _ \<Rightarrow> Inl ErrUnknownMachine
             | Inr m \<Rightarrow>
                 if Revoked m then Inl ErrRevoked
                 else (case VerifyAgentToken verify pub machineID unixTs sig (ewNow w) agentTokenSkew of
                         Inl _ \<Rightarrow> Inl ErrInvalidToken
                       | Inr _ \<Rightarrow> Inr machineID))))"

definition Revoke :: "string \<Rightarrow> enroll_world \<Rightarrow> unit result \<times> enroll_world" where
  "Revoke machineID w = (case ms_MarkRevoked machineID (ewNow w) (ewMachines w) of
     Inl err \<Rightarrow> (Inl err, w)
   | Inr ms \<Rightarrow> (Inr (), ew_record ActionRevoke machineID (w\<lparr>ewMachines := ms\<rparr>)))"

definition Unrevoke :: "string \<Rightarrow> enroll_world \<Rightarrow> unit result \<times> enroll_world" where
  "Unrevoke machineID w = (case ms_ClearRevoked machineID (ewMachines w) of
     Inl err \<Rightarrow> (Inl err, w)
   | Inr ms \<Rightarrow> (Inr (), ew_record ActionUnrevoke machineID (w\<lparr>ewMachines := ms\<rparr>)))"

definition DeleteMachine :: "string \<Rightarrow> enroll_world \<Rightarrow> unit result \<times> enroll_world" where
  "DeleteMachine machineID w = (case ms_ByID machineID (ewMachines w) of
     Inl err \<Rightarrow> (Inl err, w)
   | Inr m \<Rightarrow>
       if \<not> Revoked m then (Inl ErrNotRevoked, w)
       else (case ms_Delete machineID (ewMachines w) of
               Inl err \<Rightarrow> (Inl err, w)
             | Inr ms \<Rightarrow> (Inr (), ew_record ActionMachineDelete machineID (w\<lparr>ewMachines := ms\<rparr>))))"

definition ListMachines :: "enroll_world \<Rightarrow> machine list result" where
  "ListMachines w = ms_List (ewMachines w)"

subsection \<open>The registry (app/registry)\<close>

record registerInput =
  riMachineID :: string
  riInstanceID :: string
  riName :: string
  riOS :: string
  riArch :: string
  riAgentVersion :: string

definition Register :: "registerInput \<Rightarrow> enroll_world \<Rightarrow> (machine \<times> bool) result \<times> enroll_world" where
  "Register inp w =
     (let prior = ms_ByID (riMachineID inp) (ewMachines w);
          restarted = (case prior of Inr m \<Rightarrow> riInstanceID inp \<noteq> [] \<and> mInstanceID m \<noteq> [] \<and> mInstanceID m \<noteq> riInstanceID inp
                       | Inl _ \<Rightarrow> False);
          m = NewMachine (riMachineID inp) (riInstanceID inp) (riName inp) (riOS inp) (riArch inp) (riAgentVersion inp) (ewNow w);
          upsert = (case ms_Upsert m (ewMachines w) of Inl err \<Rightarrow> (Inl err, w)
                    | Inr ms \<Rightarrow> (Inr (m, restarted), w\<lparr>ewMachines := ms\<rparr>))
      in case prior of
           Inl err \<Rightarrow> if err \<noteq> ErrMachineNotFound then (Inl err, w) else upsert
         | Inr _ \<Rightarrow> upsert)"

definition Heartbeat :: "string \<Rightarrow> enroll_world \<Rightarrow> unit result \<times> enroll_world" where
  "Heartbeat i w = (case ms_UpdateLastSeen i (ewNow w) (ewMachines w) of
     Inl err \<Rightarrow> (Inl err, w) | Inr ms \<Rightarrow> (Inr (), w\<lparr>ewMachines := ms\<rparr>))"

record 'm machineView =
  mvMachine :: machine
  mvOnline :: bool
  mvMetrics :: "'m option"

text \<open>\<open>isOnline\<close> and \<open>metrics\<close>: the live-agents port.\<close>

definition registry_List :: "(string \<Rightarrow> bool) \<Rightarrow> (string \<Rightarrow> 'm option) \<Rightarrow> enroll_world \<Rightarrow> 'm machineView list result" where
  "registry_List isOnline metrics w = (case ms_List (ewMachines w) of
     Inl err \<Rightarrow> Inl err
   | Inr machines \<Rightarrow> Inr (map (\<lambda>m. let online = isOnline (mId m) in
       \<lparr>mvMachine = m, mvOnline = online, mvMetrics = (if online then metrics (mId m) else None)\<rparr>) machines))"

subsection \<open>Operations as events\<close>

text \<open>Every request that changes this state, at its time.\<close>

datatype enroll_event =
    EvMint int "byte list" | EvEnroll enrollInput string | EvRevoke string | EvUnrevoke string
  | EvDeleteMachine string | EvRegister registerInput | EvHeartbeat string | EvTick int

fun ew_apply :: "(string \<Rightarrow> string) \<Rightarrow> enroll_event \<Rightarrow> enroll_world \<Rightarrow> enroll_world" where
  "ew_apply sha (EvMint ttl raw) w = snd (MintToken sha ttl raw w)"
| "ew_apply sha (EvEnroll inp i) w = snd (Enroll sha inp i w)"
| "ew_apply sha (EvRevoke i) w = snd (Revoke i w)"
| "ew_apply sha (EvUnrevoke i) w = snd (Unrevoke i w)"
| "ew_apply sha (EvDeleteMachine i) w = snd (DeleteMachine i w)"
| "ew_apply sha (EvRegister inp) w = snd (Register inp w)"
| "ew_apply sha (EvHeartbeat i) w = snd (Heartbeat i w)"
| "ew_apply sha (EvTick t) w = w\<lparr>ewNow := t\<rparr>"

definition ew_run :: "(string \<Rightarrow> string) \<Rightarrow> enroll_event list \<Rightarrow> enroll_world \<Rightarrow> enroll_world" where
  "ew_run sha evs w = fold (ew_apply sha) evs w"

lemmas enroll_defs = MintToken_def Enroll_def Revoke_def Unrevoke_def DeleteMachine_def Register_def Heartbeat_def
  ew_record_def et_Create_def et_Consume_def ms_Upsert_def ms_ByID_def ms_MarkRevoked_def ms_ClearRevoked_def
  ms_Delete_def ms_UpdateLastSeen_def cs_Save_def

subsection \<open>Enrolment tokens are one-time\<close>

definition used_token :: "string \<Rightarrow> enroll_world \<Rightarrow> bool" where
  "used_token h w \<longleftrightarrow> (case m_get (ewTokens w) h of None \<Rightarrow> True | Some t \<Rightarrow> etUsed t)"

definition mints :: "(string \<Rightarrow> string) \<Rightarrow> string \<Rightarrow> enroll_event \<Rightarrow> bool" where
  "mints sha h ev \<longleftrightarrow> (case ev of EvMint ttl raw \<Rightarrow> tokenHash sha (hex_EncodeToString raw) = h | _ \<Rightarrow> False)"

lemma Enroll_success_used: "Enroll sha inp i w = (Inr j, w') \<Longrightarrow> used_token (tokenHash sha (eiToken inp)) w'"
  by (auto simp: enroll_defs used_token_def Let_def split: if_splits option.splits sum.splits)

lemma Enroll_used_rejected: "used_token (tokenHash sha (eiToken inp)) w \<Longrightarrow> Enroll sha inp i w = (Inl ErrInvalidToken, w)"
  by (auto simp: enroll_defs used_token_def Let_def split: option.splits)

lemma used_token_step: "used_token h w \<Longrightarrow> \<not> mints sha h ev \<Longrightarrow> used_token h (ew_apply sha ev w)"
  by (cases ev) (auto simp: enroll_defs used_token_def mints_def Let_def split: option.splits sum.splits if_splits)

lemma used_token_run: "used_token h w \<Longrightarrow> \<forall>ev \<in> set evs. \<not> mints sha h ev \<Longrightarrow> used_token h (ew_run sha evs w)"
  unfolding ew_run_def by (induction evs arbitrary: w) (auto simp: used_token_step)

text \<open>
  An enrolment token enrols one machine. After a successful enrolment, whatever happens
  afterwards (other enrolments, revocations, registrations, time passing), presenting the same
  token again is rejected, as long as a token with the same hash is not minted anew.
\<close>
theorem enroll_token_one_time:
  assumes "Enroll sha inp i w = (Inr j, w1)"
    and "\<forall>ev \<in> set evs. \<not> mints sha (tokenHash sha (eiToken inp)) ev" "eiToken inp' = eiToken inp"
  shows "fst (Enroll sha inp' i' (ew_run sha evs w1)) = Inl ErrInvalidToken"
  using Enroll_used_rejected [of sha inp'] used_token_run [OF Enroll_success_used [OF assms(1)] assms(2)] assms(3) by simp

definition emptyWorld :: enroll_world where
  "emptyWorld = \<lparr>ewTokens = [], ewCreds = [], ewMachines = [], ewAudit = [], ewNow = 1000, ewActor = None\<rparr>"

definition demoInput :: enrollInput where
  "demoInput = \<lparr>eiToken = hex_EncodeToString [1], eiPublicKey = replicate 32 0, eiName = ''n'', eiOS = ''linux'', eiArch = ''amd64''\<rparr>"

text \<open>Witness for \<open>enroll_token_one_time\<close>: mint, enrol, then try again after an hour.\<close>
theorem enroll_token_one_time_witness:
  "fst (Enroll (\<lambda>x. x) demoInput ''m2'' (ew_run (\<lambda>x. x) [EvTick 4600]
     (snd (Enroll (\<lambda>x. x) demoInput ''m1'' (snd (MintToken (\<lambda>x. x) 900 [1] emptyWorld)))))) = Inl ErrInvalidToken"
proof (rule enroll_token_one_time)
  show "Enroll (\<lambda>x. x) demoInput ''m1'' (snd (MintToken (\<lambda>x. x) 900 [1] emptyWorld)) =
      (Inr ''m1'', snd (Enroll (\<lambda>x. x) demoInput ''m1'' (snd (MintToken (\<lambda>x. x) 900 [1] emptyWorld))))"
    by (simp add: enroll_defs demoInput_def emptyWorld_def tokenHash_def Let_def NewMachine_def)
qed (simp_all add: mints_def)

subsection \<open>Revocation sticks\<close>

definition revoked_in :: "string \<Rightarrow> enroll_world \<Rightarrow> bool" where
  "revoked_in i w \<longleftrightarrow> ewNow w \<noteq> 0 \<and> (case m_get (ewMachines w) i of None \<Rightarrow> False | Some m \<Rightarrow> Revoked m)"

definition lifts_revocation :: "string \<Rightarrow> enroll_event \<Rightarrow> bool" where
  "lifts_revocation i ev \<longleftrightarrow> ev = EvUnrevoke i \<or> ev = EvDeleteMachine i \<or> ev = EvTick 0"

lemma revoked_in_step:
  "revoked_in i w \<Longrightarrow> \<not> lifts_revocation i ev \<Longrightarrow> revoked_in i (ew_apply sha ev w)"
  by (cases ev) (auto simp: enroll_defs revoked_in_def lifts_revocation_def Let_def Revoked_def RehydrateFull_def
      machine_MarkRevoked_def machine_ClearRevoked_def NewMachine_def split: option.splits sum.splits if_splits)

lemma revoked_in_run:
  "revoked_in i w \<Longrightarrow> \<forall>ev \<in> set evs. \<not> lifts_revocation i ev \<Longrightarrow> revoked_in i (ew_run sha evs w)"
  unfolding ew_run_def by (induction evs arbitrary: w) (auto simp: revoked_in_step)

lemma Authenticate_success:
  assumes "Authenticate verify token w = Inr i"
  shows "\<exists>ts sig pub m. ParseAgentToken token = Inr (i, ts, sig) \<and> m_get (ewCreds w) i = Some pub \<and>
    m_get (ewMachines w) i = Some m \<and> \<not> Revoked m \<and>
    VerifyAgentToken verify pub i ts sig (ewNow w) agentTokenSkew = Inr ()"
  using assms by (auto simp: Authenticate_def cs_PublicKey_def ms_ByID_def split: sum.splits option.splits if_splits prod.splits)

text \<open>
  C25: revocation sticks. Once a machine has been revoked, no token authenticates it again,
  whatever else happens: re-registration by the still connected agent, heartbeats, enrolments
  that reuse its ID, further revocations, time passing. Only an explicit unrevocation, or deleting
  the machine, ends it.
\<close>
theorem revocation_sticks:
  assumes "Revoke i w = (Inr (), w1)" "ewNow w \<noteq> 0" "\<forall>ev \<in> set evs. \<not> lifts_revocation i ev"
  shows "Authenticate verify token (ew_run sha evs w1) \<noteq> Inr i"
proof -
  have "revoked_in i w1" using assms(1,2)
    by (auto simp: enroll_defs revoked_in_def Revoked_def machine_MarkRevoked_def split: option.splits)
  then have "revoked_in i (ew_run sha evs w1)" by (rule revoked_in_run [OF _ assms(3)])
  then show ?thesis using Authenticate_success by (fastforce simp: revoked_in_def)
qed

definition demoMachineWorld :: enroll_world where
  "demoMachineWorld = emptyWorld\<lparr>ewMachines := [(''m1'', NewMachine ''m1'' [] ''n'' ''linux'' ''amd64'' [] 500)],
     ewCreds := [(''m1'', replicate 32 0)]\<rparr>"

text \<open>Witness for \<open>revocation_sticks\<close>: the agent re-registers after its revocation.\<close>
theorem revocation_sticks_witness:
  "Authenticate (\<lambda>_ _ _. True) ''v1.m1.1000.'' (ew_run (\<lambda>x. x)
     [EvRegister \<lparr>riMachineID = ''m1'', riInstanceID = ''b'', riName = ''n'', riOS = ''linux'', riArch = ''amd64'', riAgentVersion = ''1''\<rparr>]
     (snd (Revoke ''m1'' demoMachineWorld))) \<noteq> Inr ''m1''"
proof (rule revocation_sticks)
  show "Revoke ''m1'' demoMachineWorld = (Inr (), snd (Revoke ''m1'' demoMachineWorld))"
    by (simp add: enroll_defs demoMachineWorld_def emptyWorld_def m_get_def)
qed (simp_all add: demoMachineWorld_def emptyWorld_def lifts_revocation_def)

subsection \<open>From enrolment to authentication\<close>

text \<open>
  An enrolled agent can dial home. After a successful enrolment with a key pair whose
  signatures verify, the token the agent builds with its private key and the machine ID it was
  given authenticates as that machine, for every clock within the allowed skew, provided the
  machine is new or was not revoked.
\<close>
theorem enrolled_agent_authenticates:
  assumes "Enroll sha inp i w = (Inr i, w1)" "i \<noteq> []" "CHR ''.'' \<notin> set i"
    and "case m_get (ewMachines w) i of None \<Rightarrow> True | Some m \<Rightarrow> \<not> Revoked m"
    and "in_int64 ts" "0 \<le> now" "now < 2 ^ 62" "\<bar>now - ts\<bar> \<le> agentTokenSkew"
    and verify_sign: "\<And>msg. verify (eiPublicKey inp) msg (sign priv msg)"
  shows "Authenticate verify (BuildAgentToken sign i priv ts) (w1\<lparr>ewNow := now\<rparr>) = Inr i"
proof -
  let ?sig = "sign priv (signingInput i ts)"
  have parse: "ParseAgentToken (BuildAgentToken sign i priv ts) = Inr (i, ts, ?sig)"
    by (rule ParseAgentToken_Build [OF assms(2,3,5)])
  have "m_get (ewCreds w1) i = Some (eiPublicKey inp)"
    "\<exists>m. m_get (ewMachines w1) i = Some m \<and> \<not> Revoked m"
    using assms(1,4) by (auto simp: enroll_defs Let_def Revoked_def RehydrateFull_def NewMachine_def
        split: if_splits option.splits sum.splits)
  moreover have "VerifyAgentToken verify (eiPublicKey inp) i ts ?sig now agentTokenSkew = Inr ()"
    using VerifyAgentToken_clock [of now ts agentTokenSkew] assms(5-8) verify_sign
    by (auto simp: VerifyAgentToken_def Let_def agentTokenSkew_def)
  ultimately show ?thesis using parse by (auto simp: Authenticate_def cs_PublicKey_def ms_ByID_def)
qed

text \<open>Witness for \<open>enrolled_agent_authenticates\<close>: a toy scheme that signs with the empty signature.\<close>
theorem enrolled_agent_authenticates_witness:
  "Authenticate (\<lambda>_ _ s. s = []) (BuildAgentToken (\<lambda>_ _. []) ''m1'' () 1050)
     ((snd (Enroll (\<lambda>x. x) demoInput ''m1'' (snd (MintToken (\<lambda>x. x) 900 [1] emptyWorld))))\<lparr>ewNow := 1000\<rparr>) = Inr ''m1''"
proof (rule enrolled_agent_authenticates)
  show "Enroll (\<lambda>x. x) demoInput ''m1'' (snd (MintToken (\<lambda>x. x) 900 [1] emptyWorld)) =
      (Inr ''m1'', snd (Enroll (\<lambda>x. x) demoInput ''m1'' (snd (MintToken (\<lambda>x. x) 900 [1] emptyWorld))))"
    by (simp add: enroll_defs demoInput_def emptyWorld_def tokenHash_def Let_def NewMachine_def)
qed (simp_all add: enroll_defs emptyWorld_def in_int64_def agentTokenSkew_def tokenHash_def Let_def)

text \<open>
  A restart is reported once. Registering reports a restart exactly when the machine is known
  with a different, non-empty instance ID; afterwards the same instance registering again is no
  restart, so the reconciliation of sessions runs once per agent process.
\<close>
theorem Register_restart_once:
  "\<exists>m r w1. Register inp w = (Inr (m, r), w1) \<and>
     r = (\<exists>prior. m_get (ewMachines w) (riMachineID inp) = Some prior \<and> riInstanceID inp \<noteq> [] \<and>
            mInstanceID prior \<noteq> [] \<and> mInstanceID prior \<noteq> riInstanceID inp) \<and>
     (\<exists>m2 w2. Register inp w1 = (Inr (m2, False), w2))"
  by (cases "m_get (ewMachines w) (riMachineID inp)")
    (auto simp: Register_def ms_ByID_def ms_Upsert_def NewMachine_def RehydrateFull_def Let_def)

end
