(* ===== verification/Snapshot_Encode.thy ===== *)
theory Snapshot_Encode
  imports Terminal Transport
begin

text \<open>
  The wire form of a screen: \<^verbatim>\<open>internal/transport/snapshot.go\<close> (the messages) and
  \<^verbatim>\<open>internal/agent/adapter/primary/hubclient/snapshot_encode.go\<close> (the run-length encoder), with
  the decoding that the message's documentation prescribes to viewers. A run's text is a Go
  string built from runes, so invalid runes become U+FFFD in it.
\<close>

record snapRun =
  srText :: "rune list"
  srFG :: int
  srBG :: int
  srAttrs :: "16 word"

type_synonym snapLine = "snapRun list"

record snapCursor =
  scX :: int
  scY :: int
  scVisible :: bool

record transportSnapshot =
  snType :: MessageType
  snSessionID :: string
  snMachineID :: string
  snCols :: int
  snRows :: int
  snCursor :: snapCursor
  snLines :: "snapLine list"
  snRev :: "64 word"

definition PaletteColor :: "int \<Rightarrow> int" where
  "PaletteColor index = index + 1"

unbundle bit_operations_syntax

definition TruecolorColor :: "byte \<Rightarrow> byte \<Rightarrow> byte \<Rightarrow> int" where
  "TruecolorColor r g b = ColorTruecolorFlag OR push_bit 16 (uint r) OR push_bit 8 (uint g) OR uint b"

definition isAllSpaces :: "rune list \<Rightarrow> bool" where
  "isAllSpaces s = list_all (\<lambda>r. r = 32) s"

subsection \<open>The encoder\<close>

text \<open>The style of the run being collected and its text.\<close>

record runState =
  runFG :: int
  runBG :: int
  runAttrs :: "16 word"
  runText :: "rune list"

definition startRun :: "cell \<Rightarrow> runState" where
  "startRun c = \<lparr>runFG = FG c, runBG = BG c, runAttrs = Attrs c, runText = [Rune c]\<rparr>"

definition flushRun :: "runState \<Rightarrow> snapRun list \<Rightarrow> snapRun list" where
  "flushRun st runs =
     (if runText st = [] then runs
      else runs @ [\<lparr>srText = map rune_out (runText st), srFG = runFG st, srBG = runBG st, srAttrs = runAttrs st\<rparr>])"

fun encodeRow_loop :: "cell list \<Rightarrow> runState \<Rightarrow> snapRun list \<Rightarrow> snapRun list" where
  "encodeRow_loop [] st runs = flushRun st runs"
| "encodeRow_loop (c # row) st runs =
     (if FG c = runFG st \<and> BG c = runBG st \<and> Attrs c = runAttrs st
      then encodeRow_loop row (st\<lparr>runText := runText st @ [Rune c]\<rparr>) runs
      else encodeRow_loop row (startRun c) (flushRun st runs))"

definition blankRun :: "snapRun \<Rightarrow> bool" where
  "blankRun r \<longleftrightarrow> srFG r = 0 \<and> srBG r = 0 \<and> srAttrs r = 0 \<and> isAllSpaces (srText r)"

text \<open>The loop that drops default-blank runs at the end.\<close>

function dropBlankRuns :: "snapRun list \<Rightarrow> snapRun list" where
  "dropBlankRuns runs = (if runs \<noteq> [] \<and> blankRun (last runs) then dropBlankRuns (butlast runs) else runs)"
  by pat_completeness auto
termination
  by (relation "measure length") auto

declare dropBlankRuns.simps [simp del]

definition encodeRow :: "cell list \<Rightarrow> snapLine" where
  "encodeRow row = (case row of [] \<Rightarrow> [] | c # rest \<Rightarrow> dropBlankRuns (encodeRow_loop rest (startRun c) []))"

definition encodeSnapshot :: "SessionScreen \<Rightarrow> string \<Rightarrow> transportSnapshot option" where
  "encodeSnapshot s machineID =
     (let scr = ssScreen s in
      if Rows scr < 0 then None
      else do { lines \<leftarrow> for_up 0 (Rows scr)
                  (\<lambda>y ls. do { row \<leftarrow> slice_get (Cells scr) y; slice_set ls y (encodeRow row) })
                  (replicate (nat (Rows scr)) []);
                Some \<lparr>snType = TypeSnapshot, snSessionID = ssID s, snMachineID = machineID,
                      snCols = Cols scr, snRows = Rows scr,
                      snCursor = \<lparr>scX = curX (Cursor scr), scY = curY (Cursor scr), scVisible = curVisible (Cursor scr)\<rparr>,
                      snLines = lines, snRev = ssRev s\<rparr> })"

subsection \<open>Decoding, as documented\<close>

definition run_cells :: "snapRun \<Rightarrow> cell list" where
  "run_cells r = map (\<lambda>ch. \<lparr>Rune = ch, FG = srFG r, BG = srBG r, Attrs = srAttrs r\<rparr>) (srText r)"

definition expand :: "snapRun list \<Rightarrow> cell list" where
  "expand runs = concat (map run_cells runs)"

text \<open>A viewer pads the remainder of the row with default-styled spaces.\<close>

definition decodeLine :: "int \<Rightarrow> snapLine \<Rightarrow> cell list" where
  "decodeLine c runs = expand runs @ replicate (nat c - length (expand runs)) BlankCell"

definition state_cells :: "runState \<Rightarrow> cell list" where
  "state_cells st = map (\<lambda>ch. \<lparr>Rune = ch, FG = runFG st, BG = runBG st, Attrs = runAttrs st\<rparr>) (runText st)"

lemma expand_simps [simp]: "expand [] = []" "expand (xs @ ys) = expand xs @ expand ys"
  "expand [r] = run_cells r"
  by (simp_all add: expand_def)

lemma expand_flush:
  "\<forall>ch \<in> set (runText st). valid_rune ch \<Longrightarrow> expand (flushRun st runs) = expand runs @ state_cells st"
  by (auto simp: flushRun_def run_cells_def state_cells_def)

lemma cell_eta: "FG c = f \<Longrightarrow> BG c = b \<Longrightarrow> Attrs c = a \<Longrightarrow> \<lparr>Rune = Rune c, FG = f, BG = b, Attrs = a\<rparr> = c"
  by (cases c) simp

lemma expand_encodeRow_loop:
  assumes "\<forall>c \<in> set row. valid_rune (Rune c)" "\<forall>ch \<in> set (runText st). valid_rune ch"
  shows "expand (encodeRow_loop row st runs) = expand runs @ state_cells st @ row"
  using assms
proof (induction row st runs rule: encodeRow_loop.induct)
  case (1 st runs)
  then show ?case by (simp add: expand_flush)
next
  case (2 c row st runs)
  then show ?case
    by (auto simp: expand_flush startRun_def state_cells_def cell_eta)
qed

lemma blankRun_cells: "blankRun r \<Longrightarrow> run_cells r = replicate (length (srText r)) BlankCell"
  by (cases r) (auto simp: blankRun_def isAllSpaces_def run_cells_def list_all_iff BlankCell_def
      intro!: replicate_eqI)

lemma expand_dropBlankRuns: "\<exists>k. expand runs = expand (dropBlankRuns runs) @ replicate k BlankCell"
proof (induction runs rule: dropBlankRuns.induct)
  case (1 runs)
  show ?case
  proof (cases "runs \<noteq> [] \<and> blankRun (last runs)")
    case True
    then obtain k where k: "expand (butlast runs) = expand (dropBlankRuns (butlast runs)) @ replicate k BlankCell"
      using 1 by blast
    have "expand runs = expand (butlast runs) @ run_cells (last runs)"
      using True by (metis append_butlast_last_id expand_simps(2,3))
    then have "expand runs = expand (dropBlankRuns runs) @ replicate (k + length (srText (last runs))) BlankCell"
      using True k by (simp add: dropBlankRuns.simps [of runs] blankRun_cells replicate_add)
    then show ?thesis by blast
  next
    case False
    then show ?thesis by (intro exI [of _ 0]) (auto simp: dropBlankRuns.simps [of runs])
  qed
qed

lemma decode_encodeRow:
  assumes "\<forall>c \<in> set row. valid_rune (Rune c)"
  shows "decodeLine (int (length row)) (encodeRow row) = row"
proof (cases row)
  case Nil
  then show ?thesis by (simp add: decodeLine_def encodeRow_def)
next
  case (Cons c rest)
  let ?runs = "encodeRow_loop rest (startRun c) []"
  have row: "expand ?runs = row"
    using expand_encodeRow_loop [of rest "startRun c" "[]"] assms Cons by (simp add: startRun_def state_cells_def)
  obtain k where k: "row = expand (dropBlankRuns ?runs) @ replicate k BlankCell"
    using expand_dropBlankRuns [of ?runs] row by metis
  then have "length row - length (expand (dropBlankRuns ?runs)) = k" by (metis diff_add_inverse length_append length_replicate)
  moreover have "encodeRow row = dropBlankRuns ?runs" by (simp add: encodeRow_def Cons)
  ultimately show ?thesis using k unfolding decodeLine_def by simp
qed

text \<open>
  Snapshot round trip. A viewer that decodes the snapshot of a rectangular screen of scalar
  values as documented, padding each row with default blanks, gets back exactly the screen: its
  dimensions, its cursor, its revision and every cell.
\<close>
theorem snapshot_roundtrip:
  assumes "length (Cells (ssScreen s)) = nat (Rows (ssScreen s))" "0 \<le> Rows (ssScreen s)"
    and "\<forall>row \<in> set (Cells (ssScreen s)). int (length row) = Cols (ssScreen s) \<and> (\<forall>c \<in> set row. valid_rune (Rune c))"
  shows "\<exists>w. encodeSnapshot s m = Some w \<and> map (decodeLine (snCols w)) (snLines w) = Cells (ssScreen s) \<and>
    snCols w = Cols (ssScreen s) \<and> snRows w = Rows (ssScreen s) \<and> snRev w = ssRev s \<and> snSessionID w = ssID s \<and>
    \<lparr>curX = scX (snCursor w), curY = scY (snCursor w), curVisible = scVisible (snCursor w)\<rparr> = Cursor (ssScreen s)"
proof -
  have "decodeLine (Cols (ssScreen s)) (encodeRow row) = row" if "row \<in> set (Cells (ssScreen s))" for row
    using assms(3) decode_encodeRow [of row] that by auto
  then have "map (decodeLine (Cols (ssScreen s))) (map encodeRow (Cells (ssScreen s))) = Cells (ssScreen s)"
    by (simp add: map_idI)
  then show ?thesis using for_up_map [OF assms(1,2), of encodeRow "[]"] assms(2)
    by (simp add: encodeSnapshot_def Let_def)
qed

text \<open>Witness for \<open>snapshot_roundtrip\<close>: a row with a bold cell and a blank one.\<close>

definition demoScreen :: SessionScreen where
  "demoScreen = \<lparr>ssID = ''s'', ssScreen = \<lparr>Cols = 2, Rows = 1, Cursor = \<lparr>curX = 1, curY = 0, curVisible = True\<rparr>,
     Cells = [[\<lparr>Rune = 65, FG = 0, BG = 0, Attrs = 1\<rparr>, BlankCell]]\<rparr>, ssRev = 7\<rparr>"

theorem snapshot_roundtrip_witness:
  "\<exists>w. encodeSnapshot demoScreen ''m'' = Some w \<and> map (decodeLine (snCols w)) (snLines w) = Cells (ssScreen demoScreen) \<and>
    snCols w = Cols (ssScreen demoScreen) \<and> snRows w = Rows (ssScreen demoScreen) \<and> snRev w = ssRev demoScreen \<and>
    snSessionID w = ssID demoScreen \<and>
    \<lparr>curX = scX (snCursor w), curY = scY (snCursor w), curVisible = scVisible (snCursor w)\<rparr> = Cursor (ssScreen demoScreen)"
  by (rule snapshot_roundtrip) (simp_all add: demoScreen_def BlankCell_def valid_rune_def)

subsection \<open>Runs are maximal\<close>

definition run_style :: "snapRun \<Rightarrow> int \<times> int \<times> 16 word" where
  "run_style r = (srFG r, srBG r, srAttrs r)"

definition maximal_runs :: "snapRun list \<Rightarrow> bool" where
  "maximal_runs runs \<longleftrightarrow> (\<forall>r \<in> set runs. srText r \<noteq> []) \<and>
     (\<forall>i. Suc i < length runs \<longrightarrow> run_style (runs ! i) \<noteq> run_style (runs ! Suc i))"

lemma maximal_runs_snoc:
  assumes "maximal_runs runs" "srText r \<noteq> []" "runs \<noteq> [] \<Longrightarrow> run_style (last runs) \<noteq> run_style r"
  shows "maximal_runs (runs @ [r])"
proof -
  have "run_style ((runs @ [r]) ! i) \<noteq> run_style ((runs @ [r]) ! Suc i)" if i: "Suc i < length (runs @ [r])" for i
  proof (cases "Suc i < length runs")
    case True
    then show ?thesis using assms(1) by (simp add: maximal_runs_def nth_append)
  next
    case False
    then have "Suc i = length runs" using i by simp
    then have ne: "runs \<noteq> []" "length runs - 1 = i" by auto
    then have "(runs @ [r]) ! i = last runs" "(runs @ [r]) ! Suc i = r"
      using \<open>Suc i = length runs\<close> by (auto simp: nth_append last_conv_nth)
    then show ?thesis using assms(3) ne by simp
  qed
  then show ?thesis using assms(1,2) by (auto simp: maximal_runs_def)
qed

lemma maximal_encodeRow_loop:
  assumes "maximal_runs runs" "runText st \<noteq> []"
    "runs \<noteq> [] \<Longrightarrow> run_style (last runs) \<noteq> (runFG st, runBG st, runAttrs st)"
  shows "maximal_runs (encodeRow_loop row st runs)"
  using assms
proof (induction row st runs rule: encodeRow_loop.induct)
  case (1 st runs)
  then show ?case by (simp add: flushRun_def maximal_runs_snoc run_style_def)
next
  case (2 c row st runs)
  have f: "maximal_runs (flushRun st runs)" "last (flushRun st runs) =
      \<lparr>srText = map rune_out (runText st), srFG = runFG st, srBG = runBG st, srAttrs = runAttrs st\<rparr>"
    using "2.prems" by (simp_all add: flushRun_def maximal_runs_snoc run_style_def)
  show ?case using 2 f by (auto simp: startRun_def run_style_def)
qed

lemma maximal_dropBlankRuns: "maximal_runs runs \<Longrightarrow> maximal_runs (dropBlankRuns runs)"
proof (induction runs rule: dropBlankRuns.induct)
  case (1 runs)
  have "maximal_runs (butlast runs)"
    using 1(2) by (auto simp: maximal_runs_def nth_butlast dest: in_set_butlastD)
  then show ?case using 1 by (simp add: dropBlankRuns.simps [of runs])
qed

text \<open>
  The encoding is canonical. Every run is non-empty and maximal (adjacent runs differ in
  style), and the last run, if any, is not a default blank.
\<close>
theorem encodeRow_canonical:
  "maximal_runs (encodeRow row) \<and> (encodeRow row = [] \<or> \<not> blankRun (last (encodeRow row)))"
proof -
  have last: "dropBlankRuns runs = [] \<or> \<not> blankRun (last (dropBlankRuns runs))" for runs
  proof (induction runs rule: dropBlankRuns.induct)
    case (1 runs)
    then show ?case by (cases "runs \<noteq> [] \<and> blankRun (last runs)") (auto simp: dropBlankRuns.simps [of runs])
  qed
  have "maximal_runs []" by (simp add: maximal_runs_def)
  then have "maximal_runs (encodeRow_loop rest (startRun c) [])" for rest c
    by (rule maximal_encodeRow_loop) (simp_all add: startRun_def)
  then show ?thesis using last maximal_dropBlankRuns \<open>maximal_runs []\<close>
    by (auto simp: encodeRow_def split: list.split)
qed

text \<open>Witness for \<open>encodeRow_canonical\<close>: a bold letter followed by a default blank.\<close>
theorem encodeRow_canonical_witness:
  "maximal_runs (encodeRow [\<lparr>Rune = 65, FG = 0, BG = 0, Attrs = 1\<rparr>, BlankCell]) \<and>
   \<not> blankRun (last (encodeRow [\<lparr>Rune = 65, FG = 0, BG = 0, Attrs = 1\<rparr>, BlankCell]))"
proof -
  have "encodeRow [\<lparr>Rune = 65, FG = 0, BG = 0, Attrs = 1\<rparr>, BlankCell] \<noteq> []" by code_simp
  then show ?thesis using encodeRow_canonical [of "[\<lparr>Rune = 65, FG = 0, BG = 0, Attrs = 1\<rparr>, BlankCell]"] by blast
qed

end
