(* ===== verification/Overview_App.thy ===== *)
theory Overview_App
  imports Hub_Domain Snapshot_Encode Interleaving "HOL-Library.Multiset"
begin

text \<open>
  The overview use case, \<^verbatim>\<open>internal/hub/app/overview\<close>: the latest snapshot of every session, its
  fan-out to the subscribed browsers, and the gate that switches snapshot production on the agents
  on and off with the first and the last viewer.

  \<^item> The code takes its lock several times per call, so the critical sections are separate
    definitions. The methods compose them for one caller; \<open>ov_step\<close> interleaves them for many.
  \<^item> Subscribers are names; whether a send to one fails is up to the environment.
  \<^item> Marshalling these structures to JSON cannot fail; a payload is the snapshot itself.
  \<^item> \<open>ovControl\<close> logs the calls of \<open>SetSnapshotsEnabled\<close>, latest first.
\<close>

subsection \<open>Data\<close>

record ovRun =
  orText :: "rune list"
  orFG :: int
  orBG :: int
  orAttrs :: "16 word"

record ovCursor =
  ocX :: int
  ocY :: int
  ocVisible :: bool

record ovSnapshot =
  osType :: MessageType
  osSessionID :: string
  osMachineID :: string
  osCols :: int
  osRows :: int
  osCursor :: ovCursor
  osLines :: "ovRun list list"
  osRev :: "64 word"

definition transportToOverview :: "transportSnapshot \<Rightarrow> ovSnapshot" where
  "transportToOverview t =
     \<lparr>osType = snType t, osSessionID = snSessionID t, osMachineID = snMachineID t, osCols = snCols t, osRows = snRows t,
      osCursor = \<lparr>ocX = scX (snCursor t), ocY = scY (snCursor t), ocVisible = scVisible (snCursor t)\<rparr>,
      osLines = map (map (\<lambda>r. \<lparr>orText = srText r, orFG = srFG r, orBG = srBG r, orAttrs = srAttrs r\<rparr>)) (snLines t),
      osRev = snRev t\<rparr>"

record overview =
  ovLatest :: "ovSnapshot gomap"
  ovSubs :: "string list"
  ovViewers :: int
  ovLastEnabled :: bool
  ovCtlLocked :: bool
  ovControl :: "bool list"

definition NewOverview :: overview where
  "NewOverview = \<lparr>ovLatest = [], ovSubs = [], ovViewers = 0, ovLastEnabled = False, ovCtlLocked = False, ovControl = []\<rparr>"

subsection \<open>Critical sections\<close>

definition clampViewers :: "int \<Rightarrow> int" where
  "clampViewers n = (if n < 0 then 0 else n)"

definition recv_store :: "ovSnapshot \<Rightarrow> overview \<Rightarrow> overview" where
  "recv_store s o1 = o1\<lparr>ovLatest := m_put (osSessionID s) s (ovLatest o1)\<rparr>"

definition drop_failed :: "string list \<Rightarrow> overview \<Rightarrow> overview" where
  "drop_failed failed o1 = o1\<lparr>ovSubs := fold removeAll failed (ovSubs o1),
     ovViewers := clampViewers (ovViewers o1 - int (length failed))\<rparr>"

definition sub_add :: "string \<Rightarrow> overview \<Rightarrow> overview" where
  "sub_add sub o1 = o1\<lparr>ovSubs := List.insert sub (ovSubs o1), ovViewers := ovViewers o1 + 1\<rparr>"

definition sub_drop :: "string \<Rightarrow> overview \<Rightarrow> overview" where
  "sub_drop sub o1 = o1\<lparr>ovSubs := removeAll sub (ovSubs o1), ovViewers := clampViewers (ovViewers o1 - 1)\<rparr>"

definition gate_want :: "overview \<Rightarrow> bool" where
  "gate_want o1 \<longleftrightarrow> 0 < ovViewers o1"

definition gate_set :: "bool \<Rightarrow> overview \<Rightarrow> overview" where
  "gate_set want o1 = (if want \<noteq> ovLastEnabled o1
     then o1\<lparr>ovLastEnabled := want, ovControl := want # ovControl o1\<rparr> else o1)"

subsection \<open>The methods\<close>

definition applyGate :: "overview \<Rightarrow> overview" where
  "applyGate o1 = gate_set (gate_want o1) o1"

text \<open>\<open>sendOk\<close>: whether the send to a subscriber succeeds; the result lists the payloads sent.\<close>

definition ReceiveSnapshot :: "(string \<Rightarrow> bool) \<Rightarrow> ovSnapshot \<Rightarrow> overview \<Rightarrow> (string \<times> ovSnapshot) list \<times> overview" where
  "ReceiveSnapshot sendOk s o0 =
     (let o1 = recv_store s o0;
          subs = ovSubs o1;
          failed = filter (\<lambda>x. \<not> sendOk x) subs
      in (map (\<lambda>x. (x, s)) (filter sendOk subs),
          if failed \<noteq> [] then applyGate (drop_failed failed o1) else o1))"

fun replay_loop :: "(ovSnapshot \<Rightarrow> bool) \<Rightarrow> string \<Rightarrow> ovSnapshot list \<Rightarrow> overview \<Rightarrow> ovSnapshot list \<times> overview" where
  "replay_loop sendOk sub [] o1 = ([], o1)"
| "replay_loop sendOk sub (s # ss) o1 =
     (if sendOk s then (case replay_loop sendOk sub ss o1 of (sent, o2) \<Rightarrow> (s # sent, o2))
      else ([], applyGate (sub_drop sub o1)))"

definition Subscribe :: "(ovSnapshot \<Rightarrow> bool) \<Rightarrow> string \<Rightarrow> overview \<Rightarrow> ovSnapshot list \<times> overview" where
  "Subscribe sendOk sub o0 =
     (let o1 = sub_add sub o0; replay = m_vals (ovLatest o1) in replay_loop sendOk sub replay (applyGate o1))"

definition Unsubscribe :: "string \<Rightarrow> overview \<Rightarrow> overview" where
  "Unsubscribe sub o1 = (if sub \<in> set (ovSubs o1) then applyGate (sub_drop sub o1) else o1)"

definition SnapshotsEnabled :: "overview \<Rightarrow> bool" where
  "SnapshotsEnabled o1 \<longleftrightarrow> 0 < ovViewers o1"

definition DropSession :: "string \<Rightarrow> overview \<Rightarrow> overview" where
  "DropSession sessionID o1 = o1\<lparr>ovLatest := m_del sessionID (ovLatest o1)\<rparr>"

lemmas ov_defs = clampViewers_def recv_store_def drop_failed_def sub_add_def sub_drop_def gate_want_def gate_set_def

subsection \<open>One caller at a time\<close>

text \<open>What the counter and the gate mean, when no call is in progress.\<close>

definition ov_counted :: "overview \<Rightarrow> bool" where
  "ov_counted o1 \<longleftrightarrow> distinct (ovSubs o1) \<and> ovViewers o1 = int (length (ovSubs o1)) \<and>
     ovLastEnabled o1 = (case ovControl o1 of [] \<Rightarrow> False | b # _ \<Rightarrow> b)"

definition ov_ok :: "overview \<Rightarrow> bool" where
  "ov_ok o1 \<longleftrightarrow> ov_counted o1 \<and> ovLastEnabled o1 = (ovSubs o1 \<noteq> [])"

datatype ov_event = OvReceive ovSnapshot "string \<Rightarrow> bool" | OvSubscribe string "ovSnapshot \<Rightarrow> bool" | OvUnsubscribe string
  | OvDrop string

fun ov_apply :: "ov_event \<Rightarrow> overview \<Rightarrow> overview" where
  "ov_apply (OvReceive s sendOk) o1 = snd (ReceiveSnapshot sendOk s o1)"
| "ov_apply (OvSubscribe sub sendOk) o1 = snd (Subscribe sendOk sub o1)"
| "ov_apply (OvUnsubscribe sub) o1 = Unsubscribe sub o1"
| "ov_apply (OvDrop i) o1 = DropSession i o1"

text \<open>A connection subscribes once: its name is not among the subscribers yet.\<close>

fun fresh_subs :: "overview \<Rightarrow> ov_event list \<Rightarrow> bool" where
  "fresh_subs o1 [] \<longleftrightarrow> True"
| "fresh_subs o1 (ev # evs) \<longleftrightarrow>
     (case ev of OvSubscribe sub sendOk \<Rightarrow> sub \<notin> set (ovSubs o1) | _ \<Rightarrow> True) \<and> fresh_subs (ov_apply ev o1) evs"

lemma fold_removeAll: "fold removeAll xs ys = filter (\<lambda>y. y \<notin> set xs) ys"
  by (induction xs arbitrary: ys) (auto simp: removeAll_filter_not_eq intro: filter_cong)

lemma length_removeAll_distinct: "distinct xs \<Longrightarrow> x \<in> set xs \<Longrightarrow> length (removeAll x xs) = length xs - 1"
  by (simp add: distinct_remove1_removeAll [symmetric] length_remove1)

lemma ov_ok_latest [simp]: "ov_ok (o1\<lparr>ovLatest := l\<rparr>) = ov_ok o1"
  by (simp add: ov_ok_def ov_counted_def)

lemma applyGate_ok: "ov_counted o1 \<Longrightarrow> ov_ok (applyGate o1)"
  by (auto simp: ov_ok_def ov_counted_def applyGate_def ov_defs)

lemma applyGate_subs [simp]: "ovSubs (applyGate o1) = ovSubs o1"
  by (simp add: applyGate_def gate_set_def)

lemma sub_drop_counted: "ov_counted o1 \<Longrightarrow> sub \<in> set (ovSubs o1) \<Longrightarrow> ov_counted (sub_drop sub o1)"
  by (cases "ovSubs o1 = []")
    (auto simp: ov_counted_def sub_drop_def clampViewers_def distinct_removeAll length_removeAll_distinct
      Suc_le_eq of_nat_diff)

lemma replay_loop_ok:
  "ov_ok o1 \<Longrightarrow> sub \<in> set (ovSubs o1) \<Longrightarrow> ov_ok (snd (replay_loop sendOk sub ss o1))"
  by (induction ss) (auto simp: ov_ok_def [of o1] intro!: applyGate_ok sub_drop_counted split: prod.split)

lemma drop_failed_counted:
  assumes "ov_counted o1"
  shows "ov_counted (drop_failed (filter (\<lambda>x. \<not> sendOk x) (ovSubs o1)) o1)"
proof -
  let ?f = "filter (\<lambda>x. \<not> sendOk x) (ovSubs o1)"
  have "filter (\<lambda>y. y \<notin> set ?f) (ovSubs o1) = filter sendOk (ovSubs o1)" by (rule filter_cong) auto
  moreover have "length (filter sendOk (ovSubs o1)) + length ?f = length (ovSubs o1)" by (rule sum_length_filter_compl)
  ultimately show ?thesis using assms
    by (auto simp: ov_counted_def drop_failed_def fold_removeAll clampViewers_def)
qed

lemma ReceiveSnapshot_ok: "ov_ok o1 \<Longrightarrow> ov_ok (snd (ReceiveSnapshot sendOk s o1))"
proof -
  assume "ov_ok o1"
  then have "ov_ok (recv_store s o1)" by (simp add: recv_store_def)
  then show ?thesis using applyGate_ok [OF drop_failed_counted]
    by (auto simp: ReceiveSnapshot_def Let_def ov_ok_def [of "recv_store s o1"])
qed

lemma ov_apply_ok:
  assumes "ov_ok o1" "case ev of OvSubscribe sub sendOk \<Rightarrow> sub \<notin> set (ovSubs o1) | _ \<Rightarrow> True"
  shows "ov_ok (ov_apply ev o1)"
proof (cases ev)
  case (OvSubscribe sub sendOk)
  then have "ov_counted (sub_add sub o1)" using assms by (auto simp: sub_add_def ov_ok_def ov_counted_def)
  from replay_loop_ok [OF applyGate_ok [OF this]] show ?thesis using OvSubscribe
    by (simp add: Subscribe_def Let_def) (simp add: sub_add_def)
next
  case (OvUnsubscribe sub)
  then show ?thesis using assms(1) applyGate_ok [OF sub_drop_counted] by (auto simp: Unsubscribe_def ov_ok_def [of o1])
qed (use assms(1) in \<open>simp_all add: ReceiveSnapshot_ok DropSession_def\<close>)

lemma ov_run_ok: "ov_ok o1 \<Longrightarrow> fresh_subs o1 evs \<Longrightarrow> ov_ok (fold ov_apply evs o1)"
  by (induction evs arbitrary: o1) (auto simp: ov_apply_ok)

text \<open>
  The snapshot gate follows the viewers. When the calls come one after the other, then after
  every sequence of snapshots, subscriptions, unsubscriptions and failing sends the last command
  given to the agents is ``on'' exactly if some browser is subscribed, and the viewer count is the
  number of subscribers.
\<close>
theorem overview_gate_follows_viewers:
  assumes "fresh_subs NewOverview evs" "o1 = fold ov_apply evs NewOverview"
  shows "ovViewers o1 = int (length (ovSubs o1)) \<and>
    (case ovControl o1 of [] \<Rightarrow> False | b # _ \<Rightarrow> b) = (ovSubs o1 \<noteq> []) \<and> SnapshotsEnabled o1 = (ovSubs o1 \<noteq> [])"
proof -
  have "ov_ok NewOverview" by (simp add: ov_ok_def ov_counted_def NewOverview_def)
  from ov_run_ok [OF this assms(1)] show ?thesis unfolding assms(2) by (auto simp: ov_ok_def ov_counted_def SnapshotsEnabled_def)
qed

text \<open>Witness for \<open>overview_gate_follows_viewers\<close>: two viewers come, one leaves.\<close>
theorem overview_gate_follows_viewers_witness:
  "let o1 = fold ov_apply [OvSubscribe ''a'' (\<lambda>_. True), OvSubscribe ''b'' (\<lambda>_. True), OvUnsubscribe ''a''] NewOverview in
   ovViewers o1 = int (length (ovSubs o1)) \<and>
    (case ovControl o1 of [] \<Rightarrow> False | b # _ \<Rightarrow> b) = (ovSubs o1 \<noteq> []) \<and> SnapshotsEnabled o1 = (ovSubs o1 \<noteq> [])"
  unfolding Let_def
  by (rule overview_gate_follows_viewers [of "[OvSubscribe ''a'' (\<lambda>_. True), OvSubscribe ''b'' (\<lambda>_. True), OvUnsubscribe ''a'']"]) code_simp+

subsection \<open>Concurrent callers\<close>

text \<open>
  The program counters of the calls: between two critical sections, sending to the subscribers one
  by one, and the three parts of \<open>applyGate\<close> (about to take \<open>controlMu\<close>, holding it, and holding it
  with the viewer count read). \<open>Gate k\<close> continues as \<open>k\<close>.
\<close>

datatype ov_pc =
    RecvStart ovSnapshot | RecvSend ovSnapshot "string list" "string list"
  | SubStart string | SubReplay string "ovSnapshot list" | UnsubStart string | DropStart string
  | Gate ov_pc | GateLocked ov_pc | GateRead bool ov_pc | Done

inductive ov_step :: "overview \<times> ov_pc \<Rightarrow> overview \<times> ov_pc \<times> ov_pc list \<Rightarrow> bool" where
  recv_copy: "mset subs = mset (ovSubs o1) \<Longrightarrow> ov_step (o1, RecvStart s) (recv_store s o1, RecvSend s subs [], [])"
| send_ok: "ov_step (o1, RecvSend s (x # xs) failed) (o1, RecvSend s xs failed, [])"
| send_fail: "ov_step (o1, RecvSend s (x # xs) failed) (o1, RecvSend s xs (failed @ [x]), [])"
| recv_end: "ov_step (o1, RecvSend s [] []) (o1, Done, [])"
| recv_drop: "failed \<noteq> [] \<Longrightarrow> ov_step (o1, RecvSend s [] failed) (drop_failed failed o1, Gate Done, [])"
| subscribe: "mset replay = mset (m_vals (ovLatest o1)) \<Longrightarrow>
    ov_step (o1, SubStart x) (sub_add x o1, Gate (SubReplay x replay), [])"
| replay_ok: "ov_step (o1, SubReplay x (s # ss)) (o1, SubReplay x ss, [])"
| replay_fail: "ov_step (o1, SubReplay x (s # ss)) (sub_drop x o1, Gate Done, [])"
| replay_end: "ov_step (o1, SubReplay x []) (o1, Done, [])"
| unsub: "x \<in> set (ovSubs o1) \<Longrightarrow> ov_step (o1, UnsubStart x) (sub_drop x o1, Gate Done, [])"
| unsub_absent: "x \<notin> set (ovSubs o1) \<Longrightarrow> ov_step (o1, UnsubStart x) (o1, Done, [])"
| drop: "ov_step (o1, DropStart i) (DropSession i o1, Done, [])"
| gate_lock: "\<not> ovCtlLocked o1 \<Longrightarrow> ov_step (o1, Gate k) (o1\<lparr>ovCtlLocked := True\<rparr>, GateLocked k, [])"
| gate_read: "ov_step (o1, GateLocked k) (o1, GateRead (gate_want o1) k, [])"
| gate_apply: "ov_step (o1, GateRead want k) ((gate_set want o1)\<lparr>ovCtlLocked := False\<rparr>, k, [])"

inductive_cases ov_step_elim: "ov_step (o1, pc) c"

fun in_gate :: "ov_pc \<Rightarrow> bool" where
  "in_gate (Gate k) = True" | "in_gate (GateLocked k) = True" | "in_gate (GateRead w k) = True" | "in_gate _ = False"

fun holds_gate :: "ov_pc \<Rightarrow> bool" where
  "holds_gate (GateLocked k) = True" | "holds_gate (GateRead w k) = True" | "holds_gate _ = False"

text \<open>What a gate call may continue as: the rest of the code after \<open>applyGate\<close>, which holds no lock.\<close>

fun gate_cont :: "ov_pc \<Rightarrow> bool" where
  "gate_cont (Gate k) \<longleftrightarrow> \<not> in_gate k"
| "gate_cont (GateLocked k) \<longleftrightarrow> \<not> in_gate k"
| "gate_cont (GateRead w k) \<longleftrightarrow> \<not> in_gate k"
| "gate_cont _ \<longleftrightarrow> True"

text \<open>A program counter that is going to set the gate to what the viewer count wants.\<close>

fun will_fix :: "bool \<Rightarrow> ov_pc \<Rightarrow> bool" where
  "will_fix want (Gate k) = True" | "will_fix want (GateLocked k) = True" | "will_fix want (GateRead w k) = (w = want)"
| "will_fix want _ = False"

definition gate_inv :: "overview \<times> ov_pc list \<Rightarrow> bool" where
  "gate_inv c \<longleftrightarrow> (case c of (o1, pcs) \<Rightarrow>
     list_all gate_cont pcs \<and>
     length (filter holds_gate pcs) = (if ovCtlLocked o1 then 1 else 0) \<and>
     ovLastEnabled o1 = (case ovControl o1 of [] \<Rightarrow> False | b # _ \<Rightarrow> b) \<and>
     (list_ex (will_fix (gate_want o1)) pcs \<or> \<not> list_ex in_gate pcs \<and> ovLastEnabled o1 = gate_want o1))"

lemma not_in_gate [simp]: "\<not> in_gate k \<Longrightarrow> \<not> holds_gate k" "\<not> in_gate k \<Longrightarrow> \<not> will_fix w k" "\<not> in_gate k \<Longrightarrow> gate_cont k"
  by (cases k; simp)+

lemma holds_in_gate: "holds_gate k \<Longrightarrow> in_gate k"
  by (cases k) simp_all

lemma waiting_will_fix: "filter holds_gate pcs = [] \<Longrightarrow> list_ex in_gate pcs \<Longrightarrow> list_ex (will_fix w) pcs"
proof (induction pcs)
  case (Cons pc pcs)
  then show ?case by (cases pc) (auto split: if_splits)
qed simp

lemma gate_set_simps [simp]:
  "gate_want (gate_set w o1) = gate_want o1" "ovLastEnabled (gate_set w o1) = w" "ovCtlLocked (gate_set w o1) = ovCtlLocked o1"
  "gate_want (o1\<lparr>ovCtlLocked := b\<rparr>) = gate_want o1"
  "ovLastEnabled o1 = (case ovControl o1 of [] \<Rightarrow> False | b # _ \<Rightarrow> b) \<Longrightarrow>
   (case ovControl (gate_set w o1) of [] \<Rightarrow> False | b # _ \<Rightarrow> b) = w"
  by (auto simp: gate_set_def gate_want_def)

lemma gate_inv_step:
  assumes "gate_inv (o1, pcs1 @ pc # pcs2)" "ov_step (o1, pc) (o2, pc', new)"
  shows "gate_inv (o2, pcs1 @ pc' # pcs2 @ new)"
  using assms(2,1)
proof (cases rule: ov_step.cases)
  case (gate_apply want)
  from assms(1) gate_apply have other: "filter holds_gate (pcs1 @ pcs2) = []" "\<not> in_gate pc'"
    by (auto simp: gate_inv_def split: if_splits)
  from assms(1) gate_apply have "list_ex (will_fix (gate_want o1)) (pcs1 @ pcs2) \<or> want = gate_want o1"
    by (auto simp: gate_inv_def)
  moreover have "\<not> list_ex in_gate (pcs1 @ pcs2) \<or> list_ex (will_fix (gate_want o1)) (pcs1 @ pcs2)"
    using waiting_will_fix other(1) by blast
  ultimately have "list_ex (will_fix (gate_want o2)) (pcs1 @ pc' # pcs2) \<or>
      \<not> list_ex in_gate (pcs1 @ pc' # pcs2) \<and> ovLastEnabled o2 = gate_want o2"
    using gate_apply other(2) by auto
  then show ?thesis using assms(1) gate_apply other by (simp add: gate_inv_def)
qed (auto simp: gate_inv_def ov_defs DropSession_def split: if_splits)

lemma gate_available:
  assumes "gate_inv (o1, pcs)" "list_ex in_gate pcs"
  shows "\<exists>pc \<in> set pcs. in_gate pc \<and> (ovCtlLocked o1 \<longrightarrow> holds_gate pc)"
proof (cases "ovCtlLocked o1")
  case True
  then have "filter holds_gate pcs \<noteq> []" using assms(1) by (auto simp: gate_inv_def)
  then show ?thesis using holds_in_gate by (auto simp: filter_empty_conv)
qed (use assms(2) in \<open>auto simp: list_ex_iff\<close>)

lemma gate_inv_init:
  assumes "\<not> list_ex in_gate pcs"
  shows "gate_inv (NewOverview, pcs)"
proof -
  have "filter holds_gate pcs = []" using assms holds_in_gate by (auto simp: list_ex_iff filter_empty_conv)
  moreover have "list_all gate_cont pcs" using assms by (auto simp: list_ex_iff list_all_iff)
  ultimately show ?thesis using assms by (simp add: gate_inv_def NewOverview_def gate_want_def)
qed

text \<open>
  Gate commands are never left in the wrong order. However the critical sections of any number
  of concurrent calls interleave, once no call is inside \<open>applyGate\<close> any more, the last command
  given to the agents agrees with the viewer count; and while calls are inside, one of them can
  proceed.
\<close>
theorem overview_gate_settles:
  assumes "(par_step ov_step)\<^sup>*\<^sup>* (NewOverview, pcs0) (o1, pcs)" "\<not> list_ex in_gate pcs0"
  shows "if list_ex in_gate pcs then \<exists>pc o2 pc'. pc \<in> set pcs \<and> in_gate pc \<and> ov_step (o1, pc) (o2, pc', [])
    else (case ovControl o1 of [] \<Rightarrow> False | b # _ \<Rightarrow> b) = SnapshotsEnabled o1"
proof -
  have "gate_inv (NewOverview, pcs0)" using assms(2) by (rule gate_inv_init)
  then have inv: "gate_inv (o1, pcs)" by (rule par_invariant [OF assms(1)]) (rule gate_inv_step)
  show ?thesis
  proof (cases "list_ex in_gate pcs")
    case False
    then have "\<not> list_ex (will_fix w) pcs" for w by (auto simp: list_ex_iff)
    then show ?thesis using False inv by (auto simp: gate_inv_def SnapshotsEnabled_def gate_want_def)
  next
    case True
    then obtain pc where pc: "pc \<in> set pcs" "in_gate pc" "ovCtlLocked o1 \<longrightarrow> holds_gate pc"
      using gate_available [OF inv] by blast
    have "\<exists>o2 pc'. ov_step (o1, pc) (o2, pc', [])"
      using pc(2,3) by (cases pc) (auto intro: ov_step.intros)
    then show ?thesis using True pc by auto
  qed
qed

text \<open>The step of a program counter as a function; the choice is the outcome of a send.\<close>

fun ov_fun :: "bool \<Rightarrow> overview \<times> ov_pc \<Rightarrow> (overview \<times> ov_pc \<times> ov_pc list) option" where
  "ov_fun ok (o1, RecvStart s) = Some (recv_store s o1, RecvSend s (ovSubs o1) [], [])"
| "ov_fun ok (o1, RecvSend s (x # xs) failed) = Some (o1, RecvSend s xs (if ok then failed else failed @ [x]), [])"
| "ov_fun ok (o1, RecvSend s [] failed) =
     (if failed = [] then Some (o1, Done, []) else Some (drop_failed failed o1, Gate Done, []))"
| "ov_fun ok (o1, SubStart x) = Some (sub_add x o1, Gate (SubReplay x (m_vals (ovLatest o1))), [])"
| "ov_fun ok (o1, SubReplay x (s # ss)) = (if ok then Some (o1, SubReplay x ss, []) else Some (sub_drop x o1, Gate Done, []))"
| "ov_fun ok (o1, SubReplay x []) = Some (o1, Done, [])"
| "ov_fun ok (o1, UnsubStart x) = (if x \<in> set (ovSubs o1) then Some (sub_drop x o1, Gate Done, []) else Some (o1, Done, []))"
| "ov_fun ok (o1, DropStart i) = Some (DropSession i o1, Done, [])"
| "ov_fun ok (o1, Gate k) = (if ovCtlLocked o1 then None else Some (o1\<lparr>ovCtlLocked := True\<rparr>, GateLocked k, []))"
| "ov_fun ok (o1, GateLocked k) = Some (o1, GateRead (gate_want o1) k, [])"
| "ov_fun ok (o1, GateRead want k) = Some ((gate_set want o1)\<lparr>ovCtlLocked := False\<rparr>, k, [])"
| "ov_fun ok (o1, Done) = None"

lemma ov_fun_step: "ov_fun ok (o1, pc) = Some (o2, pc', new) \<Longrightarrow> ov_step (o1, pc) (o2, pc', new)"
  by (induction ok "(o1, pc)" rule: ov_fun.induct) (auto intro: ov_step.intros split: if_splits)

lemma ov_exec_reachable: "par_exec ov_fun sched c = Some c' \<Longrightarrow> (par_step ov_step)\<^sup>*\<^sup>* c c'"
  by (rule par_exec_reachable [where f = ov_fun]) (rule ov_fun_step)

text \<open>Witness for \<open>overview_gate_settles\<close>: a subscription in progress, its gate call holding the lock.\<close>
theorem overview_gate_settles_witness:
  "\<exists>pc o2 pc'. pc \<in> set [GateLocked (SubReplay ''a'' [])] \<and> in_gate pc \<and>
     ov_step ((sub_add ''a'' NewOverview)\<lparr>ovCtlLocked := True\<rparr>, pc) (o2, pc', [])"
proof -
  have "(par_step ov_step)\<^sup>*\<^sup>* (NewOverview, [SubStart ''a''])
      ((sub_add ''a'' NewOverview)\<lparr>ovCtlLocked := True\<rparr>, [GateLocked (SubReplay ''a'' [])])"
    by (rule ov_exec_reachable [of "[(0, True), (0, True)]"]) code_simp
  from overview_gate_settles [OF this] show ?thesis by simp
qed

text \<open>
  A viewer can be counted out twice. When a browser's connection breaks while a snapshot is being
  fanned out, its handler unsubscribes it and the fan-out drops it as failed: the count goes down
  by two. The other browser is still subscribed, but the count is zero and the agents are told to
  stop producing snapshots, with no call in progress that would repair it.
\<close>
theorem overview_double_drop:
  "\<exists>o1. (par_step ov_step)\<^sup>*\<^sup>* (NewOverview, [SubStart ''a'', SubStart ''b'', RecvStart s, UnsubStart ''a''])
     (o1, [Done, Done, Done, Done]) \<and> ovSubs o1 = [''b''] \<and> \<not> SnapshotsEnabled o1 \<and> hd (ovControl o1) = False"
proof -
  let ?sched = "map (\<lambda>i. (i, True)) (replicate 5 0 @ replicate 5 1 @ [2, 3] @ replicate 3 3) @
    [(2, True), (2, False), (2, True), (2, True), (2, True), (2, True)]"
  let ?c = "(NewOverview, [SubStart ''a'', SubStart ''b'', RecvStart s, UnsubStart ''a''])"
  have "case par_exec ov_fun ?sched ?c of None \<Rightarrow> False
    | Some (o1, pcs) \<Rightarrow> pcs = [Done, Done, Done, Done] \<and> ovSubs o1 = [''b''] \<and> ovViewers o1 = 0 \<and> hd (ovControl o1) = False"
    by (simp add: eval_nat_numeral NewOverview_def ov_defs m_vals_def)
  then show ?thesis using ov_exec_reachable [of ?sched ?c]
    by (auto simp: SnapshotsEnabled_def split: option.splits)
qed

end
