(* ===== verification/Agent_Endpoint.thy ===== *)
theory Agent_Endpoint
  imports Agent_Link Enroll_App Overview_App
begin

text \<open>
  The hub's endpoint for agents, \<^verbatim>\<open>internal/hub/adapter/primary/wsagent\<close>: the handshake, the control
  loop and the teardown of a connection, over the connection registry, the registry and sessions use
  cases (on the in-memory store) and the overview.

  \<^item> \<open>handleControl\<close> is a goroutine per connection: \<open>ep_step\<close> is one of its steps, and the steps of
    all connections interleave. The reconciliation after a restart is a goroutine of its own.
  \<^item> The frames an agent sends, the end of its stream and the success of writes are up to the
    environment. Reading frames off the stream, the multiplexer and the WebSocket are not modelled.
\<close>

subsection \<open>Admission\<close>

definition extractBearer :: "string \<Rightarrow> string" where
  "extractBearer header =
     (let prefix = ''Bearer '' in
      if length header \<le> length prefix then []
      else if take (length prefix) header \<noteq> prefix then []
      else drop (length prefix) header)"

text \<open>The handshake: the greeting it accepts, or the error code sent back (none if the frame is broken).\<close>

definition admitHello :: "string \<Rightarrow> 'f agentFrame \<Rightarrow> string option + Hello" where
  "admitHello authMachineID frame = (case frame of
     FHello hello \<Rightarrow>
       if \<not> ProtocolSupported (heProtocolVersion hello) then Inl (Some ''unsupported_protocol'')
       else if authMachineID \<noteq> [] \<and> authMachineID \<noteq> heMachineID hello then Inl (Some ''machine_id_mismatch'')
       else Inr hello
   | FUndecodable TypeHello \<Rightarrow> Inl None
   | _ \<Rightarrow> Inl (Some ''expected_hello''))"

text \<open>The bearer token of the request, authenticated by the enrolment use case.\<close>

definition endpoint_auth :: "(byte list \<Rightarrow> string \<Rightarrow> byte list \<Rightarrow> bool) \<Rightarrow> string \<Rightarrow> enroll_world \<Rightarrow> string result" where
  "endpoint_auth verify header w = Authenticate verify (extractBearer header) w"

subsection \<open>State and frames\<close>

record ('f, 'g) hub =
  huLinks :: "'f links"
  huEnroll :: enroll_world
  huSessions :: "(sessionStore, 'g) sessions_world"
  huOverview :: overview

fun recordStats :: "SessionStat list \<Rightarrow> (sessionStore, 'g) sessions_world \<Rightarrow> (sessionStore, 'g) sessions_world" where
  "recordStats [] w = w"
| "recordStats (stat # stats) w =
     recordStats stats (if stActivity stat = [] \<and> stPwd stat = [] then w
       else snd (uc_RecordStat memory_port (stID stat) (stActivity stat) (stPwd stat) w))"

definition handleFrame :: "nat \<Rightarrow> Hello \<Rightarrow> 'f agentFrame \<Rightarrow> ('f, 'g) hub \<Rightarrow> ('f, 'g) hub" where
  "handleFrame c hello frame h = (case frame of
     FHeartbeat hb \<Rightarrow>
       (let h1 = h\<lparr>huEnroll := snd (Heartbeat (heMachineID hello) (huEnroll h))\<rparr>;
            h2 = (case hbMetrics hb of None \<Rightarrow> h1 | Some m \<Rightarrow> h1\<lparr>huLinks := UpdateMetrics (heMachineID hello) m (huLinks h1)\<rparr>)
        in h2\<lparr>huSessions := recordStats (hbSessions hb) (huSessions h2)\<rparr>)
   | FUndecodable TypeHeartbeat \<Rightarrow> h\<lparr>huEnroll := snd (Heartbeat (heMachineID hello) (huEnroll h))\<rparr>
   | FSessionOpened msg \<Rightarrow> h\<lparr>huLinks := ResolveOpen c (soSessionID msg) (Inr (soPID msg)) (huLinks h)\<rparr>
   | FError msg \<Rightarrow>
       if emSessionID msg \<noteq> [] then h\<lparr>huLinks := ResolveOpen c (emSessionID msg) (Inl (ErrOpenRejected (emCode msg))) (huLinks h)\<rparr>
       else h
   | FSessionExited msg \<Rightarrow>
       h\<lparr>huSessions := snd (uc_MarkExited memory_port (sxSessionID msg) (sxExitCode msg) (huSessions h)),
         huOverview := DropSession (sxSessionID msg) (huOverview h)\<rparr>
   | _ \<Rightarrow> h)"

subsection \<open>The goroutines\<close>

definition registerInput_of :: "Hello \<Rightarrow> registerInput" where
  "registerInput_of hello = \<lparr>riMachineID = heMachineID hello, riInstanceID = heInstanceID hello, riName = heName hello,
     riOS = heOS hello, riArch = heArch hello, riAgentVersion = heAgentVersion hello\<rparr>"

datatype ep_pc =
    EpAdd Hello | EpRegister nat Hello | EpRestore nat Hello | EpSnaps nat Hello | EpLoop nat Hello | EpGone nat Hello
  | EpMark Hello | EpReconcile string | EpRelaunch string int "hsession list" | EpRelaunched string int hsession bool "hsession list"
  | EpDone

definition ep_add :: "int \<Rightarrow> Hello \<Rightarrow> ('f, 'g) hub \<Rightarrow> nat \<times> ('f, 'g) hub" where
  "ep_add t hello h = (case NewConn (heMachineID hello) t (huLinks h) of
     (c, k) \<Rightarrow> (c, h\<lparr>huLinks := lk_Add (heMachineID hello) c k\<rparr>))"

text \<open>Running a sessions operation; errors are logged only.\<close>

definition on_sessions :: "((sessionStore, 'g) sessions_world \<Rightarrow> 'r \<times> (sessionStore, 'g) sessions_world) \<Rightarrow> ('f, 'g) hub \<Rightarrow> ('f, 'g) hub" where
  "on_sessions f h = h\<lparr>huSessions := snd (f (huSessions h))\<rparr>"

inductive ep_step :: "'g agent_gateway \<Rightarrow> ('f, 'g) hub \<times> ep_pc \<Rightarrow> ('f, 'g) hub \<times> ep_pc \<times> ep_pc list \<Rightarrow> bool" for g where
  add: "ep_add t hello h = (c, h') \<Longrightarrow> ep_step g (h, EpAdd hello) (h', EpRegister c hello, [])"
| register_fail: "Register (registerInput_of hello) (huEnroll h) = (Inl err, w) \<Longrightarrow>
    ep_step g (h, EpRegister c hello) (h\<lparr>huEnroll := w\<rparr>, EpGone c hello, [])"
| register_restart: "Register (registerInput_of hello) (huEnroll h) = (Inr (m, True), w) \<Longrightarrow>
    ep_step g (h, EpRegister c hello) (h\<lparr>huEnroll := w\<rparr>, EpSnaps c hello, [EpReconcile (heMachineID hello)])"
| register_same: "Register (registerInput_of hello) (huEnroll h) = (Inr (m, False), w) \<Longrightarrow>
    ep_step g (h, EpRegister c hello) (h\<lparr>huEnroll := w\<rparr>, EpRestore c hello, [])"
| restore: "ep_step g (h, EpRestore c hello)
    (on_sessions (uc_RestoreMachineSessions memory_port (heMachineID hello)) h, EpSnaps c hello, [])"
| snaps: "ep_step g (h, EpSnaps c hello)
    (if SnapshotsEnabled (huOverview h) then h\<lparr>huLinks := snd (EnableSnaps ok c True (huLinks h))\<rparr> else h, EpLoop c hello, [])"
| frame: "ep_step g (h, EpLoop c hello) (handleFrame c hello fr h, EpLoop c hello, [])"
| eof: "ep_step g (h, EpLoop c hello) (h, EpGone c hello, [])"
| gone_current: "lk_RemoveIf (heMachineID hello) c (huLinks h) = (True, k) \<Longrightarrow>
    ep_step g (h, EpGone c hello) (h\<lparr>huLinks := k\<rparr>, EpMark hello, [])"
| gone_replaced: "lk_RemoveIf (heMachineID hello) c (huLinks h) = (False, k) \<Longrightarrow> ep_step g (h, EpGone c hello) (h, EpDone, [])"
| mark: "ep_step g (h, EpMark hello) (on_sessions (uc_MarkMachineDisconnected memory_port (heMachineID hello)) h, EpDone, [])"
| reconcile: "spAutoRelaunchSessions memory_port m (swStore (huSessions h)) = Inr revivals \<Longrightarrow>
    ep_step g (h, EpReconcile m) (h, EpRelaunch m (swNow (huSessions h)) revivals, [])"
| reconcile_fallback: "spAutoRelaunchSessions memory_port m (swStore (huSessions h)) = Inl err \<Longrightarrow>
    ep_step g (h, EpReconcile m)
      (on_sessions (store_step (spMarkRunningLost memory_port m (swNow (huSessions h)))) h, EpDone, [])"
| relaunch: "gwOpenSession g m (sId s) (sCwd s) (sShell s) 80 24 False True (swGateway (huSessions h)) = (res, gw) \<Longrightarrow>
    ep_step g (h, EpRelaunch m ts (s # ss))
      (h\<lparr>huSessions := (huSessions h)\<lparr>swGateway := gw\<rparr>\<rparr>, EpRelaunched m ts s (\<exists>pid. res = Inr pid) ss, [])"
| relaunched_ok: "ep_step g (h, EpRelaunched m ts s True ss)
    (on_sessions (\<lambda>w. ((), sw_record ActionRelaunch m (sId s) [] (snd (store_step (spSetRunning memory_port (sId s)) w)))) h,
     EpRelaunch m ts ss, [])"
| relaunched_fail: "ep_step g (h, EpRelaunched m ts s False ss)
    (on_sessions (store_step (spSetLost memory_port (sId s) ts)) h, EpRelaunch m ts ss, [])"
| relaunch_end: "ep_step g (h, EpRelaunch m ts [])
    (on_sessions (store_step (spMarkRunningLost memory_port m ts)) h, EpDone, [])"

inductive_cases ep_step_elim: "ep_step g (h, pc) c"

subsection \<open>The registry follows the goroutines\<close>

text \<open>The connection a goroutine serves, from its registration to its removal.\<close>

fun serves :: "ep_pc \<Rightarrow> (nat \<times> string) option" where
  "serves (EpRegister c hello) = Some (c, heMachineID hello)"
| "serves (EpRestore c hello) = Some (c, heMachineID hello)"
| "serves (EpSnaps c hello) = Some (c, heMachineID hello)"
| "serves (EpLoop c hello) = Some (c, heMachineID hello)"
| "serves (EpGone c hello) = Some (c, heMachineID hello)"
| "serves _ = None"

definition served :: "ep_pc list \<Rightarrow> (nat \<times> string) list" where
  "served pcs = List.map_filter serves pcs"

text \<open>
  Every registered connection is served; a served connection was created for its machine, one
  goroutine serves it, and it is registered unless a newer one for that machine was created.
  \<open>ms\<close> lists the machines of all connections ever made.
\<close>

definition registry_ok :: "nat gomap \<Rightarrow> string list \<Rightarrow> (nat \<times> string) list \<Rightarrow> bool" where
  "registry_ok conns ms sv \<longleftrightarrow>
     (\<forall>m c. m_get conns m = Some c \<longrightarrow> (c, m) \<in> set sv) \<and> distinct (map fst sv) \<and>
     (\<forall>c m. (c, m) \<in> set sv \<longrightarrow> c < length ms \<and> ms ! c = m \<and>
        (m_get conns m = Some c \<or> (\<exists>c' > c. c' < length ms \<and> ms ! c' = m)))"

definition machines_of :: "('f, 'g) hub \<Rightarrow> string list" where
  "machines_of h = map cnMachineID (lkHeap (huLinks h))"

definition registry_inv :: "('f, 'g) hub \<times> ep_pc list \<Rightarrow> bool" where
  "registry_inv cf \<longleftrightarrow> (case cf of (h, pcs) \<Rightarrow> registry_ok (lkConns (huLinks h)) (machines_of h) (served pcs))"

lemma served_simps [simp]:
  "served [] = []" "served (pc # pcs) = (case serves pc of None \<Rightarrow> served pcs | Some x \<Rightarrow> x # served pcs)"
  "served (xs @ ys) = served xs @ served ys"
  by (auto simp: served_def List.map_filter_def split: option.split)

definition superseded :: "string list \<Rightarrow> nat \<Rightarrow> string \<Rightarrow> bool" where
  "superseded ms c m \<longleftrightarrow> (\<exists>c' > c. c' < length ms \<and> ms ! c' = m)"

lemma registry_okI:
  assumes "\<And>m c. m_get conns m = Some c \<Longrightarrow> (c, m) \<in> set sv" "distinct (map fst sv)"
    and "\<And>c m. (c, m) \<in> set sv \<Longrightarrow> c < length ms \<and> ms ! c = m \<and> (m_get conns m = Some c \<or> superseded ms c m)"
  shows "registry_ok conns ms sv"
  using assms unfolding registry_ok_def superseded_def by simp

lemma registry_okD:
  assumes "registry_ok conns ms sv"
  shows "m_get conns m = Some c \<Longrightarrow> (c, m) \<in> set sv" "distinct (map fst sv)"
    "(c, m) \<in> set sv \<Longrightarrow> c < length ms \<and> ms ! c = m \<and> (m_get conns m = Some c \<or> superseded ms c m)"
  using assms unfolding registry_ok_def superseded_def by simp_all

lemma superseded_snoc: "superseded ms c m \<Longrightarrow> superseded (ms @ [x]) c m" "c < length ms \<Longrightarrow> superseded (ms @ [m]) c m"
  unfolding superseded_def by (metis length_append less_Suc_eq list.size(3,4) nth_append add.right_neutral add_Suc_right)
    (metis length_append_singleton lessI nth_append_length)

lemma registry_ok_add:
  assumes "registry_ok conns ms (a @ b)"
  shows "registry_ok (m_put m (length ms) conns) (ms @ [m]) (a @ (length ms, m) # b)"
proof (rule registry_okI)
  show "(c, x) \<in> set (a @ (length ms, m) # b)" if "m_get (m_put m (length ms) conns) x = Some c" for x c
    using that registry_okD(1) [OF assms, of x c] by (auto split: if_splits)
  have "length ms \<notin> fst ` set (a @ b)" using registry_okD(3) [OF assms] by fastforce
  then show "distinct (map fst (a @ (length ms, m) # b))" using registry_okD(2) [OF assms] by auto
next
  fix c x assume "(c, x) \<in> set (a @ (length ms, m) # b)"
  then consider "c = length ms" "x = m" | "(c, x) \<in> set (a @ b)" by auto
  then show "c < length (ms @ [m]) \<and> (ms @ [m]) ! c = x \<and>
      (m_get (m_put m (length ms) conns) x = Some c \<or> superseded (ms @ [m]) c x)"
  proof cases
    case 2
    then show ?thesis using registry_okD(3) [OF assms 2] superseded_snoc by (cases "x = m") (auto simp: nth_append)
  qed simp
qed

lemma registry_ok_gone:
  assumes "registry_ok conns ms (a @ (c, m) # b)"
  shows "registry_ok (if m_get conns m = Some c then m_del m conns else conns) ms (a @ b)"
proof (rule registry_okI)
  show "(x, y) \<in> set (a @ b)" if "m_get (if m_get conns m = Some c then m_del m conns else conns) y = Some x" for x y
  proof -
    have "m_get conns y = Some x" "(x, y) \<noteq> (c, m)" using that by (auto split: if_splits)
    then show ?thesis using registry_okD(1) [OF assms, of y x] by auto
  qed
  show "distinct (map fst (a @ b))" using registry_okD(2) [OF assms] by auto
next
  fix x y assume xy: "(x, y) \<in> set (a @ b)"
  then have "x \<noteq> c" using registry_okD(2) [OF assms] by force
  moreover have "(x, y) \<in> set (a @ (c, m) # b)" using xy by auto
  ultimately show "x < length ms \<and> ms ! x = y \<and>
      (m_get (if m_get conns m = Some c then m_del m conns else conns) y = Some x \<or> superseded ms x y)"
    using registry_okD(3) [OF assms, of x y] by auto
qed

lemma map_update_same: "f x = f (xs ! c) \<Longrightarrow> map f (xs[c := x]) = map f xs"
  by (cases "c < length xs") (simp_all add: map_update list_update_same_conv list_update_beyond)

lemma frame_links [simp]:
  "lkConns (ResolveOpen c i res k) = lkConns k" "map cnMachineID (lkHeap (ResolveOpen c i res k)) = map cnMachineID (lkHeap k)"
  "lkConns (UpdateMetrics m x k) = lkConns k" "map cnMachineID (lkHeap (UpdateMetrics m x k)) = map cnMachineID (lkHeap k)"
  "lkConns (snd (EnableSnaps ok c b k)) = lkConns k" "lkHeap (snd (EnableSnaps ok c b k)) = lkHeap k"
  by (simp_all add: link_defs Let_def map_update_same split: option.split)

lemma handleFrame_links [simp]:
  "lkConns (huLinks (handleFrame c hello fr h)) = lkConns (huLinks h)" "machines_of (handleFrame c hello fr h) = machines_of h"
  by (auto simp: handleFrame_def machines_of_def Let_def split: agentFrame.split MessageType.split option.split)

lemma registry_inv_step:
  assumes "registry_inv (h, pcs1 @ pc # pcs2)" "ep_step g (h, pc) (h', pc', new)"
  shows "registry_inv (h', pcs1 @ pc' # pcs2 @ new)"
  using assms(2,1)
proof (cases rule: ep_step.cases)
  case (add t hello c)
  then show ?thesis using assms(1) registry_ok_add [of _ "machines_of h"]
    by (auto simp: registry_inv_def ep_add_def NewConn_def lk_Add_def machines_of_def)
next
  case (gone_current hello c k)
  then show ?thesis using assms(1) registry_ok_gone [of "lkConns (huLinks h)" "machines_of h" "served pcs1" c "heMachineID hello"]
    by (auto simp: registry_inv_def lk_RemoveIf_def machines_of_def split: if_splits)
next
  case (gone_replaced hello c k)
  then show ?thesis using assms(1) registry_ok_gone [of "lkConns (huLinks h)" "machines_of h" "served pcs1" c "heMachineID hello"]
    by (auto simp: registry_inv_def lk_RemoveIf_def machines_of_def split: if_splits)
qed (auto simp: registry_inv_def on_sessions_def machines_of_def [of "_\<lparr>huEnroll := _\<rparr>"] machines_of_def [of "_\<lparr>huSessions := _\<rparr>"]
    machines_of_def [of "_\<lparr>huLinks := _\<rparr>"] machines_of_def [of h])

text \<open>
  C29: the registry follows the connections. However the connections of all machines come, go and
  overlap, a machine is registered only with a connection that a goroutine is serving, and the
  newest connection of a machine stays registered as long as it is served: tearing down an older
  connection never removes it.
\<close>
theorem registry_follows_connections:
  assumes "(par_step (ep_step g))\<^sup>*\<^sup>* (h0, map EpAdd hellos) (h, pcs)" "huLinks h0 = NewRegistry"
  shows "(\<forall>m c. lk_Get m (huLinks h) = Some c \<longrightarrow> (\<exists>pc \<in> set pcs. serves pc = Some (c, m))) \<and>
    (\<forall>pc \<in> set pcs. \<forall>c m. serves pc = Some (c, m) \<longrightarrow> \<not> superseded (machines_of h) c m \<longrightarrow> lk_Get m (huLinks h) = Some c)"
proof -
  have "served (map EpAdd hellos) = []" by (induction hellos) simp_all
  then have "registry_inv (h0, map EpAdd hellos)"
    using assms(2) by (simp add: registry_inv_def registry_ok_def NewRegistry_def)
  then have "registry_inv (h, pcs)" by (rule par_invariant [OF assms(1)]) (rule registry_inv_step)
  then have ok: "registry_ok (lkConns (huLinks h)) (machines_of h) (served pcs)" by (simp add: registry_inv_def)
  have "(c, m) \<in> set (served pcs) \<longleftrightarrow> (\<exists>pc \<in> set pcs. serves pc = Some (c, m))" for c m
    by (force simp: served_def List.map_filter_def)
  then have sv: "(\<exists>pc \<in> set pcs. serves pc = Some (c, m)) = ((c, m) \<in> set (served pcs))" for c m by blast
  show ?thesis
  proof (intro conjI allI impI ballI)
    fix m c assume "lk_Get m (huLinks h) = Some c"
    then show "\<exists>pc \<in> set pcs. serves pc = Some (c, m)" unfolding sv lk_Get_def by (rule registry_okD(1) [OF ok])
  next
    fix pc c m assume "pc \<in> set pcs" "serves pc = Some (c, m)" "\<not> superseded (machines_of h) c m"
    then show "lk_Get m (huLinks h) = Some c" using registry_okD(3) [OF ok, of c m] sv [of c m] unfolding lk_Get_def by blast
  qed
qed

subsection \<open>Concrete runs\<close>

text \<open>The step of a goroutine as a function; the choice is the next frame, or the end of the stream.\<close>

fun ep_fun :: "'g agent_gateway \<Rightarrow> 'f agentFrame option \<Rightarrow> ('f, 'g) hub \<times> ep_pc \<Rightarrow> (('f, 'g) hub \<times> ep_pc \<times> ep_pc list) option" where
  "ep_fun g ch (h, EpAdd hello) = (case ep_add 0 hello h of (c, h') \<Rightarrow> Some (h', EpRegister c hello, []))"
| "ep_fun g ch (h, EpRegister c hello) = (case Register (registerInput_of hello) (huEnroll h) of
     (Inl err, w) \<Rightarrow> Some (h\<lparr>huEnroll := w\<rparr>, EpGone c hello, [])
   | (Inr (m, r), w) \<Rightarrow> if r then Some (h\<lparr>huEnroll := w\<rparr>, EpSnaps c hello, [EpReconcile (heMachineID hello)])
       else Some (h\<lparr>huEnroll := w\<rparr>, EpRestore c hello, []))"
| "ep_fun g ch (h, EpRestore c hello) =
     Some (on_sessions (uc_RestoreMachineSessions memory_port (heMachineID hello)) h, EpSnaps c hello, [])"
| "ep_fun g ch (h, EpSnaps c hello) =
     Some (if SnapshotsEnabled (huOverview h) then h\<lparr>huLinks := snd (EnableSnaps True c True (huLinks h))\<rparr> else h, EpLoop c hello, [])"
| "ep_fun g (Some fr) (h, EpLoop c hello) = Some (handleFrame c hello fr h, EpLoop c hello, [])"
| "ep_fun g None (h, EpLoop c hello) = Some (h, EpGone c hello, [])"
| "ep_fun g ch (h, EpGone c hello) = (case lk_RemoveIf (heMachineID hello) c (huLinks h) of
     (True, k) \<Rightarrow> Some (h\<lparr>huLinks := k\<rparr>, EpMark hello, []) | (False, k) \<Rightarrow> Some (h, EpDone, []))"
| "ep_fun g ch (h, EpMark hello) =
     Some (on_sessions (uc_MarkMachineDisconnected memory_port (heMachineID hello)) h, EpDone, [])"
| "ep_fun g ch (h, _) = None"

lemma ep_fun_step: "ep_fun g ch (h, pc) = Some (h', pc', new) \<Longrightarrow> ep_step g (h, pc) (h', pc', new)"
proof (cases pc)
  case (EpLoop c hello)
  moreover assume "ep_fun g ch (h, pc) = Some (h', pc', new)"
  ultimately show ?thesis by (cases ch) (auto intro: ep_step.intros)
next
  case (EpSnaps c hello)
  moreover assume "ep_fun g ch (h, pc) = Some (h', pc', new)"
  ultimately show ?thesis using snaps [of g h c hello True] by simp
qed (auto intro: ep_step.intros split: prod.splits sum.splits if_splits bool.splits)

lemma ep_exec_reachable: "par_exec (ep_fun g) sched c = Some c' \<Longrightarrow> (par_step (ep_step g))\<^sup>*\<^sup>* c c'"
  by (rule par_exec_reachable [where f = "ep_fun g"]) (rule ep_fun_step)

definition demoHello :: Hello where
  "demoHello = \<lparr>heMachineID = ''m1'', heInstanceID = ''i1'', heName = [], heOS = [], heArch = [], heAgentVersion = [],
     heProtocolVersion = ProtocolVersion\<rparr>"

definition demoHub :: "(int, unit) hub" where
  "demoHub = \<lparr>huLinks = NewRegistry,
     huEnroll = \<lparr>ewTokens = [], ewCreds = [], ewMachines = [], ewAudit = [], ewNow = 10, ewActor = None\<rparr>,
     huSessions = \<lparr>swStore = [(''s1'', NewHubSession ''s1'' ''m1'' [] [] [] [] 5)], swGateway = (), swAudit = [], swNow = 10, swActor = None\<rparr>,
     huOverview = NewOverview\<rparr>"

definition noGateway :: "unit agent_gateway" where
  "noGateway = \<lparr>gwOpenSession = (\<lambda>_ _ _ _ _ _ _ _ g. (Inl ErrMachineOffline, g)), gwCloseSession = (\<lambda>_ _ g. (Inl ErrMachineOffline, g))\<rparr>"

text \<open>Witness for \<open>registry_follows_connections\<close>: a machine that has just connected.\<close>
theorem registry_follows_connections_witness:
  "\<exists>h. (par_step (ep_step noGateway))\<^sup>*\<^sup>* (demoHub, [EpAdd demoHello]) (h, [EpRegister 0 demoHello]) \<and>
     lk_Get ''m1'' (huLinks h) = Some 0"
proof -
  define h where "h = snd (ep_add 0 demoHello demoHub)"
  have "par_exec (ep_fun noGateway) [(0, None)] (demoHub, [EpAdd demoHello]) = Some (h, [EpRegister 0 demoHello])"
    by (simp add: h_def ep_add_def NewConn_def demoHub_def NewRegistry_def)
  then have r: "(par_step (ep_step noGateway))\<^sup>*\<^sup>* (demoHub, map EpAdd [demoHello]) (h, [EpRegister 0 demoHello])"
    unfolding list.map by (rule ep_exec_reachable)
  have "\<not> superseded (machines_of h) 0 ''m1''"
    by (simp add: superseded_def machines_of_def h_def ep_add_def NewConn_def lk_Add_def demoHub_def NewRegistry_def)
  then have "lk_Get ''m1'' (huLinks h) = Some 0"
    using registry_follows_connections [OF r] by (simp add: demoHub_def demoHello_def)
  then show ?thesis using r by auto
qed

text \<open>
  A reconnect can leave a machine online with its sessions disconnected. A connection that ends removes
  itself and then, in a second step, marks the machine's sessions disconnected; when the agent's
  next connection registers and restores the sessions in between, the late mark wins. The agent is
  online and served, no goroutine is left to repair it, and its running session is recorded as
  disconnected.
\<close>
theorem reconnect_disconnect_race:
  "\<exists>h. (par_step (ep_step noGateway))\<^sup>*\<^sup>* (demoHub, [EpAdd demoHello, EpAdd demoHello]) (h, [EpDone, EpLoop 1 demoHello]) \<and>
     IsOnline ''m1'' (huLinks h) \<and> map_option sStatus (m_get (swStore (huSessions h)) ''s1'') = Some SDisconnected"
proof -
  let ?sched = "map (\<lambda>i. (i, None)) [0, 0, 0, 0, 0, 0, 1, 1, 1, 1, 0]"
  let ?c = "(demoHub, [EpAdd demoHello, EpAdd demoHello])"
  have "case par_exec (ep_fun noGateway) ?sched ?c of None \<Rightarrow> False
    | Some (h, pcs) \<Rightarrow> pcs = [EpDone, EpLoop 1 demoHello] \<and> IsOnline ''m1'' (huLinks h) \<and>
        map_option sStatus (m_get (swStore (huSessions h)) ''s1'') = Some SDisconnected" by code_simp
  then show ?thesis using ep_exec_reachable [of noGateway ?sched ?c] by (auto split: option.splits)
qed

end
