(* ===== verification/Hub_Client.thy ===== *)
theory Hub_Client
  imports Snapshot_Producer Agent_Endpoint
begin

text \<open>
  The agent's side of the connection to the hub, \<^verbatim>\<open>internal/agent/adapter/primary/hubclient\<close>: the
  frames it sends and handles, the lazily opened snapshot stream, and the reconnect loop.

  \<^item> Connections are numbered. The control encoder, the multiplexer session and the snapshot stream
    each name the connection they belong to, or none.
  \<^item> Dialling, the WebSocket and the multiplexer are not modelled; whether their calls succeed is an input.
\<close>

subsection \<open>State\<close>

record 'f client =
  clCtrl :: "nat option"
  clMux :: "nat option"
  clSnap :: "nat option"
  clSent :: "(nat \<times> 'f agentFrame) list"
  clSnaps :: "(nat \<times> SessionScreen) list"

definition NewClient :: "'f client" where
  "NewClient = \<lparr>clCtrl = None, clMux = None, clSnap = None, clSent = [], clSnaps = []\<rparr>"

datatype clientError = ErrNotConnected | ErrSend

definition setCtrlEnc :: "nat \<Rightarrow> 'f client \<Rightarrow> 'f client" where
  "setCtrlEnc n c = c\<lparr>clCtrl := Some n\<rparr>"

definition clearCtrlEnc :: "'f client \<Rightarrow> 'f client" where
  "clearCtrlEnc c = c\<lparr>clCtrl := None\<rparr>"

definition client_sendControl :: "bool \<Rightarrow> 'f agentFrame \<Rightarrow> 'f client \<Rightarrow> (clientError + unit) \<times> 'f client" where
  "client_sendControl ok msg c = (case clCtrl c of None \<Rightarrow> (Inl ErrNotConnected, c)
     | Some n \<Rightarrow> if ok then (Inr (), c\<lparr>clSent := clSent c @ [(n, msg)]\<rparr>) else (Inl ErrSend, c))"

text \<open>\<open>SessionExited\<close> logs its errors and drops the frame.\<close>

definition client_SessionExited :: "bool \<Rightarrow> string \<Rightarrow> int \<Rightarrow> 'f client \<Rightarrow> 'f client" where
  "client_SessionExited ok sessionID exitCode c = snd (client_sendControl ok (NewSessionExited sessionID exitCode) c)"

subsection \<open>Control frames\<close>

record ctlEnv =
  ceReadOk :: bool
  ceStarted :: "ptyError + int"
  ceResizeOk :: bool
  ceCloseOk :: bool
  ceFs :: fsOutcome

definition spec_of :: "OpenSessionMsg \<Rightarrow> PTYSpec" where
  "spec_of msg = \<lparr>specShell = omShell msg, specCwd = omCwd msg, specCols = omCols msg, specRows = omRows msg,
     specEnv = [], specCreateDir = omCreateDir msg\<rparr>"

definition open_code :: "mgError \<Rightarrow> string" where
  "open_code err = (if err = MgOpenPTY ErrCwdNotFound then ''cwd_not_found'' else ''open_failed'')"

text \<open>
  The frames sent back, and the manager and the snapshot producer (if one is wired) afterwards; \<open>None\<close>
  is a panic. \<open>errText\<close> is the text of an error.
\<close>

definition handleControlFrame :: "(mgError \<Rightarrow> string) \<Rightarrow> ctlEnv \<Rightarrow> hubFrame \<Rightarrow> manager \<times> producer option \<Rightarrow>
    ('f agentFrame list \<times> manager \<times> producer option) option" where
  "handleControlFrame errText env frame st = (case st of (m, toggle) \<Rightarrow> (case frame of
     HOpenSession msg \<Rightarrow>
       (case Open (ceReadOk env) (ceStarted env) (omSessionID msg) (spec_of msg) m of
          (Inl err, m') \<Rightarrow> Some ([FError (NewError (omSessionID msg) (open_code err) (errText err))], m', toggle)
        | (Inr pid, m') \<Rightarrow> Some ([NewSessionOpened (omSessionID msg) pid], m', toggle))
   | HResize msg \<Rightarrow> (case mg_Resize (ceResizeOk env) (rmSessionID msg) (rmCols msg) (rmRows msg) m of
        None \<Rightarrow> None | Some (res, m') \<Rightarrow> Some ([], m', toggle))
   | HCloseSession sessionID \<Rightarrow> Some ([], snd (mg_Close (ceCloseOk env) (ceFs env) sessionID m), toggle)
   | HEnableSnaps enabled \<Rightarrow> Some ([], m, map_option (SetEnabled enabled) toggle)
   | HError e \<Rightarrow> Some ([], m, toggle)
   | HUndecodable t \<Rightarrow> Some ([], m, toggle)
   | HUnknown \<Rightarrow> Some ([], m, toggle)))"

definition sendHello_frame :: "string \<Rightarrow> string \<Rightarrow> string \<Rightarrow> string \<Rightarrow> string \<Rightarrow> string \<Rightarrow> 'f agentFrame" where
  "sendHello_frame machineID instanceID n osn arch ver = NewHello machineID instanceID n osn arch ver ProtocolVersion"

fun activity_string :: "Activity option \<Rightarrow> string" where
  "activity_string None = []"
| "activity_string (Some ActivityActive) = ''active''"
| "activity_string (Some ActivityIdle) = ''idle''"
| "activity_string (Some ActivityAwaitingInput) = ''awaiting-input''"
| "activity_string (Some ActivityUnknown) = ''unknown''"

definition heartbeat_frame :: "int \<Rightarrow> SessionActivity list \<Rightarrow> 'f Metrics option \<Rightarrow> 'f agentFrame" where
  "heartbeat_frame now activities metrics = NewHeartbeat now
     (map (\<lambda>a. \<lparr>stID = saID a, stStatus = [], stBytesOut = 0, stActivity = activity_string (saActivity a), stPwd = saPwd a\<rparr>) activities)
     metrics"

subsection \<open>The snapshot stream\<close>

definition clearSnapStream :: "'f client \<Rightarrow> 'f client" where
  "clearSnapStream c = c\<lparr>clSnap := None\<rparr>"

text \<open>After the stream has been opened on connection \<open>n\<close>: the encoder to use, or none if the connection was replaced.\<close>

definition snap_store :: "nat \<Rightarrow> 'f client \<Rightarrow> nat option \<times> 'f client" where
  "snap_store n c = (if clMux c \<noteq> Some n then (None, c)
     else case clSnap c of Some e \<Rightarrow> (Some e, c) | None \<Rightarrow> (Some n, c\<lparr>clSnap := Some n\<rparr>))"

definition snap_write :: "bool \<Rightarrow> nat \<Rightarrow> SessionScreen \<Rightarrow> 'f client \<Rightarrow> bool \<times> 'f client" where
  "snap_write ok e scr c = (if ok then (True, c\<lparr>clSnaps := clSnaps c @ [(e, scr)]\<rparr>) else (False, clearSnapStream c))"

text \<open>The whole call when nothing intervenes; \<open>True\<close> is a \<open>nil\<close> error.\<close>

definition SendSnapshot :: "bool \<Rightarrow> bool \<Rightarrow> SessionScreen \<Rightarrow> 'f client \<Rightarrow> bool \<times> 'f client" where
  "SendSnapshot openOk writeOk scr c = (case clMux c of None \<Rightarrow> (True, c)
     | Some n \<Rightarrow> (case clSnap c of Some e \<Rightarrow> snap_write writeOk e scr c
        | None \<Rightarrow> if \<not> openOk then (False, c)
            else (case snap_store n c of (None, c1) \<Rightarrow> (True, c1) | (Some e, c1) \<Rightarrow> snap_write writeOk e scr c1)))"

definition conn_up :: "nat \<Rightarrow> 'f client \<Rightarrow> 'f client" where
  "conn_up n c = c\<lparr>clMux := Some n\<rparr>"

definition conn_down :: "'f client \<Rightarrow> 'f client" where
  "conn_down c = clearSnapStream (c\<lparr>clMux := None\<rparr>)"

subsection \<open>Reconnecting\<close>

text \<open>Durations in nanoseconds; the products the code forms in floating point are exact at this size.\<close>

definition backoffInitial :: int where "backoffInitial = 500 * 1000000"
definition backoffCap :: int where "backoffCap = 30 * 1000000000"

definition next_backoff :: "int \<Rightarrow> int" where
  "next_backoff backoff = (let next = backoff * 2 in if next > backoffCap then backoffCap else next)"

text \<open>The backoff before jitter that \<open>Run\<close> uses after each attempt; an attempt is whether it got connected.\<close>

fun run_backoffs :: "bool list \<Rightarrow> int \<Rightarrow> int list" where
  "run_backoffs [] backoff = []"
| "run_backoffs (connected # as) backoff =
     (let b = (if connected then backoffInitial else backoff)
      in b # run_backoffs as (if \<not> connected then next_backoff b else b))"

text \<open>The wait: \<open>rand.Float64\<close> is \<open>k / 2^53\<close> for a random \<open>k\<close>, and the jitter is a fifth of the backoff either way.\<close>

definition jittered :: "int \<Rightarrow> int \<Rightarrow> int" where
  "jittered k backoff = backoff * (5 * 2 ^ 53 + (2 * k - 2 ^ 53)) div (5 * 2 ^ 53)"

subsection \<open>Bounds of the reconnect loop\<close>

text \<open>The failed attempts in a row directly before attempt \<open>i\<close>.\<close>

definition fails_before :: "bool list \<Rightarrow> nat \<Rightarrow> nat" where
  "fails_before as i = length (takeWhile Not (rev (take i as)))"

definition capped :: "nat \<Rightarrow> int" where
  "capped n = min backoffCap (backoffInitial * 2 ^ n)"

lemma next_capped: "next_backoff (capped n) = capped (Suc n)"
  by (simp add: next_backoff_def capped_def Let_def backoffCap_def backoffInitial_def min_def)

lemma capped_0: "capped 0 = backoffInitial"
  by (simp add: capped_def backoffCap_def backoffInitial_def)

lemma fails_before_Cons:
  "fails_before (a # as) (Suc i) = (if \<not> a \<and> fails_before as i = i then Suc (fails_before as i) else fails_before as i)"
  if "i \<le> length as"
proof (cases "\<forall>x \<in> set (take i as). \<not> x")
  case True
  then have tw: "takeWhile Not (rev (take i as)) = rev (take i as)" by (simp add: takeWhile_eq_all_conv)
  have "takeWhile Not (rev (take i as) @ [a]) = rev (take i as) @ takeWhile Not [a]"
    by (rule takeWhile_append2) (use True in \<open>simp only: set_rev, blast\<close>)
  then have tc: "takeWhile Not (rev (take (Suc i) (a # as))) = rev (take i as) @ takeWhile Not [a]"
    by (simp only: take_Suc_Cons rev.simps)
  have "fails_before as i = i" unfolding fails_before_def tw using that by simp
  moreover have "fails_before (a # as) (Suc i) = (if a then i else Suc i)" unfolding fails_before_def tc using that by simp
  ultimately show ?thesis by simp
next
  case False
  then obtain x where x: "x \<in> set (rev (take i as))" "\<not> \<not> x" by auto
  have "takeWhile Not (rev (take i as) @ [a]) = takeWhile Not (rev (take i as))" using x by (rule takeWhile_append1)
  then have "fails_before (a # as) (Suc i) = fails_before as i" unfolding fails_before_def by (simp only: take_Suc_Cons rev.simps)
  moreover have "fails_before as i \<noteq> i"
  proof
    assume "fails_before as i = i"
    then have "takeWhile Not (rev (take i as)) = rev (take i as)"
      using that takeWhile_eq_take [of Not "rev (take i as)"] by (simp add: fails_before_def)
    then show False using x set_takeWhileD [of x Not "rev (take i as)"] by metis
  qed
  ultimately show ?thesis by simp
qed

lemma run_backoffs_nth:
  "i < length as \<Longrightarrow> run_backoffs as (capped n) ! i =
     (if as ! i then backoffInitial else capped (if fails_before as i = i then n + i else fails_before as i))"
proof (induction as arbitrary: n i)
  case (Cons a as)
  show ?case
  proof (cases i)
    case 0
    then show ?thesis by (simp add: Let_def fails_before_def)
  next
    case (Suc j)
    have le: "fails_before as j \<le> j" unfolding fails_before_def using length_takeWhile_le [of Not "rev (take j as)"] by simp
    show ?thesis
      using Cons.IH [of j 0] Cons.IH [of j "Suc n"] Cons.prems Suc le
      by (auto simp: Let_def next_capped capped_0 fails_before_Cons)
  qed
qed simp

lemma jittered_bounds:
  assumes "0 \<le> k" "k < 2 ^ 53" "0 \<le> b"
  shows "b * 4 div 5 \<le> jittered k b" "jittered k b \<le> b * 6 div 5"
proof -
  have "b * 4 div 5 = b * (4 * 2 ^ 53) div (5 * 2 ^ 53)" "b * 6 div 5 = b * (6 * 2 ^ 53) div (5 * 2 ^ 53)"
    by (simp_all add: mult.assoc [symmetric] div_mult_mult2)
  moreover have "b * (4 * 2 ^ 53) \<le> b * (5 * 2 ^ 53 + (2 * k - 2 ^ 53))" "b * (5 * 2 ^ 53 + (2 * k - 2 ^ 53)) \<le> b * (6 * 2 ^ 53)"
    using assms by (auto intro!: mult_left_mono)
  ultimately show "b * 4 div 5 \<le> jittered k b" "jittered k b \<le> b * 6 div 5"
    unfolding jittered_def by (metis zdiv_mono1 zero_less_numeral zero_less_power mult_pos_pos)+
qed

text \<open>
  Reconnecting backs off exponentially and never gives up. For every course of attempts, the wait
  after a failed attempt is half a second doubled for each failure directly before it and capped at
  thirty seconds, the wait after a lost connection is half a second again, and with the jitter every
  wait lies between 0.4 and 36 seconds.
\<close>
theorem reconnect_backoff:
  assumes "i < length as" "0 \<le> k" "k < 2 ^ 53"
  shows "length (run_backoffs as backoffInitial) = length as \<and>
    run_backoffs as backoffInitial ! i = (if as ! i then backoffInitial
      else min backoffCap (backoffInitial * 2 ^ fails_before as i)) \<and>
    400000000 \<le> jittered k (run_backoffs as backoffInitial ! i) \<and>
    jittered k (run_backoffs as backoffInitial ! i) \<le> 36000000000"
proof -
  have len: "length (run_backoffs as b) = length as" for b by (induction as arbitrary: b) (simp_all add: Let_def)
  have nth: "run_backoffs as backoffInitial ! i = (if as ! i then backoffInitial else capped (fails_before as i))"
    using run_backoffs_nth [OF assms(1), of 0] by (auto simp: capped_0)
  have "(1 :: int) \<le> 2 ^ fails_before as i" by simp
  then have "backoffInitial * 1 \<le> backoffInitial * 2 ^ fails_before as i"
    by (intro mult_left_mono) (simp_all add: backoffInitial_def)
  then have b: "backoffInitial \<le> run_backoffs as backoffInitial ! i" "run_backoffs as backoffInitial ! i \<le> backoffCap"
    unfolding nth by (auto simp: capped_def backoffInitial_def backoffCap_def)
  have "0 \<le> run_backoffs as backoffInitial ! i" using b(1) by (simp add: backoffInitial_def)
  note j = jittered_bounds [OF assms(2,3) this]
  have "400000000 \<le> run_backoffs as backoffInitial ! i * 4 div 5" "run_backoffs as backoffInitial ! i * 6 div 5 \<le> 36000000000"
    using b unfolding backoffInitial_def backoffCap_def by linarith+
  with j have "400000000 \<le> jittered k (run_backoffs as backoffInitial ! i)" "jittered k (run_backoffs as backoffInitial ! i) \<le> 36000000000"
    by linarith+
  then show ?thesis using nth len by (simp add: capped_def)
qed

text \<open>Witness for \<open>reconnect_backoff\<close>: the third attempt of a machine that was connected once.\<close>
theorem reconnect_backoff_witness:
  "run_backoffs [True, False, False] backoffInitial ! 2 = min backoffCap (backoffInitial * 2 ^ fails_before [True, False, False] 2) \<and>
   run_backoffs [True, False, False] backoffInitial = [500000000, 500000000, 1000000000] \<and>
   jittered 0 (run_backoffs [True, False, False] backoffInitial ! 2) \<le> 36000000000"
  using reconnect_backoff [of 2 "[True, False, False]" 0]
  by (simp add: backoffInitial_def next_backoff_def backoffCap_def Let_def)

subsection \<open>Opening a session, from the hub to the agent and back\<close>

text \<open>
  C9: an open request comes back to its caller. The hub registers the wait and sends the request; the
  agent handles the frame and answers with exactly one frame; when the hub's control loop handles
  that frame, the waiting call gets the process ID of the session the agent opened, or a rejection
  with the agent's error code when the agent opened none.
\<close>
theorem open_request_round_trip:
  fixes h :: "('f, 'g) hub"
  assumes "link_inv (huLinks h)" "lk_Get machineID (huLinks h) = Some cn" "cn < length (lkHeap (huLinks h))" "i \<noteq> []"
    and "OpenSession_send True machineID i cwd shell c r createDir revive (huLinks h) = (res0, k)"
    and "frame = snd (last (lkSent k))" "handleControlFrame errText env frame (m, toggle) = Some (replies, m', toggle')"
  shows "\<exists>ch fr res k'. res0 = Inr (cn, ch) \<and> replies = [fr] \<and>
    OpenSession_wait GotReply cn ch i (huLinks (handleFrame cn hello fr (h\<lparr>huLinks := k\<rparr>))) = Some (res, k') \<and>
    (case ceStarted env of
       Inr pid \<Rightarrow> if m_get (mgSessions m) i = None then res = Inr pid \<and> m_get (mgSessions m') i = Some (length (mgLive m))
                  else res = Inl (ErrOpenRejected ''open_failed'') \<and> m' = m
     | Inl err \<Rightarrow> m' = m \<and> res = Inl (ErrOpenRejected
         (if m_get (mgSessions m) i = None \<and> err = ErrCwdNotFound then ''cwd_not_found'' else ''open_failed'')))"
proof -
  let ?k = "huLinks h"
  let ?msg = "\<lparr>omSessionID = i, omCwd = cwd, omShell = shell, omCols = c, omRows = r, omCreateDir = createDir, omRevive = revive\<rparr>"
  obtain ch k1 where aw: "awaitOpen cn i ?k = (ch, k1)" by (cases "awaitOpen cn i ?k")
  have k: "res0 = Inr (cn, ch)" "k = lk_apply (LSend True cn (HOpenSession ?msg)) k1"
    using assms(2,5) aw by (auto simp: OpenSession_send_def sendControl_def NewOpenSession_def)
  have fr: "frame = HOpenSession ?msg" using assms(6) k(2) by (simp add: sendControl_def)
  have wait: "\<exists>k'. OpenSession_wait GotReply cn ch i (ResolveOpen cn i res k) = Some (res, k')" for res
    using open_link_reply [OF assms(1,3) aw] k(2) by blast
  obtain res1 m1 where op: "Open (ceReadOk env) (ceStarted env) i (spec_of ?msg) m = (res1, m1)"
    by (cases "Open (ceReadOk env) (ceStarted env) i (spec_of ?msg) m")
  show ?thesis
  proof (cases res1)
    case (Inl err)
    then have rep: "replies = [FError (NewError i (open_code err) (errText err))]" "m' = m1"
      using assms(7) op by (simp_all add: handleControlFrame_def fr)
    obtain k' where "OpenSession_wait GotReply cn ch i (ResolveOpen cn i (Inl (ErrOpenRejected (open_code err))) k) =
        Some (Inl (ErrOpenRejected (open_code err)), k')" using wait by blast
    moreover have "huLinks (handleFrame cn hello (FError (NewError i (open_code err) (errText err)) :: 'f agentFrame) (h\<lparr>huLinks := k\<rparr>)) =
        ResolveOpen cn i (Inl (ErrOpenRejected (open_code err))) k"
      using assms(4) by (simp add: handleFrame_def NewError_def)
    ultimately show ?thesis using op Inl rep k(1)
      by (auto simp: Open_def open_code_def split: if_splits sum.splits)
  next
    case (Inr pid)
    then have rep: "replies = [NewSessionOpened i pid]" "m' = m1"
      using assms(7) op by (simp_all add: handleControlFrame_def fr)
    obtain k' where "OpenSession_wait GotReply cn ch i (ResolveOpen cn i (Inr pid) k) = Some (Inr pid, k')" using wait by blast
    moreover have "huLinks (handleFrame cn hello (NewSessionOpened i pid :: 'f agentFrame) (h\<lparr>huLinks := k\<rparr>)) = ResolveOpen cn i (Inr pid) k"
      by (simp add: handleFrame_def NewSessionOpened_def)
    ultimately show ?thesis using op Inr rep k(1)
      by (auto simp: Open_def Open_insert_def split: if_splits sum.splits)
  qed
qed

text \<open>Witness for \<open>open_request_round_trip\<close>: an agent that opens the session, on a hub with one connection.\<close>
theorem open_request_round_trip_witness:
  "\<forall>en ss ov. let h = \<lparr>huLinks = lk_Add ''m'' 0 (snd (NewConn ''m'' 5 NewRegistry)), huEnroll = en, huSessions = ss, huOverview = ov\<rparr> :: (int, unit) hub;
       k = snd (OpenSession_send True ''m'' ''s'' [] [] 80 24 False False (huLinks h))
     in \<exists>ch fr k'. OpenSession_wait GotReply 0 ch ''s'' (huLinks (handleFrame 0 \<lparr>heMachineID = ''m'', heInstanceID = [],
         heName = [], heOS = [], heArch = [], heAgentVersion = [], heProtocolVersion = 6\<rparr> fr (h\<lparr>huLinks := k\<rparr>))) = Some (Inr 77, k')"
proof (intro allI)
  fix en ss ov
  let ?h = "\<lparr>huLinks = lk_Add ''m'' 0 (snd (NewConn ''m'' 5 NewRegistry)), huEnroll = en, huSessions = ss, huOverview = ov\<rparr> :: (int, unit) hub"
  let ?hello = "\<lparr>heMachineID = ''m'', heInstanceID = [], heName = [], heOS = [], heArch = [], heAgentVersion = [], heProtocolVersion = 6\<rparr>"
  let ?s = "OpenSession_send True ''m'' ''s'' [] [] 80 24 False False (huLinks ?h)"
  let ?env = "\<lparr>ceReadOk = True, ceStarted = Inr 77, ceResizeOk = True, ceCloseOk = True, ceFs = undefined\<rparr>"
  have a: "link_inv (huLinks ?h)" "lk_Get ''m'' (huLinks ?h) = Some 0" "0 < length (lkHeap (huLinks ?h))"
    by (auto simp: link_inv_def pend_def link_defs NewRegistry_def)
  have fr: "snd (last (lkSent (snd ?s))) = HOpenSession \<lparr>omSessionID = ''s'', omCwd = [], omShell = [], omCols = 80, omRows = 24,
      omCreateDir = False, omRevive = False\<rparr>"
    using a(2) by (simp add: OpenSession_send_def awaitOpen_def sendControl_def NewOpenSession_def Let_def)
  obtain replies m' t' where hc: "handleControlFrame (\<lambda>_. []) ?env (snd (last (lkSent (snd ?s)))) (NewManager 0 None, None) =
      Some (replies :: int agentFrame list, m', t')"
    unfolding fr by (simp add: handleControlFrame_def Open_def NewManager_def)
  have "m_get (mgSessions (NewManager 0 None)) ''s'' = None" by (simp add: NewManager_def)
  with open_request_round_trip [OF a _ prod.collapse [symmetric] refl hc, of ?hello]
  show "let h = ?h; k = snd (OpenSession_send True ''m'' ''s'' [] [] 80 24 False False (huLinks h))
    in \<exists>ch fr k'. OpenSession_wait GotReply 0 ch ''s'' (huLinks (handleFrame 0 ?hello fr (h\<lparr>huLinks := k\<rparr>))) = Some (Inr 77, k')"
    unfolding Let_def by auto
qed

subsection \<open>A session that ends while the machine is offline\<close>

lemma recordStats_status:
  "map_option sStatus (m_get (swStore (recordStats stats w)) i) = map_option sStatus (m_get (swStore w) i)"
proof (induction stats arbitrary: w)
  case (Cons stat stats)
  have "map_option sStatus (m_get (swStore (snd (uc_RecordStat memory_port j act pwd w))) i) = map_option sStatus (m_get (swStore w) i)" for j act pwd
    by (auto simp: uc_RecordStat_def memory_port_def store_step_def ignore_not_found_def ss_SetStat_def ss_modify_def session_defs Let_def
        split: option.split)
  then show ?case using Cons by simp
qed simp

text \<open>
  An exit that happens while the connection is down is lost. The client drops the frame, expecting
  the hub to reconcile; but when the same agent process reconnects, the hub turns the machine's
  disconnected sessions back into running ones, and the heartbeats that follow do not change a
  status: the session that has ended stays listed as running.
\<close>
theorem offline_exit_lost:
  assumes "m_get (swStore w) i = Some x" "sStatus x = SRunning" "sMachineID x = mid"
    and "w1 = snd (uc_MarkMachineDisconnected memory_port mid w)" "w2 = snd (uc_RestoreMachineSessions memory_port mid w1)"
  shows "clSent (client_SessionExited ok i code (clearCtrlEnc c)) = clSent c \<and>
    map_option sStatus (m_get (swStore w1) i) = Some SDisconnected \<and>
    map_option sStatus (m_get (swStore (recordStats stats w2)) i) = Some SRunning"
proof -
  have 1: "m_get (swStore w1) i = Some (session_Touch (swNow w) (session_SetStatus SDisconnected x))"
    using assms(1-4) by (simp add: uc_MarkMachineDisconnected_def memory_port_def store_step_def ss_MarkRunningDisconnected_def)
  then have "map_option sStatus (m_get (swStore w2) i) = Some SRunning"
    using assms(3,5) by (simp add: uc_RestoreMachineSessions_def memory_port_def store_step_def ss_MarkDisconnectedRunning_def session_defs)
  then show ?thesis using 1 recordStats_status [of stats w2 i]
    by (simp add: client_SessionExited_def client_sendControl_def clearCtrlEnc_def session_defs)
qed

text \<open>Witness for \<open>offline_exit_lost\<close>: one running session.\<close>
theorem offline_exit_lost_witness:
  "let x = NewHubSession ''s'' ''m'' ''p'' [] [] [] 1;
       w = \<lparr>swStore = [(''s'', x)], swGateway = (), swAudit = [], swNow = 9, swActor = None\<rparr>;
       w2 = snd (uc_RestoreMachineSessions memory_port ''m'' (snd (uc_MarkMachineDisconnected memory_port ''m'' w)))
   in clSent (client_SessionExited True ''s'' 3 (clearCtrlEnc (NewClient :: int client))) = clSent (NewClient :: int client) \<and>
      map_option sStatus (m_get (swStore (recordStats [] w2)) ''s'') = Some SRunning"
  using offline_exit_lost [of "\<lparr>swStore = [(''s'', NewHubSession ''s'' ''m'' ''p'' [] [] [] 1)], swGateway = (), swAudit = [], swNow = 9,
      swActor = None\<rparr>" "''s''" "NewHubSession ''s'' ''m'' ''p'' [] [] [] 1" "''m''" _ _ True 3 "NewClient :: int client" "[]"]
  by (simp add: m_get_def NewHubSession_def)

subsection \<open>The snapshot stream under reconnects\<close>

text \<open>
  One goroutine sends snapshots (the producer's ticker), one runs the connections (\<open>Run\<close>). A call of
  \<open>SendSnapshot\<close> is cut where it takes the lock; a connection comes up under a new number and goes down.
\<close>

datatype snap_pc =
    SnIdle | SnOpening nat SessionScreen | SnReady nat SessionScreen
  | CnNext nat | CnUp nat | CnServing nat | CnUnserved nat

inductive snap_step :: "'f client \<times> snap_pc \<Rightarrow> 'f client \<times> snap_pc \<times> snap_pc list \<Rightarrow> bool" where
  sn_offline: "clMux c = None \<Longrightarrow> snap_step (c, SnIdle) (c, SnIdle, [])"
| sn_reuse: "clMux c = Some n \<Longrightarrow> clSnap c = Some e \<Longrightarrow> snap_step (c, SnIdle) (c, SnReady e scr, [])"
| sn_open: "clMux c = Some n \<Longrightarrow> clSnap c = None \<Longrightarrow> snap_step (c, SnIdle) (c, SnOpening n scr, [])"
| sn_failed: "snap_step (c, SnOpening n scr) (c, SnIdle, [])"
| sn_stored: "snap_store n c = (Some e, c') \<Longrightarrow> snap_step (c, SnOpening n scr) (c', SnReady e scr, [])"
| sn_replaced: "snap_store n c = (None, c') \<Longrightarrow> snap_step (c, SnOpening n scr) (c', SnIdle, [])"
| sn_write: "snap_write ok e scr c = (ok', c') \<Longrightarrow> snap_step (c, SnReady e scr) (c', SnIdle, [])"
| cn_up: "snap_step (c, CnNext n) (conn_up n c, CnUp n, [])"
| cn_serve: "snap_step (c, CnUp n) (setCtrlEnc n c, CnServing n, [])"
| cn_unserve: "snap_step (c, CnServing n) (clearCtrlEnc c, CnUnserved n, [])"
| cn_down: "snap_step (c, CnUnserved n) (conn_down c, CnNext (Suc n), [])"

fun conn_ok :: "'f client \<Rightarrow> snap_pc \<Rightarrow> bool" where
  "conn_ok c (CnNext n) = (clMux c = None \<and> clCtrl c = None)"
| "conn_ok c (CnUp n) = (clMux c = Some n \<and> clCtrl c = None)"
| "conn_ok c (CnServing n) = (clMux c = Some n \<and> clCtrl c = Some n)"
| "conn_ok c (CnUnserved n) = (clMux c = Some n \<and> clCtrl c = None)"
| "conn_ok c _ = False"

fun is_sender :: "snap_pc \<Rightarrow> bool" where
  "is_sender SnIdle = True"
| "is_sender (SnOpening n scr) = True"
| "is_sender (SnReady n scr) = True"
| "is_sender _ = False"

definition snap_inv :: "'f client \<times> snap_pc list \<Rightarrow> bool" where
  "snap_inv cf \<longleftrightarrow> (case cf of (c, pcs) \<Rightarrow> (clSnap c \<noteq> None \<longrightarrow> clSnap c = clMux c) \<and>
     (\<exists>p q. pcs = [p, q] \<and> conn_ok c q \<and> is_sender p))"

lemmas client_defs = snap_store_def snap_write_def clearSnapStream_def conn_up_def conn_down_def setCtrlEnc_def clearCtrlEnc_def

text \<open>
  The streams belong to the connection. Whatever the interleaving of snapshots with connections
  coming and going, a stored snapshot stream is a stream of the current connection and the control
  encoder, when set, is the current connection's: nothing is kept across a reconnect, and a stream
  opened on a connection that has been replaced meanwhile is never stored.
\<close>
theorem client_streams_current:
  assumes "(par_step snap_step)\<^sup>*\<^sup>* (NewClient, [SnIdle, CnNext 0]) (c, pcs)"
  shows "(clSnap c = None \<or> clSnap c = clMux c) \<and> (clCtrl c = None \<or> clCtrl c = clMux c)"
proof -
  have "snap_inv (c, pcs)"
  proof (rule par_invariant [OF assms])
    show "snap_inv (NewClient, [SnIdle, CnNext 0])" by (simp add: snap_inv_def NewClient_def)
    fix s t s' t' new ts1 ts2
    assume I: "snap_inv (s, ts1 @ t # ts2)" and st: "snap_step (s, t) (s', t', new)"
    then consider q where "ts1 = []" "ts2 = [q]" "conn_ok s q" "is_sender t" | p where "ts1 = [p]" "ts2 = []" "conn_ok s t" "is_sender p"
      by (auto simp: snap_inv_def Cons_eq_append_conv append_eq_Cons_conv)
    then show "snap_inv (s', ts1 @ t' # ts2 @ new)"
    proof cases
      case (1 q)
      then have "clMux s' = clMux s \<and> clCtrl s' = clCtrl s \<and> is_sender t' \<and> new = [] \<and> (clSnap s' \<noteq> None \<longrightarrow> clSnap s' = clMux s')"
        using I by (cases rule: snap_step.cases [OF st]) (auto simp: snap_inv_def client_defs split: if_splits option.splits)
      moreover from this 1(3) have "conn_ok s' q" by (cases q) auto
      ultimately show ?thesis using 1 by (auto simp: snap_inv_def)
    next
      case (2 p)
      then have "conn_ok s' t' \<and> new = [] \<and> (clSnap s' \<noteq> None \<longrightarrow> clSnap s' = clMux s')"
        using I by (cases rule: snap_step.cases [OF st]) (auto simp: snap_inv_def client_defs)
      then show ?thesis using 2 by (auto simp: snap_inv_def)
    qed
  qed
  then obtain q where "clSnap c \<noteq> None \<longrightarrow> clSnap c = clMux c" "conn_ok c q" by (auto simp: snap_inv_def)
  then show ?thesis by (cases q) auto
qed

text \<open>Witness for \<open>client_streams_current\<close>: a connection goes down while a snapshot stream is being opened on it.\<close>
theorem client_streams_current_witness:
  "let c1 = conn_up 0 (NewClient :: int client); c2 = conn_down (clearCtrlEnc (setCtrlEnc 0 c1));
       c3 = snd (snap_store 0 c2) in (clSnap c3 = None \<or> clSnap c3 = clMux c3) \<and> (clCtrl c3 = None \<or> clCtrl c3 = clMux c3)"
proof -
  let ?c1 = "conn_up 0 (NewClient :: int client)" and ?scr = "undefined :: SessionScreen"
  let ?c2 = "conn_down (clearCtrlEnc (setCtrlEnc 0 ?c1))"
  have st: "snap_step (NewClient, CnNext 0) (?c1, CnUp 0, [])" by (rule snap_step.cn_up)
  have op: "snap_step (?c1, SnIdle) (?c1, SnOpening 0 ?scr, [])" by (rule snap_step.sn_open) (simp_all add: conn_up_def NewClient_def)
  have lost: "snap_step (?c2, SnOpening 0 ?scr) (snd (snap_store 0 ?c2), SnIdle, [])"
    by (rule snap_step.sn_replaced) (simp add: client_defs NewClient_def)
  have r: "(par_step snap_step)\<^sup>*\<^sup>* (NewClient, [SnIdle, CnNext 0]) (NewClient :: int client, [SnIdle, CnNext 0])" by simp
  note r = par_extend [of snap_step, OF r, of 1, simplified, OF st]
  note r = par_extend [of snap_step, OF r, of 0, simplified, OF op]
  note r = par_extend [of snap_step, OF r, of 1, simplified, OF snap_step.cn_serve]
  note r = par_extend [of snap_step, OF r, of 1, simplified, OF snap_step.cn_unserve]
  note r = par_extend [of snap_step, OF r, of 1, simplified, OF snap_step.cn_down]
  note r = par_extend [of snap_step, OF r, of 0, simplified, OF lost]
  from client_streams_current [OF r [simplified]] show ?thesis by (simp add: Let_def)
qed

end
