(* ===== verification/Session_Host.thy ===== *)
theory Session_Host
  imports Hub_Client
begin

text \<open>
  The session host and its client. The deployed agent is two processes: the session host owns the manager
  and the shells (\<^verbatim>\<open>internal/agent/adapter/primary/localhost/server.go\<close>), and the connecting process,
  which talks to the hub, reaches it over a local socket (\<^verbatim>\<open>internal/agent/adapter/secondary/hostclient\<close>)
  with the messages of \<^verbatim>\<open>internal/transport/local.go\<close>.

  \<^item> The control stream is a pair of queues of frames; whether a write succeeds is an input.
  \<^item> The manager of the session host keeps the notifier it was created with (no call of \<open>SetNotifier\<close>
    in \<^verbatim>\<open>cmd/agent/main.go\<close> reaches it), which does nothing.
\<close>

subsection \<open>Messages (local.go)\<close>

record SessionStub =
  stubID :: string
  stubPID :: int

record HostInfo =
  hiInstanceID :: string
  hiLocalProtocol :: int
  hiSessions :: "SessionStub list"

record LocalSessionActivity =
  laID :: string
  laActivity :: string
  laPwd :: string

text \<open>A frame from the connecting process is a \<open>HostHello\<close>, a \<open>ListSessions\<close> or one of the hub's; one from the host is:\<close>

datatype connectFrame = CHostHello int | CListSessions | CFrame hubFrame

datatype hostFrame =
    LHostInfo HostInfo | LSessionOpened SessionOpened | LError ErrorMsg | LSessionExited SessionExited
  | LLocalStat "LocalSessionActivity list" | LUndecodable MessageType | LUnknown

definition NewHostHello :: "int \<Rightarrow> connectFrame" where
  "NewHostHello localProtocol = CHostHello localProtocol"

definition NewHostInfo :: "string \<Rightarrow> int \<Rightarrow> SessionStub list \<Rightarrow> hostFrame" where
  "NewHostInfo instanceID localProtocol sessions =
     LHostInfo \<lparr>hiInstanceID = instanceID, hiLocalProtocol = localProtocol, hiSessions = sessions\<rparr>"

definition NewListSessions :: connectFrame where
  "NewListSessions = CListSessions"

definition NewLocalStat :: "LocalSessionActivity list \<Rightarrow> hostFrame" where
  "NewLocalStat activities = LLocalStat activities"

subsection \<open>The host (server.go)\<close>

definition sessionStubs :: "(string \<times> int) list \<Rightarrow> SessionStub list" where
  "sessionStubs infos = map (\<lambda>(i, pid). \<lparr>stubID = i, stubPID = pid\<rparr>) infos"

definition negotiate :: "int \<Rightarrow> int" where
  "negotiate offered = (if LocalProtocolVersion < offered then LocalProtocolVersion else offered)"

definition hello_reply :: "string \<Rightarrow> int \<Rightarrow> manager \<Rightarrow> hostFrame" where
  "hello_reply instanceID offered m = NewHostInfo instanceID (negotiate offered) (sessionStubs (mg_Sessions m))"

definition stat_frame :: "SessionActivity list \<Rightarrow> hostFrame" where
  "stat_frame acts = NewLocalStat (map (\<lambda>a. \<lparr>laID = saID a, laActivity = activity_string (saActivity a), laPwd = saPwd a\<rparr>) acts)"

text \<open>As in the hub client, \<open>None\<close> is a panic.\<close>

definition host_handleControlFrame :: "(mgError \<Rightarrow> string) \<Rightarrow> ctlEnv \<Rightarrow> string \<Rightarrow> int \<Rightarrow> connectFrame \<Rightarrow> manager \<times> producer option \<Rightarrow>
    (hostFrame list \<times> manager \<times> producer option) option" where
  "host_handleControlFrame errText env instanceID negotiated frame st = (case st of (m, snaps) \<Rightarrow> (case frame of
     CFrame (HOpenSession msg) \<Rightarrow>
       (case Open (ceReadOk env) (ceStarted env) (omSessionID msg) (spec_of msg) m of
          (Inl err, m') \<Rightarrow> Some ([LError (NewError (omSessionID msg) (open_code err) (errText err))], m', snaps)
        | (Inr pid, m') \<Rightarrow> Some ([LSessionOpened \<lparr>soSessionID = omSessionID msg, soPID = pid\<rparr>], m', snaps))
   | CFrame (HResize msg) \<Rightarrow> (case mg_Resize (ceResizeOk env) (rmSessionID msg) (rmCols msg) (rmRows msg) m of
        None \<Rightarrow> None | Some (res, m') \<Rightarrow> Some ([], m', snaps))
   | CFrame (HCloseSession sessionID) \<Rightarrow> Some ([], snd (mg_Close (ceCloseOk env) (ceFs env) sessionID m), snaps)
   | CFrame (HEnableSnaps enabled) \<Rightarrow> Some ([], m, map_option (SetEnabled enabled) snaps)
   | CFrame (HError e) \<Rightarrow> Some ([], m, snaps)
   | CFrame (HUndecodable t) \<Rightarrow> Some ([], m, snaps)
   | CFrame HUnknown \<Rightarrow> Some ([], m, snaps)
   | CListSessions \<Rightarrow> Some ([NewHostInfo instanceID negotiated (sessionStubs (mg_Sessions m))], m, snaps)
   | CHostHello v \<Rightarrow> Some ([], m, snaps)))"

text \<open>A snapshot without the machine's ID, which the connecting process adds (\<open>SendRawSnapshot\<close>).\<close>

definition encodeLocalSnapshot :: "SessionScreen \<Rightarrow> transportSnapshot option" where
  "encodeLocalSnapshot s =
     (let scr = ssScreen s in
      if Rows scr < 0 then None
      else do { lines \<leftarrow> for_up 0 (Rows scr)
                  (\<lambda>y ls. do { row \<leftarrow> slice_get (Cells scr) y; slice_set ls y (encodeRow row) })
                  (replicate (nat (Rows scr)) []);
                Some \<lparr>snType = TypeSnapshot, snSessionID = ssID s, snMachineID = [],
                      snCols = Cols scr, snRows = Rows scr,
                      snCursor = \<lparr>scX = curX (Cursor scr), scY = curY (Cursor scr), scVisible = curVisible (Cursor scr)\<rparr>,
                      snLines = lines, snRev = ssRev s\<rparr> })"

definition raw_snapshot :: "string \<Rightarrow> transportSnapshot \<Rightarrow> transportSnapshot" where
  "raw_snapshot machineID s = s\<lparr>snMachineID := machineID\<rparr>"

subsection \<open>The client (hostclient/client.go)\<close>

datatype openReply = OpenPid int | OpenCwdNotFound | OpenHostError string | OpenClosed | OpenUndecodable

record hostClient =
  hcInstanceID :: string
  hcLocalProtocol :: int
  hcConnected :: bool
  hcPending :: "string option"
  hcNotifier :: bool
  hcExits :: "(string \<times> int) list"
  hcShutting :: bool
  hcLost :: bool
  hcActivities :: "LocalSessionActivity list"

text \<open>The end of the handshake: anything but a \<open>HostInfo\<close> fails.\<close>

definition hc_handshake :: "hostFrame option \<Rightarrow> hostClient option" where
  "hc_handshake reply = (case reply of
     Some (LHostInfo info) \<Rightarrow> Some \<lparr>hcInstanceID = hiInstanceID info, hcLocalProtocol = hiLocalProtocol info, hcConnected = True,
       hcPending = None, hcNotifier = False, hcExits = [], hcShutting = False, hcLost = False, hcActivities = []\<rparr>
   | _ \<Rightarrow> None)"

definition hc_SetNotifier :: "hostClient \<Rightarrow> hostClient" where
  "hc_SetNotifier c = c\<lparr>hcNotifier := True\<rparr>"

definition hc_unpend :: "hostClient \<Rightarrow> hostClient" where
  "hc_unpend c = c\<lparr>hcPending := None\<rparr>"

text \<open>The answer handed to a waiting \<open>Open\<close>, if any.\<close>

definition hc_dispatch :: "hostFrame \<Rightarrow> hostClient \<Rightarrow> openReply option \<times> hostClient" where
  "hc_dispatch frame c = (case frame of
     LSessionOpened msg \<Rightarrow> (if hcPending c \<noteq> None then (Some (OpenPid (soPID msg)), hc_unpend c) else (None, c))
   | LError msg \<Rightarrow>
       if hcPending c = Some (emSessionID msg)
       then (Some (if emCode msg = ''cwd_not_found'' then OpenCwdNotFound else OpenHostError (emMessage msg)), hc_unpend c)
       else (None, c)
   | LSessionExited msg \<Rightarrow> (None, if hcNotifier c then c\<lparr>hcExits := hcExits c @ [(sxSessionID msg, sxExitCode msg)]\<rparr> else c)
   | LHostInfo info \<Rightarrow> (None, c)
   | LLocalStat acts \<Rightarrow> (None, c\<lparr>hcActivities := acts\<rparr>)
   | LUndecodable t \<Rightarrow> (if t = TypeSessionOpened \<and> hcPending c \<noteq> None then (Some OpenUndecodable, hc_unpend c) else (None, c))
   | LUnknown \<Rightarrow> (None, c))"

text \<open>The end of the control stream.\<close>

definition hc_closed :: "hostClient \<Rightarrow> openReply option \<times> hostClient" where
  "hc_closed c = (map_option (\<lambda>_. OpenClosed) (hcPending c),
     (hc_unpend c)\<lparr>hcLost := hcLost c \<or> \<not> hcShutting c\<rparr>)"

definition hc_sendControl :: "bool \<Rightarrow> connectFrame \<Rightarrow> hostClient \<Rightarrow> connectFrame list option" where
  "hc_sendControl ok msg c = (if hcConnected c \<and> ok then Some [msg] else None)"

text \<open>The first half of \<open>Open\<close>: the frame sent, or no answer to wait for.\<close>

definition hc_Open_send :: "bool \<Rightarrow> string \<Rightarrow> PTYSpec \<Rightarrow> hostClient \<Rightarrow> connectFrame list option \<times> hostClient" where
  "hc_Open_send ok sessionID spec c =
     (if hcPending c \<noteq> None then (None, c)
      else let c1 = c\<lparr>hcPending := Some sessionID\<rparr> in
        case hc_sendControl ok (CFrame (NewOpenSession sessionID (specCwd spec) (specShell spec) (specCols spec) (specRows spec)
            (specCreateDir spec) False)) c1 of
          None \<Rightarrow> (None, hc_unpend c1)
        | Some fs \<Rightarrow> (Some fs, c1))"

definition hc_Resize :: "bool \<Rightarrow> string \<Rightarrow> int \<Rightarrow> int \<Rightarrow> hostClient \<Rightarrow> connectFrame list option" where
  "hc_Resize ok sessionID c r h = hc_sendControl ok (CFrame (NewResize sessionID c r)) h"

definition hc_Close :: "bool \<Rightarrow> string \<Rightarrow> hostClient \<Rightarrow> connectFrame list option" where
  "hc_Close ok sessionID h = hc_sendControl ok (CFrame (NewCloseSession sessionID)) h"

definition hc_SetEnabled :: "bool \<Rightarrow> bool \<Rightarrow> hostClient \<Rightarrow> connectFrame list option" where
  "hc_SetEnabled ok enabled h = hc_sendControl ok (CFrame (NewEnableSnaps enabled)) h"

definition hc_Shutdown :: "hostClient \<Rightarrow> hostClient" where
  "hc_Shutdown c = c\<lparr>hcConnected := False, hcShutting := True\<rparr>"

lemma relayed_snapshot: "map_option (raw_snapshot machineID) (encodeLocalSnapshot s) = encodeSnapshot s machineID"
  by (simp add: encodeLocalSnapshot_def encodeSnapshot_def raw_snapshot_def Let_def split: option.split bind_splits)

text \<open>A stream the host opens: the frames passed on to the hub (\<open>handleHostStream\<close>, \<open>relaySnapshots\<close>), once a sink is set.\<close>

datatype streamFrame = SfSnapStream | SfSnapshot transportSnapshot | SfUndecodable | SfOther

fun relaySnapshots :: "streamFrame list \<Rightarrow> transportSnapshot list" where
  "relaySnapshots [] = []"
| "relaySnapshots (SfSnapshot s # fs) = s # relaySnapshots fs"
| "relaySnapshots (_ # fs) = relaySnapshots fs"

definition handleHostStream :: "streamFrame list \<Rightarrow> transportSnapshot list" where
  "handleHostStream frames = (case frames of SfSnapStream # fs \<Rightarrow> relaySnapshots fs | _ \<Rightarrow> [])"

subsection \<open>The link between the two\<close>

text \<open>
  The client, the host, and the frames between them, with two logs: what the manager answered to each
  open request, and what each caller of \<open>Open\<close> was given. A shell that exits tells the manager's notifier.
\<close>

record hostLink =
  hlClient :: hostClient
  hlHost :: "manager \<times> producer option"
  hlToHost :: "connectFrame list"
  hlToConnect :: "hostFrame list"
  hlOpened :: "(string \<times> (mgError + int)) list"
  hlAnswers :: "(string \<times> openReply) list"

definition new_link :: "hostClient \<Rightarrow> manager \<times> producer option \<Rightarrow> hostLink" where
  "new_link c st = \<lparr>hlClient = c, hlHost = st, hlToHost = [], hlToConnect = [], hlOpened = [], hlAnswers = []\<rparr>"

datatype linkEvent =
    LnOpen string PTYSpec bool
  | LnResize string int int bool
  | LnClose string bool
  | LnSetEnabled bool bool
  | LnHost ctlEnv
  | LnStat "SessionActivity list"
  | LnExit string nat int
  | LnDispatch

definition link_send :: "connectFrame list option \<Rightarrow> hostLink \<Rightarrow> hostLink" where
  "link_send fs l = (case fs of None \<Rightarrow> l | Some xs \<Rightarrow> l\<lparr>hlToHost := hlToHost l @ xs\<rparr>)"

text \<open>What the manager answers to a frame that opens a session.\<close>

definition open_result :: "ctlEnv \<Rightarrow> connectFrame \<Rightarrow> manager \<Rightarrow> (string \<times> (mgError + int)) list" where
  "open_result env frame m = (case frame of
     CFrame (HOpenSession msg) \<Rightarrow> [(omSessionID msg, fst (Open (ceReadOk env) (ceStarted env) (omSessionID msg) (spec_of msg) m))]
   | _ \<Rightarrow> [])"

definition link_host :: "(mgError \<Rightarrow> string) \<Rightarrow> ctlEnv \<Rightarrow> hostLink \<Rightarrow> hostLink option" where
  "link_host errText env l = (case hlToHost l of
     [] \<Rightarrow> None
   | f # fs \<Rightarrow> (case host_handleControlFrame errText env (hcInstanceID (hlClient l)) (hcLocalProtocol (hlClient l)) f (hlHost l) of
       None \<Rightarrow> None
     | Some (replies, st) \<Rightarrow> Some (l\<lparr>hlToHost := fs, hlHost := st, hlToConnect := hlToConnect l @ replies,
         hlOpened := hlOpened l @ open_result env f (fst (hlHost l))\<rparr>)))"

definition link_dispatch :: "hostLink \<Rightarrow> hostLink option" where
  "link_dispatch l = (case hlToConnect l of
     [] \<Rightarrow> None
   | f # fs \<Rightarrow> (case hc_dispatch f (hlClient l) of (reply, c) \<Rightarrow>
       Some (l\<lparr>hlToConnect := fs, hlClient := c,
         hlAnswers := hlAnswers l @ (case (hcPending (hlClient l), reply) of (Some i, Some r) \<Rightarrow> [(i, r)] | _ \<Rightarrow> [])\<rparr>)))"

fun link_step :: "(mgError \<Rightarrow> string) \<Rightarrow> linkEvent \<Rightarrow> hostLink \<Rightarrow> hostLink option" where
  "link_step errText (LnOpen i spec ok) l =
     (case hc_Open_send ok i spec (hlClient l) of (fs, c) \<Rightarrow> Some (link_send fs (l\<lparr>hlClient := c\<rparr>)))"
| "link_step errText (LnResize i c r ok) l = Some (link_send (hc_Resize ok i c r (hlClient l)) l)"
| "link_step errText (LnClose i ok) l = Some (link_send (hc_Close ok i (hlClient l)) l)"
| "link_step errText (LnSetEnabled en ok) l = Some (link_send (hc_SetEnabled ok en (hlClient l)) l)"
| "link_step errText (LnHost env) l = link_host errText env l"
| "link_step errText (LnStat acts) l = Some (l\<lparr>hlToConnect := hlToConnect l @ [stat_frame acts]\<rparr>)"
| "link_step errText (LnExit i a code) l = Some (l\<lparr>hlHost := (readPump_exit i a code (fst (hlHost l)), snd (hlHost l))\<rparr>)"
| "link_step errText LnDispatch l = link_dispatch l"

fun link_run :: "(mgError \<Rightarrow> string) \<Rightarrow> linkEvent list \<Rightarrow> hostLink \<Rightarrow> hostLink option" where
  "link_run errText [] l = Some l"
| "link_run errText (ev # evs) l = (case link_step errText ev l of None \<Rightarrow> None | Some l1 \<Rightarrow> link_run errText evs l1)"

lemma link_invariant:
  assumes "link_run errText evs l = Some l'" "P l" "\<And>ev l l'. P l \<Longrightarrow> link_step errText ev l = Some l' \<Longrightarrow> P l'"
  shows "P l'"
  using assms(1,2) by (induction evs arbitrary: l) (auto split: option.splits intro: assms(3))

subsection \<open>Open requests and their answers\<close>

text \<open>What a caller behind the socket is given for the manager's answer.\<close>

definition seen :: "(mgError \<Rightarrow> string) \<Rightarrow> mgError + int \<Rightarrow> openReply" where
  "seen errText res = (case res of Inr pid \<Rightarrow> OpenPid pid
     | Inl err \<Rightarrow> if err = MgOpenPTY ErrCwdNotFound then OpenCwdNotFound else OpenHostError (errText err))"

definition reply_frame :: "(mgError \<Rightarrow> string) \<Rightarrow> string \<Rightarrow> mgError + int \<Rightarrow> hostFrame" where
  "reply_frame errText i res = (case res of Inr pid \<Rightarrow> LSessionOpened \<lparr>soSessionID = i, soPID = pid\<rparr>
     | Inl err \<Rightarrow> LError (NewError i (open_code err) (errText err)))"

fun opens :: "connectFrame list \<Rightarrow> string list" where
  "opens [] = []"
| "opens (CFrame (HOpenSession msg) # fs) = omSessionID msg # opens fs"
| "opens (_ # fs) = opens fs"

fun is_reply :: "hostFrame \<Rightarrow> bool" where
  "is_reply (LLocalStat acts) \<longleftrightarrow> False"
| "is_reply (LHostInfo info) \<longleftrightarrow> False"
| "is_reply _ \<longleftrightarrow> True"

lemma opens_append: "opens (xs @ ys) = opens xs @ opens ys"
  by (induction xs rule: opens.induct) auto

text \<open>Every open request is on its way, being answered, or answered.\<close>

definition link_ok :: "(mgError \<Rightarrow> string) \<Rightarrow> hostLink \<Rightarrow> bool" where
  "link_ok errText l \<longleftrightarrow> (case hcPending (hlClient l) of
     None \<Rightarrow> opens (hlToHost l) = [] \<and> filter is_reply (hlToConnect l) = [] \<and> hlAnswers l = map (map_prod id (seen errText)) (hlOpened l)
   | Some i \<Rightarrow>
       opens (hlToHost l) = [i] \<and> filter is_reply (hlToConnect l) = [] \<and> hlAnswers l = map (map_prod id (seen errText)) (hlOpened l) \<or>
       opens (hlToHost l) = [] \<and> (\<exists>done res. hlOpened l = done @ [(i, res)] \<and>
         filter is_reply (hlToConnect l) = [reply_frame errText i res] \<and> hlAnswers l = map (map_prod id (seen errText)) done))"

lemma dispatch_reply:
  "hcPending c = Some i \<Longrightarrow> hc_dispatch (reply_frame errText i res) c = (Some (seen errText res), hc_unpend c)"
  by (auto simp: hc_dispatch_def reply_frame_def seen_def open_code_def NewError_def split: sum.split)

lemma dispatch_other: "\<not> is_reply f \<Longrightarrow> hc_dispatch f c = (r, c') \<Longrightarrow> r = None \<and> hcPending c' = hcPending c"
  by (cases f) (auto simp: hc_dispatch_def)

lemma host_replies:
  assumes "host_handleControlFrame errText env inst v f st = Some (replies, st')"
  shows "filter is_reply replies = map (\<lambda>(i, res). reply_frame errText i res) (open_result env f (fst st)) \<and>
    map fst (open_result env f (fst st)) = opens [f]"
proof (cases f)
  case (CFrame h)
  then show ?thesis using assms
    by (cases h; cases st) (auto simp: host_handleControlFrame_def open_result_def reply_frame_def split: prod.splits sum.splits option.splits)
qed (use assms in \<open>auto simp: host_handleControlFrame_def open_result_def NewHostInfo_def split: prod.splits\<close>)

lemma link_host_parts:
  assumes "link_host errText env l = Some l'"
  obtains f fs replies st where "hlToHost l = f # fs"
    "host_handleControlFrame errText env (hcInstanceID (hlClient l)) (hcLocalProtocol (hlClient l)) f (hlHost l) = Some (replies, st)"
    "l' = l\<lparr>hlToHost := fs, hlHost := st, hlToConnect := hlToConnect l @ replies, hlOpened := hlOpened l @ open_result env f (fst (hlHost l))\<rparr>"
  using assms by (auto simp: link_host_def split: list.splits option.splits)

lemma link_host_ok:
  assumes "link_ok errText l" "link_host errText env l = Some l'"
  shows "link_ok errText l'"
proof -
  let ?r = "\<lambda>f. open_result env f (fst (hlHost l))"
  obtain f fs replies st where q: "hlToHost l = f # fs"
    and h: "host_handleControlFrame errText env (hcInstanceID (hlClient l)) (hcLocalProtocol (hlClient l)) f (hlHost l) = Some (replies, st)"
    and l': "l' = l\<lparr>hlToHost := fs, hlHost := st, hlToConnect := hlToConnect l @ replies, hlOpened := hlOpened l @ ?r f\<rparr>"
    using link_host_parts [OF assms(2)] by blast
  have R: "filter is_reply replies = map (\<lambda>(i, res). reply_frame errText i res) (?r f)" "map fst (?r f) = opens [f]"
    using host_replies [OF h] by blast+
  have o: "opens (hlToHost l) = opens [f] @ opens fs" using opens_append [of "[f]" fs] by (simp add: q)
  show ?thesis
  proof (cases "?r f")
    case Nil
    then have "opens [f] = []" using R(2) by simp
    then show ?thesis using assms(1) o R(1) Nil by (simp add: link_ok_def l' split: option.splits)
  next
    case (Cons x xs)
    then obtain i res where x: "x = (i, res)" by (cases x)
    have "opens (hlToHost l) = i # map fst xs @ opens fs" using o R(2) [symmetric] Cons x by simp
    then have p: "hcPending (hlClient l) = Some i" "xs = []" "opens fs = []" "filter is_reply (hlToConnect l) = []"
      "hlAnswers l = map (map_prod id (seen errText)) (hlOpened l)"
      using assms(1) by (auto simp: link_ok_def split: option.splits)
    then show ?thesis using Cons x R(1) by (auto simp: link_ok_def l')
  qed
qed

lemma link_dispatch_ok:
  assumes "link_ok errText l" "link_dispatch l = Some l'"
  shows "link_ok errText l'"
proof -
  obtain f fs where q: "hlToConnect l = f # fs" using assms(2) by (auto simp: link_dispatch_def split: list.splits)
  show ?thesis
  proof (cases "is_reply f")
    case False
    then obtain c where c: "hc_dispatch f (hlClient l) = (None, c)" "hcPending c = hcPending (hlClient l)"
      using dispatch_other by (metis prod.exhaust)
    then have "l' = l\<lparr>hlToConnect := fs, hlClient := c\<rparr>"
      using assms(2) q by (auto simp: link_dispatch_def split: option.splits)
    then show ?thesis using assms(1) q False c(2) by (simp add: link_ok_def split: option.splits)
  next
    case True
    then obtain i "done" res where p: "hcPending (hlClient l) = Some i" "opens (hlToHost l) = []" "hlOpened l = done @ [(i, res)]"
      "f = reply_frame errText i res" "filter is_reply fs = []" "hlAnswers l = map (map_prod id (seen errText)) done"
      using assms(1) q by (auto simp: link_ok_def split: option.splits)
    have "l' = l\<lparr>hlToConnect := fs, hlClient := hc_unpend (hlClient l), hlAnswers := hlAnswers l @ [(i, seen errText res)]\<rparr>"
      using assms(2) q p(1) dispatch_reply [OF p(1)] by (simp add: link_dispatch_def p(4))
    then show ?thesis using p by (simp add: link_ok_def hc_unpend_def)
  qed
qed

lemma link_step_ok:
  assumes "link_ok errText l" "link_step errText ev l = Some l'"
  shows "link_ok errText l'"
proof (cases ev)
  case (LnOpen i spec ok)
  show ?thesis
  proof (cases "hcPending (hlClient l) = None \<and> hcConnected (hlClient l) \<and> ok")
    case True
    then have "hlToHost l' = hlToHost l @ [CFrame (NewOpenSession i (specCwd spec) (specShell spec) (specCols spec) (specRows spec) (specCreateDir spec) False)]"
      "hcPending (hlClient l') = Some i" "hlToConnect l' = hlToConnect l" "hlOpened l' = hlOpened l" "hlAnswers l' = hlAnswers l"
      using assms(2) LnOpen by (auto simp: hc_Open_send_def hc_sendControl_def link_send_def)
    then show ?thesis using assms(1) True by (simp add: link_ok_def opens_append NewOpenSession_def)
  next
    case False
    then have "hlToHost l' = hlToHost l" "hcPending (hlClient l') = hcPending (hlClient l)" "hlToConnect l' = hlToConnect l"
      "hlOpened l' = hlOpened l" "hlAnswers l' = hlAnswers l"
      using assms(2) LnOpen by (auto simp: hc_Open_send_def hc_sendControl_def link_send_def hc_unpend_def Let_def split: if_splits)
    then show ?thesis using assms(1) by (simp add: link_ok_def split: option.splits)
  qed
next
  case (LnHost env)
  then show ?thesis using link_host_ok [OF assms(1)] assms(2) by simp
next
  case LnDispatch
  then show ?thesis using link_dispatch_ok [OF assms(1)] assms(2) by simp
qed (use assms in \<open>auto simp: link_ok_def link_send_def hc_Resize_def hc_Close_def hc_SetEnabled_def hc_sendControl_def opens_append
    NewResize_def NewCloseSession_def NewEnableSnaps_def stat_frame_def NewLocalStat_def split: option.splits if_splits\<close>)

text \<open>Letting both sides catch up, when nothing else happens.\<close>

lemma one_reply: "host_handleControlFrame errText env inst v f st = Some (replies, st') \<Longrightarrow> length replies \<le> 1"
  by (auto simp: host_handleControlFrame_def split: prod.splits sum.splits option.splits connectFrame.splits hubFrame.splits)

lemma link_host_size: "link_host errText env l = Some l' \<Longrightarrow>
    length (hlToHost l') < length (hlToHost l) \<and> 2 * length (hlToHost l') + length (hlToConnect l') < 2 * length (hlToHost l) + length (hlToConnect l)"
  by (auto simp: link_host_def split: list.splits option.splits prod.splits dest!: one_reply)

lemma link_dispatch_size: "link_dispatch l = Some l' \<Longrightarrow> length (hlToConnect l) = Suc (length (hlToConnect l')) \<and> hlToHost l' = hlToHost l"
  by (auto simp: link_dispatch_def split: list.splits prod.splits)

function drain :: "(mgError \<Rightarrow> string) \<Rightarrow> ctlEnv \<Rightarrow> hostLink \<Rightarrow> hostLink option" where
  "drain errText env l =
     (if hlToHost l \<noteq> [] then (case link_host errText env l of None \<Rightarrow> None | Some l1 \<Rightarrow> drain errText env l1)
      else if hlToConnect l \<noteq> [] then (case link_dispatch l of None \<Rightarrow> None | Some l1 \<Rightarrow> drain errText env l1)
      else Some l)"
  by auto
termination
  by (relation "measure (\<lambda>(e, v, l). 2 * length (hlToHost l) + length (hlToConnect l))")
    (auto dest: link_host_size link_dispatch_size)

declare drain.simps [simp del]

definition resize_queued :: "hostLink \<Rightarrow> bool" where
  "resize_queued l \<longleftrightarrow> (\<exists>msg. CFrame (HResize msg) \<in> set (hlToHost l))"

lemma host_runs:
  assumes "hlToHost l \<noteq> []" "\<not> resize_queued l"
  shows "\<exists>l1. link_host errText env l = Some l1 \<and> \<not> resize_queued l1"
proof -
  obtain f fs where q: "hlToHost l = f # fs" using assms(1) by (cases "hlToHost l") auto
  then have "\<And>msg. f \<noteq> CFrame (HResize msg)" using assms(2) by (auto simp: resize_queued_def)
  then have "host_handleControlFrame errText env (hcInstanceID (hlClient l)) (hcLocalProtocol (hlClient l)) f (hlHost l) \<noteq> None"
    by (auto simp: host_handleControlFrame_def split: prod.splits sum.splits option.splits connectFrame.splits hubFrame.splits)
  then obtain replies st where "host_handleControlFrame errText env (hcInstanceID (hlClient l)) (hcLocalProtocol (hlClient l)) f (hlHost l) = Some (replies, st)"
    by auto
  then show ?thesis using q assms(2) by (auto simp: link_host_def resize_queued_def)
qed

lemma drain_ok:
  assumes "link_ok errText l" "\<not> resize_queued l"
  shows "\<exists>l'. drain errText env l = Some l' \<and> link_ok errText l' \<and> hlToHost l' = [] \<and> hlToConnect l' = []"
  using assms
proof (induction errText env l rule: drain.induct)
  case (1 errText env l)
  consider "hlToHost l \<noteq> []" | "hlToHost l = []" "hlToConnect l \<noteq> []" | "hlToHost l = []" "hlToConnect l = []" by blast
  then show ?case
  proof cases
    case 1
    then obtain l1 where l1: "link_host errText env l = Some l1" "\<not> resize_queued l1" using host_runs "1.prems"(2) by blast
    then show ?thesis using "1.IH"(1) [OF 1 l1(1) link_host_ok [OF "1.prems"(1) l1(1)] l1(2)] 1 by (simp add: drain.simps [of errText env l])
  next
    case 2
    then have "link_dispatch l \<noteq> None" by (simp add: link_dispatch_def split: list.split prod.split)
    then obtain l1 where l1: "link_dispatch l = Some l1" by blast
    then have "\<not> resize_queued l1" using link_dispatch_size [OF l1] 2(1) by (simp add: resize_queued_def)
    then show ?thesis using "1.IH"(2) [OF _ 2(2) l1 link_dispatch_ok [OF "1.prems"(1) l1]] l1 2 by (simp add: drain.simps [of errText env l])
  next
    case 3
    then show ?thesis using "1.prems"(1) by (simp add: drain.simps [of errText env l])
  qed
qed

lemma new_link_ok: "hcPending c = None \<Longrightarrow> link_ok errText (new_link c st)"
  by (simp add: link_ok_def new_link_def)

subsection \<open>Properties\<close>

text \<open>
  An open request gets its own answer. Whatever else travels between the two processes (statistics,
  resizes, closes, further open calls, shells exiting), the answers given to the callers of \<open>Open\<close> are
  the manager's answers, in order, each under the session ID it was asked for: the process ID, or the
  missing directory as such, or the text of the error. At most the last one is still on its way.
\<close>
theorem host_open_answers:
  assumes "hcPending c = None" "link_run errText evs (new_link c st) = Some l"
  shows "\<exists>k \<le> 1. hlAnswers l = map (map_prod id (seen errText)) (take (length (hlOpened l) - k) (hlOpened l)) \<and>
    (hcPending (hlClient l) = None \<longrightarrow> k = 0)"
proof -
  have "link_ok errText l" using link_invariant [where P = "link_ok errText", OF assms(2) new_link_ok [OF assms(1)] link_step_ok] .
  then show ?thesis
    by (cases "hcPending (hlClient l)") (fastforce simp: link_ok_def intro: exI [of _ 0] exI [of _ 1])+
qed

text \<open>A freshly shaken-hands client and an empty manager.\<close>

definition demoHostClient :: hostClient where
  "demoHostClient = the (hc_handshake (Some (hello_reply ''h1'' 3 (NewManager 100 None))))"

definition demoSpec :: PTYSpec where
  "demoSpec = \<lparr>specShell = ''sh'', specCwd = ''/x'', specCols = 80, specRows = 24, specEnv = [], specCreateDir = False\<rparr>"

definition demoCtlEnv :: "ptyError + int \<Rightarrow> ctlEnv" where
  "demoCtlEnv r = \<lparr>ceReadOk = True, ceStarted = r, ceResizeOk = True, ceCloseOk = True, ceFs = undefined\<rparr>"

definition demoLink :: "linkEvent list" where
  "demoLink = [LnOpen ''s1'' demoSpec True, LnStat [], LnHost (demoCtlEnv (Inl ErrCwdNotFound)), LnOpen ''s2'' demoSpec True, LnDispatch, LnDispatch,
     LnOpen ''s3'' demoSpec True, LnHost (demoCtlEnv (Inr 7))]"

lemma demoLink_run: "map_option (\<lambda>l. (hlOpened l, hlAnswers l, hcPending (hlClient l), hlToHost l)) (link_run (\<lambda>_. ''x'') demoLink (new_link demoHostClient (NewManager 100 None, None))) =
    Some ([(''s1'', Inl (MgOpenPTY ErrCwdNotFound)), (''s3'', Inr 7)], [(''s1'', OpenCwdNotFound)], Some ''s3'', [])"
  by (simp add: demoLink_def demoHostClient_def hello_reply_def hc_handshake_def NewHostInfo_def new_link_def hc_Open_send_def hc_sendControl_def
      link_send_def Let_def NewOpenSession_def link_host_def host_handleControlFrame_def open_result_def demoCtlEnv_def Open_def spec_of_def
      demoSpec_def mg_lookup_def NewManager_def m_get_def link_dispatch_def stat_frame_def NewLocalStat_def hc_dispatch_def NewError_def open_code_def
      hc_unpend_def Open_insert_def)

text \<open>Witness for \<open>host_open_answers\<close>: a missing directory, a second call meanwhile, and a success on its way.\<close>
theorem host_open_answers_witness:
  "\<exists>l. link_run (\<lambda>_. ''x'') demoLink (new_link demoHostClient (NewManager 100 None, None)) = Some l \<and> hlAnswers l = [(''s1'', OpenCwdNotFound)] \<and>
    (\<exists>k \<le> 1. hlAnswers l = map (map_prod id (seen (\<lambda>_. ''x''))) (take (length (hlOpened l) - k) (hlOpened l)))"
proof -
  obtain l where l: "link_run (\<lambda>_. ''x'') demoLink (new_link demoHostClient (NewManager 100 None, None)) = Some l" "hlAnswers l = [(''s1'', OpenCwdNotFound)]"
    using demoLink_run by auto
  have "hcPending demoHostClient = None" by (simp add: demoHostClient_def hello_reply_def hc_handshake_def NewHostInfo_def)
  from host_open_answers [OF this l(1)] l show ?thesis by blast
qed



text \<open>
  The exit of a shell never leaves the session host. Whatever happens on the link, shells exiting
  included, the client's notifier is never told of an exit: the host sends no such frame, and the manager's own
  notifier does nothing. The hub therefore lists a session whose shell has exited as running.
\<close>
theorem host_never_reports_exit:
  assumes "link_run errText evs (new_link c st) = Some l"
  shows "hcExits (hlClient l) = hcExits c"
proof -
  let ?P = "\<lambda>l. hcExits (hlClient l) = hcExits c \<and> (\<forall>f \<in> set (hlToConnect l). \<forall>msg. f \<noteq> LSessionExited msg)"
  have "?P l"
  proof (rule link_invariant [where P = ?P, OF assms])
    show "?P (new_link c st)" by (simp add: new_link_def)
    fix ev l l' assume P: "?P l" and st: "link_step errText ev l = Some l'"
    have host: "\<forall>f \<in> set replies. \<forall>msg. f \<noteq> LSessionExited msg"
      if "host_handleControlFrame errText env inst v f st = Some (replies, st')" for env inst v f st replies st'
      using that by (auto simp: host_handleControlFrame_def NewHostInfo_def split: prod.splits sum.splits option.splits connectFrame.splits hubFrame.splits)
    show "?P l'"
    proof (cases ev)
      case (LnHost env)
      then have "link_host errText env l = Some l'" using st by simp
      then obtain f fs replies h where h: "host_handleControlFrame errText env (hcInstanceID (hlClient l)) (hcLocalProtocol (hlClient l)) f (hlHost l) = Some (replies, h)"
        and l': "hlToConnect l' = hlToConnect l @ replies" "hlClient l' = hlClient l" by (rule link_host_parts) simp
      have "\<forall>f \<in> set replies. \<forall>msg. f \<noteq> LSessionExited msg" using h host by (cases "hlHost l"; cases h) blast
      then show ?thesis using P l' by auto
    next
      case LnDispatch
      then show ?thesis using P st
        by (auto simp: link_dispatch_def hc_dispatch_def hc_unpend_def split: list.splits prod.splits hostFrame.splits if_splits)
    qed (use P st in \<open>auto simp: link_send_def hc_Open_send_def hc_unpend_def stat_frame_def NewLocalStat_def Let_def split: option.splits if_splits\<close>)
  qed
  then show ?thesis by blast
qed

text \<open>Witness for \<open>host_never_reports_exit\<close>: a client with a notifier, and a shell that exits with code 3.\<close>
theorem host_never_reports_exit_witness:
  "\<exists>l. link_run (\<lambda>_. ''x'') [LnExit ''s1'' 0 3] (new_link (hc_SetNotifier demoHostClient) (NewManager 100 None, None)) = Some l \<and>
    mgNotified (fst (hlHost l)) = [(''s1'', 3)] \<and> hcExits (hlClient l) = []"
proof -
  let ?l = "(new_link (hc_SetNotifier demoHostClient) (NewManager 100 None, None))\<lparr>hlHost := (readPump_exit ''s1'' 0 3 (NewManager 100 None), None)\<rparr>"
  have r: "link_run (\<lambda>_. ''x'') [LnExit ''s1'' 0 3] (new_link (hc_SetNotifier demoHostClient) (NewManager 100 None, None)) = Some ?l"
    by (simp add: new_link_def)
  have "mgNotified (fst (hlHost ?l)) = [(''s1'', 3)]" by (simp add: readPump_exit_def mg_step_defs NewManager_def)
  moreover have "hcExits (hc_SetNotifier demoHostClient) = []" by (simp add: demoHostClient_def hello_reply_def hc_handshake_def NewHostInfo_def hc_SetNotifier_def)
  ultimately show ?thesis using host_never_reports_exit [OF r] r by auto
qed

end
