(* ===== verification/Session_Host_Lease.thy ===== *)
theory Session_Host_Lease
  imports Session_Host
begin

text \<open>
  The connections of the session host (\<^verbatim>\<open>internal/agent/adapter/primary/localhost/server.go\<close>, \<open>handleConn\<close>):
  the lease that lets one client in at a time, and the sink the snapshot producer sends through, under every
  interleaving of connections and of the producer.

  \<^item> Connections and the multiplexer session of each share a number; a snapshot stream is named by the
    session it was opened on and a number of its own.
  \<^item> The goroutines a connection starts only read from and write to it; they are in \<open>Session_Host\<close>.
\<close>

subsection \<open>The sink\<close>

record connectSink =
  ckSess :: "nat option"
  ckEnc :: "(nat \<times> nat) option"
  ckNext :: nat

definition sink_attach :: "nat \<Rightarrow> connectSink \<Rightarrow> connectSink" where
  "sink_attach n k = k\<lparr>ckEnc := None, ckSess := Some n\<rparr>"

definition sink_detach :: "connectSink \<Rightarrow> connectSink" where
  "sink_detach k = k\<lparr>ckEnc := None, ckSess := None\<rparr>"

text \<open>After a stream has been opened on session \<open>n\<close>: the encoder to use, or none if the session was replaced.\<close>

definition sink_store :: "nat \<Rightarrow> connectSink \<Rightarrow> (nat \<times> nat) option \<times> connectSink" where
  "sink_store n k =
     (if ckSess k \<noteq> Some n then (None, k)
      else case ckEnc k of Some e \<Rightarrow> (Some e, k)
        | None \<Rightarrow> (Some (n, ckNext k), k\<lparr>ckEnc := Some (n, ckNext k), ckNext := Suc (ckNext k)\<rparr>))"

text \<open>After a failed write: the stream is dropped if it is still the active one.\<close>

definition sink_failed :: "nat \<times> nat \<Rightarrow> connectSink \<Rightarrow> connectSink" where
  "sink_failed e k = (if ckEnc k = Some e then k\<lparr>ckEnc := None\<rparr> else k)"

subsection \<open>Connections\<close>

record hostServer =
  hvLease :: "nat option"
  hvSink :: connectSink
  hvNext :: nat
  hvOut :: "(nat \<times> hostFrame) list"
  hvSnaps :: "(nat \<times> SessionScreen) list"

definition NewServer :: hostServer where
  "NewServer = \<lparr>hvLease = None, hvSink = \<lparr>ckSess = None, ckEnc = None, ckNext = 0\<rparr>, hvNext = 0, hvOut = [], hvSnaps = []\<rparr>"

datatype host_pc =
    HpListen | HpAccepted nat | HpChecked nat | HpRejecting nat | HpLeased nat | HpAttaching nat int | HpServing nat int
  | HpDetaching nat | HpReleasing nat | HpDone nat
  | SkIdle | SkOpening nat SessionScreen | SkWriting "nat \<times> nat" SessionScreen

definition busy_frame :: hostFrame where
  "busy_frame = LError (NewError [] ''host_busy''
     ''localhost: another connect client is already attached; try again after it disconnects'')"

definition sv_send :: "nat \<Rightarrow> hostFrame \<Rightarrow> hostServer \<Rightarrow> hostServer" where
  "sv_send n f s = s\<lparr>hvOut := hvOut s @ [(n, f)]\<rparr>"

inductive host_step :: "string \<Rightarrow> hostServer \<times> host_pc \<Rightarrow> hostServer \<times> host_pc \<times> host_pc list \<Rightarrow> bool" for inst where
  hp_accept: "host_step inst (s, HpListen) (s\<lparr>hvNext := Suc (hvNext s)\<rparr>, HpListen, [HpAccepted (hvNext s)])"
| hp_foreign: "host_step inst (s, HpAccepted n) (s, HpDone n, [])"
| hp_checked: "host_step inst (s, HpAccepted n) (s, HpChecked n, [])"
| hp_lease: "hvLease s = None \<Longrightarrow> host_step inst (s, HpChecked n) (s\<lparr>hvLease := Some n\<rparr>, HpLeased n, [])"
| hp_busy: "hvLease s \<noteq> None \<Longrightarrow> host_step inst (s, HpChecked n) (s, HpRejecting n, [])"
| hp_reject: "host_step inst (s, HpRejecting n) (sv_send n busy_frame s, HpDone n, [])"
| hp_rejected: "host_step inst (s, HpRejecting n) (s, HpDone n, [])"
| hp_hello: "host_step inst (s, HpLeased n) (sv_send n (hello_reply inst v m) s,
    if negotiate v \<ge> 2 then HpAttaching n (negotiate v) else HpServing n (negotiate v), [])"
| hp_no_hello: "host_step inst (s, HpLeased n) (s, HpReleasing n, [])"
| hp_attach: "host_step inst (s, HpAttaching n v) (s\<lparr>hvSink := sink_attach n (hvSink s)\<rparr>, HpServing n v, [])"
| hp_closed: "host_step inst (s, HpServing n v) (s, if v \<ge> 2 then HpDetaching n else HpReleasing n, [])"
| hp_detach: "host_step inst (s, HpDetaching n) (s\<lparr>hvSink := sink_detach (hvSink s)\<rparr>, HpReleasing n, [])"
| hp_release: "host_step inst (s, HpReleasing n) (s\<lparr>hvLease := None\<rparr>, HpDone n, [])"
| sk_none: "ckSess (hvSink s) = None \<Longrightarrow> host_step inst (s, SkIdle) (s, SkIdle, [])"
| sk_reuse: "ckSess (hvSink s) = Some n \<Longrightarrow> ckEnc (hvSink s) = Some e \<Longrightarrow> host_step inst (s, SkIdle) (s, SkWriting e scr, [])"
| sk_open: "ckSess (hvSink s) = Some n \<Longrightarrow> ckEnc (hvSink s) = None \<Longrightarrow> host_step inst (s, SkIdle) (s, SkOpening n scr, [])"
| sk_open_failed: "host_step inst (s, SkOpening n scr) (s, SkIdle, [])"
| sk_replaced: "sink_store n (hvSink s) = (None, k) \<Longrightarrow> host_step inst (s, SkOpening n scr) (s, SkIdle, [])"
| sk_stored: "sink_store n (hvSink s) = (Some e, k) \<Longrightarrow> host_step inst (s, SkOpening n scr) (s\<lparr>hvSink := k\<rparr>, SkWriting e scr, [])"
| sk_written: "host_step inst (s, SkWriting e scr) (s\<lparr>hvSnaps := hvSnaps s @ [(fst e, scr)]\<rparr>, SkIdle, [])"
| sk_failed: "host_step inst (s, SkWriting e scr) (s\<lparr>hvSink := sink_failed e (hvSink s)\<rparr>, SkIdle, [])"

inductive_cases host_step_elim: "host_step inst (s, t) (s', t', new)"

lemmas sink_defs = sink_attach_def sink_detach_def sink_store_def sink_failed_def sv_send_def

subsection \<open>The invariant\<close>

text \<open>The connection a goroutine holds the lease for, and the one it has attached to the sink.\<close>

fun holds :: "host_pc \<Rightarrow> nat list" where
  "holds (HpLeased n) = [n]"
| "holds (HpAttaching n v) = [n]"
| "holds (HpServing n v) = [n]"
| "holds (HpDetaching n) = [n]"
| "holds (HpReleasing n) = [n]"
| "holds _ = []"

fun attached :: "host_pc \<Rightarrow> nat list" where
  "attached (HpServing n v) = (if v \<ge> 2 then [n] else [])"
| "attached (HpDetaching n) = [n]"
| "attached _ = []"

fun attaches_v2 :: "host_pc \<Rightarrow> bool" where
  "attaches_v2 (HpAttaching n v) \<longleftrightarrow> v \<ge> 2"
| "attaches_v2 _ \<longleftrightarrow> True"

text \<open>The connections a goroutine has or will have a snapshot stream for.\<close>

fun streams_for :: "host_pc \<Rightarrow> nat set" where
  "streams_for (HpAttaching n v) = {n}"
| "streams_for (SkOpening n scr) = {n}"
| "streams_for (SkWriting e scr) = {fst e}"
| "streams_for _ = {}"

definition opt_list :: "'a option \<Rightarrow> 'a list" where
  "opt_list x = (case x of None \<Rightarrow> [] | Some a \<Rightarrow> [a])"

lemma opt_list_simps [simp]: "opt_list None = []" "opt_list (Some a) = [a]" "opt_list x = [] \<longleftrightarrow> x = None"
  by (auto simp: opt_list_def split: option.split)

definition speaks_v2 :: "nat \<Rightarrow> hostServer \<Rightarrow> bool" where
  "speaks_v2 n s \<longleftrightarrow> (\<exists>info. (n, LHostInfo info) \<in> set (hvOut s) \<and> hiLocalProtocol info \<ge> 2)"

definition host_inv :: "hostServer \<times> host_pc list \<Rightarrow> bool" where
  "host_inv cf \<longleftrightarrow> (case cf of (s, pcs) \<Rightarrow>
     concat (map holds pcs) = opt_list (hvLease s) \<and> concat (map attached pcs) = opt_list (ckSess (hvSink s)) \<and>
     (\<forall>t \<in> set pcs. attaches_v2 t) \<and> (\<forall>e. ckEnc (hvSink s) = Some e \<longrightarrow> ckSess (hvSink s) = Some (fst e)) \<and>
     (\<forall>n. ckSess (hvSink s) = Some n \<or> n \<in> \<Union> (streams_for ` set pcs) \<or> n \<in> fst ` set (hvSnaps s) \<longrightarrow> speaks_v2 n s))"

lemma speaks_send: "speaks_v2 n s \<Longrightarrow> speaks_v2 n (sv_send m f s)"
  by (auto simp: speaks_v2_def sv_send_def)

lemma speaks_hello: "negotiate v \<ge> 2 \<Longrightarrow> speaks_v2 n (sv_send n (hello_reply inst v m) s)"
  by (auto simp: speaks_v2_def sv_send_def hello_reply_def NewHostInfo_def)

lemma speaks_other [simp]: "speaks_v2 n (s\<lparr>hvNext := x\<rparr>) = speaks_v2 n s" "speaks_v2 n (s\<lparr>hvLease := l\<rparr>) = speaks_v2 n s"
  "speaks_v2 n (s\<lparr>hvSink := k\<rparr>) = speaks_v2 n s" "speaks_v2 n (s\<lparr>hvSnaps := sn\<rparr>) = speaks_v2 n s"
  by (simp_all add: speaks_v2_def)

lemma opt_split: "a @ x # b = opt_list l \<longleftrightarrow> a = [] \<and> b = [] \<and> l = Some x"
  by (cases l) (auto simp: append_eq_Cons_conv)

lemma not_holding: "concat (map holds ts) = [] \<Longrightarrow> concat (map attached ts) = []"
proof -
  have "attached t = []" if "holds t = []" for t using that by (cases t) auto
  then show "concat (map holds ts) = [] \<Longrightarrow> concat (map attached ts) = []" by simp
qed

lemma step_lease:
  assumes "host_step inst (s, t) (s', t', new)" "concat (map holds (ts1 @ t # ts2)) = opt_list (hvLease s)"
  shows "concat (map holds (ts1 @ t' # ts2 @ new)) = opt_list (hvLease s')"
  using assms by (elim host_step_elim) (clarsimp simp: opt_split sv_send_def simp del: concat_eq_Nil_conv split del: if_split; (simp split: if_split)?)+

lemma step_attached:
  assumes "host_step inst (s, t) (s', t', new)" "concat (map holds (ts1 @ t # ts2)) = opt_list (hvLease s)"
    and "concat (map attached (ts1 @ t # ts2)) = opt_list (ckSess (hvSink s))" "attaches_v2 t"
  shows "concat (map attached (ts1 @ t' # ts2 @ new)) = opt_list (ckSess (hvSink s'))"
proof -
  have "holds t = [] \<or> (\<exists>n. holds t = [n])" by (cases t) auto
  then have "holds t \<noteq> [] \<longrightarrow> concat (map attached ts1) = [] \<and> concat (map attached ts2) = []"
    using assms(2) not_holding [of ts1] not_holding [of ts2] by (auto simp: opt_split simp del: concat_eq_Nil_conv)
  with assms(1,3,4) show ?thesis
    by (elim host_step_elim) (auto simp: opt_split sink_defs simp del: concat_eq_Nil_conv split: if_splits option.splits)
qed

lemma step_attaching:
  "host_step inst (s, t) (s', t', new) \<Longrightarrow> attaches_v2 t' \<and> (\<forall>u \<in> set new. attaches_v2 u)"
  by (elim host_step_elim) auto

lemma step_enc:
  assumes "host_step inst (s, t) (s', t', new)" "\<forall>e. ckEnc (hvSink s) = Some e \<longrightarrow> ckSess (hvSink s) = Some (fst e)"
  shows "\<forall>e. ckEnc (hvSink s') = Some e \<longrightarrow> ckSess (hvSink s') = Some (fst e)"
  using assms by (cases rule: host_step_elim) (auto simp: sink_defs split: if_splits option.splits)

text \<open>Where a step may send a snapshot to.\<close>

definition receivers :: "hostServer \<Rightarrow> host_pc \<Rightarrow> nat set" where
  "receivers s t = {n. ckSess (hvSink s) = Some n} \<union> streams_for t \<union> fst ` set (hvSnaps s)"

lemma step_speaks: "host_step inst (s, t) (s', t', new) \<Longrightarrow> speaks_v2 n s \<Longrightarrow> speaks_v2 n s'"
  by (elim host_step_elim) (auto intro: speaks_send)

lemma step_new: "host_step inst (s, t) (s', t', new) \<Longrightarrow> u \<in> set new \<Longrightarrow> streams_for u = {}"
  by (elim host_step_elim) auto

lemma receivers_send: "receivers (sv_send m f s) t = receivers s t"
  by (simp add: receivers_def sv_send_def)

lemma step_receivers:
  assumes "host_step inst (s, t) (s', t', new)" "\<forall>e. ckEnc (hvSink s) = Some e \<longrightarrow> ckSess (hvSink s) = Some (fst e)"
    and "n \<in> receivers s' t'"
  shows "n \<in> receivers s t \<or> speaks_v2 n s'"
proof (cases "\<exists>m v mg. t = HpLeased m \<and> s' = sv_send m (hello_reply inst v mg) s \<and>
    t' = (if negotiate v \<ge> 2 then HpAttaching m (negotiate v) else HpServing m (negotiate v))")
  case True
  then show ?thesis using assms(3) speaks_hello by (auto simp: receivers_send split: if_splits) (auto simp: receivers_def)
next
  case False
  then show ?thesis using assms
    by (elim host_step_elim) (auto simp: receivers_def sink_defs split: if_splits option.splits)
qed

lemma host_step_inv:
  assumes "host_inv (s, ts1 @ t # ts2)" "host_step inst (s, t) (s', t', new)"
  shows "host_inv (s', ts1 @ t' # ts2 @ new)"
proof -
  have I: "concat (map holds (ts1 @ t # ts2)) = opt_list (hvLease s)" "concat (map attached (ts1 @ t # ts2)) = opt_list (ckSess (hvSink s))"
    "\<forall>e. ckEnc (hvSink s) = Some e \<longrightarrow> ckSess (hvSink s) = Some (fst e)" "\<forall>n \<in> receivers s t. speaks_v2 n s"
    "\<forall>u \<in> set (ts1 @ ts2). \<forall>n \<in> streams_for u. speaks_v2 n s" "\<forall>u \<in> set (ts1 @ t # ts2). attaches_v2 u"
    using assms(1) by (auto simp: host_inv_def receivers_def)
  have R: "\<forall>n \<in> receivers s' t'. speaks_v2 n s'" "\<forall>n. speaks_v2 n s \<longrightarrow> speaks_v2 n s'" "\<forall>u \<in> set new. streams_for u = {}"
    using step_receivers [OF assms(2) I(3)] step_speaks [OF assms(2)] step_new [OF assms(2)] I(4) by blast+
  then have "\<forall>n. ckSess (hvSink s') = Some n \<or> n \<in> \<Union> (streams_for ` set (ts1 @ t' # ts2 @ new)) \<or> n \<in> fst ` set (hvSnaps s') \<longrightarrow> speaks_v2 n s'"
    using I(5) unfolding receivers_def by auto (meson UnI1 UnI2)+
  then show ?thesis
    unfolding host_inv_def using step_lease [OF assms(2) I(1)] step_attached [OF assms(2) I(1,2)] step_enc [OF assms(2) I(3)]
      step_attaching [OF assms(2)] I(6) by (simp del: concat_append map_append concat.simps list.map) auto
qed

subsection \<open>Properties\<close>

lemma one_holder:
  assumes "concat (map holds ts) = opt_list l" "t \<in> set ts" "n \<in> set (holds t)"
  shows "l = Some n"
proof -
  have "n \<in> set (concat (map holds ts))" using assms(2,3) by auto
  then show ?thesis using assms(1) by (cases l) auto
qed

text \<open>
  C13: the session host serves one client at a time. Under every interleaving of clients connecting and
  leaving with the snapshot producer, a client being served holds the lease (so two are never served
  together), the sink is attached to the client being served or torn down and to no other, and snapshots
  have been sent only to clients that agreed on a protocol with snapshots: none reaches a client of version 1, and
  none a client that was turned away.
\<close>
theorem host_serves_one_client:
  assumes "(par_step (host_step inst))\<^sup>*\<^sup>* (NewServer, [HpListen, SkIdle]) (s, pcs)"
  shows "(\<forall>n v. HpServing n v \<in> set pcs \<longrightarrow> hvLease s = Some n) \<and>
    (\<forall>n. ckSess (hvSink s) = Some n \<longrightarrow> hvLease s = Some n \<and> (HpDetaching n \<in> set pcs \<or> (\<exists>v \<ge> 2. HpServing n v \<in> set pcs))) \<and>
    (\<forall>(n, scr) \<in> set (hvSnaps s). speaks_v2 n s)"
proof -
  have inv: "host_inv (s, pcs)"
  proof (rule par_invariant [OF assms])
    show "host_inv (NewServer, [HpListen, SkIdle])" by (simp add: host_inv_def NewServer_def)
  qed (rule host_step_inv)
  then have I: "concat (map holds pcs) = opt_list (hvLease s)" "concat (map attached pcs) = opt_list (ckSess (hvSink s))"
    by (simp_all add: host_inv_def)
  have serving: "hvLease s = Some n" if "HpServing n v \<in> set pcs" for n v
    using one_holder [OF I(1) that] by simp
  have sink: "hvLease s = Some n \<and> (HpDetaching n \<in> set pcs \<or> (\<exists>v \<ge> 2. HpServing n v \<in> set pcs))" if "ckSess (hvSink s) = Some n" for n
  proof -
    have "n \<in> set (concat (map attached pcs))" using I(2) that by simp
    then obtain t where t: "t \<in> set pcs" "n \<in> set (attached t)" by auto
    from t(2) have "n \<in> set (holds t)" by (cases t) (auto split: if_splits)
    then show ?thesis using one_holder [OF I(1) t(1)] t by (cases t) (auto split: if_splits)
  qed
  show ?thesis using inv serving sink by (fastforce simp: host_inv_def)
qed

text \<open>Witness for \<open>host_serves_one_client\<close>: a client is served and a second one is about to be turned away.\<close>
theorem host_serves_one_client_witness:
  "\<exists>s pcs. (par_step (host_step ''h''))\<^sup>*\<^sup>* (NewServer, [HpListen, SkIdle]) (s, pcs) \<and> HpServing 0 3 \<in> set pcs \<and> HpRejecting 1 \<in> set pcs \<and>
    hvLease s = Some 0"
proof -
  let ?s0 = NewServer and ?m = "NewManager 100 None"
  let ?s1 = "?s0\<lparr>hvNext := Suc 0\<rparr>"
  let ?s2 = "?s1\<lparr>hvLease := Some 0\<rparr>"
  let ?s3 = "sv_send 0 (hello_reply ''h'' 3 ?m) ?s2"
  let ?s4 = "?s3\<lparr>hvSink := sink_attach 0 (hvSink ?s3)\<rparr>"
  let ?s5 = "?s4\<lparr>hvNext := Suc (Suc 0)\<rparr>"
  have e: "host_step ''h'' (?s0, HpListen) (?s1, HpListen, [HpAccepted 0])"
    using host_step.hp_accept [of "''h''" NewServer] by (simp add: NewServer_def)
  have l: "host_step ''h'' (?s1, HpChecked 0) (?s2, HpLeased 0, [])" by (rule host_step.hp_lease) (simp add: NewServer_def)
  have h: "host_step ''h'' (?s2, HpLeased 0) (?s3, HpAttaching 0 3, [])"
    using host_step.hp_hello [of "''h''" ?s2 0 3 ?m] by (simp add: negotiate_def LocalProtocolVersion_def)
  have a: "host_step ''h'' (?s4, HpListen) (?s5, HpListen, [HpAccepted (Suc 0)])"
    using host_step.hp_accept [of "''h''" ?s4] by (simp add: NewServer_def sink_defs)
  have b: "host_step ''h'' (?s5, HpChecked (Suc 0)) (?s5, HpRejecting (Suc 0), [])" by (rule host_step.hp_busy) (simp add: NewServer_def sink_defs)
  have r: "(par_step (host_step ''h''))\<^sup>*\<^sup>* (?s0, [HpListen, SkIdle]) (?s0, [HpListen, SkIdle])" by simp
  note r = par_extend [of "host_step ''h''", OF r, of 0, simplified, OF e]
  note r = par_extend [of "host_step ''h''", OF r, of 2, simplified, OF host_step.hp_checked]
  note r = par_extend [of "host_step ''h''", OF r, of 2, simplified, OF l]
  note r = par_extend [of "host_step ''h''", OF r, of 2, simplified, OF h]
  note r = par_extend [of "host_step ''h''", OF r, of 2, simplified, OF host_step.hp_attach]
  note r = par_extend [of "host_step ''h''", OF r, of 0, simplified, OF a]
  note r = par_extend [of "host_step ''h''", OF r, of 3, simplified, OF host_step.hp_checked]
  note r = par_extend [of "host_step ''h''", OF r, of 3, simplified, OF b]
  from host_serves_one_client [OF r] r show ?thesis by (intro exI conjI) (assumption, auto)
qed

end
