(* ===== verification/Transport_Codec.thy ===== *)
theory Transport_Codec
  imports Transport
begin

text \<open>
  The codec of the control and snapshot streams, \<^verbatim>\<open>internal/transport/codec.go\<close>, and the header of a data
  stream, \<^verbatim>\<open>internal/transport/attach.go\<close>: one JSON value per line.

  \<^item> A stream is the list of the bytes still to come. An encoder writes a frame under its lock, so the
    frames of concurrent writers do not mix.
  \<^item> \<open>encoding/json\<close> is given by \<open>marshal\<close> and \<open>unmarshal\<close>; \<open>hdr\<close> decodes the type tag alone. What the
    codec relies on is \<open>json_lines\<close>: compact JSON has no line feed, and white space after a value is ignored
    (\<open>json_lines_on\<close>: for some messages).
\<close>

definition newline :: byte where "newline = 10"

definition json_lines_on :: "'m set \<Rightarrow> ('m \<Rightarrow> byte list) \<Rightarrow> (byte list \<Rightarrow> 'm option) \<Rightarrow> (byte list \<Rightarrow> 'ty option) \<Rightarrow> ('m \<Rightarrow> 'ty) \<Rightarrow> bool" where
  "json_lines_on M marshal unmarshal hdr tag \<longleftrightarrow>
     (\<forall>m \<in> M. newline \<notin> set (marshal m) \<and> unmarshal (marshal m @ [newline]) = Some m \<and> hdr (marshal m @ [newline]) = Some (tag m))"

definition json_lines :: "('m \<Rightarrow> byte list) \<Rightarrow> (byte list \<Rightarrow> 'm option) \<Rightarrow> (byte list \<Rightarrow> 'ty option) \<Rightarrow> ('m \<Rightarrow> 'ty) \<Rightarrow> bool" where
  "json_lines marshal unmarshal hdr tag \<longleftrightarrow> json_lines_on UNIV marshal unmarshal hdr tag"

subsection \<open>Reading lines\<close>

text \<open>\<open>bufio.Reader.ReadBytes\<close>: up to and including the delimiter, or what is left and the end of the stream.\<close>

definition ReadBytes :: "byte \<Rightarrow> byte list \<Rightarrow> byte list \<times> bool \<times> byte list" where
  "ReadBytes delim s = (case dropWhile (\<lambda>b. b \<noteq> delim) s of
     [] \<Rightarrow> (s, True, [])
   | x # rest \<Rightarrow> (takeWhile (\<lambda>b. b \<noteq> delim) s @ [x], False, rest))"

record 'ty frame =
  frType :: 'ty
  frRaw :: "byte list"

datatype decodeError = DecodeEOF | DecodeBadHeader

text \<open>\<open>Next\<close>: a frame and an error may come together, at a last line without line feed.\<close>

definition Next :: "(byte list \<Rightarrow> 'ty option) \<Rightarrow> byte list \<Rightarrow> ('ty frame option \<times> decodeError option) \<times> byte list" where
  "Next hdr s = (case ReadBytes newline s of (line, eof, rest) \<Rightarrow>
     if eof \<and> line = [] then ((None, Some DecodeEOF), rest)
     else (case hdr line of
       None \<Rightarrow> ((None, Some DecodeBadHeader), rest)
     | Some ty \<Rightarrow> ((Some \<lparr>frType = ty, frRaw = line\<rparr>, if eof then Some DecodeEOF else None), rest)))"

definition Encode :: "('m \<Rightarrow> byte list) \<Rightarrow> 'm \<Rightarrow> byte list \<Rightarrow> byte list" where
  "Encode marshal msg out = out @ marshal msg @ [newline]"

definition Unmarshal :: "(byte list \<Rightarrow> 'm option) \<Rightarrow> 'ty frame \<Rightarrow> 'm option" where
  "Unmarshal unmarshal f = unmarshal (frRaw f)"

text \<open>The loop of every reader of a control stream: frames until the first error.\<close>

lemma ReadBytes_shorter: "ReadBytes d s = (line, eof, rest) \<Longrightarrow> s \<noteq> [] \<Longrightarrow> length rest < length s"
  using length_dropWhile_le [of "\<lambda>b. b \<noteq> d" s] by (auto simp: ReadBytes_def split: list.splits)

lemma Next_shorter:
  assumes "Next hdr s = ((f, None), rest)"
  shows "length rest < length s"
proof -
  obtain line eof r where rb: "ReadBytes newline s = (line, eof, r)" by (metis prod_cases3)
  then have "r = rest" using assms by (auto simp: Next_def split: if_splits option.splits)
  moreover have "s \<noteq> []" using assms by (auto simp: Next_def ReadBytes_def)
  ultimately show ?thesis using ReadBytes_shorter [OF rb] by simp
qed

function read_frames :: "(byte list \<Rightarrow> 'ty option) \<Rightarrow> byte list \<Rightarrow> 'ty frame list \<times> decodeError" where
  "read_frames hdr s = (case Next hdr s of
     ((_, Some err), rest) \<Rightarrow> ([], err)
   | ((None, None), rest) \<Rightarrow> ([], DecodeEOF)
   | ((Some f, None), rest) \<Rightarrow> (case read_frames hdr rest of (fs, err) \<Rightarrow> (f # fs, err)))"
  by pat_completeness auto
termination
  by (relation "measure (\<lambda>(h, s). length s)") (auto dest: Next_shorter [OF sym])

declare read_frames.simps [simp del]

subsection \<open>The header of a data stream\<close>

datatype headerError = HeaderEOF | HeaderBad

text \<open>The header, and the bytes that follow it, read ahead or not.\<close>

definition ReadAttachHeader :: "(byte list \<Rightarrow> 'h option) \<Rightarrow> byte list \<Rightarrow> (headerError + 'h) \<times> byte list" where
  "ReadAttachHeader unmarshal s = (case ReadBytes newline s of (line, eof, rest) \<Rightarrow>
     if eof \<and> line = [] then (Inl HeaderEOF, rest)
     else (case unmarshal line of None \<Rightarrow> (Inl HeaderBad, rest) | Some hdr \<Rightarrow> (Inr hdr, rest)))"

subsection \<open>Properties\<close>

lemma ReadBytes_line: "d \<notin> set line \<Longrightarrow> ReadBytes d (line @ d # rest) = (line @ [d], False, rest)"
  by (induction line) (auto simp: ReadBytes_def split: list.splits)

lemma ReadBytes_partial: "d \<notin> set line \<Longrightarrow> ReadBytes d line = (line, True, [])"
proof -
  assume "d \<notin> set line"
  then have "dropWhile (\<lambda>b. b \<noteq> d) line = []" by (auto simp: dropWhile_eq_Nil_conv)
  then show ?thesis unfolding ReadBytes_def by (simp del: dropWhile_eq_Nil_conv)
qed

definition written :: "('m \<Rightarrow> byte list) \<Rightarrow> 'm list \<Rightarrow> byte list" where
  "written marshal ms = fold (Encode marshal) ms []"

lemma written_Cons: "written marshal (m # ms) = marshal m @ newline # written marshal ms"
proof -
  have "fold (Encode marshal) ms out = out @ fold (Encode marshal) ms []" for out
  proof (induction ms arbitrary: out)
    case (Cons x xs)
    show ?case using Cons.IH [of "Encode marshal x out"] Cons.IH [of "Encode marshal x []"] by (simp add: Encode_def)
  qed simp
  from this [of "Encode marshal m []"] show ?thesis by (simp add: written_def Encode_def)
qed

lemma read_written:
  assumes "json_lines_on (set ms) marshal unmarshal hdr tag" "newline \<notin> set partial"
  shows "fst (read_frames hdr (written marshal ms @ partial)) = map (\<lambda>m. \<lparr>frType = tag m, frRaw = marshal m @ [newline]\<rparr>) ms"
  using assms(1)
proof (induction ms)
  case Nil
  have "Next hdr partial = ((f, e), rest) \<Longrightarrow> e \<noteq> None" for f e rest
    using ReadBytes_partial [OF assms(2)] by (auto simp: Next_def split: option.splits if_splits)
  then show ?case by (auto simp: written_def read_frames.simps [of hdr partial] split: prod.split option.split)
next
  case (Cons m ms)
  have j: "newline \<notin> set (marshal m)" "hdr (marshal m @ [newline]) = Some (tag m)" using Cons.prems by (auto simp: json_lines_on_def)
  have "Next hdr (written marshal (m # ms) @ partial) =
      ((Some \<lparr>frType = tag m, frRaw = marshal m @ [newline]\<rparr>, None), written marshal ms @ partial)"
    using ReadBytes_line [OF j(1)] j(2) by (simp add: Next_def written_Cons)
  moreover have "json_lines_on (set ms) marshal unmarshal hdr tag" using Cons.prems by (simp add: json_lines_on_def)
  ultimately show ?case using Cons.IH
    by (cases "read_frames hdr (written marshal ms @ partial)") (simp add: read_frames.simps [of hdr "written marshal (m # ms) @ partial"])
qed

text \<open>
  What is written is what is read. The frames a reader gets from a stream are exactly the messages the
  writers encoded, in order, each decoding to the message it was made from; and if the connection ends
  in the middle of a frame, exactly the frames before it arrive.
\<close>
theorem codec_roundtrip:
  assumes "json_lines marshal unmarshal hdr tag" "newline \<notin> set partial"
  shows "map (\<lambda>f. (frType f, Unmarshal unmarshal f)) (fst (read_frames hdr (written marshal ms @ partial))) = map (\<lambda>m. (tag m, Some m)) ms"
proof -
  have "json_lines_on (set ms) marshal unmarshal hdr tag" using assms(1) by (simp add: json_lines_def json_lines_on_def)
  from read_written [OF this assms(2)] assms(1) show ?thesis by (auto simp: Unmarshal_def json_lines_def json_lines_on_def)
qed

text \<open>A JSON library for numbers below ten, and two messages followed by half a third.\<close>

definition digit_marshal :: "nat \<Rightarrow> byte list" where
  "digit_marshal n = replicate n 49"

definition digit_unmarshal :: "byte list \<Rightarrow> nat option" where
  "digit_unmarshal bs = Some (length (filter (\<lambda>b. b = 49) bs))"

lemma digit_lines: "json_lines digit_marshal digit_unmarshal (map_option even \<circ> digit_unmarshal) even"
  by (auto simp: json_lines_def json_lines_on_def digit_marshal_def digit_unmarshal_def newline_def)

text \<open>Witness for \<open>codec_roundtrip\<close>.\<close>
theorem codec_roundtrip_witness:
  "map (\<lambda>f. (frType f, Unmarshal digit_unmarshal f)) (fst (read_frames (map_option even \<circ> digit_unmarshal) (written digit_marshal [2, 3] @ [49]))) =
    [(True, Some 2), (False, Some 3)]"
  using codec_roundtrip [OF digit_lines, of "[49]" "[2, 3]"] by (simp add: newline_def)

text \<open>No byte of the terminal is lost or invented behind the header.\<close>

lemma attach_header_roundtrip:
  assumes "newline \<notin> set (marshal h)" "unmarshal (marshal h @ [newline]) = Some h"
  shows "ReadAttachHeader unmarshal (Encode marshal h [] @ raw) = (Inr h, raw)"
  using ReadBytes_line [OF assms(1), of raw] assms(2) by (simp add: ReadAttachHeader_def Encode_def)

end
