(* ===== verification/Browser_Terminal.thy ===== *)
theory Browser_Terminal
  imports Projects_App "HOL-Library.Sublist"
begin

text \<open>
  A terminal attached to a browser, \<^verbatim>\<open>internal/hub/adapter/primary/wsbrowser/terminal.go\<close>: the four goroutines of one
  attachment (the pump from the agent, the reader of the browser's messages, the reaper, the prober) over
  the state they share, interleaved step by step.

  \<^item> Times are in nanoseconds; \<open>UnixMilli\<close> truncates to milliseconds.
  \<^item> A step happens at the instant a blocking call returns; the event says what it returned. A call
    with the attachment's context fails once the context is cancelled, as the packages document.
  \<^item> A ticker's value is the time of the tick, which may lie before the instant it is received.
  \<^item> A text message is the result of parsing it. Logging is left out.
\<close>

subsection \<open>The handler\<close>

definition millisecond :: int where "millisecond = 1000000"

definition defaultKeepaliveInterval :: int where "defaultKeepaliveInterval = 15000 * millisecond"

definition defaultPingTimeout :: int where "defaultPingTimeout = 10000 * millisecond"

definition staleTimeoutFactor :: int where "staleTimeoutFactor = 4"

record term_handler =
  thKeepalive :: int
  thPingTimeout :: int
  thStale :: int

datatype term_option = WithKeepalive int int | WithStaleTimeout int

fun apply_option :: "term_option \<Rightarrow> term_handler \<Rightarrow> term_handler" where
  "apply_option (WithKeepalive interval pingTimeout) h =
     (let h1 = (if interval > 0 then h\<lparr>thKeepalive := interval\<rparr> else h)
      in if pingTimeout > 0 then h1\<lparr>thPingTimeout := pingTimeout\<rparr> else h1)"
| "apply_option (WithStaleTimeout d) h = (if d > 0 then h\<lparr>thStale := d\<rparr> else h)"

definition NewTerminalHandler :: "term_option list \<Rightarrow> term_handler" where
  "NewTerminalHandler opts = fold apply_option opts
     \<lparr>thKeepalive = defaultKeepaliveInterval, thPingTimeout = defaultPingTimeout, thStale = 0\<rparr>"

definition staleAfter :: "term_handler \<Rightarrow> int" where
  "staleAfter h = (if thStale h > 0 then thStale h else staleTimeoutFactor * thKeepalive h)"

definition reaper_interval :: "term_handler \<Rightarrow> int" where
  "reaper_interval h = (let stale = staleAfter h; interval = thKeepalive h; quarter = stale div 4
     in if quarter > 0 \<and> quarter < interval then quarter else interval)"

text \<open>The errors an attachment can end with, and what the browser is told.\<close>

datatype ioError = EOF | UnexpectedEOF | ClosedPipe | NetClosed | OtherIO

datatype attachError = HubErr hubError | IoErr ioError

definition closeCodeFor :: "attachError \<Rightarrow> int \<times> string" where
  "closeCodeFor err =
     (if err = HubErr ErrSessionNotFound then (4404, ''session not found'')
      else if err = HubErr ErrSessionEnded then (4410, ''session ended'')
      else if err = HubErr ErrMachineOffline then (4503, ''agent offline'')
      else if err \<in> {IoErr EOF, IoErr UnexpectedEOF, IoErr ClosedPipe, IoErr NetClosed} then (1001, ''agent stream closed'')
      else (1011, ''attach failed''))"

subsection \<open>One attachment\<close>

record resizeMsg =
  rzType :: string
  rzCols :: int
  rzRows :: int

datatype wsMessage = BinaryMsg "byte list" | TextMsg "resizeMsg option"

datatype reader_pc = RdReading | RdWriting "byte list" | RdResizing int int | RdDone

datatype prober_pc = PbWaiting | PbPinging | PbDone

record term_conn =
  tcLast :: int
  tcCancelled :: bool
  tcCloses :: "(int \<times> string) list"
  tcOut :: "byte list list"
  tcIn :: "byte list list"
  tcResized :: "(int \<times> int) list"
  tcBeats :: "int list"
  tcStreamClosed :: bool
  tcPump :: bool
  tcReader :: reader_pc
  tcReaper :: bool
  tcProber :: prober_pc

definition live_mark :: "int \<Rightarrow> term_conn \<Rightarrow> term_conn" where
  "live_mark now s = s\<lparr>tcLast := now div millisecond\<rparr>"

definition live_idle :: "int \<Rightarrow> term_conn \<Rightarrow> int" where
  "live_idle now s = (now div millisecond - tcLast s) * millisecond"

definition attachment :: "int \<Rightarrow> term_conn" where
  "attachment now = live_mark now \<lparr>tcLast = 0, tcCancelled = False, tcCloses = [], tcOut = [], tcIn = [], tcResized = [], tcBeats = [],
     tcStreamClosed = False, tcPump = True, tcReader = RdReading, tcReaper = True, tcProber = PbWaiting\<rparr>"

text \<open>
  The opening half of \<open>ServeHTTP\<close>: \<open>accepted\<close> is whether the WebSocket handshake succeeds.
\<close>

datatype term_start = BadRequest | NotAccepted | Refused int string | Attached term_conn

definition term_open :: "'s session_port \<Rightarrow> ('g, 'st) attach_gateway \<Rightarrow> string \<Rightarrow> bool \<Rightarrow> int \<Rightarrow> ('s, 'g) sessions_world \<Rightarrow>
    term_start \<times> ('s, 'g) sessions_world" where
  "term_open p g sessionID accepted now w =
     (if sessionID = [] \<or> sessionID = ''new'' then (BadRequest, w)
      else if \<not> accepted then (NotAccepted, w)
      else case OpenStream p g sessionID w of
        (Inl err, w1) \<Rightarrow> (case closeCodeFor (HubErr err) of (code, reason) \<Rightarrow> (Refused code reason, w1))
      | (Inr _, w1) \<Rightarrow> (Attached (attachment now), w1))"

datatype term_event =
    PumpStep "byte list" "ioError option" bool
  | ReadStep "wsMessage option"
  | WriteStep "nat option"
  | ResizeStep
  | ReaperTick int
  | ReaperDone
  | BeatStep int bool
  | PingStep bool
  | ProberDone

text \<open>The pump: one read of the agent's stream, the write of what it gave, and the end of the stream.\<close>

definition pump_step :: "int \<Rightarrow> byte list \<Rightarrow> ioError option \<Rightarrow> bool \<Rightarrow> term_conn \<Rightarrow> term_conn" where
  "pump_step now buf err wok s =
     (if buf \<noteq> [] \<and> (\<not> wok \<or> tcCancelled s) then s\<lparr>tcCancelled := True, tcPump := False\<rparr>
      else let s1 = (if buf \<noteq> [] then live_mark now (s\<lparr>tcOut := tcOut s @ [buf]\<rparr>) else s)
        in case err of None \<Rightarrow> s1
           | Some e \<Rightarrow> s1\<lparr>tcCloses := tcCloses s1 @ [closeCodeFor (IoErr e)], tcCancelled := True, tcPump := False\<rparr>)"

text \<open>The reader; when its loop ends the handler returns, which closes the stream.\<close>

definition reader_exit :: "term_conn \<Rightarrow> term_conn" where
  "reader_exit s = s\<lparr>tcCancelled := True, tcReader := RdDone, tcStreamClosed := True\<rparr>"

definition read_step :: "int \<Rightarrow> wsMessage option \<Rightarrow> term_conn \<Rightarrow> term_conn" where
  "read_step now msg s = (case (if tcCancelled s then None else msg) of
     None \<Rightarrow> reader_exit s
   | Some m \<Rightarrow> (case m of
       BinaryMsg data \<Rightarrow> (live_mark now s)\<lparr>tcReader := RdWriting data\<rparr>
     | TextMsg None \<Rightarrow> live_mark now s
     | TextMsg (Some rz) \<Rightarrow> if rzType rz = ''resize'' then (live_mark now s)\<lparr>tcReader := RdResizing (rzCols rz) (rzRows rz)\<rparr>
         else live_mark now s))"

text \<open>The reader's write to the agent: all of the message, or an error after \<open>n\<close> bytes.\<close>

definition write_step :: "nat option \<Rightarrow> byte list \<Rightarrow> term_conn \<Rightarrow> term_conn" where
  "write_step failed data s = (case failed of
     None \<Rightarrow> s\<lparr>tcIn := tcIn s @ [data], tcReader := RdReading\<rparr>
   | Some n \<Rightarrow> reader_exit (s\<lparr>tcIn := tcIn s @ [take n data]\<rparr>))"

definition reaper_tick :: "term_handler \<Rightarrow> int \<Rightarrow> term_conn \<Rightarrow> term_conn" where
  "reaper_tick h tick s = (if live_idle tick s > staleAfter h then s\<lparr>tcCancelled := True, tcReaper := False\<rparr> else s)"

text \<open>One step of the attachment; None if the goroutine is not at that point.\<close>

fun term_step :: "term_handler \<Rightarrow> int \<Rightarrow> term_event \<Rightarrow> term_conn \<Rightarrow> term_conn option" where
  "term_step h now (PumpStep buf err wok) s = (if tcPump s then Some (pump_step now buf err wok s) else None)"
| "term_step h now (ReadStep msg) s = (if tcReader s = RdReading then Some (read_step now msg s) else None)"
| "term_step h now (WriteStep failed) s = (case tcReader s of RdWriting data \<Rightarrow> Some (write_step failed data s) | _ \<Rightarrow> None)"
| "term_step h now ResizeStep s = (case tcReader s of
     RdResizing c r \<Rightarrow> Some (s\<lparr>tcResized := tcResized s @ [(c, r)], tcReader := RdReading\<rparr>) | _ \<Rightarrow> None)"
| "term_step h now (ReaperTick tick) s = (if tcReaper s then Some (reaper_tick h tick s) else None)"
| "term_step h now ReaperDone s = (if tcReaper s \<and> tcCancelled s then Some (s\<lparr>tcReaper := False\<rparr>) else None)"
| "term_step h now (BeatStep tick wok) s = (if tcProber s = PbWaiting
     then Some (s\<lparr>tcBeats := tcBeats s @ (if wok \<and> \<not> tcCancelled s then [tick div millisecond] else []), tcProber := PbPinging\<rparr>) else None)"
| "term_step h now (PingStep pong) s = (if tcProber s = PbPinging
     then Some ((if pong \<and> \<not> tcCancelled s then live_mark now s else s)\<lparr>tcProber := PbWaiting\<rparr>) else None)"
| "term_step h now ProberDone s = (if tcProber s = PbWaiting \<and> tcCancelled s then Some (s\<lparr>tcProber := PbDone\<rparr>) else None)"

fun term_run :: "term_handler \<Rightarrow> (int \<times> term_event) list \<Rightarrow> term_conn \<Rightarrow> term_conn option" where
  "term_run h [] s = Some s"
| "term_run h ((now, ev) # evs) s = (case term_step h now ev s of None \<Rightarrow> None | Some s1 \<Rightarrow> term_run h evs s1)"

lemmas step_defs = pump_step_def read_step_def write_step_def reader_exit_def reaper_tick_def live_mark_def Let_def

lemma term_run_append: "term_run h (xs @ ys) s = Option.bind (term_run h xs s) (term_run h ys)"
  by (induction xs arbitrary: s) (auto split: option.split)

lemma term_run_snoc: "term_run h (xs @ [(now, ev)]) s = Option.bind (term_run h xs s) (term_step h now ev)"
  unfolding term_run_append by (cases "term_run h xs s") (auto split: option.split)

subsection \<open>What is relayed\<close>

fun from_agent :: "(int \<times> term_event) list \<Rightarrow> byte list" where
  "from_agent [] = []"
| "from_agent ((t, PumpStep buf err wok) # evs) = buf @ from_agent evs"
| "from_agent (_ # evs) = from_agent evs"

fun from_browser :: "(int \<times> term_event) list \<Rightarrow> byte list" where
  "from_browser [] = []"
| "from_browser ((t, ReadStep (Some (BinaryMsg data))) # evs) = data @ from_browser evs"
| "from_browser (_ # evs) = from_browser evs"

fun resizes_asked :: "(int \<times> term_event) list \<Rightarrow> (int \<times> int) list" where
  "resizes_asked [] = []"
| "resizes_asked ((t, ReadStep (Some (TextMsg (Some rz)))) # evs) =
     (if rzType rz = ''resize'' then (rzCols rz, rzRows rz) # resizes_asked evs else resizes_asked evs)"
| "resizes_asked (_ # evs) = resizes_asked evs"

lemma from_append: "from_agent (xs @ ys) = from_agent xs @ from_agent ys" "from_browser (xs @ ys) = from_browser xs @ from_browser ys"
  "resizes_asked (xs @ ys) = resizes_asked xs @ resizes_asked ys"
proof -
  show "from_agent (xs @ ys) = from_agent xs @ from_agent ys" by (induction xs rule: from_agent.induct) auto
  show "from_browser (xs @ ys) = from_browser xs @ from_browser ys" by (induction xs rule: from_browser.induct) auto
  show "resizes_asked (xs @ ys) = resizes_asked xs @ resizes_asked ys" by (induction xs rule: resizes_asked.induct) auto
qed

text \<open>What is on its way to the agent.\<close>

definition unwritten :: "term_conn \<Rightarrow> byte list" where
  "unwritten s = (case tcReader s of RdWriting data \<Rightarrow> data | _ \<Rightarrow> [])"

definition unasked :: "term_conn \<Rightarrow> (int \<times> int) list" where
  "unasked s = (case tcReader s of RdResizing c r \<Rightarrow> [(c, r)] | _ \<Rightarrow> [])"

definition pump_relayed :: "byte list \<Rightarrow> term_conn \<Rightarrow> bool" where
  "pump_relayed out s \<longleftrightarrow> prefix (concat (tcOut s)) out \<and> (tcPump s \<longrightarrow> concat (tcOut s) = out \<and> tcCloses s = []) \<and>
     (tcCloses s = [] \<or> concat (tcOut s) = out \<and> (\<exists>e. tcCloses s = [closeCodeFor (IoErr e)]))"

definition reader_relayed :: "byte list \<Rightarrow> (int \<times> int) list \<Rightarrow> term_conn \<Rightarrow> bool" where
  "reader_relayed inp rzs s \<longleftrightarrow> prefix (concat (tcIn s)) inp \<and> prefix (tcResized s) rzs \<and>
     (tcReader s \<noteq> RdDone \<longrightarrow> concat (tcIn s) @ unwritten s = inp \<and> tcResized s @ unasked s = rzs)"

lemma term_step_pump:
  "pump_relayed out s \<Longrightarrow> term_step h now ev s = Some s' \<Longrightarrow> pump_relayed (out @ from_agent [(now, ev)]) s'"
  by (cases ev) (auto simp: pump_relayed_def step_defs prefix_def split: if_splits option.splits wsMessage.splits reader_pc.splits)

text \<open>The reader's part of the state is the reader's.\<close>

fun of_reader :: "term_event \<Rightarrow> bool" where
  "of_reader (ReadStep _) \<longleftrightarrow> True"
| "of_reader (WriteStep _) \<longleftrightarrow> True"
| "of_reader ResizeStep \<longleftrightarrow> True"
| "of_reader _ \<longleftrightarrow> False"

lemma other_steps:
  "term_step h now ev s = Some s' \<Longrightarrow> \<not> of_reader ev \<Longrightarrow>
    tcIn s' = tcIn s \<and> tcResized s' = tcResized s \<and> tcReader s' = tcReader s \<and> from_browser [(now, ev)] = [] \<and> resizes_asked [(now, ev)] = []"
  by (cases ev) (auto simp: step_defs split: if_splits option.splits)

lemma write_relayed:
  assumes "reader_relayed inp rzs s" "tcReader s = RdWriting data"
  shows "reader_relayed inp rzs (write_step failed data s)"
proof -
  have e: "inp = concat (tcIn s) @ data" "rzs = tcResized s" using assms by (auto simp: reader_relayed_def unwritten_def unasked_def)
  show ?thesis unfolding e
    by (cases failed) (simp_all add: reader_relayed_def write_step_def reader_exit_def unwritten_def unasked_def take_is_prefix)
qed

lemma read_relayed:
  assumes "reader_relayed inp rzs s" "tcReader s = RdReading"
  shows "reader_relayed (inp @ from_browser [(now, ReadStep msg)]) (rzs @ resizes_asked [(now, ReadStep msg)]) (read_step now msg s)"
proof -
  have e: "inp = concat (tcIn s)" "rzs = tcResized s" using assms by (auto simp: reader_relayed_def unwritten_def unasked_def)
  show ?thesis
  proof (cases "tcCancelled s \<or> msg = None")
    case True
    then have "read_step now msg s = reader_exit s" by (auto simp: read_step_def)
    then show ?thesis using e by (simp add: reader_relayed_def reader_exit_def)
  next
    case False
    then obtain m where m: "msg = Some m" "\<not> tcCancelled s" by blast
    consider data where "m = BinaryMsg data" | "m = TextMsg None" | rz where "m = TextMsg (Some rz)"
      by (metis option.exhaust wsMessage.exhaust)
    then show ?thesis unfolding e
      by cases (simp_all add: m assms(2) reader_relayed_def read_step_def live_mark_def unwritten_def unasked_def)
  qed
qed

lemma term_step_reader:
  assumes "reader_relayed inp rzs s" "term_step h now ev s = Some s'"
  shows "reader_relayed (inp @ from_browser [(now, ev)]) (rzs @ resizes_asked [(now, ev)]) s'"
proof (cases ev)
  case (ReadStep msg)
  then show ?thesis using read_relayed [OF assms(1), of now msg] assms(2) by (simp split: if_splits)
next
  case (WriteStep failed)
  then show ?thesis using write_relayed [OF assms(1)] assms(2) by (auto split: reader_pc.splits)
next
  case ResizeStep
  then show ?thesis using assms
    by (auto simp: reader_relayed_def unwritten_def unasked_def split: reader_pc.splits)
qed (use other_steps [OF assms(2)] assms(1) in \<open>simp_all add: reader_relayed_def unwritten_def unasked_def\<close>)

subsection \<open>What the reaper knows\<close>

text \<open>The events that show the browser is there, and the ones that end an attachment other than by the reaper.\<close>

fun evidence :: "term_event \<Rightarrow> bool" where
  "evidence (PumpStep buf err wok) \<longleftrightarrow> buf \<noteq> [] \<and> wok"
| "evidence (ReadStep msg) \<longleftrightarrow> msg \<noteq> None"
| "evidence (PingStep pong) \<longleftrightarrow> pong"
| "evidence _ \<longleftrightarrow> False"

fun broken :: "term_event \<Rightarrow> bool" where
  "broken (PumpStep buf err wok) \<longleftrightarrow> err \<noteq> None \<or> (buf \<noteq> [] \<and> \<not> wok)"
| "broken (ReadStep msg) \<longleftrightarrow> msg = None"
| "broken (WriteStep failed) \<longleftrightarrow> failed \<noteq> None"
| "broken _ \<longleftrightarrow> False"

definition heard :: "int \<Rightarrow> (int \<times> term_event) list \<Rightarrow> int set" where
  "heard t0 evs = insert t0 {t. \<exists>ev. (t, ev) \<in> set evs \<and> evidence ev}"

lemma step_last:
  assumes "term_step h now ev s = Some s'"
  shows "tcLast s' = tcLast s \<or> (evidence ev \<and> tcLast s' = now div millisecond)"
  using assms by (cases ev) (auto simp: step_defs split: if_splits option.splits wsMessage.splits reader_pc.splits)

lemma step_cancelled: "term_step h now ev s = Some s' \<Longrightarrow> tcCancelled s \<Longrightarrow> tcCancelled s'"
  by (cases ev) (auto simp: step_defs split: if_splits option.splits wsMessage.splits reader_pc.splits)

lemma run_cancelled: "term_run h evs s = Some s' \<Longrightarrow> tcCancelled s \<Longrightarrow> tcCancelled s'"
  by (induction evs arbitrary: s) (use step_cancelled in \<open>fastforce split: option.splits\<close>)+

lemma step_evidence:
  assumes "term_step h now ev s = Some s'" "\<not> tcCancelled s" "evidence ev"
  shows "tcLast s' = now div millisecond"
  using assms by (cases ev) (auto simp: step_defs split: if_splits option.splits wsMessage.splits reader_pc.splits)

lemma step_uncancelled:
  assumes "term_step h now ev s = Some s'" "\<not> tcCancelled s" "\<not> broken ev" "\<And>tick. ev = ReaperTick tick \<Longrightarrow> live_idle tick s \<le> staleAfter h"
  shows "\<not> tcCancelled s'"
  using assms by (cases ev) (auto simp: step_defs split: if_splits option.splits wsMessage.splits reader_pc.splits)

lemma run_last:
  assumes "term_run h evs (attachment t0) = Some s"
  shows "\<exists>t \<in> heard t0 evs. tcLast s = t div millisecond"
  using assms
proof (induction evs arbitrary: s rule: rev_induct)
  case Nil
  then show ?case by (auto simp: heard_def attachment_def live_mark_def)
next
  case (snoc x evs)
  obtain now ev where x: "x = (now, ev)" by fastforce
  then obtain s1 where s1: "term_run h evs (attachment t0) = Some s1" "term_step h now ev s1 = Some s"
    using snoc.prems unfolding x term_run_snoc by (cases "term_run h evs (attachment t0)") auto
  have "heard t0 evs \<subseteq> heard t0 (evs @ [x])" by (auto simp: heard_def)
  moreover have "evidence ev \<Longrightarrow> now \<in> heard t0 (evs @ [x])" by (auto simp: heard_def x)
  ultimately show ?case using snoc.IH [OF s1(1)] step_last [OF s1(2)] by auto
qed

text \<open>Without a failure, and with every tick of the reaper finding recent evidence, nothing ends the attachment.\<close>

lemma run_kept:
  assumes "term_run h evs (attachment t0) = Some s" "sorted (map fst evs)" "\<forall>(t, ev) \<in> set evs. t0 \<le> t \<and> \<not> broken ev"
    and "\<forall>xs now tick ys. evs = xs @ (now, ReaperTick tick) # ys \<longrightarrow> (\<exists>t \<in> heard t0 xs. tick - t + millisecond \<le> staleAfter h)"
  shows "\<not> tcCancelled s \<and> (\<forall>t \<in> heard t0 evs. t div millisecond \<le> tcLast s)"
  using assms
proof (induction evs arbitrary: s rule: rev_induct)
  case Nil
  then show ?case by (auto simp: heard_def attachment_def live_mark_def)
next
  case (snoc x evs)
  obtain now ev where x: "x = (now, ev)" by fastforce
  then obtain s1 where s1: "term_run h evs (attachment t0) = Some s1" "term_step h now ev s1 = Some s"
    using snoc.prems(1) unfolding x term_run_snoc by (cases "term_run h evs (attachment t0)") auto
  have sorted: "sorted (map fst evs)" "\<And>t e. (t, e) \<in> set evs \<Longrightarrow> t \<le> now"
    using snoc.prems(2) by (auto simp: x sorted_append)
  have IH: "\<not> tcCancelled s1" "\<And>t. t \<in> heard t0 evs \<Longrightarrow> t div millisecond \<le> tcLast s1"
  proof -
    have "\<forall>(t, ev) \<in> set evs. t0 \<le> t \<and> \<not> broken ev" using snoc.prems(3) by simp
    moreover have "\<exists>t \<in> heard t0 xs. tick - t + millisecond \<le> staleAfter h" if "evs = xs @ (now', ReaperTick tick) # ys" for xs now' tick ys
      using snoc.prems(4) [rule_format, of xs now' tick "ys @ [x]"] that by simp
    ultimately show "\<not> tcCancelled s1" "\<And>t. t \<in> heard t0 evs \<Longrightarrow> t div millisecond \<le> tcLast s1"
      using snoc.IH [OF s1(1) sorted(1)] by blast+
  qed
  have idle: "live_idle tick s1 \<le> staleAfter h" if "ev = ReaperTick tick" for tick
  proof -
    have "x = (now, ReaperTick tick)" using that x by simp
    then obtain t where t: "t \<in> heard t0 evs" "tick - t + millisecond \<le> staleAfter h"
      using snoc.prems(4) [rule_format, of evs now tick "[]"] by auto
    have "tick div millisecond * millisecond \<le> tick" "t - millisecond \<le> t div millisecond * millisecond"
      by (simp_all add: millisecond_def)
    then show ?thesis using IH(2) [OF t(1)] t(2) by (simp add: live_idle_def millisecond_def)
  qed
  have "\<not> tcCancelled s" using step_uncancelled [OF s1(2) IH(1) _ idle] snoc.prems(3) by (simp add: x)
  moreover have "t div millisecond \<le> tcLast s" if "t \<in> heard t0 (evs @ [x])" for t
  proof -
    have old: "t' div millisecond \<le> now div millisecond" if "t' \<in> heard t0 evs" for t'
      using that sorted(2) snoc.prems(3) by (auto simp: heard_def x intro!: zdiv_mono1 simp: millisecond_def)
    have "t \<in> heard t0 evs \<or> (evidence ev \<and> t = now)" using that by (auto simp: heard_def x)
    then show ?thesis using IH(2) old step_last [OF s1(2)] step_evidence [OF s1(2) IH(1)] by fastforce
  qed
  ultimately show ?case by blast
qed

subsection \<open>Properties\<close>

text \<open>
  C15: an attachment relays exactly. Under every interleaving of its goroutines, what the browser has been
  sent is a prefix of what the agent's stream gave, in order and byte for byte, and all of it as long as
  the pump runs; what the agent has been sent is a prefix of the browser's binary messages, and text
  messages never reach the shell; the resizes are the browser's, in order. A close code is sent at most once, for
  the way the stream ended, and only after everything the agent sent was delivered.
\<close>
theorem terminal_relays_exactly:
  assumes "term_run h evs (attachment t0) = Some s"
  shows "pump_relayed (from_agent evs) s \<and> reader_relayed (from_browser evs) (resizes_asked evs) s"
  using assms
proof (induction evs arbitrary: s rule: rev_induct)
  case Nil
  then show ?case by (auto simp: pump_relayed_def reader_relayed_def unwritten_def unasked_def attachment_def live_mark_def)
next
  case (snoc x evs)
  obtain now ev where x: "x = (now, ev)" by fastforce
  then obtain s1 where s1: "term_run h evs (attachment t0) = Some s1" "term_step h now ev s1 = Some s"
    using snoc.prems unfolding x term_run_snoc by (cases "term_run h evs (attachment t0)") auto
  then show ?case using snoc.IH [OF s1(1)] term_step_pump [OF _ s1(2)] term_step_reader [OF _ s1(2)]
    unfolding x from_append by blast
qed

text \<open>A short attachment: some output, a key, a resize, and the end of the shell.\<close>

definition demoTerminal :: "(int \<times> term_event) list" where
  "demoTerminal = [(1, PumpStep [104, 105] None True), (2, ReadStep (Some (BinaryMsg [113]))), (3, PumpStep [33] (Some EOF) True),
     (4, WriteStep None)]"

lemma demoTerminal_run: "map_option (\<lambda>s. (tcOut s, tcCloses s)) (term_run (NewTerminalHandler []) demoTerminal (attachment 0)) =
    Some ([[104, 105], [33]], [(1001, ''agent stream closed'')])"
  by code_simp

text \<open>Witness for \<open>terminal_relays_exactly\<close>: the close code follows all the output.\<close>
theorem terminal_relays_exactly_witness:
  "\<exists>s. term_run (NewTerminalHandler []) demoTerminal (attachment 0) = Some s \<and> tcCloses s \<noteq> [] \<and> concat (tcOut s) = [104, 105, 33]"
proof -
  obtain s where s: "term_run (NewTerminalHandler []) demoTerminal (attachment 0) = Some s" "tcCloses s = [(1001, ''agent stream closed'')]"
    using demoTerminal_run by auto
  then show ?thesis using terminal_relays_exactly [OF s(1)] by (auto simp: pump_relayed_def demoTerminal_def)
qed

text \<open>
  C16: a browser that is gone is let go. If nothing is heard from it after \<open>t1\<close>, the first tick of the reaper
  that lies more than the budget (and a millisecond) after \<open>t1\<close> cancels the attachment, whatever the
  other goroutines are blocked in; and what is cancelled stays cancelled.
\<close>
theorem silent_browser_dropped:
  assumes "term_run h evs (attachment t0) = Some s" "\<forall>t \<in> heard t0 evs. t \<le> t1"
    and "(now, ReaperTick tick) \<in> set evs" "tick \<ge> t1 + staleAfter h + millisecond"
  shows "tcCancelled s"
proof -
  obtain xs ys where e: "evs = xs @ (now, ReaperTick tick) # ys" using assms(3) by (meson split_list)
  then obtain s1 where s1: "term_run h xs (attachment t0) = Some s1" "term_run h ((now, ReaperTick tick) # ys) s1 = Some s"
    using assms(1) unfolding e term_run_append by (cases "term_run h xs (attachment t0)") auto
  then obtain s2 where s2: "term_step h now (ReaperTick tick) s1 = Some s2" "term_run h ys s2 = Some s"
    by (auto split: option.splits)
  obtain t where t: "t \<in> heard t0 xs" "tcLast s1 = t div millisecond" using run_last [OF s1(1)] by blast
  have "t \<in> heard t0 evs" using t(1) by (auto simp: heard_def e)
  then have "t \<le> t1" using assms(2) by blast
  moreover have "tick < tick div millisecond * millisecond + millisecond" "t div millisecond * millisecond \<le> t"
    by (simp_all add: millisecond_def)
  ultimately have "live_idle tick s1 > staleAfter h" using t(2) assms(4) by (simp add: live_idle_def left_diff_distrib)
  then have "tcCancelled s2" using s2(1) by (auto simp: reaper_tick_def split: if_splits)
  then show ?thesis using run_cancelled [OF s2(2)] by blast
qed

text \<open>Witness for \<open>silent_browser_dropped\<close>: the network goes dark after the first key; the pump is stuck.\<close>

definition demoSilent :: "(int \<times> term_event) list" where
  "demoSilent = [(1000000, ReadStep (Some (BinaryMsg [113]))), (2000000, BeatStep 2000000 True), (70000000000, ReaperTick 70000000000)]"

theorem silent_browser_dropped_witness:
  "\<exists>s. term_run (NewTerminalHandler []) demoSilent (attachment 0) = Some s \<and> tcCancelled s"
proof -
  have "term_run (NewTerminalHandler []) demoSilent (attachment 0) \<noteq> None" by code_simp
  then obtain s where s: "term_run (NewTerminalHandler []) demoSilent (attachment 0) = Some s" by blast
  have "staleAfter (NewTerminalHandler []) = 60000000000" by code_simp
  moreover have "\<forall>t \<in> heard 0 demoSilent. t \<le> 1000000" by (auto simp: heard_def demoSilent_def)
  ultimately show ?thesis using silent_browser_dropped [OF s, of 1000000 70000000000 70000000000] s
    by (simp add: demoSilent_def millisecond_def)
qed

text \<open>
  A browser that is there is kept. As long as each tick of the reaper finds that something was heard within
  the budget (up to a millisecond), and no read or write of the relay fails, the attachment is not cancelled,
  however many heartbeats and pings fail and however long the other goroutines are blocked.
\<close>
theorem live_browser_kept:
  assumes "term_run h evs (attachment t0) = Some s" "sorted (map fst evs)" "\<forall>(t, ev) \<in> set evs. t0 \<le> t \<and> \<not> broken ev"
    and "\<forall>xs now tick ys. evs = xs @ (now, ReaperTick tick) # ys \<longrightarrow> (\<exists>t \<in> heard t0 xs. tick - t + millisecond \<le> staleAfter h)"
  shows "\<not> tcCancelled s"
  using run_kept [OF assms] by blast

text \<open>Witness for \<open>live_browser_kept\<close>: a key after fifty seconds, failing probes, and two ticks.\<close>

definition demoAlive :: "(int \<times> term_event) list" where
  "demoAlive = [(50000000000, ReadStep (Some (BinaryMsg [113]))), (55000000000, BeatStep 55000000000 False), (57000000000, PingStep False),
     (60000000000, ReaperTick 60000000000), (75000000000, ReaperTick 75000000000)]"

theorem live_browser_kept_witness:
  "\<exists>s. term_run (NewTerminalHandler []) demoAlive (attachment 0) = Some s \<and> \<not> tcCancelled s"
proof -
  have "term_run (NewTerminalHandler []) demoAlive (attachment 0) \<noteq> None" by code_simp
  then obtain s where s: "term_run (NewTerminalHandler []) demoAlive (attachment 0) = Some s" by blast
  have "staleAfter (NewTerminalHandler []) = 60000000000" by code_simp
  moreover have "\<exists>t \<in> heard 0 xs. tick - t + millisecond \<le> 60000000000" if "demoAlive = xs @ (now, ReaperTick tick) # ys" for xs now tick ys
  proof -
    have "(50000000000, ReadStep (Some (BinaryMsg [113]))) \<in> set xs \<and> tick \<le> 75000000000"
      using that by (auto simp: demoAlive_def Cons_eq_append_conv)
    then show ?thesis by (intro bexI [of _ 50000000000]) (auto simp: heard_def millisecond_def intro: exI [of _ "ReadStep (Some (BinaryMsg [113]))"])
  qed
  ultimately show ?thesis using live_browser_kept [OF s] s by (auto simp: demoAlive_def)
qed

end
