(* ===== verification/Http_Routes.thy ===== *)
theory Http_Routes
  imports Hub_Domain "HOL-Library.Sublist"
begin

text \<open>
  Which requests need an operator session: the route table of \<^verbatim>\<open>httpapi/server.go\<close> and the path test of
  \<^verbatim>\<open>httpapi/middleware.go\<close>.

  \<^item> The two look at different strings. The test reads the decoded path (\<open>r.URL.Path\<close>); the router
    (\<open>http.ServeMux\<close>) cuts the escaped path at its slashes and decodes each piece, so an escaped slash
    is a slash for the one and part of a segment for the other. Both are modelled on the escaped path.
  \<^item> Of the standard library: percent decoding, the cleaning of paths with its redirect, and the
    matching of patterns. Since the pattern \<open>/{path...}\<close> matches every path with every method, the router
    never answers 405, and it never redirects to add a slash.
\<close>

subsection \<open>Escaped paths\<close>

definition unhex :: "char \<Rightarrow> nat option" where
  "unhex c = (let n = of_char c :: nat in
     if 48 \<le> n \<and> n \<le> 57 then Some (n - 48)
     else if 97 \<le> n \<and> n \<le> 102 then Some (n - 87)
     else if 65 \<le> n \<and> n \<le> 70 then Some (n - 55) else None)"

fun unescape :: "string \<Rightarrow> string option" where
  "unescape [] = Some []"
| "unescape (c # cs) =
     (if c = CHR ''%'' then
        (case cs of a # b # ds \<Rightarrow>
           (case (unhex a, unhex b) of
              (Some x, Some y) \<Rightarrow> map_option ((#) (char_of (16 * x + y))) (unescape ds)
            | _ \<Rightarrow> None)
         | _ \<Rightarrow> None)
      else map_option ((#) c) (unescape cs))"

definition pathUnescape :: "string \<Rightarrow> string" where
  "pathUnescape s = (case unescape s of Some t \<Rightarrow> t | None \<Rightarrow> s)"

fun split_slash :: "string \<Rightarrow> string list" where
  "split_slash [] = [[]]"
| "split_slash (c # cs) = (if c = CHR ''/'' then [] # split_slash cs
     else case split_slash cs of s # ss \<Rightarrow> (c # s) # ss | [] \<Rightarrow> [[c]])"

definition join_slash :: "string list \<Rightarrow> string" where
  "join_slash ss = concat (map ((#) (CHR ''/'')) ss)"

text \<open>\<open>cleanPath\<close> (package \<open>net/http\<close>) on top of \<open>path.Clean\<close>.\<close>

fun clean_segs :: "string list \<Rightarrow> string list \<Rightarrow> string list" where
  "clean_segs acc [] = acc"
| "clean_segs acc (s # ss) =
     (if s = [] \<or> s = ''.'' then clean_segs acc ss
      else if s = ''..'' then clean_segs (butlast acc) ss
      else clean_segs (acc @ [s]) ss)"

definition cleanPath :: "string \<Rightarrow> string" where
  "cleanPath p =
     (let q = (if p = [] \<or> hd p \<noteq> CHR ''/'' then CHR ''/'' # p else p);
          segs = clean_segs [] (split_slash q)
      in if segs = [] then ''/''
         else join_slash segs @ (if last q = CHR ''/'' then ''/'' else []))"

subsection \<open>The route table (server.go)\<close>

datatype endpoint =
    ListMachinesEp | RevokeMachineEp string | UnrevokeMachineEp string | DeleteMachineEp string
  | OpenSessionEp | ListSessionsEp | ListSessionsByMachineEp string | CloseSessionEp string | PatchSessionEp string
  | ListProjectsEp | CreateProjectEp | DeleteProjectEp string | DashboardEp | EnrollEp
  | LoginTOTPEp | LoginRecoveryEp | LogoutEp | AuthStatusEp
  | WebAuthnLoginBeginEp | WebAuthnLoginFinishEp | WebAuthnRegisterBeginEp | WebAuthnRegisterFinishEp
  | AgentWS | TermWS | OverviewWS | SpaEp

datatype pseg = Lit string | Wild

text \<open>A pattern: its method if it names one, its segments, and the handler, given what \<open>{id}\<close> matched.\<close>

type_synonym route = "string option \<times> pseg list \<times> (string \<Rightarrow> endpoint)"

definition routes :: "route list" where
  "routes = [
    (Some ''GET'', [Lit ''api'', Lit ''machines''], \<lambda>_. ListMachinesEp),
    (Some ''POST'', [Lit ''api'', Lit ''machines'', Wild, Lit ''revoke''], RevokeMachineEp),
    (Some ''POST'', [Lit ''api'', Lit ''machines'', Wild, Lit ''unrevoke''], UnrevokeMachineEp),
    (Some ''DELETE'', [Lit ''api'', Lit ''machines'', Wild], DeleteMachineEp),
    (Some ''POST'', [Lit ''api'', Lit ''sessions''], \<lambda>_. OpenSessionEp),
    (Some ''GET'', [Lit ''api'', Lit ''sessions''], \<lambda>_. ListSessionsEp),
    (Some ''GET'', [Lit ''api'', Lit ''machines'', Wild, Lit ''sessions''], ListSessionsByMachineEp),
    (Some ''DELETE'', [Lit ''api'', Lit ''sessions'', Wild], CloseSessionEp),
    (Some ''PATCH'', [Lit ''api'', Lit ''sessions'', Wild], PatchSessionEp),
    (Some ''GET'', [Lit ''api'', Lit ''projects''], \<lambda>_. ListProjectsEp),
    (Some ''POST'', [Lit ''api'', Lit ''projects''], \<lambda>_. CreateProjectEp),
    (Some ''DELETE'', [Lit ''api'', Lit ''projects'', Wild], DeleteProjectEp),
    (Some ''GET'', [Lit ''api'', Lit ''dashboard''], \<lambda>_. DashboardEp),
    (Some ''POST'', [Lit ''api'', Lit ''enroll''], \<lambda>_. EnrollEp),
    (Some ''POST'', [Lit ''api'', Lit ''auth'', Lit ''totp''], \<lambda>_. LoginTOTPEp),
    (Some ''POST'', [Lit ''api'', Lit ''auth'', Lit ''recovery''], \<lambda>_. LoginRecoveryEp),
    (Some ''POST'', [Lit ''api'', Lit ''auth'', Lit ''logout''], \<lambda>_. LogoutEp),
    (Some ''GET'', [Lit ''api'', Lit ''auth'', Lit ''status''], \<lambda>_. AuthStatusEp),
    (Some ''POST'', [Lit ''api'', Lit ''auth'', Lit ''webauthn'', Lit ''login'', Lit ''begin''], \<lambda>_. WebAuthnLoginBeginEp),
    (Some ''POST'', [Lit ''api'', Lit ''auth'', Lit ''webauthn'', Lit ''login'', Lit ''finish''], \<lambda>_. WebAuthnLoginFinishEp),
    (Some ''POST'', [Lit ''api'', Lit ''auth'', Lit ''webauthn'', Lit ''register'', Lit ''begin''], \<lambda>_. WebAuthnRegisterBeginEp),
    (Some ''POST'', [Lit ''api'', Lit ''auth'', Lit ''webauthn'', Lit ''register'', Lit ''finish''], \<lambda>_. WebAuthnRegisterFinishEp),
    (None, [Lit ''ws'', Lit ''agent''], \<lambda>_. AgentWS),
    (None, [Lit ''ws'', Lit ''term''], \<lambda>_. TermWS),
    (None, [Lit ''ws'', Lit ''overview''], \<lambda>_. OverviewWS)]"

definition method_matches :: "string option \<Rightarrow> string \<Rightarrow> bool" where
  "method_matches pm m \<longleftrightarrow> (case pm of None \<Rightarrow> True | Some p \<Rightarrow> m = p \<or> p = ''GET'' \<and> m = ''HEAD'')"

fun seg_matches :: "pseg \<Rightarrow> string \<Rightarrow> bool" where
  "seg_matches (Lit l) s = (s = l)"
| "seg_matches Wild s = (s \<noteq> [])"

fun wild_value :: "pseg list \<Rightarrow> string list \<Rightarrow> string" where
  "wild_value (Wild # ps) (s # ss) = s"
| "wild_value (Lit _ # ps) (s # ss) = wild_value ps ss"
| "wild_value _ _ = []"

definition route_matches :: "string \<Rightarrow> string list \<Rightarrow> route \<Rightarrow> bool" where
  "route_matches m segs r = (case r of (pm, ps, ep) \<Rightarrow> method_matches pm m \<and> list_all2 seg_matches ps segs)"

definition find_route :: "string \<Rightarrow> string list \<Rightarrow> endpoint" where
  "find_route m segs = (case find (route_matches m segs) routes of
     Some (pm, ps, ep) \<Rightarrow> ep (wild_value ps segs) | None \<Rightarrow> SpaEp)"

datatype muxResult = MuxRedirect string | MuxNotFound | MuxTo endpoint

definition mux_match :: "string \<Rightarrow> string \<Rightarrow> muxResult" where
  "mux_match m path = (case path of
     c # rest \<Rightarrow> if c = CHR ''/'' then MuxTo (find_route m (map pathUnescape (split_slash rest))) else MuxNotFound
   | [] \<Rightarrow> MuxNotFound)"

definition mux_find :: "string \<Rightarrow> string \<Rightarrow> muxResult" where
  "mux_find m escapedPath =
     (if m = ''CONNECT'' then mux_match m escapedPath
      else if cleanPath escapedPath \<noteq> escapedPath then MuxRedirect (cleanPath escapedPath)
      else mux_match m escapedPath)"

subsection \<open>The test of the middleware (middleware.go)\<close>

definition unauthenticatedPaths :: "string list" where
  "unauthenticatedPaths = [''/api/enroll'', ''/api/auth/totp'', ''/api/auth/recovery'', ''/api/auth/status'', ''/api/auth/logout'',
     ''/api/auth/webauthn/login/begin'', ''/api/auth/webauthn/login/finish'', ''/ws/agent'']"

definition needsAuth :: "string \<Rightarrow> bool" where
  "needsAuth path \<longleftrightarrow> prefix ''/api/'' path \<or> prefix ''/ws/'' path"

definition gated :: "string \<Rightarrow> bool" where
  "gated path \<longleftrightarrow> needsAuth path \<and> path \<notin> set unauthenticatedPaths"

subsection \<open>The endpoints meant to be open\<close>

fun open_endpoint :: "endpoint \<Rightarrow> bool" where
  "open_endpoint EnrollEp = True" | "open_endpoint LoginTOTPEp = True" | "open_endpoint LoginRecoveryEp = True"
| "open_endpoint LogoutEp = True" | "open_endpoint AuthStatusEp = True" | "open_endpoint WebAuthnLoginBeginEp = True"
| "open_endpoint WebAuthnLoginFinishEp = True" | "open_endpoint AgentWS = True" | "open_endpoint SpaEp = True"
| "open_endpoint _ = False"

subsection \<open>One route per request\<close>

text \<open>
  The router prefers the more specific of two patterns that match; in this table no two patterns can
  match the same request, so the order of the search is irrelevant.
\<close>

fun seg_overlap :: "pseg \<Rightarrow> pseg \<Rightarrow> bool" where
  "seg_overlap (Lit a) (Lit b) = (a = b)"
| "seg_overlap _ _ = True"

fun method_overlap :: "string option \<Rightarrow> string option \<Rightarrow> bool" where
  "method_overlap (Some a) (Some b) = (a = b \<or> ''GET'' \<in> {a, b} \<and> ''HEAD'' \<in> {a, b})"
| "method_overlap _ _ = True"

definition overlap :: "route \<Rightarrow> route \<Rightarrow> bool" where
  "overlap r r' = (case (r, r') of ((m, ps, _), (m', ps', _)) \<Rightarrow> method_overlap m m' \<and> list_all2 seg_overlap ps ps')"

lemma route_matches_overlap:
  assumes "route_matches m segs r" "route_matches m segs r'"
  shows "overlap r r'"
proof -
  have seg: "seg_matches p s \<Longrightarrow> seg_matches q s \<Longrightarrow> seg_overlap p q" for p q s by (cases p; cases q) auto
  have "list_all2 seg_matches ps segs \<Longrightarrow> list_all2 seg_matches qs segs \<Longrightarrow> list_all2 seg_overlap ps qs" for ps qs
    using seg by (fastforce simp: list_all2_conv_all_nth)
  moreover have "method_matches a m \<Longrightarrow> method_matches b m \<Longrightarrow> method_overlap a b" for a b
    by (cases a; cases b) (auto simp: method_matches_def)
  ultimately show ?thesis using assms by (auto simp: route_matches_def overlap_def split: prod.splits)
qed

lemma routes_disjoint: "sorted_wrt (\<lambda>r r'. \<not> overlap r r') routes"
  by code_simp

text \<open>Whichever pattern matches, the search finds it.\<close>

lemma find_disjoint:
  "sorted_wrt (\<lambda>r r'. \<not> overlap r r') rs \<Longrightarrow> r \<in> set rs \<Longrightarrow> route_matches m segs r \<Longrightarrow> find (route_matches m segs) rs = Some r"
  by (induction rs) (auto dest: route_matches_overlap)

theorem find_route_iff:
  "(m', ps, ep) \<in> set routes \<Longrightarrow> method_matches m' m \<Longrightarrow> list_all2 seg_matches ps segs \<Longrightarrow>
    find_route m segs = ep (wild_value ps segs)"
  using find_disjoint [OF routes_disjoint, of "(m', ps, ep)" m segs] by (simp add: find_route_def route_matches_def)

subsection \<open>The router and the test agree\<close>

fun glue :: "string list \<Rightarrow> string" where
  "glue [] = []"
| "glue (s # ss) = s @ join_slash ss"

lemma split_slash_ne: "split_slash s \<noteq> []"
  by (induction s) (auto split: list.splits)

lemma unhex_slash [simp]: "unhex (CHR ''/'') = None"
  by (simp add: unhex_def)

text \<open>Decoding the pieces between the slashes and putting the slashes back is decoding the path.\<close>

lemma unescape_split: "unescape s = Some p \<Longrightarrow> p = glue (map pathUnescape (split_slash s)) \<and> (\<forall>t \<in> set (split_slash s). unescape t \<noteq> None)"
proof (induction s arbitrary: p rule: unescape.induct)
  case 1
  then show ?case by (simp add: pathUnescape_def join_slash_def)
next
  case (2 c cs)
  show ?case
  proof (cases "c = CHR ''%''")
    case True
    with "2.prems" obtain a b ds x y p' where cs: "cs = a # b # ds" and hex: "unhex a = Some x" "unhex b = Some y"
      and p': "unescape ds = Some p'" "p = char_of (16 * x + y) # p'"
      by (auto split: list.splits option.splits)
    have IH: "p' = glue (map pathUnescape (split_slash ds))" "\<forall>t \<in> set (split_slash ds). unescape t \<noteq> None"
      using "2.IH"(1) [OF True cs refl refl, of x y p'] hex p'(1) by auto
    have "a \<noteq> CHR ''/''" "b \<noteq> CHR ''/''" using hex by auto
    then obtain t ts where t: "split_slash ds = t # ts" "split_slash (c # cs) = (c # a # b # t) # ts"
      using True cs split_slash_ne [of ds] by (cases "split_slash ds") auto
    moreover have "unescape (c # a # b # t) \<noteq> None" "pathUnescape (c # a # b # t) = char_of (16 * x + y) # pathUnescape t"
      using IH t True hex by (auto simp: pathUnescape_def)
    ultimately show ?thesis using IH p' by (simp del: unescape.simps)
  next
    case False
    with "2.prems" obtain p' where p': "unescape cs = Some p'" "p = c # p'" by auto
    have IH: "p' = glue (map pathUnescape (split_slash cs))" "\<forall>t \<in> set (split_slash cs). unescape t \<noteq> None"
      using "2.IH"(2) [OF False p'(1)] by auto
    obtain t ts where t: "split_slash cs = t # ts" using split_slash_ne [of cs] by (cases "split_slash cs") auto
    show ?thesis
    proof (cases "c = CHR ''/''")
      case True
      moreover have "pathUnescape [] = []" by (simp add: pathUnescape_def)
      ultimately show ?thesis using IH p' t by (simp add: join_slash_def)
    next
      case slash: False
      have "unescape (c # t) \<noteq> None" "pathUnescape (c # t) = c # pathUnescape t" using IH t False by (auto simp: pathUnescape_def)
      then show ?thesis using IH p' t slash by (simp del: unescape.simps)
    qed
  qed
qed

lemma gated_routes:
  assumes "(pm, ps, ep) \<in> set routes" "list_all2 seg_matches ps segs"
  shows "gated (join_slash segs) \<longleftrightarrow> \<not> open_endpoint (ep s)"
  using assms unfolding routes_def
  by (auto simp: list_all2_Cons1 join_slash_def gated_def needsAuth_def unauthenticatedPaths_def)

lemma router_gate:
  assumes "unescape escapedPath = Some path" "mux_find m escapedPath = MuxTo e"
  shows "(\<not> open_endpoint e \<longrightarrow> gated path) \<and> (open_endpoint e \<longrightarrow> e \<noteq> SpaEp \<longrightarrow> \<not> gated path)"
proof -
  obtain rest where rest: "escapedPath = CHR ''/'' # rest" and e: "e = find_route m (map pathUnescape (split_slash rest))"
    using assms(2) by (auto simp: mux_find_def mux_match_def split: if_splits list.splits)
  let ?segs = "map pathUnescape (split_slash rest)"
  obtain p where p: "unescape rest = Some p" "path = CHR ''/'' # p" using assms(1) rest by auto
  then have path: "path = join_slash ?segs"
    using unescape_split [OF p(1)] split_slash_ne [of rest] by (cases "split_slash rest") (auto simp: join_slash_def)
  show ?thesis
  proof (cases "find (route_matches m ?segs) routes")
    case None
    then show ?thesis using e by (simp add: find_route_def)
  next
    case (Some r)
    then obtain pm ps ep where r: "r = (pm, ps, ep)" "r \<in> set routes" "route_matches m ?segs r"
      by (cases r) (auto simp: find_Some_iff)
    then show ?thesis using gated_routes [of pm ps ep ?segs] Some e path by (auto simp: find_route_def route_matches_def)
  qed
qed

text \<open>
  C39: the gate cannot be bypassed by spelling. Whatever the method and however the path is escaped, a
  request that the router hands to a protected endpoint has a path for which the middleware demands
  a session, and one it hands to an endpoint meant to be open has a path that is let through.
\<close>
theorem routes_gated:
  assumes "unescape escapedPath = Some path" "mux_find m escapedPath = MuxTo e"
  shows "(\<not> open_endpoint e \<longrightarrow> gated path) \<and> (open_endpoint e \<longrightarrow> e \<noteq> SpaEp \<longrightarrow> \<not> gated path)"
  using assms by (rule router_gate)

text \<open>Witness for \<open>routes_gated\<close>: an escaped letter, and a session ID with an escaped slash.\<close>
theorem routes_gated_witness:
  "mux_find ''GET'' ''/%61pi/machines'' = MuxTo ListMachinesEp \<and> gated ''/api/machines'' \<and>
   mux_find ''DELETE'' ''/api/sessions/a%2Fb'' = MuxTo (CloseSessionEp ''a/b'') \<and> gated ''/api/sessions/a/b'' \<and>
   mux_find ''POST'' ''/api/enrol%6c'' = MuxTo EnrollEp \<and> \<not> gated ''/api/enroll''"
proof -
  have "mux_find ''GET'' ''/%61pi/machines'' = MuxTo ListMachinesEp" "unescape ''/%61pi/machines'' = Some ''/api/machines''" by code_simp+
  moreover have "mux_find ''DELETE'' ''/api/sessions/a%2Fb'' = MuxTo (CloseSessionEp ''a/b'')" "unescape ''/api/sessions/a%2Fb'' = Some ''/api/sessions/a/b''"
    by code_simp+
  moreover have "mux_find ''POST'' ''/api/enrol%6c'' = MuxTo EnrollEp" "unescape ''/api/enrol%6c'' = Some ''/api/enroll''" by code_simp+
  ultimately show ?thesis using routes_gated by fastforce
qed

end
