(* ===== verification/Dashboard.thy ===== *)
theory Dashboard
  imports Hub_Domain "HOL-Library.Multiset" "HOL-Library.List_Lexorder" "HOL-Library.Char_ord" "HOL-Library.Product_Lexorder"
begin

text \<open>
  The dashboard's view of the fleet, \<^verbatim>\<open>internal/hub/app/dashboard\<close>: one pass over the sessions that fills
  the totals, a map of machine roll-ups, a map of project roll-ups and the list of attention items.

  \<^item> The lists come from the stores in an arbitrary order, and Go visits maps in an arbitrary order:
    here the order of the association list.
  \<^item> \<open>sort.Slice\<close> is a sort by key. Go compares strings byte by byte, which is the order on lists of
    characters imported here.
\<close>

subsection \<open>Data\<close>

record totals =
  tMachinesOnline :: int
  tMachinesTotal :: int
  tSessionsRunning :: int
  tSessionsExited :: int
  tSessionsLost :: int
  tSessionsDisconnected :: int
  tSessionsTotal :: int
  tProjectsTotal :: int
  tSessionsActive :: int
  tSessionsIdle :: int
  tSessionsAwaitingInput :: int

record machineRollup =
  mrID :: string
  mrName :: string
  mrOS :: string
  mrOnline :: bool
  mrRevoked :: bool
  mrLastSeenAt :: int
  mrRunning :: int
  mrTotal :: int

record projectRollup =
  prID :: string
  prName :: string
  prMachineID :: string
  prRunning :: int
  prExited :: int
  prLost :: int
  prDisconnected :: int
  prTotal :: int

record attentionItem =
  atKind :: string
  atMachineID :: string
  atSessionID :: string
  atLabel :: string

record auditEntry =
  aeTS :: int
  aeActor :: string
  aeAction :: auditAction
  aeMachineID :: string
  aeSessionID :: string
  aeDetail :: string

record fleetView =
  vwTotals :: totals
  vwMachines :: "machineRollup list"
  vwProjects :: "projectRollup list"
  vwAttention :: "attentionItem list"
  vwAudit :: "auditEntry list"

record machineEntry =
  meRollup :: machineRollup
  meDisconnected :: int

definition recentAuditLimit :: int where "recentAuditLimit = 20"

subsection \<open>The pass over the sessions\<close>

definition tally_status :: "sessionStatus \<Rightarrow> totals \<Rightarrow> totals" where
  "tally_status st t = (case st of
     SRunning \<Rightarrow> t\<lparr>tSessionsRunning := tSessionsRunning t + 1\<rparr>
   | SExited \<Rightarrow> t\<lparr>tSessionsExited := tSessionsExited t + 1\<rparr>
   | SLost \<Rightarrow> t\<lparr>tSessionsLost := tSessionsLost t + 1\<rparr>
   | SDisconnected \<Rightarrow> t\<lparr>tSessionsDisconnected := tSessionsDisconnected t + 1\<rparr>)"

definition tally_activity :: "string \<Rightarrow> totals \<Rightarrow> totals" where
  "tally_activity a t =
     (if a = ''active'' then t\<lparr>tSessionsActive := tSessionsActive t + 1\<rparr>
      else if a = ''idle'' then t\<lparr>tSessionsIdle := tSessionsIdle t + 1\<rparr>
      else if a = ''awaiting-input'' then t\<lparr>tSessionsAwaitingInput := tSessionsAwaitingInput t + 1\<rparr>
      else t)"

definition attention_item :: "string \<Rightarrow> hsession \<Rightarrow> attentionItem" where
  "attention_item kind s = \<lparr>atKind = kind, atMachineID = sMachineID s, atSessionID = sId s,
     atLabel = (if sTitle s = [] then sId s else sTitle s)\<rparr>"

definition session_attention :: "hsession \<Rightarrow> attentionItem list" where
  "session_attention s =
     (if sStatus s = SLost then [attention_item ''lost_session'' s] else []) @
     (if sStatus s = SRunning \<and> sActivity s = ''awaiting-input'' then [attention_item ''awaiting_input'' s] else [])"

definition machine_count :: "sessionStatus \<Rightarrow> machineEntry \<Rightarrow> machineEntry" where
  "machine_count st me =
     (let me1 = me\<lparr>meRollup := (meRollup me)\<lparr>mrTotal := mrTotal (meRollup me) + 1\<rparr>\<rparr>
      in case st of
           SRunning \<Rightarrow> me1\<lparr>meRollup := (meRollup me1)\<lparr>mrRunning := mrRunning (meRollup me1) + 1\<rparr>\<rparr>
         | SDisconnected \<Rightarrow> me1\<lparr>meDisconnected := meDisconnected me1 + 1\<rparr>
         | _ \<Rightarrow> me1)"

definition project_count :: "sessionStatus \<Rightarrow> projectRollup \<Rightarrow> projectRollup" where
  "project_count st pr =
     (let p1 = pr\<lparr>prTotal := prTotal pr + 1\<rparr>
      in case st of
           SRunning \<Rightarrow> p1\<lparr>prRunning := prRunning p1 + 1\<rparr>
         | SExited \<Rightarrow> p1\<lparr>prExited := prExited p1 + 1\<rparr>
         | SLost \<Rightarrow> p1\<lparr>prLost := prLost p1 + 1\<rparr>
         | SDisconnected \<Rightarrow> p1\<lparr>prDisconnected := prDisconnected p1 + 1\<rparr>)"

type_synonym dash = "totals \<times> machineEntry gomap \<times> projectRollup gomap \<times> attentionItem list"

definition dash_session :: "hsession \<Rightarrow> dash \<Rightarrow> dash" where
  "dash_session s d = (case d of (t, mm, pm, att) \<Rightarrow>
     (let t1 = tally_status (sStatus s) (t\<lparr>tSessionsTotal := tSessionsTotal t + 1\<rparr>);
          t2 = (if sStatus s = SRunning then tally_activity (sActivity s) t1 else t1);
          mm1 = (case m_get mm (sMachineID s) of Some me \<Rightarrow> m_put (sMachineID s) (machine_count (sStatus s) me) mm | None \<Rightarrow> mm);
          pid = (case m_get pm (sProjectID s) of Some pr \<Rightarrow> sProjectID s | None \<Rightarrow> []);
          pm1 = (case m_get pm pid of Some pr \<Rightarrow> m_put pid (project_count (sStatus s) pr) pm | None \<Rightarrow> pm)
      in (t2, mm1, pm1, att @ session_attention s)))"

definition machine_entry :: "(string \<Rightarrow> bool) \<Rightarrow> machine \<Rightarrow> machineEntry" where
  "machine_entry online m = \<lparr>meRollup = \<lparr>mrID = mId m, mrName = mName m, mrOS = mOS m, mrOnline = online (mId m),
     mrRevoked = Revoked m, mrLastSeenAt = mLastSeenAt m, mrRunning = 0, mrTotal = 0\<rparr>, meDisconnected = 0\<rparr>"

definition empty_rollup :: "string \<Rightarrow> string \<Rightarrow> string \<Rightarrow> projectRollup" where
  "empty_rollup i n machineID = \<lparr>prID = i, prName = n, prMachineID = machineID, prRunning = 0, prExited = 0, prLost = 0,
     prDisconnected = 0, prTotal = 0\<rparr>"

definition audit_entry :: "event \<Rightarrow> auditEntry" where
  "audit_entry e = \<lparr>aeTS = evTS e, aeActor = evActor e, aeAction = evAction e, aeMachineID = evMachineID e,
     aeSessionID = evSessionID e, aeDetail = evDetail e\<rparr>"

definition start_totals :: "(string \<Rightarrow> bool) \<Rightarrow> machine list \<Rightarrow> project list \<Rightarrow> totals" where
  "start_totals online machines projects = \<lparr>tMachinesOnline = int (length (filter (\<lambda>m. online (mId m)) machines)),
     tMachinesTotal = int (length machines), tSessionsRunning = 0, tSessionsExited = 0, tSessionsLost = 0,
     tSessionsDisconnected = 0, tSessionsTotal = 0, tProjectsTotal = int (length projects), tSessionsActive = 0,
     tSessionsIdle = 0, tSessionsAwaitingInput = 0\<rparr>"

definition machine_map :: "(string \<Rightarrow> bool) \<Rightarrow> machine list \<Rightarrow> machineEntry gomap" where
  "machine_map online machines = foldl (\<lambda>mm m. m_put (mId m) (machine_entry online m) mm) [] machines"

definition project_map :: "project list \<Rightarrow> projectRollup gomap" where
  "project_map projects = m_put [] (empty_rollup [] ''Ungrouped'' [])
     (foldl (\<lambda>pm p. m_put (pId p) (empty_rollup (pId p) (pName p) (pMachineID p)) pm) [] projects)"

definition offline_attention :: "machineEntry \<Rightarrow> attentionItem list" where
  "offline_attention me = (if \<not> mrOnline (meRollup me) \<and> meDisconnected me > 0
     then [\<lparr>atKind = ''disconnected_sessions'', atMachineID = mrID (meRollup me), atSessionID = [], atLabel = mrName (meRollup me)\<rparr>]
     else [])"

definition machine_key :: "machineRollup \<Rightarrow> string \<times> string" where
  "machine_key r = (mrName r, mrID r)"

definition project_key :: "projectRollup \<Rightarrow> bool \<times> string \<times> string" where
  "project_key r = (prID r = [], prName r, prID r)"

definition attention_key :: "attentionItem \<Rightarrow> string \<times> string \<times> string" where
  "attention_key a = (atKind a, atMachineID a, atSessionID a)"

definition build_view :: "dash \<Rightarrow> event list \<Rightarrow> fleetView" where
  "build_view d auditEvents = (case d of (t, mm, pm, att) \<Rightarrow>
     \<lparr>vwTotals = t,
      vwMachines = sort_key machine_key (map (meRollup \<circ> snd) mm),
      vwProjects = sort_key project_key (filter (\<lambda>pr. \<not> (prID pr = [] \<and> prTotal pr = 0)) (map snd pm)),
      vwAttention = sort_key attention_key (att @ concat (map (offline_attention \<circ> snd) mm)),
      vwAudit = map audit_entry auditEvents\<rparr>)"

text \<open>The use case; the stores' answers are arguments, and their errors end it in this order.\<close>

definition dash_Overview :: "(string \<Rightarrow> bool) \<Rightarrow> machine list result \<Rightarrow> hsession list result \<Rightarrow> project list result \<Rightarrow>
    event list result \<Rightarrow> fleetView result" where
  "dash_Overview online machines sessions projects auditEvents = (case machines of Inl err \<Rightarrow> Inl err
   | Inr ms \<Rightarrow> (case sessions of Inl err \<Rightarrow> Inl err
   | Inr ss \<Rightarrow> (case projects of Inl err \<Rightarrow> Inl err
   | Inr ps \<Rightarrow> (case auditEvents of Inl err \<Rightarrow> Inl err
   | Inr es \<Rightarrow> Inr (build_view
       (foldl (\<lambda>d s. dash_session s d) (start_totals online ms ps, machine_map online ms, project_map ps, []) ss) es)))))"

subsection \<open>The reference\<close>

text \<open>What the view is meant to be: every number counts the sessions it names.\<close>

definition count_if :: "('a \<Rightarrow> bool) \<Rightarrow> 'a list \<Rightarrow> int" where
  "count_if P xs = int (length (filter P xs))"

definition ref_totals :: "(string \<Rightarrow> bool) \<Rightarrow> machine list \<Rightarrow> hsession list \<Rightarrow> project list \<Rightarrow> totals" where
  "ref_totals online ms ss ps = \<lparr>tMachinesOnline = count_if (\<lambda>m. online (mId m)) ms, tMachinesTotal = int (length ms),
     tSessionsRunning = count_if (\<lambda>s. sStatus s = SRunning) ss, tSessionsExited = count_if (\<lambda>s. sStatus s = SExited) ss,
     tSessionsLost = count_if (\<lambda>s. sStatus s = SLost) ss, tSessionsDisconnected = count_if (\<lambda>s. sStatus s = SDisconnected) ss,
     tSessionsTotal = int (length ss), tProjectsTotal = int (length ps),
     tSessionsActive = count_if (\<lambda>s. sStatus s = SRunning \<and> sActivity s = ''active'') ss,
     tSessionsIdle = count_if (\<lambda>s. sStatus s = SRunning \<and> sActivity s = ''idle'') ss,
     tSessionsAwaitingInput = count_if (\<lambda>s. sStatus s = SRunning \<and> sActivity s = ''awaiting-input'') ss\<rparr>"

definition ref_machine :: "(string \<Rightarrow> bool) \<Rightarrow> hsession list \<Rightarrow> machine \<Rightarrow> machineRollup" where
  "ref_machine online ss m = \<lparr>mrID = mId m, mrName = mName m, mrOS = mOS m, mrOnline = online (mId m), mrRevoked = Revoked m,
     mrLastSeenAt = mLastSeenAt m, mrRunning = count_if (\<lambda>s. sMachineID s = mId m \<and> sStatus s = SRunning) ss,
     mrTotal = count_if (\<lambda>s. sMachineID s = mId m) ss\<rparr>"

text \<open>A session without a project, or with one that is not in the store, is ungrouped.\<close>

definition group_of :: "project list \<Rightarrow> hsession \<Rightarrow> string" where
  "group_of ps s = (if sProjectID s \<in> pId ` set ps then sProjectID s else [])"

definition ref_project :: "project list \<Rightarrow> hsession list \<Rightarrow> string \<times> string \<times> string \<Rightarrow> projectRollup" where
  "ref_project ps ss p = (case p of (i, n, machineID) \<Rightarrow> \<lparr>prID = i, prName = n, prMachineID = machineID,
     prRunning = count_if (\<lambda>s. group_of ps s = i \<and> sStatus s = SRunning) ss,
     prExited = count_if (\<lambda>s. group_of ps s = i \<and> sStatus s = SExited) ss,
     prLost = count_if (\<lambda>s. group_of ps s = i \<and> sStatus s = SLost) ss,
     prDisconnected = count_if (\<lambda>s. group_of ps s = i \<and> sStatus s = SDisconnected) ss,
     prTotal = count_if (\<lambda>s. group_of ps s = i) ss\<rparr>)"

definition ref_offline :: "(string \<Rightarrow> bool) \<Rightarrow> hsession list \<Rightarrow> machine list \<Rightarrow> attentionItem list" where
  "ref_offline online ss ms = map (\<lambda>m. \<lparr>atKind = ''disconnected_sessions'', atMachineID = mId m, atSessionID = [], atLabel = mName m\<rparr>)
     (filter (\<lambda>m. \<not> online (mId m) \<and> (\<exists>s \<in> set ss. sMachineID s = mId m \<and> sStatus s = SDisconnected)) ms)"

definition group_list :: "project list \<Rightarrow> (string \<times> string \<times> string) list" where
  "group_list ps = map (\<lambda>p. (pId p, pName p, pMachineID p)) ps @ [([], ''Ungrouped'', [])]"

definition ref_view :: "(string \<Rightarrow> bool) \<Rightarrow> machine list \<Rightarrow> hsession list \<Rightarrow> project list \<Rightarrow> event list \<Rightarrow> fleetView" where
  "ref_view online ms ss ps es = \<lparr>vwTotals = ref_totals online ms ss ps,
     vwMachines = sort_key machine_key (map (ref_machine online ss) ms),
     vwProjects = sort_key project_key (filter (\<lambda>pr. \<not> (prID pr = [] \<and> prTotal pr = 0)) (map (ref_project ps ss) (group_list ps))),
     vwAttention = sort_key attention_key (concat (map session_attention ss) @ ref_offline online ss ms),
     vwAudit = map audit_entry es\<rparr>"

text \<open>The stores keep machines and projects under distinct, non-empty IDs.\<close>

definition wf_fleet :: "machine list \<Rightarrow> project list \<Rightarrow> bool" where
  "wf_fleet ms ps \<longleftrightarrow> distinct (map mId ms) \<and> distinct (map pId ps) \<and> [] \<notin> pId ` set ps"

subsection \<open>The pass computes the reference\<close>

lemma count_if_simps [simp]:
  "count_if P [] = 0" "count_if P (xs @ [x]) = count_if P xs + (if P x then 1 else 0)"
  by (simp_all add: count_if_def)

lemma map_list_get: "m_get (map (\<lambda>x. (g x, f x)) xs) k = map_option f (find (\<lambda>x. g x = k) xs)"
  by (induction xs) (auto simp: m_get_def)

lemma map_list_put:
  assumes "distinct (map g xs)" "x \<in> set xs"
  shows "m_put (g x) v (map (\<lambda>x. (g x, f x)) xs) = map (\<lambda>y. (g y, if g y = g x then v else f y)) xs"
  using assms by (induction xs) (auto simp: m_put_def rev_image_eqI intro!: map_cong)

lemma m_put_fresh: "k \<notin> fst ` set d \<Longrightarrow> m_put k v d = d @ [(k, v)]"
  by (induction d) (auto simp: m_put_def)

lemma foldl_put_distinct:
  "distinct (map g xs) \<Longrightarrow> fst ` set d \<inter> g ` set xs = {} \<Longrightarrow>
   foldl (\<lambda>d x. m_put (g x) (f x) d) d xs = d @ map (\<lambda>x. (g x, f x)) xs"
proof (induction xs arbitrary: d)
  case (Cons x xs)
  have "foldl (\<lambda>d x. m_put (g x) (f x) d) (d @ [(g x, f x)]) xs = (d @ [(g x, f x)]) @ map (\<lambda>x. (g x, f x)) xs"
    by (rule Cons.IH) (use Cons.prems in auto)
  then show ?case using Cons.prems m_put_fresh [of "g x" d "f x"] by auto
qed simp

definition ref_entry :: "(string \<Rightarrow> bool) \<Rightarrow> hsession list \<Rightarrow> machine \<Rightarrow> machineEntry" where
  "ref_entry online ss m = \<lparr>meRollup = ref_machine online ss m,
     meDisconnected = count_if (\<lambda>s. sMachineID s = mId m \<and> sStatus s = SDisconnected) ss\<rparr>"

text \<open>The state of the pass after a list of sessions.\<close>

definition ref_dash :: "(string \<Rightarrow> bool) \<Rightarrow> machine list \<Rightarrow> project list \<Rightarrow> hsession list \<Rightarrow> dash" where
  "ref_dash online ms ps ss = (ref_totals online ms ss ps, map (\<lambda>m. (mId m, ref_entry online ss m)) ms,
     map (\<lambda>g. (fst g, ref_project ps ss g)) (group_list ps), concat (map session_attention ss))"

lemma ref_totals_snoc:
  "(if sStatus s = SRunning then tally_activity (sActivity s) (tally_status (sStatus s) (t\<lparr>tSessionsTotal := tSessionsTotal t + 1\<rparr>))
    else tally_status (sStatus s) (t\<lparr>tSessionsTotal := tSessionsTotal t + 1\<rparr>)) = ref_totals online ms (ss @ [s]) ps"
  if "t = ref_totals online ms ss ps"
  by (cases "sStatus s") (simp_all add: that ref_totals_def tally_status_def tally_activity_def)

lemma ref_entry_snoc:
  "ref_entry online (ss @ [s]) m = (if sMachineID s = mId m then machine_count (sStatus s) (ref_entry online ss m) else ref_entry online ss m)"
  by (cases "sStatus s") (simp_all add: ref_entry_def ref_machine_def machine_count_def Let_def)

lemma ref_project_snoc:
  "ref_project ps (ss @ [s]) g = (if group_of ps s = fst g then project_count (sStatus s) (ref_project ps ss g) else ref_project ps ss g)"
  by (cases g; cases "sStatus s") (simp_all add: ref_project_def project_count_def Let_def)

lemma keyed_update:
  assumes "distinct (map g xs)" "\<And>x. x \<in> set xs \<Longrightarrow> f' x = (if g x = k then h (f x) else f x)"
  shows "(case m_get (map (\<lambda>x. (g x, f x)) xs) k of Some v \<Rightarrow> m_put k (h v) (map (\<lambda>x. (g x, f x)) xs)
    | None \<Rightarrow> map (\<lambda>x. (g x, f x)) xs) = map (\<lambda>x. (g x, f' x)) xs"
proof (cases "find (\<lambda>x. g x = k) xs")
  case None
  then have "\<forall>x \<in> set xs. g x \<noteq> k" by (auto simp: find_None_iff)
  then show ?thesis using assms(2) None by (auto simp: map_list_get)
next
  case (Some x)
  then have x: "x \<in> set xs" "g x = k" by (auto simp: find_Some_iff)
  have eq: "(if g y = g x then h (f x) else f y) = f' y" if y: "y \<in> set xs" for y
  proof (cases "g y = g x")
    case True
    then have "y = x" using assms(1) x(1) y by (metis distinct_map inj_onD)
    then show ?thesis using assms(2) [OF y] x(2) by simp
  next
    case False
    then show ?thesis using assms(2) [OF y] x(2) by simp
  qed
  have "m_put k (h (f x)) (map (\<lambda>x. (g x, f x)) xs) = map (\<lambda>x. (g x, f' x)) xs"
    unfolding x(2) [symmetric] map_list_put [OF assms(1) x(1)] using eq by simp
  then show ?thesis by (simp add: map_list_get Some)
qed

lemma dash_session_ref:
  assumes "wf_fleet ms ps"
  shows "dash_session s (ref_dash online ms ps ss) = ref_dash online ms ps (ss @ [s])"
proof -
  let ?pm = "map (\<lambda>g. (fst g, ref_project ps ss g)) (group_list ps)"
  have dg: "distinct (map fst (group_list ps))" "fst ` set (group_list ps) = insert [] (pId ` set ps)"
    using assms by (auto simp: wf_fleet_def group_list_def comp_def image_image)
  have "m_get ?pm k = None \<longleftrightarrow> k \<notin> fst ` set (group_list ps)" for k
    by (auto simp: map_list_get find_None_iff) (metis fst_conv image_eqI)
  from this [of "sProjectID s"]
  have grp: "(case m_get ?pm (sProjectID s) of Some pr \<Rightarrow> sProjectID s | None \<Rightarrow> []) = group_of ps s"
    unfolding dg(2) by (cases "m_get ?pm (sProjectID s)") (auto simp: group_of_def)
  have 1: "(case m_get ?pm (group_of ps s) of Some pr \<Rightarrow> m_put (group_of ps s) (project_count (sStatus s) pr) ?pm | None \<Rightarrow> ?pm) =
      map (\<lambda>g. (fst g, ref_project ps (ss @ [s]) g)) (group_list ps)"
    by (rule keyed_update [OF dg(1)]) (auto simp: ref_project_snoc)
  have 2: "(case m_get (map (\<lambda>m. (mId m, ref_entry online ss m)) ms) (sMachineID s) of
      Some me \<Rightarrow> m_put (sMachineID s) (machine_count (sStatus s) me) (map (\<lambda>m. (mId m, ref_entry online ss m)) ms)
    | None \<Rightarrow> map (\<lambda>m. (mId m, ref_entry online ss m)) ms) = map (\<lambda>m. (mId m, ref_entry online (ss @ [s]) m)) ms"
    by (rule keyed_update) (use assms in \<open>auto simp: wf_fleet_def ref_entry_snoc\<close>)
  show ?thesis unfolding dash_session_def ref_dash_def Let_def prod.case grp 1 2
    by (simp add: ref_totals_snoc [where s = s])
qed

lemma dash_Overview_ref:
  assumes "wf_fleet ms ps"
  shows "dash_Overview online (Inr ms) (Inr ss) (Inr ps) (Inr es) = Inr (ref_view online ms ss ps es)"
proof -
  have start: "(start_totals online ms ps, machine_map online ms, project_map ps, []) = ref_dash online ms ps []"
  proof -
    have "machine_map online ms = map (\<lambda>m. (mId m, ref_entry online [] m)) ms"
      using assms foldl_put_distinct [of mId ms "[]" "machine_entry online"]
      by (simp add: machine_map_def wf_fleet_def ref_entry_def ref_machine_def machine_entry_def)
    moreover have "project_map ps = map (\<lambda>g. (fst g, ref_project ps [] g)) (group_list ps)"
      using assms foldl_put_distinct [of pId ps "[]" "\<lambda>p. empty_rollup (pId p) (pName p) (pMachineID p)"]
      by (simp add: project_map_def wf_fleet_def group_list_def ref_project_def empty_rollup_def m_put_fresh image_image)
    ultimately show ?thesis by (simp add: ref_dash_def start_totals_def ref_totals_def count_if_def)
  qed
  have pass: "foldl (\<lambda>d s. dash_session s d) (ref_dash online ms ps []) ss = ref_dash online ms ps ss"
    by (induction ss rule: rev_induct) (simp_all add: dash_session_ref [OF assms])
  have off: "concat (map (offline_attention \<circ> snd) (map (\<lambda>m. (mId m, ref_entry online ss m)) ms)) = ref_offline online ss ms"
  proof -
    have "0 < count_if (\<lambda>s. sMachineID s = mId m \<and> sStatus s = SDisconnected) ss \<longleftrightarrow>
        (\<exists>s \<in> set ss. sMachineID s = mId m \<and> sStatus s = SDisconnected)" for m :: machine
      by (auto simp: count_if_def filter_empty_conv)
    then have "offline_attention (ref_entry online ss m) = (if \<not> online (mId m) \<and> (\<exists>s \<in> set ss. sMachineID s = mId m \<and> sStatus s = SDisconnected)
        then [\<lparr>atKind = ''disconnected_sessions'', atMachineID = mId m, atSessionID = [], atLabel = mName m\<rparr>] else [])" for m :: machine
      by (simp add: offline_attention_def ref_entry_def ref_machine_def)
    then show ?thesis by (induction ms) (simp_all add: ref_offline_def)
  qed
  show ?thesis unfolding dash_Overview_def sum.case start pass
    unfolding build_view_def ref_dash_def prod.case off
    by (simp add: ref_view_def comp_def ref_entry_def)
qed

text \<open>
  C40: the dashboard counts right. Whatever the stores hold, the view the single pass with its maps
  produces is the reference view: every total and every roll-up is the number of sessions it names,
  each session is counted in exactly one project group, and the attention items are the lost
  sessions, the running sessions awaiting input, and the offline machines with disconnected sessions.
\<close>
theorem dashboard_refines:
  assumes "wf_fleet ms ps"
  shows "dash_Overview online (Inr ms) (Inr ss) (Inr ps) (Inr es) = Inr (ref_view online ms ss ps es)"
  using assms by (rule dash_Overview_ref)

text \<open>Witness for \<open>dashboard_refines\<close>: an offline machine with a disconnected session of a deleted project.\<close>
theorem dashboard_refines_witness:
  "let ms = [NewMachine ''m'' [] ''box'' [] [] [] 1]; ss = [(NewHubSession ''s'' ''m'' ''gone'' [] [] [] 1)\<lparr>sStatus := SDisconnected\<rparr>];
       v = ref_view (\<lambda>_. False) ms ss [] []
   in dash_Overview (\<lambda>_. False) (Inr ms) (Inr ss) (Inr []) (Inr []) = Inr v \<and>
      tSessionsDisconnected (vwTotals v) = 1 \<and> map prTotal (vwProjects v) = [1] \<and> map atKind (vwAttention v) = [''disconnected_sessions'']"
proof -
  let ?ms = "[NewMachine ''m'' [] ''box'' [] [] [] 1]" and ?ss = "[(NewHubSession ''s'' ''m'' ''gone'' [] [] [] 1)\<lparr>sStatus := SDisconnected\<rparr>]"
  let ?v = "ref_view (\<lambda>_. False) ?ms ?ss [] []"
  have "wf_fleet ?ms []" by (simp add: wf_fleet_def)
  from dashboard_refines [OF this] have "dash_Overview (\<lambda>_. False) (Inr ?ms) (Inr ?ss) (Inr []) (Inr []) = Inr ?v" .
  moreover have "tSessionsDisconnected (vwTotals ?v) = 1" "map prTotal (vwProjects ?v) = [1]" "map atKind (vwAttention ?v) = [''disconnected_sessions'']"
    by (code_simp, code_simp, code_simp)
  ultimately show ?thesis unfolding Let_def by blast
qed

subsection \<open>Order does not matter\<close>

lemma sort_key_mset:
  assumes "mset xs = mset ys" "inj_on k (set xs)"
  shows "sort_key k xs = sort_key k ys"
proof (rule properties_for_sort_key)
  show "mset (sort_key k ys) = mset xs" using assms(1) by simp
  show "sorted (map k (sort_key k ys))" by simp
  fix z assume "z \<in> set (sort_key k ys)"
  then have "z \<in> set xs" using mset_eq_setD [OF assms(1)] by simp
  then have "filter (\<lambda>x. k z = k x) (sort_key k ys) = filter (\<lambda>x. x = z) (sort_key k ys)"
    "filter (\<lambda>x. k z = k x) xs = filter (\<lambda>x. x = z) xs"
    using assms mset_eq_setD [OF assms(1)] by (auto intro!: filter_cong simp: inj_on_eq_iff)
  moreover have "filter (\<lambda>x. x = z) l = replicate (count (mset l) z) z" for l
    by (induction l) auto
  ultimately show "filter (\<lambda>x. k z = k x) (sort_key k ys) = filter (\<lambda>x. k z = k x) xs"
    using assms(1) by simp
qed

lemma count_if_mset: "mset xs = mset ys \<Longrightarrow> count_if P xs = count_if P ys"
  by (metis count_if_def mset_filter size_mset)

lemma mset_concat_mset: "mset xs = mset ys \<Longrightarrow> mset (concat (map f xs)) = mset (concat (map f ys))"
proof -
  have "mset (concat (map f zs)) = sum_mset (image_mset (\<lambda>z. mset (f z)) (mset zs))" for zs by (induction zs) simp_all
  then show "mset xs = mset ys \<Longrightarrow> ?thesis" by simp
qed

lemma attention_key_inj:
  assumes "distinct (map sId ss)" "distinct (map mId ms)"
  shows "inj_on attention_key (set (concat (map session_attention ss) @ ref_offline online qs ms))"
proof (rule inj_onI)
  fix a b assume a: "a \<in> set (concat (map session_attention ss) @ ref_offline online qs ms)"
    and b: "b \<in> set (concat (map session_attention ss) @ ref_offline online qs ms)" and eq: "attention_key a = attention_key b"
  have item: "(\<exists>s \<in> set ss. x = attention_item (atKind x) s \<and> atKind x \<noteq> ''disconnected_sessions'') \<or>
      (\<exists>m \<in> set ms. x = \<lparr>atKind = ''disconnected_sessions'', atMachineID = mId m, atSessionID = [], atLabel = mName m\<rparr>)"
    if "x \<in> set (concat (map session_attention ss) @ ref_offline online qs ms)" for x
    using that by (auto simp: session_attention_def ref_offline_def attention_item_def split: if_splits)
  have s: "s \<in> set ss \<Longrightarrow> t \<in> set ss \<Longrightarrow> sId s = sId t \<Longrightarrow> s = t" for s t using assms(1) by (metis distinct_map inj_onD)
  have m: "m \<in> set ms \<Longrightarrow> n \<in> set ms \<Longrightarrow> mId m = mId n \<Longrightarrow> m = n" for m n using assms(2) by (metis distinct_map inj_onD)
  have key: "atKind a = atKind b" "atMachineID a = atMachineID b" "atSessionID a = atSessionID b"
    using eq by (simp_all add: attention_key_def)
  from item [OF a] show "a = b"
  proof
    assume "\<exists>s \<in> set ss. a = attention_item (atKind a) s \<and> atKind a \<noteq> ''disconnected_sessions''"
    then obtain x where x: "x \<in> set ss" "a = attention_item (atKind a) x" "atKind a \<noteq> ''disconnected_sessions''" by blast
    then obtain y where y: "y \<in> set ss" "b = attention_item (atKind b) y" using item [OF b] key(1) by auto
    have "sId x = atSessionID a" using x(2) by (metis attention_item_def attentionItem.select_convs(3))
    moreover have "sId y = atSessionID b" using y(2) by (metis attention_item_def attentionItem.select_convs(3))
    ultimately have "x = y" using s x(1) y(1) key(3) by simp
    then show ?thesis using x(2) y(2) key(1) by metis
  next
    assume "\<exists>m \<in> set ms. a = \<lparr>atKind = ''disconnected_sessions'', atMachineID = mId m, atSessionID = [], atLabel = mName m\<rparr>"
    then obtain x where x: "x \<in> set ms" "a = \<lparr>atKind = ''disconnected_sessions'', atMachineID = mId x, atSessionID = [], atLabel = mName x\<rparr>" by blast
    then have "atKind b = ''disconnected_sessions''" using key(1) by simp
    with item [OF b] obtain y where y: "y \<in> set ms" "b = \<lparr>atKind = ''disconnected_sessions'', atMachineID = mId y, atSessionID = [], atLabel = mName y\<rparr>" by blast
    have "mId x = mId y" using key(2) x(2) y(2) by simp
    then have "x = y" using m x(1) y(1) by blast
    then show ?thesis using x(2) y(2) by simp
  qed
qed

text \<open>
  The dashboard is deterministic. The view depends on which machines, sessions and projects there
  are, not on the order in which the stores list them or in which the maps are visited.
\<close>
theorem dashboard_order_irrelevant:
  assumes "wf_fleet ms ps" "distinct (map sId ss)" "mset ms' = mset ms" "mset ss' = mset ss" "mset ps' = mset ps"
  shows "dash_Overview online (Inr ms') (Inr ss') (Inr ps') (Inr es) = dash_Overview online (Inr ms) (Inr ss) (Inr ps) (Inr es)"
proof -
  have wf': "wf_fleet ms' ps'"
    using assms unfolding wf_fleet_def by (metis mset_eq_imp_distinct_iff mset_eq_setD mset_map)
  note cnt = count_if_mset [OF assms(4)]
  have grp: "group_of ps' = group_of ps" using mset_eq_setD [OF assms(5)] by (simp add: group_of_def fun_eq_iff)
  have m: "ref_machine online ss' = ref_machine online ss" by (simp add: ref_machine_def cnt fun_eq_iff)
  have p: "ref_project ps' ss' = ref_project ps ss" by (simp add: ref_project_def grp cnt fun_eq_iff)
  have "ref_totals online ms' ss' ps' = ref_totals online ms ss ps"
    using assms(3,4,5) by (simp add: ref_totals_def cnt count_if_mset [OF assms(3)]) (metis size_mset)
  moreover have "sort_key machine_key (map (ref_machine online ss') ms') = sort_key machine_key (map (ref_machine online ss) ms)"
    unfolding m
  proof (rule sort_key_mset)
    show "inj_on machine_key (set (map (ref_machine online ss) ms'))"
      using wf' by (auto simp: inj_on_def machine_key_def ref_machine_def wf_fleet_def distinct_map)
  qed (simp add: assms(3))
  moreover have "sort_key project_key (filter P (map (ref_project ps' ss') (group_list ps'))) =
      sort_key project_key (filter P (map (ref_project ps ss) (group_list ps)))" for P
    unfolding p
  proof (rule sort_key_mset)
    have "distinct (map fst (group_list ps'))" using wf' by (auto simp: wf_fleet_def group_list_def comp_def)
    then show "inj_on project_key (set (filter P (map (ref_project ps ss) (group_list ps'))))"
      by (auto simp: inj_on_def project_key_def ref_project_def distinct_map split: prod.splits) (metis fst_conv prod.inject)+
  qed (simp add: assms(5) group_list_def)
  moreover have "sort_key attention_key (concat (map session_attention ss') @ ref_offline online ss' ms') =
      sort_key attention_key (concat (map session_attention ss) @ ref_offline online ss ms)"
  proof (rule sort_key_mset)
    have "mset (concat (map session_attention ss')) = mset (concat (map session_attention ss))"
      using assms(4) mset_concat_mset by metis
    moreover have "mset (ref_offline online ss' ms') = mset (ref_offline online ss ms)"
      using assms(3) mset_eq_setD [OF assms(4)] by (simp add: ref_offline_def)
    ultimately show "mset (concat (map session_attention ss') @ ref_offline online ss' ms') =
        mset (concat (map session_attention ss) @ ref_offline online ss ms)" by simp
    have "distinct (map sId ss')" using assms(2,4) by (metis mset_eq_imp_distinct_iff mset_map)
    then show "inj_on attention_key (set (concat (map session_attention ss') @ ref_offline online ss' ms'))"
      using wf' by (intro attention_key_inj) (auto simp: wf_fleet_def)
  qed
  ultimately show ?thesis unfolding dash_Overview_ref [OF wf'] dash_Overview_ref [OF assms(1)] ref_view_def by simp
qed

text \<open>Witness for \<open>dashboard_order_irrelevant\<close>: two machines listed in both orders.\<close>
theorem dashboard_order_irrelevant_witness:
  "let m1 = NewMachine ''m1'' [] ''a'' [] [] [] 1; m2 = NewMachine ''m2'' [] ''b'' [] [] [] 2; s = NewHubSession ''s'' ''m1'' [] [] [] [] 1
   in dash_Overview (\<lambda>_. True) (Inr [m2, m1]) (Inr [s]) (Inr []) (Inr []) = dash_Overview (\<lambda>_. True) (Inr [m1, m2]) (Inr [s]) (Inr []) (Inr [])"
  unfolding Let_def
  by (rule dashboard_order_irrelevant) (simp_all add: wf_fleet_def NewMachine_def)

end
