(* ===== verification/Http_Api.thy ===== *)
theory Http_Api
  imports Http_Routes Enroll_App Auth_App Projects_App Rate_Limit Dashboard Transport
begin

text \<open>
  The HTTP API of the hub, \<^verbatim>\<open>internal/hub/adapter/primary/httpapi\<close>: every handler over the use cases, the
  session gate, the login limiter and the cookies, composed as \<open>NewServer\<close> composes them. The stores of
  all use cases are one state, so that what one request does the next one sees.

  \<^item> Parameters: the JSON decoder of each request body (package \<open>encoding/json\<close>), the agent gateway and
    what it knows of the machines, the cryptographic functions of the use cases, and which files the
    web front end has. Generated IDs, tokens and names are inputs of a request.
  \<^item> A handler runs on the state as one step. The interleavings inside a login and an open are the
    subject of the theories of those use cases.
  \<^item> Every cookie has the path \<open>/\<close> and SameSite Lax. The messages of errors, logging, and the names of
    JSON fields are left out. The WebSocket endpoints take the request over.
\<close>

subsection \<open>State\<close>

record 'g hub_world =
  hwOps :: operatorStore
  hwOpSessions :: operatorSessionStore
  hwChallenges :: challengeStore
  hwAudit :: auditStore
  hwTokens :: enrollTokenStore
  hwCreds :: credentialStore
  hwMachines :: machineStore
  hwSessions :: sessionStore
  hwProjects :: projectStore
  hwGateway :: 'g
  hwIPLimiter :: rateLimiter
  hwGlobalLimiter :: rateLimiter
  hwNow :: int

text \<open>The instant is in nanoseconds; the use cases read whole seconds.\<close>

definition hw_unix :: "'g hub_world \<Rightarrow> int" where
  "hw_unix w = hwNow w div second"

definition auth_of :: "string option \<Rightarrow> 'g hub_world \<Rightarrow> auth_world" where
  "auth_of ctx w = \<lparr>awOps = hwOps w, awSessions = hwOpSessions w, awChallenges = hwChallenges w, awAudit = hwAudit w,
     awNow = hw_unix w, awActor = ctx\<rparr>"

definition put_auth :: "auth_world \<Rightarrow> 'g hub_world \<Rightarrow> 'g hub_world" where
  "put_auth a w = w\<lparr>hwOps := awOps a, hwOpSessions := awSessions a, hwChallenges := awChallenges a, hwAudit := awAudit a\<rparr>"

definition enroll_of :: "string option \<Rightarrow> 'g hub_world \<Rightarrow> enroll_world" where
  "enroll_of ctx w = \<lparr>ewTokens = hwTokens w, ewCreds = hwCreds w, ewMachines = hwMachines w, ewAudit = hwAudit w,
     ewNow = hw_unix w, ewActor = ctx\<rparr>"

definition put_enroll :: "enroll_world \<Rightarrow> 'g hub_world \<Rightarrow> 'g hub_world" where
  "put_enroll e w = w\<lparr>hwTokens := ewTokens e, hwCreds := ewCreds e, hwMachines := ewMachines e, hwAudit := ewAudit e\<rparr>"

definition sessions_of :: "string option \<Rightarrow> 'g hub_world \<Rightarrow> (sessionStore, 'g) sessions_world" where
  "sessions_of ctx w = \<lparr>swStore = hwSessions w, swGateway = hwGateway w, swAudit = hwAudit w, swNow = hw_unix w, swActor = ctx\<rparr>"

definition put_sessions :: "(sessionStore, 'g) sessions_world \<Rightarrow> 'g hub_world \<Rightarrow> 'g hub_world" where
  "put_sessions s w = w\<lparr>hwSessions := swStore s, hwGateway := swGateway s, hwAudit := swAudit s\<rparr>"

definition projects_of :: "'g hub_world \<Rightarrow> projects_world" where
  "projects_of w = \<lparr>pwProjects = hwProjects w, pwSessions = hwSessions w, pwNow = hw_unix w\<rparr>"

definition put_projects :: "projects_world \<Rightarrow> 'g hub_world \<Rightarrow> 'g hub_world" where
  "put_projects p w = w\<lparr>hwProjects := pwProjects p\<rparr>"

subsection \<open>Requests\<close>

record request =
  rqMethod :: string
  rqEscapedPath :: string
  rqQuery :: "string list"
  rqCookies :: "(string \<times> string) list"
  rqXFF :: string
  rqRemoteAddr :: string
  rqBody :: "byte list"

definition r_Cookie :: "string \<Rightarrow> request \<Rightarrow> string option" where
  "r_Cookie name r = map_of (rqCookies r) name"

record enrollRequest =
  erToken :: string
  erPublicKey :: string
  erName :: string
  erOS :: string
  erArch :: string

record openSessionRequest =
  orMachineID :: string
  orProjectID :: string
  orTitle :: string
  orCwd :: string
  orShell :: string
  orCols :: int
  orRows :: int
  orCreateDir :: bool

record createProjectRequest =
  cpMachineID :: string
  cpName :: string
  cpPath :: string
  cpColor :: string

record patchSessionRequest =
  psTitle :: "string option"
  psAutoRelaunch :: "bool option"

text \<open>The JSON decoder on each of the request types; \<open>None\<close> when it reports an error.\<close>

record json_decoder =
  jdEnroll :: "byte list \<Rightarrow> enrollRequest option"
  jdOpen :: "byte list \<Rightarrow> openSessionRequest option"
  jdProject :: "byte list \<Rightarrow> createProjectRequest option"
  jdPatch :: "byte list \<Rightarrow> patchSessionRequest option"
  jdCode :: "byte list \<Rightarrow> string option"

record ('g, 'f) hub_config =
  hcAuth :: bool
  hcGen :: "string \<Rightarrow> int \<Rightarrow> string option"
  hcSha :: "string \<Rightarrow> string"
  hcWebauthn :: "webauthn option"
  hcTtl :: int
  hcSecure :: bool
  hcGateway :: "'g agent_gateway"
  hcOnline :: "'g \<Rightarrow> string \<Rightarrow> bool"
  hcMetrics :: "'g \<Rightarrow> string \<Rightarrow> 'f Metrics option"
  hcJson :: json_decoder
  hcSplitHostPort :: "string \<Rightarrow> string option"
  hcAsset :: "string \<Rightarrow> bool"

text \<open>What the generators give during a request: an ID, a session token or challenge key, a name.\<close>

record fresh =
  frID :: string
  frToken :: string
  frName :: string

subsection \<open>Replies\<close>

record cookie =
  ckName :: string
  ckValue :: string
  ckHttpOnly :: bool
  ckSecure :: bool
  ckMaxAge :: int

record 'f MachineDTO =
  mdID :: string
  mdName :: string
  mdOS :: string
  mdArch :: string
  mdAgentVersion :: string
  mdEnrolledAt :: int
  mdLastSeenAt :: int
  mdOnline :: bool
  mdStatus :: string
  mdRevoked :: bool
  mdCPUPercent :: "'f option"
  mdMemUsedMB :: "int option"
  mdMemTotalMB :: "int option"

record SessionDTO =
  sdID :: string
  sdMachineID :: string
  sdProjectID :: string
  sdTitle :: string
  sdShell :: string
  sdCwd :: string
  sdPwd :: string
  sdStatus :: sessionStatus
  sdExitCode :: int
  sdCreatedAt :: int
  sdLastActiveAt :: int
  sdActivity :: string
  sdAutoRelaunch :: bool

record ProjectDTO =
  pdID :: string
  pdMachineID :: string
  pdName :: string
  pdPath :: string
  pdColor :: string
  pdCreatedAt :: int

definition sessionToDTO :: "hsession \<Rightarrow> SessionDTO" where
  "sessionToDTO s = \<lparr>sdID = sId s, sdMachineID = sMachineID s, sdProjectID = sProjectID s, sdTitle = sTitle s,
     sdShell = sShell s, sdCwd = sCwd s, sdPwd = sPwd s, sdStatus = sStatus s, sdExitCode = sExitCode s,
     sdCreatedAt = sCreatedAt s, sdLastActiveAt = sLastActiveAt s, sdActivity = sActivity s, sdAutoRelaunch = sAutoRelaunch s\<rparr>"

definition projectToDTO :: "project \<Rightarrow> ProjectDTO" where
  "projectToDTO p = \<lparr>pdID = pId p, pdMachineID = pMachineID p, pdName = pName p, pdPath = pPath p, pdColor = pColor p,
     pdCreatedAt = pCreatedAt p\<rparr>"

definition machineToDTO :: "('f::{zero, ord}) Metrics machineView \<Rightarrow> 'f MachineDTO" where
  "machineToDTO v = (let m = mvMachine v in
     \<lparr>mdID = mId m, mdName = mName m, mdOS = mOS m, mdArch = mArch m, mdAgentVersion = mAgentVersion m,
      mdEnrolledAt = mEnrolledAt m, mdLastSeenAt = mLastSeenAt m, mdOnline = mvOnline v,
      mdStatus = (if mvOnline v then ''online'' else ''offline''), mdRevoked = Revoked m,
      mdCPUPercent = (case mvMetrics v of Some x \<Rightarrow> if meCPUPercent x \<ge> 0 then Some (meCPUPercent x) else None | None \<Rightarrow> None),
      mdMemUsedMB = map_option meMemUsedMB (mvMetrics v),
      mdMemTotalMB = map_option meMemTotalMB (mvMetrics v)\<rparr>)"

text \<open>The DTOs of the dashboard (\<^verbatim>\<open>dashboard.go\<close>).\<close>

record DashboardTotalsDTO =
  dtMachinesOnline :: int
  dtMachinesTotal :: int
  dtSessionsRunning :: int
  dtSessionsExited :: int
  dtSessionsLost :: int
  dtSessionsDisconnected :: int
  dtSessionsTotal :: int
  dtProjectsTotal :: int
  dtSessionsActive :: int
  dtSessionsIdle :: int
  dtSessionsAwaitingInput :: int

record DashboardMachineDTO =
  dmID :: string
  dmName :: string
  dmOS :: string
  dmOnline :: bool
  dmRevoked :: bool
  dmLastSeenAt :: int
  dmRunning :: int
  dmTotal :: int

record DashboardProjectDTO =
  dpID :: string
  dpName :: string
  dpMachineID :: string
  dpRunning :: int
  dpExited :: int
  dpLost :: int
  dpDisconnected :: int
  dpTotal :: int

record DashboardAttentionDTO =
  daKind :: string
  daMachineID :: string
  daSessionID :: string
  daLabel :: string

record DashboardAuditEntryDTO =
  deTS :: int
  deActor :: string
  deAction :: auditAction
  deMachineID :: string
  deSessionID :: string
  deDetail :: string

record DashboardDTO =
  ddTotals :: DashboardTotalsDTO
  ddMachines :: "DashboardMachineDTO list"
  ddProjects :: "DashboardProjectDTO list"
  ddAttentionItems :: "DashboardAttentionDTO list"
  ddRecentAudit :: "DashboardAuditEntryDTO list"

definition dashboardToDTO :: "fleetView \<Rightarrow> DashboardDTO" where
  "dashboardToDTO v =
     \<lparr>ddTotals = (let t = vwTotals v in
        \<lparr>dtMachinesOnline = tMachinesOnline t, dtMachinesTotal = tMachinesTotal t, dtSessionsRunning = tSessionsRunning t,
         dtSessionsExited = tSessionsExited t, dtSessionsLost = tSessionsLost t, dtSessionsDisconnected = tSessionsDisconnected t,
         dtSessionsTotal = tSessionsTotal t, dtProjectsTotal = tProjectsTotal t, dtSessionsActive = tSessionsActive t,
         dtSessionsIdle = tSessionsIdle t, dtSessionsAwaitingInput = tSessionsAwaitingInput t\<rparr>),
      ddMachines = map (\<lambda>m. \<lparr>dmID = mrID m, dmName = mrName m, dmOS = mrOS m, dmOnline = mrOnline m, dmRevoked = mrRevoked m,
        dmLastSeenAt = mrLastSeenAt m, dmRunning = mrRunning m, dmTotal = mrTotal m\<rparr>) (vwMachines v),
      ddProjects = map (\<lambda>p. \<lparr>dpID = prID p, dpName = prName p, dpMachineID = prMachineID p, dpRunning = prRunning p,
        dpExited = prExited p, dpLost = prLost p, dpDisconnected = prDisconnected p, dpTotal = prTotal p\<rparr>) (vwProjects v),
      ddAttentionItems = map (\<lambda>a. \<lparr>daKind = atKind a, daMachineID = atMachineID a, daSessionID = atSessionID a,
        daLabel = atLabel a\<rparr>) (vwAttention v),
      ddRecentAudit = map (\<lambda>e. \<lparr>deTS = aeTS e, deActor = aeActor e, deAction = aeAction e, deMachineID = aeMachineID e,
        deSessionID = aeSessionID e, deDetail = aeDetail e\<rparr>) (vwAudit v)\<rparr>"

datatype spaFile = ServeFile string | ServeIndex | NotBuilt

datatype 'f body =
    BEmpty | BError string | BMachines "'f MachineDTO list" | BSessions "SessionDTO list" | BSession SessionDTO
  | BProjects "ProjectDTO list" | BProject ProjectDTO | BDashboard DashboardDTO | BEnrolled string
  | BAuthStatus bool bool | BOk | BOptions "byte list"

datatype 'f answer = Answer int "int option" "'f body" | HandOver endpoint "string option" | Static spaFile | Redirected string | NotFoundAnswer

text \<open>A reply: the cookies it sets, and its answer (status, \<open>Retry-After\<close> and body, or who goes on).\<close>

type_synonym 'f reply = "cookie list \<times> 'f answer"

definition writeJSON :: "int \<Rightarrow> 'f body \<Rightarrow> 'f reply" where
  "writeJSON status b = ([], Answer status None b)"

definition writeError :: "int \<Rightarrow> string \<Rightarrow> 'f reply" where
  "writeError status code = writeJSON status (BError code)"

definition noContent :: "'f reply" where
  "noContent = ([], Answer 204 None BEmpty)"

definition add_cookies :: "cookie list \<Rightarrow> 'f reply \<Rightarrow> 'f reply" where
  "add_cookies cs r = (cs @ fst r, snd r)"

text \<open>\<open>errors.go\<close>.\<close>

definition statusFor :: "hubError \<Rightarrow> int" where
  "statusFor err = (case err of
     ErrMachineNotFound \<Rightarrow> 404 | ErrSessionNotFound \<Rightarrow> 404 | ErrSessionRunning \<Rightarrow> 409 | ErrProjectNotFound \<Rightarrow> 404
   | ErrProjectInvalid \<Rightarrow> 400 | ErrDuplicatePath \<Rightarrow> 409 | ErrHasSessions \<Rightarrow> 409 | ErrMachineOffline \<Rightarrow> 503
   | ErrOpenRejected code \<Rightarrow> if code = ''cwd_not_found'' then 422 else 500
   | ErrInvalidToken \<Rightarrow> 401 | ErrUnknownMachine \<Rightarrow> 404 | ErrRevoked \<Rightarrow> 403 | ErrNotRevoked \<Rightarrow> 409
   | ErrInvalidCredential \<Rightarrow> 401 | ErrNoOperator \<Rightarrow> 403 | ErrWebAuthnUnavailable \<Rightarrow> 501 | ErrChallengeNotFound \<Rightarrow> 401
   | _ \<Rightarrow> 500)"

subsection \<open>Cookies (auth.go)\<close>

definition sessionCookieName :: string where "sessionCookieName = ''constellate_session''"
definition waChallengesCookieName :: string where "waChallengesCookieName = ''constellate_wa_challenge''"

definition setSessionCookie :: "string \<Rightarrow> bool \<Rightarrow> int \<Rightarrow> cookie" where
  "setSessionCookie sessionID secure ttl = \<lparr>ckName = sessionCookieName, ckValue = sessionID, ckHttpOnly = True, ckSecure = secure, ckMaxAge = ttl\<rparr>"

definition clearSessionCookie :: cookie where
  "clearSessionCookie = \<lparr>ckName = sessionCookieName, ckValue = [], ckHttpOnly = True, ckSecure = False, ckMaxAge = -1\<rparr>"

definition setWaChallengeCookie :: "string \<Rightarrow> bool \<Rightarrow> cookie" where
  "setWaChallengeCookie key secure = \<lparr>ckName = waChallengesCookieName, ckValue = key, ckHttpOnly = True, ckSecure = secure, ckMaxAge = 300\<rparr>"

definition clearWaChallengeCookie :: cookie where
  "clearWaChallengeCookie = \<lparr>ckName = waChallengesCookieName, ckValue = [], ckHttpOnly = True, ckSecure = False, ckMaxAge = -1\<rparr>"

subsection \<open>Authentication handlers (auth.go)\<close>

type_synonym ('g, 'f) handler = "('g, 'f) hub_config \<Rightarrow> fresh \<Rightarrow> string option \<Rightarrow> request \<Rightarrow> 'g hub_world \<Rightarrow> 'f reply \<times> 'g hub_world"

definition handleAuthStatus :: "('g, 'f) handler" where
  "handleAuthStatus c fr ctx r w =
     (let hasOp = auth_HasOperator (auth_of ctx w) in
      case r_Cookie sessionCookieName r of
        None \<Rightarrow> (writeJSON 200 (BAuthStatus hasOp False), w)
      | Some sid \<Rightarrow>
          (case ValidateSession (hcTtl c) sid (auth_of ctx w) of ((ok, renewed), a) \<Rightarrow>
             (add_cookies (if ok \<and> renewed then [setSessionCookie sid (hcSecure c) (hcTtl c)] else [])
                (writeJSON 200 (BAuthStatus hasOp ok)), put_auth a w)))"

definition denied :: "int \<Rightarrow> 'f reply" where
  "denied ra = ([], Answer 429 (Some (retryAfterHeader ra)) (BError ''rate_limited''))"

definition checkLoginRateLimit :: "('g, 'f) hub_config \<Rightarrow> request \<Rightarrow> 'g hub_world \<Rightarrow> 'f reply option \<times> 'g hub_world" where
  "checkLoginRateLimit c r w =
     (case rl_allow ''operator-login'' (hwNow w) (hwGlobalLimiter w) of ((ok, ra), l) \<Rightarrow>
        (let w1 = w\<lparr>hwGlobalLimiter := l\<rparr> in
         if \<not> ok then (Some (denied ra), w1)
         else case rl_allow (clientIP (hcSplitHostPort c) (rqXFF r) (rqRemoteAddr r)) (hwNow w) (hwIPLimiter w1) of
           ((ok, ra), l) \<Rightarrow>
             (let w2 = w1\<lparr>hwIPLimiter := l\<rparr> in (if \<not> ok then Some (denied ra) else None, w2))))"

text \<open>The two logins differ in the use case they call; \<open>login_result\<close> is what both do with its answer.\<close>

definition login_result :: "('g, 'f) hub_config \<Rightarrow> string result \<times> auth_world \<Rightarrow> 'g hub_world \<Rightarrow> 'f reply \<times> 'g hub_world" where
  "login_result c ra w = (case ra of
     (Inl err, a) \<Rightarrow> (writeError (statusFor err) ''unauthorized'', put_auth a w)
   | (Inr sid, a) \<Rightarrow> (add_cookies [setSessionCookie sid (hcSecure c) (hcTtl c)] noContent, put_auth a w))"

definition handleLoginTOTP :: "('g, 'f) handler" where
  "handleLoginTOTP c fr ctx r w = (case checkLoginRateLimit c r w of
     (Some reply, w1) \<Rightarrow> (reply, w1)
   | (None, w1) \<Rightarrow> (case jdCode (hcJson c) (rqBody r) of
       None \<Rightarrow> (writeError 400 ''bad_request'', w1)
     | Some code \<Rightarrow> login_result c (LoginTOTP (hcGen c) (hcTtl c) code (frToken fr) (auth_of ctx w1)) w1))"

definition handleLoginRecovery :: "('g, 'f) handler" where
  "handleLoginRecovery c fr ctx r w = (case checkLoginRateLimit c r w of
     (Some reply, w1) \<Rightarrow> (reply, w1)
   | (None, w1) \<Rightarrow> (case jdCode (hcJson c) (rqBody r) of
       None \<Rightarrow> (writeError 400 ''bad_request'', w1)
     | Some code \<Rightarrow> login_result c (LoginRecovery (hcSha c) (hcTtl c) code (frToken fr) (auth_of ctx w1)) w1))"

definition handleLogout :: "('g, 'f) handler" where
  "handleLogout c fr ctx r w =
     (add_cookies [clearSessionCookie] noContent,
      case r_Cookie sessionCookieName r of None \<Rightarrow> w | Some sid \<Rightarrow> put_auth (Logout sid (auth_of ctx w)) w)"

definition handleWebAuthnLoginBegin :: "('g, 'f) handler" where
  "handleWebAuthnLoginBegin c fr ctx r w = (case BeginPasskeyLogin (hcWebauthn c) (frToken fr) (auth_of ctx w) of
     (Inl err, a) \<Rightarrow> (writeError (statusFor err) ''webauthn_error'', put_auth a w)
   | (Inr (options, key), a) \<Rightarrow>
       (add_cookies [setWaChallengeCookie key (hcSecure c)] (writeJSON 200 (BOptions options)), put_auth a w))"

definition handleWebAuthnLoginFinish :: "('g, 'f) handler" where
  "handleWebAuthnLoginFinish c fr ctx r w = (case r_Cookie waChallengesCookieName r of
     None \<Rightarrow> (writeError 400 ''missing_challenge'', w)
   | Some key \<Rightarrow> (case FinishPasskeyLogin (hcWebauthn c) (hcTtl c) key (rqBody r) (frToken fr) (auth_of ctx w) of
       (Inl err, a) \<Rightarrow> (writeError (statusFor err) ''webauthn_error'', put_auth a w)
     | (Inr sid, a) \<Rightarrow>
         (add_cookies [setSessionCookie sid (hcSecure c) (hcTtl c), clearWaChallengeCookie] (writeJSON 200 BOk), put_auth a w)))"

definition handleWebAuthnRegisterBegin :: "('g, 'f) handler" where
  "handleWebAuthnRegisterBegin c fr ctx r w = (case BeginPasskeyRegistration (hcWebauthn c) (frToken fr) (auth_of ctx w) of
     (Inl err, a) \<Rightarrow> (writeError (statusFor err) ''webauthn_error'', put_auth a w)
   | (Inr (options, key), a) \<Rightarrow>
       (add_cookies [setWaChallengeCookie key (hcSecure c)] (writeJSON 200 (BOptions options)), put_auth a w))"

definition handleWebAuthnRegisterFinish :: "('g, 'f) handler" where
  "handleWebAuthnRegisterFinish c fr ctx r w = (case r_Cookie waChallengesCookieName r of
     None \<Rightarrow> (writeError 400 ''missing_challenge'', w)
   | Some key \<Rightarrow> (case FinishPasskeyRegistration (hcWebauthn c) key (rqBody r) (auth_of ctx w) of
       (Inl err, a) \<Rightarrow> (writeError (statusFor err) ''webauthn_error'', put_auth a w)
     | (Inr _, a) \<Rightarrow> (add_cookies [clearWaChallengeCookie] (writeJSON 200 BOk), put_auth a w)))"

subsection \<open>Enrolment and machines (enroll.go, machines.go)\<close>

text \<open>Standard base64 with padding; line breaks are skipped.\<close>

definition std_b64_value :: "char \<Rightarrow> nat option" where
  "std_b64_value ch = index_of ch ''ABCDEFGHIJKLMNOPQRSTUVWXYZabcdefghijklmnopqrstuvwxyz0123456789+/'' 0"

fun std_b64_quanta :: "string \<Rightarrow> nat list option" where
  "std_b64_quanta [] = Some []"
| "std_b64_quanta [a, b, c, d] =
     (if d = CHR ''='' then
        if c = CHR ''='' then Option.bind (those (map std_b64_value [a, b])) b64_bytes
        else Option.bind (those (map std_b64_value [a, b, c])) b64_bytes
      else Option.bind (those (map std_b64_value [a, b, c, d])) b64_bytes)"
| "std_b64_quanta (a # b # c # d # e # rest) =
     (case those (map std_b64_value [a, b, c, d]) of None \<Rightarrow> None
      | Some vs \<Rightarrow> (case (b64_bytes vs, std_b64_quanta (e # rest)) of (Some x, Some y) \<Rightarrow> Some (x @ y) | _ \<Rightarrow> None))"
| "std_b64_quanta _ = None"

definition std_DecodeString :: "string \<Rightarrow> byte list option" where
  "std_DecodeString s = map_option (map word_of_nat) (std_b64_quanta (filter (\<lambda>x. x \<noteq> CHR 10 \<and> x \<noteq> CHR 13) s))"

definition handleEnroll :: "('g, 'f) handler" where
  "handleEnroll c fr ctx r w = (case jdEnroll (hcJson c) (rqBody r) of
     None \<Rightarrow> (writeError 400 ''invalid_body'', w)
   | Some req \<Rightarrow>
       if erToken req = [] then (writeError 400 ''missing_token'', w)
       else if erPublicKey req = [] then (writeError 400 ''missing_public_key'', w)
       else (case std_DecodeString (erPublicKey req) of
         None \<Rightarrow> (writeError 400 ''invalid_public_key'', w)
       | Some pubKeyBytes \<Rightarrow>
           (case Enroll (hcSha c) \<lparr>eiToken = erToken req, eiPublicKey = pubKeyBytes, eiName = erName req, eiOS = erOS req,
               eiArch = erArch req\<rparr> (frID fr) (enroll_of ctx w) of
              (Inl err, e) \<Rightarrow> (writeError (statusFor err) ''enroll_failed'', put_enroll e w)
            | (Inr machineID, e) \<Rightarrow> (writeJSON 201 (BEnrolled machineID), put_enroll e w))))"

definition handleListMachines :: "('g, 'f::{zero, ord}) handler" where
  "handleListMachines c fr ctx r w = (case registry_List (hcOnline c (hwGateway w)) (hcMetrics c (hwGateway w)) (enroll_of ctx w) of
     Inl err \<Rightarrow> (writeError (statusFor err) ''list_failed'', w)
   | Inr views \<Rightarrow> (writeJSON 200 (BMachines (map machineToDTO views)), w))"

definition no_content_or :: "string \<Rightarrow> unit result \<Rightarrow> 'f reply" where
  "no_content_or code res = (case res of Inl err \<Rightarrow> writeError (statusFor err) code | Inr _ \<Rightarrow> noContent)"

definition handleRevokeMachine :: "string \<Rightarrow> ('g, 'f) handler" where
  "handleRevokeMachine i c fr ctx r w = (case Revoke i (enroll_of ctx w) of (res, e) \<Rightarrow> (no_content_or ''revoke_failed'' res, put_enroll e w))"

definition handleUnrevokeMachine :: "string \<Rightarrow> ('g, 'f) handler" where
  "handleUnrevokeMachine i c fr ctx r w = (case Unrevoke i (enroll_of ctx w) of (res, e) \<Rightarrow> (no_content_or ''unrevoke_failed'' res, put_enroll e w))"

definition handleDeleteMachine :: "string \<Rightarrow> ('g, 'f) handler" where
  "handleDeleteMachine i c fr ctx r w = (case DeleteMachine i (enroll_of ctx w) of (res, e) \<Rightarrow> (no_content_or ''delete_failed'' res, put_enroll e w))"

subsection \<open>Sessions (sessions.go)\<close>

definition handleOpenSession :: "('g, 'f) handler" where
  "handleOpenSession c fr ctx r w = (case jdOpen (hcJson c) (rqBody r) of
     None \<Rightarrow> (writeError 400 ''invalid_body'', w)
   | Some req \<Rightarrow>
       if orMachineID req = [] then (writeError 400 ''missing_machine_id'', w)
       else (case uc_Open memory_port (hcGateway c) \<lparr>oiMachineID = orMachineID req, oiProjectID = orProjectID req, oiTitle = orTitle req,
           oiCwd = orCwd req, oiShell = orShell req, oiCols = orCols req, oiRows = orRows req, oiCreateDir = orCreateDir req\<rparr>
           (frID fr) (frName fr) (sessions_of ctx w) of
          (Inl err, s) \<Rightarrow>
            (writeError (statusFor err) (case err of ErrOpenRejected code \<Rightarrow> if code \<noteq> [] then code else ''open_failed'' | _ \<Rightarrow> ''open_failed''),
             put_sessions s w)
        | (Inr sess, s) \<Rightarrow> (writeJSON 201 (BSession (sessionToDTO sess)), put_sessions s w)))"

definition list_reply :: "hsession list result \<Rightarrow> 'f reply" where
  "list_reply res = (case res of Inl err \<Rightarrow> writeError (statusFor err) ''list_failed''
     | Inr ss \<Rightarrow> writeJSON 200 (BSessions (map sessionToDTO ss)))"

definition handleListSessions :: "('g, 'f) handler" where
  "handleListSessions c fr ctx r w = (list_reply (uc_List memory_port (sessions_of ctx w)), w)"

definition handleListSessionsByMachine :: "string \<Rightarrow> ('g, 'f) handler" where
  "handleListSessionsByMachine i c fr ctx r w = (list_reply (uc_ListByMachine memory_port i (sessions_of ctx w)), w)"

definition handleCloseSession :: "string \<Rightarrow> ('g, 'f) handler" where
  "handleCloseSession i c fr ctx r w =
     (if ''purge'' \<in> set (rqQuery r) then
        if ''force'' \<in> set (rqQuery r) then
          (case uc_ForceDelete memory_port (hcGateway c) i (sessions_of ctx w) of (res, s) \<Rightarrow> (no_content_or ''delete_failed'' res, put_sessions s w))
        else (case uc_Delete memory_port i (sessions_of ctx w) of (res, s) \<Rightarrow> (no_content_or ''delete_failed'' res, put_sessions s w))
      else (case uc_Close memory_port (hcGateway c) i (sessions_of ctx w) of (res, s) \<Rightarrow> (no_content_or ''close_failed'' res, put_sessions s w)))"

definition patch_relaunch :: "string \<Rightarrow> bool option \<Rightarrow> string option \<Rightarrow> 'g hub_world \<Rightarrow> 'f reply \<times> 'g hub_world" where
  "patch_relaunch i v ctx w = (case v of
     None \<Rightarrow> (noContent, w)
   | Some b \<Rightarrow> (case uc_SetAutoRelaunch memory_port i b (sessions_of ctx w) of
       (res, s) \<Rightarrow> (no_content_or ''set_auto_relaunch_failed'' res, put_sessions s w)))"

definition handlePatchSession :: "string \<Rightarrow> ('g, 'f) handler" where
  "handlePatchSession i c fr ctx r w = (case jdPatch (hcJson c) (rqBody r) of
     None \<Rightarrow> (writeError 400 ''invalid_body'', w)
   | Some req \<Rightarrow>
       if psTitle req = None \<and> psAutoRelaunch req = None then (writeError 400 ''no_fields'', w)
       else (case psTitle req of
         None \<Rightarrow> patch_relaunch i (psAutoRelaunch req) ctx w
       | Some t \<Rightarrow>
           (let title = TrimSpace t in
            if title = [] then (writeError 400 ''empty_title'', w)
            else case uc_Rename memory_port i title (sessions_of ctx w) of
              (Inl err, s) \<Rightarrow> (writeError (statusFor err) ''rename_failed'', put_sessions s w)
            | (Inr _, s) \<Rightarrow> patch_relaunch i (psAutoRelaunch req) ctx (put_sessions s w))))"

subsection \<open>Projects and the dashboard (projects.go, dashboard.go)\<close>

definition handleListProjects :: "('g, 'f) handler" where
  "handleListProjects c fr ctx r w = (case ListProjects (projects_of w) of
     Inl err \<Rightarrow> (writeError (statusFor err) ''list_failed'', w)
   | Inr ps \<Rightarrow> (writeJSON 200 (BProjects (map projectToDTO ps)), w))"

definition handleCreateProject :: "('g, 'f) handler" where
  "handleCreateProject c fr ctx r w = (case jdProject (hcJson c) (rqBody r) of
     None \<Rightarrow> (writeError 400 ''invalid_body'', w)
   | Some req \<Rightarrow>
       if cpMachineID req = [] then (writeError 400 ''missing_machine_id'', w)
       else if cpName req = [] then (writeError 400 ''missing_name'', w)
       else if cpPath req = [] then (writeError 400 ''missing_path'', w)
       else (case CreateProject \<lparr>ciMachineID = cpMachineID req, ciName = cpName req, ciPath = cpPath req, ciColor = cpColor req\<rparr>
           (frID fr) (projects_of w) of
          (Inl err, p) \<Rightarrow> (writeError (statusFor err) ''create_failed'', put_projects p w)
        | (Inr pr, p) \<Rightarrow> (writeJSON 201 (BProject (projectToDTO pr)), put_projects p w)))"

definition handleDeleteProject :: "string \<Rightarrow> ('g, 'f) handler" where
  "handleDeleteProject i c fr ctx r w = (case DeleteProject i (projects_of w) of (res, p) \<Rightarrow> (no_content_or ''delete_failed'' res, put_projects p w))"

definition handleDashboard :: "('g, 'f) handler" where
  "handleDashboard c fr ctx r w =
     (case dash_Overview (hcOnline c (hwGateway w)) (ms_List (hwMachines w)) (ss_List (hwSessions w)) (ps_List (hwProjects w))
         (Inr (case as_List recentAuditLimit (hwAudit w) of Some es \<Rightarrow> es | None \<Rightarrow> [])) of
        Inl err \<Rightarrow> (writeError (statusFor err) ''dashboard_failed'', w)
      | Inr view \<Rightarrow> (writeJSON 200 (BDashboard (dashboardToDTO view)), w))"

subsection \<open>The static front end (server.go)\<close>

definition spaHandler :: "(string \<Rightarrow> bool) \<Rightarrow> string \<Rightarrow> spaFile" where
  "spaHandler fsys path0 =
     (let path = (if path0 = ''/'' then ''index.html'' else path0);
          rel = (case path of x # xs \<Rightarrow> if x = CHR ''/'' then xs else path | [] \<Rightarrow> path)
      in if fsys rel then ServeFile path0
         else if \<not> fsys ''index.html'' then NotBuilt
         else ServeIndex)"

subsection \<open>The server (server.go, middleware.go)\<close>

fun run_endpoint :: "endpoint \<Rightarrow> string \<Rightarrow> ('g, 'f::{zero, ord}) handler" where
  "run_endpoint ListMachinesEp path c fr ctx r w = handleListMachines c fr ctx r w"
| "run_endpoint (RevokeMachineEp i) path c fr ctx r w = handleRevokeMachine i c fr ctx r w"
| "run_endpoint (UnrevokeMachineEp i) path c fr ctx r w = handleUnrevokeMachine i c fr ctx r w"
| "run_endpoint (DeleteMachineEp i) path c fr ctx r w = handleDeleteMachine i c fr ctx r w"
| "run_endpoint OpenSessionEp path c fr ctx r w = handleOpenSession c fr ctx r w"
| "run_endpoint ListSessionsEp path c fr ctx r w = handleListSessions c fr ctx r w"
| "run_endpoint (ListSessionsByMachineEp i) path c fr ctx r w = handleListSessionsByMachine i c fr ctx r w"
| "run_endpoint (CloseSessionEp i) path c fr ctx r w = handleCloseSession i c fr ctx r w"
| "run_endpoint (PatchSessionEp i) path c fr ctx r w = handlePatchSession i c fr ctx r w"
| "run_endpoint ListProjectsEp path c fr ctx r w = handleListProjects c fr ctx r w"
| "run_endpoint CreateProjectEp path c fr ctx r w = handleCreateProject c fr ctx r w"
| "run_endpoint (DeleteProjectEp i) path c fr ctx r w = handleDeleteProject i c fr ctx r w"
| "run_endpoint DashboardEp path c fr ctx r w = handleDashboard c fr ctx r w"
| "run_endpoint EnrollEp path c fr ctx r w = handleEnroll c fr ctx r w"
| "run_endpoint LoginTOTPEp path c fr ctx r w = handleLoginTOTP c fr ctx r w"
| "run_endpoint LoginRecoveryEp path c fr ctx r w = handleLoginRecovery c fr ctx r w"
| "run_endpoint LogoutEp path c fr ctx r w = handleLogout c fr ctx r w"
| "run_endpoint AuthStatusEp path c fr ctx r w = handleAuthStatus c fr ctx r w"
| "run_endpoint WebAuthnLoginBeginEp path c fr ctx r w = handleWebAuthnLoginBegin c fr ctx r w"
| "run_endpoint WebAuthnLoginFinishEp path c fr ctx r w = handleWebAuthnLoginFinish c fr ctx r w"
| "run_endpoint WebAuthnRegisterBeginEp path c fr ctx r w = handleWebAuthnRegisterBegin c fr ctx r w"
| "run_endpoint WebAuthnRegisterFinishEp path c fr ctx r w = handleWebAuthnRegisterFinish c fr ctx r w"
| "run_endpoint AgentWS path c fr ctx r w = (([], HandOver AgentWS ctx), w)"
| "run_endpoint TermWS path c fr ctx r w = (([], HandOver TermWS ctx), w)"
| "run_endpoint OverviewWS path c fr ctx r w = (([], HandOver OverviewWS ctx), w)"
| "run_endpoint SpaEp path c fr ctx r w = (([], Static (spaHandler (hcAsset c) path)), w)"

definition serve_mux :: "string \<Rightarrow> ('g, 'f::{zero, ord}) handler" where
  "serve_mux path c fr ctx r w = (case mux_find (rqMethod r) (rqEscapedPath r) of
     MuxRedirect p \<Rightarrow> (([], Redirected p), w)
   | MuxNotFound \<Rightarrow> (([], NotFoundAnswer), w)
   | MuxTo e \<Rightarrow> run_endpoint e path c fr ctx r w)"

definition authMiddleware :: "string \<Rightarrow> ('g, 'f::{zero, ord}) hub_config \<Rightarrow> fresh \<Rightarrow> request \<Rightarrow> 'g hub_world \<Rightarrow> 'f reply \<times> 'g hub_world" where
  "authMiddleware path c fr r w =
     (if \<not> hcAuth c then serve_mux path c fr None r w
      else if \<not> needsAuth path then serve_mux path c fr None r w
      else if path \<in> set unauthenticatedPaths then serve_mux path c fr None r w
      else case r_Cookie sessionCookieName r of
        None \<Rightarrow> (writeError 401 ''unauthorized'', w)
      | Some sid \<Rightarrow>
          (case ValidateSession (hcTtl c) sid (auth_of None w) of ((ok, renewed), a) \<Rightarrow>
             (let w1 = put_auth a w in
              if \<not> ok then (writeError 401 ''unauthorized'', w1)
              else case serve_mux path c fr (Some ''operator'') r w1 of
                (reply, w2) \<Rightarrow> (add_cookies (if renewed then [setSessionCookie sid (hcSecure c) (hcTtl c)] else []) reply, w2))))"

text \<open>The whole server. A request line whose path does not decode is rejected before any handler runs.\<close>

definition serve :: "('g, 'f::{zero, ord}) hub_config \<Rightarrow> fresh \<Rightarrow> request \<Rightarrow> 'g hub_world \<Rightarrow> 'f reply \<times> 'g hub_world" where
  "serve c fr r w = (case unescape (rqEscapedPath r) of
     None \<Rightarrow> (([], Answer 400 None BEmpty), w)
   | Some path \<Rightarrow> authMiddleware path c fr r w)"

end
