(* ===== verification/Http_Security.thy ===== *)
theory Http_Security
  imports Http_Api
begin

text \<open>
  What the HTTP API promises as a whole, over every sequence of requests: what a client without an
  operator session can reach and change, how long a login lasts, how many credentials can be tried,
  and that what an operator does is on record.
\<close>

subsection \<open>Sequences of requests\<close>

text \<open>Each request with its instant and what the generators give during it.\<close>

type_synonym hub_event = "int \<times> fresh \<times> request"

fun hub_step :: "('g, 'f::{zero, ord}) hub_config \<Rightarrow> hub_event \<Rightarrow> 'g hub_world \<Rightarrow> 'f reply \<times> 'g hub_world" where
  "hub_step c (t, fr, r) w = serve c fr r (w\<lparr>hwNow := t\<rparr>)"

fun hub_run :: "('g, 'f::{zero, ord}) hub_config \<Rightarrow> hub_event list \<Rightarrow> 'g hub_world \<Rightarrow> 'g hub_world" where
  "hub_run c [] w = w"
| "hub_run c (ev # evs) w = hub_run c evs (snd (hub_step c ev w))"

definition dispatched :: "request \<Rightarrow> endpoint option" where
  "dispatched r = (case unescape (rqEscapedPath r) of None \<Rightarrow> None
     | Some p \<Rightarrow> (case mux_find (rqMethod r) (rqEscapedPath r) of MuxTo e \<Rightarrow> Some e | _ \<Rightarrow> None))"

text \<open>A request is live when it carries the cookie of an operator session that has not ended.\<close>

definition live_request :: "request \<Rightarrow> 'g hub_world \<Rightarrow> bool" where
  "live_request r w \<longleftrightarrow> (case r_Cookie sessionCookieName r of None \<Rightarrow> False | Some sid \<Rightarrow> \<not> dead_session sid (auth_of None w))"

lemmas put_defs = put_auth_def put_enroll_def put_sessions_def put_projects_def
lemmas of_defs = auth_of_def enroll_of_def sessions_of_def projects_of_def
lemmas reply_defs = writeError_def writeJSON_def noContent_def add_cookies_def no_content_or_def

lemma put_auth_of [simp]: "put_auth (auth_of ctx w) w = w"
  by (simp add: put_auth_def auth_of_def)

subsection \<open>The gate\<close>

text \<open>What the middleware and the router make of a request to a routed endpoint.\<close>

lemma serve_open:
  assumes "dispatched r = Some e" "open_endpoint e" "e \<noteq> SpaEp"
  shows "\<exists>path. serve c fr r w = run_endpoint e path c fr None r w"
proof -
  obtain path where p: "unescape (rqEscapedPath r) = Some path" "mux_find (rqMethod r) (rqEscapedPath r) = MuxTo e"
    using assms(1) by (auto simp: dispatched_def split: option.splits muxResult.splits)
  then have "\<not> gated path" using router_gate [OF p] assms(2,3) by blast
  then show ?thesis using p by (auto simp: serve_def authMiddleware_def serve_mux_def gated_def)
qed

lemma serve_protected:
  assumes "dispatched r = Some e" "\<not> open_endpoint e" "hcAuth c"
  shows "\<exists>path. serve c fr r w = (case r_Cookie sessionCookieName r of
      None \<Rightarrow> (writeError 401 ''unauthorized'', w)
    | Some sid \<Rightarrow> (case ValidateSession (hcTtl c) sid (auth_of None w) of ((ok, renewed), a) \<Rightarrow>
        if \<not> ok then (writeError 401 ''unauthorized'', put_auth a w)
        else case run_endpoint e path c fr (Some ''operator'') r (put_auth a w) of (reply, w2) \<Rightarrow>
          (add_cookies (if renewed then [setSessionCookie sid (hcSecure c) (hcTtl c)] else []) reply, w2)))"
proof -
  obtain path where p: "unescape (rqEscapedPath r) = Some path" "mux_find (rqMethod r) (rqEscapedPath r) = MuxTo e"
    using assms(1) by (auto simp: dispatched_def split: option.splits muxResult.splits)
  then have "gated path" using router_gate [OF p] assms(2) by blast
  moreover have "serve_mux path c fr ctx r w' = run_endpoint e path c fr ctx r w'" for ctx w'
    using p by (simp add: serve_mux_def)
  ultimately show ?thesis using p assms(3)
    by (intro exI [of _ path]) (auto simp: serve_def authMiddleware_def gated_def Let_def split: option.split prod.split)
qed

lemma ValidateSession_dead: "dead_session sid a \<Longrightarrow> ValidateSession ttl sid a = ((False, False), a)"
  by (auto simp: ValidateSession_def os_Validate_def dead_session_def Let_def split: option.splits)

lemma serve_refused:
  assumes "dispatched r = Some e" "\<not> open_endpoint e" "hcAuth c" "\<not> live_request r w"
  shows "serve c fr r w = (writeError 401 ''unauthorized'', w)"
  using serve_protected [OF assms(1-3), of fr w] assms(4)
  by (auto simp: live_request_def ValidateSession_dead split: option.splits)

subsection \<open>What an open endpoint can change\<close>

text \<open>
  The part of the state an operator owns: sessions, projects, the agents' connections, the second
  factor and the registered passkeys.
\<close>

definition operated :: "'g hub_world \<Rightarrow> sessionStore \<times> projectStore \<times> 'g \<times> string \<times> bool \<times> byte list list" where
  "operated w = (hwSessions w, hwProjects w, hwGateway w, opTotpSecret (hwOps w), opHasTOTP (hwOps w), op_WebAuthnCredentials (hwOps w))"

definition revoked_at_hub :: "string \<Rightarrow> 'g hub_world \<Rightarrow> bool" where
  "revoked_at_hub i w \<longleftrightarrow> (case m_get (hwMachines w) i of Some m \<Rightarrow> Revoked m | None \<Rightarrow> False)"

lemma login_keeps:
  "LoginTOTP gen ttl code tok (auth_of ctx w) = (r1, a1) \<Longrightarrow> operated (put_auth a1 w) = operated w \<and> hwMachines (put_auth a1 w) = hwMachines w"
  "LoginRecovery sha ttl code tok (auth_of ctx w) = (r2, a2) \<Longrightarrow> operated (put_auth a2 w) = operated w \<and> hwMachines (put_auth a2 w) = hwMachines w"
  "FinishPasskeyLogin wa ttl key body tok (auth_of ctx w) = (r3, a3) \<Longrightarrow> operated (put_auth a3 w) = operated w \<and> hwMachines (put_auth a3 w) = hwMachines w"
  "BeginPasskeyLogin wa key (auth_of ctx w) = (r4, a4) \<Longrightarrow> operated (put_auth a4 w) = operated w \<and> hwMachines (put_auth a4 w) = hwMachines w"
  "ValidateSession ttl sid (auth_of ctx w) = (r5, a5) \<Longrightarrow> operated (put_auth a5 w) = operated w \<and> hwMachines (put_auth a5 w) = hwMachines w"
  by (auto simp: auth_defs op_defs auth_of_def put_auth_def operated_def Let_def
      split: sum.splits option.splits prod.splits if_splits)

lemma enroll_keeps:
  assumes "Enroll sha inp i (enroll_of ctx w) = (res, e)"
  shows "operated (put_enroll e w) = operated w \<and> (revoked_at_hub k w \<longrightarrow> revoked_at_hub k (put_enroll e w))"
  using assms
  by (auto simp: Enroll_def enroll_of_def put_enroll_def operated_def revoked_at_hub_def ew_record_def ms_Upsert_def Let_def
      RehydrateFull_def Revoked_def NewMachine_def split: sum.splits option.splits if_splits)

lemma limiter_keeps:
  "checkLoginRateLimit c r w = (res, w') \<Longrightarrow> \<exists>g l. w' = w\<lparr>hwGlobalLimiter := g, hwIPLimiter := l\<rparr>"
  by (auto simp: checkLoginRateLimit_def Let_def split: prod.splits if_splits) (metis (no_types) hub_world.surjective hub_world.update_convs(11))+

lemma open_endpoint_keeps:
  assumes "open_endpoint e" "run_endpoint e path c fr ctx r w = (reply, w')"
  shows "operated w' = operated w \<and> (revoked_at_hub k w \<longrightarrow> revoked_at_hub k w')"
proof -
  have lim: "operated w1 = operated w \<and> hwMachines w1 = hwMachines w" if "checkLoginRateLimit c r w = (res, w1)" for res w1
    using limiter_keeps [OF that] by (auto simp: operated_def)
  have "operated w' = operated w \<and> hwMachines w' = hwMachines w" if "e \<noteq> EnrollEp"
    using assms that
    by (cases e)
       (auto simp: handleAuthStatus_def handleLoginTOTP_def handleLoginRecovery_def handleLogout_def handleWebAuthnLoginBegin_def
          handleWebAuthnLoginFinish_def login_result_def Let_def
          split: option.splits prod.splits sum.splits dest!: login_keeps lim,
        auto simp: Logout_def operated_def put_auth_def auth_of_def split: option.splits)
  moreover have ?thesis if "e = EnrollEp"
    using assms that
    by (auto simp: handleEnroll_def split: option.splits prod.splits sum.splits if_splits dest!: enroll_keeps [of _ _ _ _ _ _ _ k])
  ultimately show ?thesis by (cases "e = EnrollEp") (auto simp: revoked_at_hub_def)
qed

text \<open>A request without a live session, whatever it asks for.\<close>

lemma serve_anonymous:
  assumes "hcAuth c" "\<not> live_request r w" "serve c fr r w = (reply, w')"
  shows "operated w' = operated w \<and> (revoked_at_hub k w \<longrightarrow> revoked_at_hub k w')"
proof (cases "\<exists>e. dispatched r = Some e \<and> e \<noteq> SpaEp")
  case True
  then obtain e where e: "dispatched r = Some e" "e \<noteq> SpaEp" by blast
  show ?thesis
  proof (cases "open_endpoint e")
    case True
    with serve_open [OF e(1) True e(2)] assms(3) obtain path where "run_endpoint e path c fr None r w = (reply, w')" by metis
    then show ?thesis by (rule open_endpoint_keeps [OF True])
  next
    case False
    then show ?thesis using serve_refused [OF e(1) False assms(1,2)] assms(3) by simp
  qed
next
  case False
  then have "snd (serve_mux path c fr ctx r w) = w" if "unescape (rqEscapedPath r) = Some path" for path ctx
    using that by (auto simp: serve_mux_def dispatched_def split: muxResult.splits)
  then have "snd (serve c fr r w) = w"
    using assms(1,2) by (auto simp: serve_def authMiddleware_def live_request_def ValidateSession_dead Let_def
        split: option.splits prod.splits)
  then show ?thesis using assms(3) by simp
qed

fun anonymous_run :: "('g, 'f::{zero, ord}) hub_config \<Rightarrow> hub_event list \<Rightarrow> 'g hub_world \<Rightarrow> bool" where
  "anonymous_run c [] w \<longleftrightarrow> True"
| "anonymous_run c ((t, fr, r) # evs) w \<longleftrightarrow>
     \<not> live_request r (w\<lparr>hwNow := t\<rparr>) \<and> anonymous_run c evs (snd (serve c fr r (w\<lparr>hwNow := t\<rparr>)))"

lemma at_time [simp]: "operated (w\<lparr>hwNow := t\<rparr>) = operated w" "revoked_at_hub k (w\<lparr>hwNow := t\<rparr>) = revoked_at_hub k w"
  by (simp_all add: operated_def revoked_at_hub_def)


subsection \<open>A hub to look at\<close>

definition plainJson :: json_decoder where
  "plainJson = \<lparr>jdEnroll = (\<lambda>_. None), jdOpen = (\<lambda>_. None), jdProject = (\<lambda>_. None), jdPatch = (\<lambda>_. None),
     jdCode = (\<lambda>bs. Some (map (\<lambda>b. char_of (unat b)) bs))\<rparr>"

definition demoHubConfig :: "(unit, int) hub_config" where
  "demoHubConfig = \<lparr>hcAuth = True, hcGen = (\<lambda>secret s. Some (replicate (nat s) CHR ''x'')), hcSha = (\<lambda>x. x), hcWebauthn = None,
     hcTtl = 3600, hcSecure = True, hcGateway = refusingGateway, hcOnline = (\<lambda>_ _. False), hcMetrics = (\<lambda>_ _. None),
     hcJson = plainJson, hcSplitHostPort = (\<lambda>_. None), hcAsset = (\<lambda>_. False)\<rparr>"

definition demoHubWorld :: "unit hub_world" where
  "demoHubWorld = \<lparr>hwOps = NewOperatorStore\<lparr>opTotpSecret := ''k'', opHasTOTP := True\<rparr>, hwOpSessions = [], hwChallenges = [],
     hwAudit = [], hwTokens = [], hwCreds = [],
     hwMachines = [(''m1'', machine_MarkRevoked 5 (NewMachine ''m1'' [] ''box'' [] [] [] 1)), (''m2'', NewMachine ''m2'' [] ''pad'' [] [] [] 1)],
     hwSessions = [(''s1'', (NewHubSession ''s1'' ''m2'' [] [] [] [] 1)\<lparr>sStatus := SLost\<rparr>)], hwProjects = [], hwGateway = (),
     hwIPLimiter = newRateLimiter loginIPMax loginWindow, hwGlobalLimiter = newRateLimiter loginGlobalMax loginWindow,
     hwNow = 60 * second\<rparr>"

definition aRequest :: "string \<Rightarrow> string \<Rightarrow> (string \<times> string) list \<Rightarrow> byte list \<Rightarrow> request" where
  "aRequest method path cookies b = \<lparr>rqMethod = method, rqEscapedPath = path, rqQuery = [''purge''], rqCookies = cookies, rqXFF = [],
     rqRemoteAddr = ''10.0.0.1'', rqBody = b\<rparr>"

definition aFresh :: "string \<Rightarrow> fresh" where
  "aFresh tok = \<lparr>frID = tok, frToken = tok, frName = []\<rparr>"


subsection \<open>Credentials cannot be tried out\<close>

definition login_request :: "request \<Rightarrow> bool" where
  "login_request r \<longleftrightarrow> dispatched r = Some LoginTOTPEp \<or> dispatched r = Some LoginRecoveryEp"

text \<open>How many requests get past the limiter, to the handlers that look at the code.\<close>

fun tries :: "('g, 'f::{zero, ord}) hub_config \<Rightarrow> hub_event list \<Rightarrow> 'g hub_world \<Rightarrow> nat" where
  "tries c [] w = 0"
| "tries c ((t, fr, r) # evs) w =
     (if login_request r \<and> fst (checkLoginRateLimit c r (w\<lparr>hwNow := t\<rparr>) :: 'f reply option \<times> 'g hub_world) = None then 1 else 0) +
     tries c evs (snd (serve c fr r (w\<lparr>hwNow := t\<rparr>)))"

lemmas handler_defs = handleListMachines_def handleRevokeMachine_def handleUnrevokeMachine_def handleDeleteMachine_def
  handleOpenSession_def handleListSessions_def handleListSessionsByMachine_def handleCloseSession_def handlePatchSession_def
  patch_relaunch_def handleListProjects_def handleCreateProject_def handleDeleteProject_def handleDashboard_def handleEnroll_def
  handleLogout_def handleAuthStatus_def handleWebAuthnLoginBegin_def handleWebAuthnLoginFinish_def
  handleWebAuthnRegisterBegin_def handleWebAuthnRegisterFinish_def

lemma put_limiter [simp]:
  "hwGlobalLimiter (put_auth a w) = hwGlobalLimiter w" "hwGlobalLimiter (put_enroll e w) = hwGlobalLimiter w"
  "hwGlobalLimiter (put_sessions s w) = hwGlobalLimiter w" "hwGlobalLimiter (put_projects p w) = hwGlobalLimiter w"
  "hwNow (put_auth a w) = hwNow w"
  by (simp_all add: put_defs)

lemma run_limiter:
  assumes "run_endpoint e path c fr ctx r w = (reply, w')" "e \<noteq> LoginTOTPEp" "e \<noteq> LoginRecoveryEp"
  shows "hwGlobalLimiter w' = hwGlobalLimiter w"
  using assms by (cases e) (auto simp: handler_defs Let_def split: option.splits sum.splits prod.splits if_splits)


lemma check_global:
  assumes "checkLoginRateLimit c r w = (res, w')"
  shows "hwGlobalLimiter w' = snd (rl_allow ''operator-login'' (hwNow w) (hwGlobalLimiter w))"
    and "res = None \<Longrightarrow> fst (fst (rl_allow ''operator-login'' (hwNow w) (hwGlobalLimiter w)))"
  using assms by (auto simp: checkLoginRateLimit_def Let_def split: prod.splits if_splits)

lemma login_result_limiter: "login_result c ra w = (reply, w') \<Longrightarrow> hwGlobalLimiter w' = hwGlobalLimiter w"
  by (auto simp: login_result_def split: prod.splits sum.splits)

lemma serve_limiter:
  assumes "serve c fr r w = (reply, w')"
  shows "hwGlobalLimiter w' = (if login_request r then snd (rl_allow ''operator-login'' (hwNow w) (hwGlobalLimiter w)) else hwGlobalLimiter w)"
proof (cases "login_request r")
  case True
  then obtain e where e: "dispatched r = Some e" "e = LoginTOTPEp \<or> e = LoginRecoveryEp" by (auto simp: login_request_def)
  with serve_open [OF e(1), of c fr w] assms obtain path where "run_endpoint e path c fr None r w = (reply, w')" by force
  then show ?thesis using e(2) True
    by (auto simp: handleLoginTOTP_def handleLoginRecovery_def split: prod.splits option.splits
        dest!: login_result_limiter check_global(1))
next
  case False
  have mux: "hwGlobalLimiter w2 = hwGlobalLimiter w1"
    if "unescape (rqEscapedPath r) = Some path" "serve_mux path c fr ctx r w1 = (rep, w2)" for path ctx w1 rep w2
    using that False
    by (auto simp: serve_mux_def dispatched_def login_request_def split: muxResult.splits dest!: run_limiter)
  show ?thesis using assms False
    by (auto simp: serve_def authMiddleware_def Let_def split: option.splits prod.splits if_splits dest!: mux)
qed

fun login_calls :: "hub_event list \<Rightarrow> (string \<times> int) list" where
  "login_calls [] = []"
| "login_calls ((t, fr, r) # evs) = (if login_request r then [(''operator-login'', t)] else []) @ login_calls evs"

lemma tries_accepted: "tries c evs w \<le> rl_accepted ''operator-login'' (login_calls evs) (hwGlobalLimiter w)"
proof (induction c evs w rule: tries.induct)
  case (2 c t fr r evs w)
  let ?w = "w\<lparr>hwNow := t\<rparr>"
  obtain reply w' where s: "serve c fr r ?w = (reply, w')" by (rule prod.exhaust)
  obtain res w1 where k: "(checkLoginRateLimit c r ?w :: 'b reply option \<times> 'a hub_world) = (res, w1)" by (rule prod.exhaust)
  have IH: "tries c evs w' \<le> rl_accepted ''operator-login'' (login_calls evs) (hwGlobalLimiter w')" using "2.IH" s by simp
  show ?case
  proof (cases "login_request r")
    case True
    obtain ok ra l where a: "rl_allow ''operator-login'' t (hwGlobalLimiter w) = ((ok, ra), l)" by (metis prod.exhaust)
    have "hwGlobalLimiter w' = l" using serve_limiter [OF s] True a by simp
    moreover have "res = None \<longrightarrow> ok" using check_global(2) [OF k] a by auto
    ultimately show ?thesis using IH True s k a by auto
  next
    case False
    then show ?thesis using IH serve_limiter [OF s] s by simp
  qed
qed simp

lemma run_calls: "hwGlobalLimiter (hub_run c evs w) = rl_after (login_calls evs) (hwGlobalLimiter w)"
proof (induction evs arbitrary: w)
  case (Cons ev evs)
  obtain t fr r where ev: "ev = (t, fr, r)" by (cases ev)
  obtain reply w' where s: "serve c fr r (w\<lparr>hwNow := t\<rparr>) = (reply, w')" by (rule prod.exhaust)
  show ?case using Cons.IH [of w'] serve_limiter [OF s] ev s by simp
qed simp

lemma login_calls_sorted: "sorted (map fst evs) \<Longrightarrow> sorted (map snd (login_calls evs))"
  "(k, t) \<in> set (login_calls evs) \<Longrightarrow> t \<in> fst ` set evs"
proof -
  have mem: "(k, t) \<in> set (login_calls evs) \<Longrightarrow> t \<in> fst ` set evs" for k t evs
    by (induction evs rule: login_calls.induct) (auto split: if_splits)
  then show "(k, t) \<in> set (login_calls evs) \<Longrightarrow> t \<in> fst ` set evs" .
  show "sorted (map fst evs) \<Longrightarrow> sorted (map snd (login_calls evs))"
  proof (induction evs rule: login_calls.induct)
    case (2 t fr r evs)
    then have "\<forall>(k, u) \<in> set (login_calls evs). t \<le> u" using mem by fastforce
    then show ?case using 2 by (auto simp: sorted_append)
  qed simp
qed

lemma login_calls_append: "login_calls (xs @ ys) = login_calls xs @ login_calls ys"
  by (induction xs rule: login_calls.induct) simp_all



subsection \<open>A login lasts\<close>

definition alive :: "string \<Rightarrow> int \<Rightarrow> operatorSessionStore \<Rightarrow> bool" where
  "alive sid E ss \<longleftrightarrow> (\<exists>s. m_get ss sid = Some s \<and> E \<le> osExpiresAt s)"

lemma alive_login:
  assumes "alive sid E (awSessions a)" "E \<le> awNow a + ttl"
  shows "LoginTOTP gen ttl code tok a = (r1, a1) \<Longrightarrow> alive sid E (awSessions a1)"
    and "LoginRecovery sha ttl code tok a = (r2, a2) \<Longrightarrow> alive sid E (awSessions a2)"
    and "FinishPasskeyLogin wa ttl key body tok a = (r3, a3) \<Longrightarrow> alive sid E (awSessions a3)"
  using assms by (auto simp: auth_defs os_defs op_defs alive_def Let_def split: sum.splits option.splits prod.splits if_splits)

lemma alive_other:
  assumes "alive sid E (awSessions a)"
  shows "BeginPasskeyLogin wa key a = (r4, a4) \<Longrightarrow> alive sid E (awSessions a4)"
    and "BeginPasskeyRegistration wa key a = (r5, a5) \<Longrightarrow> alive sid E (awSessions a5)"
    and "FinishPasskeyRegistration wa key body a = (r6, a6) \<Longrightarrow> alive sid E (awSessions a6)"
    and "sid' \<noteq> sid \<Longrightarrow> alive sid E (awSessions (Logout sid' a))"
  using assms by (auto simp: auth_defs os_defs op_defs alive_def Let_def split: sum.splits option.splits prod.splits if_splits)

lemma alive_validate:
  assumes "alive sid E (awSessions a)" "ValidateSession ttl sid' a = (r, a')"
  shows "alive sid E (awSessions a')"
  using assms by (auto simp: ValidateSession_def os_defs alive_def Let_def sessionRenewSkew_def split: option.splits prod.splits if_splits)

lemma put_alive [simp]:
  "hwOpSessions (put_auth a w) = awSessions a" "hwOpSessions (put_enroll e w) = hwOpSessions w"
  "hwOpSessions (put_sessions s w) = hwOpSessions w" "hwOpSessions (put_projects p w) = hwOpSessions w"
  "awSessions (auth_of ctx w) = hwOpSessions w" "awNow (auth_of ctx w) = hw_unix w" "hw_unix (put_auth a w) = hw_unix w"
  by (simp_all add: put_defs of_defs hw_unix_def)

lemma check_keeps_sessions: "checkLoginRateLimit c r w = (res, w') \<Longrightarrow> hwOpSessions w' = hwOpSessions w \<and> hw_unix w' = hw_unix w"
  using limiter_keeps [of c r w res w'] by (auto simp: hw_unix_def)

lemma login_result_sessions: "login_result c ra w = (reply, w') \<Longrightarrow> hwOpSessions w' = awSessions (snd ra)"
  by (auto simp: login_result_def split: prod.splits sum.splits)

text \<open>Logging out of the session is a request to the logout endpoint that carries its cookie.\<close>

definition logs_out :: "string \<Rightarrow> request \<Rightarrow> bool" where
  "logs_out sid r \<longleftrightarrow> dispatched r = Some LogoutEp \<and> r_Cookie sessionCookieName r = Some sid"

lemma login_result_alive:
  assumes "alive sid E (hwOpSessions w)" "E \<le> hw_unix w + hcTtl c"
  shows "login_result c (LoginTOTP gen (hcTtl c) code tok (auth_of ctx w)) w = (reply, w') \<Longrightarrow> alive sid E (hwOpSessions w')"
    and "login_result c (LoginRecovery sha (hcTtl c) code tok (auth_of ctx w)) w = (reply, w') \<Longrightarrow> alive sid E (hwOpSessions w')"
  using alive_login(1,2) [of sid E "auth_of ctx w" "hcTtl c"] assms
  by (metis login_result_sessions put_alive(5,6) prod.collapse)+

lemma run_alive:
  assumes "run_endpoint e path c fr ctx r w = (reply, w')" "alive sid E (hwOpSessions w)" "E \<le> hw_unix w + hcTtl c"
    and "\<not> (e = LogoutEp \<and> r_Cookie sessionCookieName r = Some sid)"
  shows "alive sid E (hwOpSessions w')"
proof -
  have check: "alive sid E (hwOpSessions w1) \<and> E \<le> hw_unix w1 + hcTtl c" if "checkLoginRateLimit c r w = (res, w1)" for res w1
    using check_keeps_sessions [OF that] assms(2,3) by simp
  note auth = alive_other(1-3) [of sid E "auth_of ctx w", simplified, OF assms(2)] alive_validate [of sid E "auth_of ctx w", simplified, OF assms(2)]
    alive_login(3) [of sid E "auth_of ctx w", simplified, OF assms(2,3)]
  show ?thesis
  proof (cases e)
    case LoginTOTPEp
    then show ?thesis using assms(1,2)
      by (auto simp: handleLoginTOTP_def split: option.splits prod.splits dest!: check intro: login_result_alive)
  next
    case LoginRecoveryEp
    then show ?thesis using assms(1,2)
      by (auto simp: handleLoginRecovery_def split: option.splits prod.splits dest!: check intro: login_result_alive)
  next
    case LogoutEp
    then show ?thesis using assms(1,2,4) alive_other(4) [of sid E "auth_of ctx w"] by (auto simp: handleLogout_def split: option.splits)
  qed (use assms(1,2) in \<open>auto simp: handler_defs Let_def split: option.splits sum.splits prod.splits if_splits dest!: auth\<close>)
qed

lemma serve_alive:
  assumes "serve c fr r w = (reply, w')" "alive sid E (hwOpSessions w)" "E \<le> hw_unix w + hcTtl c" "\<not> logs_out sid r"
  shows "alive sid E (hwOpSessions w')"
proof -
  have mux: "alive sid E (hwOpSessions w2)"
    if "unescape (rqEscapedPath r) = Some path" "serve_mux path c fr ctx r w1 = (rep, w2)"
      "alive sid E (hwOpSessions w1)" "E \<le> hw_unix w1 + hcTtl c" for path ctx w1 rep w2
    using that assms(4)
    by (auto simp: serve_mux_def dispatched_def logs_out_def split: muxResult.splits intro: run_alive)
  have val: "alive sid E (awSessions a)" if "ValidateSession (hcTtl c) sid' (auth_of None w) = (v, a)" for sid' v a
    using alive_validate [OF _ that] assms(2) by simp
  have auth: "alive sid E (hwOpSessions w')" if "unescape (rqEscapedPath r) = Some path" "authMiddleware path c fr r w = (reply, w')" for path
  proof -
    have "alive sid E (hwOpSessions w') \<or> (\<exists>sid' v a rep. ValidateSession (hcTtl c) sid' (auth_of None w) = (v, a) \<and>
        (w' = put_auth a w \<or> serve_mux path c fr (Some ''operator'') r (put_auth a w) = (rep, w')))"
      using that(2) mux [OF that(1) _ assms(2,3), of None reply w'] assms(2)
      by (auto simp: authMiddleware_def Let_def split: option.splits prod.splits if_splits)
    then show ?thesis
    proof (elim disjE exE conjE)
      fix sid' v a assume v: "ValidateSession (hcTtl c) sid' (auth_of None w) = (v, a)" and w': "w' = put_auth a w"
      show ?thesis using val [OF v] w' by simp
    next
      fix sid' v a rep assume v: "ValidateSession (hcTtl c) sid' (auth_of None w) = (v, a)"
        and m: "serve_mux path c fr (Some ''operator'') r (put_auth a w) = (rep, w')"
      show ?thesis by (rule mux [OF that(1) m]) (simp_all add: val [OF v] assms(3))
    qed
  qed
  then show ?thesis using assms(1,2) by (auto simp: serve_def split: option.splits)
qed

lemma run_keeps_alive:
  assumes "alive sid E (hwOpSessions w)" "\<forall>(t, fr, r) \<in> set evs. E \<le> t div second + hcTtl c \<and> \<not> logs_out sid r"
  shows "alive sid E (hwOpSessions (hub_run c evs w))"
  using assms
proof (induction evs arbitrary: w)
  case (Cons ev evs)
  obtain t fr r where ev: "ev = (t, fr, r)" by (cases ev)
  obtain reply w' where s: "serve c fr r (w\<lparr>hwNow := t\<rparr>) = (reply, w')" by (rule prod.exhaust)
  have "alive sid E (hwOpSessions w')" using serve_alive [OF s] Cons.prems ev by (simp add: hw_unix_def)
  then show ?case using Cons.IH Cons.prems ev s by simp
qed simp

lemma login_issues:
  fixes c :: "('a, 'b::{zero, ord}) hub_config"
  assumes "login_request r" "serve c fr r w = ((cookies, Answer 204 ra b), w')"
  shows "cookies = [setSessionCookie (frToken fr) (hcSecure c) (hcTtl c)] \<and> alive (frToken fr) (hw_unix w + hcTtl c) (hwOpSessions w')"
proof -
  from assms(1) obtain e where e: "dispatched r = Some e" "e = LoginTOTPEp \<or> e = LoginRecoveryEp" by (auto simp: login_request_def)
  with serve_open [OF e(1), of c fr w] assms(2) obtain path where
    run: "run_endpoint e path c fr None r w = ((cookies, Answer 204 ra b), w')" by force
  have no: "statusFor err \<noteq> 204" for err by (cases err) (simp_all add: statusFor_def)
  have refused: "rep \<noteq> (cookies, Answer 204 ra b)" if "checkLoginRateLimit c r w = (Some rep, w1)" for rep w1
    using that by (auto simp: checkLoginRateLimit_def denied_def Let_def split: prod.splits if_splits)
  have created: "cookies = [setSessionCookie (frToken fr) (hcSecure c) (hcTtl c)] \<and> alive (frToken fr) (hw_unix w1 + hcTtl c) (hwOpSessions w')"
    if "login_result c res w1 = ((cookies, Answer 204 ra b), w')"
      "\<And>a sid. res = (Inr sid, a) \<Longrightarrow> sid = frToken fr \<and> alive sid (hw_unix w1 + hcTtl c) (awSessions a)" for res w1
    using that no by (auto simp: login_result_def reply_defs split: prod.splits sum.splits)
  have totp: "sid = frToken fr \<and> alive sid (hw_unix w1 + hcTtl c) (awSessions a)"
    if "LoginTOTP (hcGen c) (hcTtl c) code (frToken fr) (auth_of None w1) = (Inr sid, a)" for w1 a sid code
    using that by (auto simp: auth_defs os_defs alive_def auth_of_def split: sum.splits)
  have rec: "sid = frToken fr \<and> alive sid (hw_unix w1 + hcTtl c) (awSessions a)"
    if "LoginRecovery (hcSha c) (hcTtl c) code (frToken fr) (auth_of None w1) = (Inr sid, a)" for w1 a sid code
    using that by (auto simp: auth_defs os_defs alive_def auth_of_def split: prod.splits if_splits)
  obtain res w1 where check: "(checkLoginRateLimit c r w :: 'b reply option \<times> 'a hub_world) = (res, w1)" by (rule prod.exhaust)
  show ?thesis
  proof (cases "res = None \<and> jdCode (hcJson c) (rqBody r) \<noteq> None")
    case True
    then obtain code where code: "jdCode (hcJson c) (rqBody r) = Some code" by auto
    have unix: "hw_unix w1 = hw_unix w" using check_keeps_sessions [OF check] by simp
    show ?thesis
    proof (cases "e = LoginTOTPEp")
      case True
      then have "login_result c (LoginTOTP (hcGen c) (hcTtl c) code (frToken fr) (auth_of None w1)) w1 = ((cookies, Answer 204 ra b), w')"
        using run check code \<open>res = None \<and> _\<close> by (simp add: handleLoginTOTP_def)
      from created [OF this totp] unix show ?thesis by simp
    next
      case False
      then have "login_result c (LoginRecovery (hcSha c) (hcTtl c) code (frToken fr) (auth_of None w1)) w1 = ((cookies, Answer 204 ra b), w')"
        using run check code e(2) \<open>res = None \<and> _\<close> by (simp add: handleLoginRecovery_def)
      from created [OF this rec] unix show ?thesis by simp
    qed
  next
    case False
    then show ?thesis using run e(2) check refused
      by (auto simp: handleLoginTOTP_def handleLoginRecovery_def reply_defs split: option.splits)
  qed
qed

lemma serve_live:
  assumes "dispatched r = Some e" "\<not> open_endpoint e" "hcAuth c" "r_Cookie sessionCookieName r = Some sid"
    and "alive sid E (hwOpSessions w)" "hw_unix w < E"
  shows "\<exists>path cs w1. serve c fr r w = (case run_endpoint e path c fr (Some ''operator'') r w1 of (reply, w2) \<Rightarrow> (add_cookies cs reply, w2)) \<and>
    operated w1 = operated w \<and> hwMachines w1 = hwMachines w \<and> hwAudit w1 = hwAudit w \<and> hw_unix w1 = hw_unix w"
proof -
  obtain ok renewed a where v: "ValidateSession (hcTtl c) sid (auth_of None w) = ((ok, renewed), a)" by (metis prod.exhaust)
  have "ok" using v assms(5,6)
    by (auto simp: ValidateSession_def os_Validate_def alive_def auth_of_def Let_def split: option.splits prod.splits if_splits)
  moreover have "hwAudit (put_auth a w) = hwAudit w"
    using v by (auto simp: ValidateSession_def auth_of_def put_auth_def Let_def split: prod.splits if_splits)
  moreover obtain path where "serve c fr r w = (if \<not> ok then (writeError 401 ''unauthorized'', put_auth a w)
      else case run_endpoint e path c fr (Some ''operator'') r (put_auth a w) of (reply, w2) \<Rightarrow>
        (add_cookies (if renewed then [setSessionCookie sid (hcSecure c) (hcTtl c)] else []) reply, w2))"
    using serve_protected [OF assms(1-3), of fr w] assms(4) v by auto
  moreover have "operated (put_auth a w) = operated w \<and> hwMachines (put_auth a w) = hwMachines w \<and> hw_unix (put_auth a w) = hw_unix w"
    using login_keeps(5) [OF v] by simp
  ultimately show ?thesis
    by (intro exI [of _ path] exI [of _ "if renewed then [setSessionCookie sid (hcSecure c) (hcTtl c)] else []"] exI [of _ "put_auth a w"]) simp
qed

text \<open>
  A login lasts. After a login that succeeded, and whatever requests anyone sends then, as long as
  nobody logs that session out, a request with its cookie passes the gate until the life time of
  the session, counted from the login, is over: it runs as the operator, on an unchanged fleet.
\<close>
theorem login_lasts:
  assumes "hcAuth c" "login_request r0" "serve c fr0 r0 w = ((cookies, Answer 204 ra b), w0)"
    and "\<forall>(s, ev) \<in> set evs. hwNow w \<le> s" "\<forall>(s, fr, r) \<in> set evs. \<not> logs_out (frToken fr0) r"
    and "t div second < hwNow w div second + hcTtl c"
    and "dispatched r = Some e" "\<not> open_endpoint e" "r_Cookie sessionCookieName r = Some (ckValue (hd cookies))"
  shows "\<exists>path cs w1. hub_step c (t, fr, r) (hub_run c evs w0) =
      (case run_endpoint e path c fr (Some ''operator'') r w1 of (reply, w2) \<Rightarrow> (add_cookies cs reply, w2)) \<and>
    operated w1 = operated (hub_run c evs w0)"
proof -
  let ?E = "hw_unix w + hcTtl c" and ?w = "(hub_run c evs w0)\<lparr>hwNow := t\<rparr>"
  have login: "cookies = [setSessionCookie (frToken fr0) (hcSecure c) (hcTtl c)]" "alive (frToken fr0) ?E (hwOpSessions w0)"
    using login_issues [OF assms(2,3)] by simp_all
  have keeps: "\<forall>(s, fr, r) \<in> set evs. ?E \<le> s div second + hcTtl c \<and> \<not> logs_out (frToken fr0) r"
    using assms(4,5) zdiv_mono1 [of "hwNow w" _ second] by (fastforce simp: hw_unix_def second_def)
  then have "alive (frToken fr0) ?E (hwOpSessions ?w)" using run_keeps_alive [OF login(2) keeps] by simp
  moreover have "hw_unix ?w < ?E" using assms(6) by (simp add: hw_unix_def)
  moreover have "r_Cookie sessionCookieName r = Some (frToken fr0)" using assms(9) login(1) by (simp add: setSessionCookie_def)
  ultimately show ?thesis using serve_live [OF assms(7,8,1), of "frToken fr0" ?E ?w fr] by simp blast
qed

lemma allow_first: "\<exists>l. rl_allow k t (newRateLimiter m window) = ((True, 0), l)"
  by (simp add: rl_allow_def newRateLimiter_def Let_def m_get_def)

lemma first_login: "fst (checkLoginRateLimit demoHubConfig r demoHubWorld) = (None :: int reply option)"
proof -
  have l: "hwGlobalLimiter demoHubWorld = newRateLimiter loginGlobalMax loginWindow" "hwIPLimiter demoHubWorld = newRateLimiter loginIPMax loginWindow"
    by (simp_all add: demoHubWorld_def)
  obtain l1 where "rl_allow ''operator-login'' (hwNow demoHubWorld) (newRateLimiter loginGlobalMax loginWindow) = ((True, 0), l1)"
    using allow_first by blast
  moreover obtain l2 where "rl_allow (clientIP (hcSplitHostPort demoHubConfig) (rqXFF r) (rqRemoteAddr r)) (hwNow demoHubWorld)
      (newRateLimiter loginIPMax loginWindow) = ((True, 0), l2)"
    using allow_first by blast
  ultimately show ?thesis using l by (simp add: checkLoginRateLimit_def Let_def)
qed

lemma demo_login: "fst (handleLoginTOTP demoHubConfig (aFresh ''tok'') None (aRequest ''POST'' ''/api/auth/totp'' [] [120, 120]) demoHubWorld) =
      ([setSessionCookie ''tok'' True 3600], Answer 204 None BEmpty)"
proof -
  let ?r = "aRequest ''POST'' ''/api/auth/totp'' [] [120, 120]"
  obtain w1 where w1: "(checkLoginRateLimit demoHubConfig ?r demoHubWorld :: int reply option \<times> unit hub_world) = (None, w1)"
    using first_login by (metis prod.collapse)
  have "auth_of None w1 = auth_of None demoHubWorld" using limiter_keeps [OF w1] by (auto simp: auth_of_def hw_unix_def)
  moreover have "fst (LoginTOTP (hcGen demoHubConfig) (hcTtl demoHubConfig) ''xx'' ''tok'' (auth_of None demoHubWorld)) = Inr ''tok''" by code_simp
  moreover have "jdCode (hcJson demoHubConfig) (rqBody ?r) = Some ''xx''" by code_simp
  ultimately show ?thesis using w1
    by (auto simp: handleLoginTOTP_def login_result_def reply_defs aFresh_def demoHubConfig_def split: prod.splits sum.splits)
qed
text \<open>Witness for \<open>login_lasts\<close>: a TOTP login, a failing one, and a purge ten minutes later.\<close>
theorem login_lasts_witness:
  "let w0 = snd (serve demoHubConfig (aFresh ''tok'') (aRequest ''POST'' ''/api/auth/totp'' [] [120, 120]) demoHubWorld);
       evs = [(61 * second, aFresh ''b'', aRequest ''POST'' ''/api/auth/totp'' [] [121])];
       r = aRequest ''DELETE'' ''/api/sessions/s1'' [(sessionCookieName, ''tok'')] []
   in \<exists>path cs w1. hub_step demoHubConfig (660 * second, aFresh ''c'', r) (hub_run demoHubConfig evs w0) =
       (case run_endpoint (CloseSessionEp ''s1'') path demoHubConfig (aFresh ''c'') (Some ''operator'') r w1 of
          (reply, w2) \<Rightarrow> (add_cookies cs reply, w2)) \<and>
     operated w1 = operated (hub_run demoHubConfig evs w0)"
proof -
  let ?login = "serve demoHubConfig (aFresh ''tok'') (aRequest ''POST'' ''/api/auth/totp'' [] [120, 120]) demoHubWorld"
  have totp: "dispatched (aRequest ''POST'' ''/api/auth/totp'' [] b) = Some LoginTOTPEp" for b by code_simp
  have "?login = handleLoginTOTP demoHubConfig (aFresh ''tok'') None (aRequest ''POST'' ''/api/auth/totp'' [] [120, 120]) demoHubWorld"
    using serve_open [OF totp, of demoHubConfig "aFresh ''tok''" "[120, 120]" demoHubWorld] by simp
  then have "fst ?login = ([setSessionCookie ''tok'' True 3600], Answer 204 None BEmpty)" using demo_login by simp
  then have login: "?login = (([setSessionCookie ''tok'' True 3600], Answer 204 None BEmpty), snd ?login)" by (metis prod.collapse)
  have 1: "hcAuth demoHubConfig" "login_request (aRequest ''POST'' ''/api/auth/totp'' [] [120, 120])"
    by (simp_all add: demoHubConfig_def login_request_def totp)
  have 2: "dispatched (aRequest ''DELETE'' ''/api/sessions/s1'' [(sessionCookieName, ''tok'')] []) = Some (CloseSessionEp ''s1'')"
    by code_simp
  have 3: "\<not> logs_out (frToken (aFresh ''tok'')) (aRequest ''POST'' ''/api/auth/totp'' [] [121])" by (simp add: logs_out_def totp)
  show ?thesis unfolding Let_def
    by (rule login_lasts [OF 1 login _ _ _ 2])
       (use 3 in \<open>simp_all add: demoHubWorld_def demoHubConfig_def second_def aRequest_def r_Cookie_def setSessionCookie_def\<close>)
qed

subsection \<open>What an operator does is on record\<close>

text \<open>The requests whose success the audit log has to show, and as what.\<close>

fun recorded_as :: "endpoint \<Rightarrow> request \<Rightarrow> auditAction option" where
  "recorded_as (RevokeMachineEp i) r = Some ActionRevoke"
| "recorded_as (UnrevokeMachineEp i) r = Some ActionUnrevoke"
| "recorded_as (DeleteMachineEp i) r = Some ActionMachineDelete"
| "recorded_as OpenSessionEp r = Some ActionOpen"
| "recorded_as (CloseSessionEp i) r = Some (if ''purge'' \<in> set (rqQuery r) then ActionDelete else ActionClose)"
| "recorded_as e r = None"

fun names :: "endpoint \<Rightarrow> event \<Rightarrow> bool" where
  "names (RevokeMachineEp i) ev = (evMachineID ev = i)"
| "names (UnrevokeMachineEp i) ev = (evMachineID ev = i)"
| "names (DeleteMachineEp i) ev = (evMachineID ev = i)"
| "names (CloseSessionEp i) ev = (evSessionID ev = i)"
| "names e ev = True"

definition on_record :: "int \<Rightarrow> endpoint \<Rightarrow> request \<Rightarrow> int \<Rightarrow> auditStore \<Rightarrow> auditStore \<Rightarrow> bool" where
  "on_record now e r status d d' \<longleftrightarrow> (if status < 300
     then \<exists>ev. d' = d @ [ev] \<and> evTS ev = now \<and> evActor ev = ''operator'' \<and> Some (evAction ev) = recorded_as e r \<and> names e ev
     else d' = d)"

lemma statusFor_error: "300 \<le> statusFor err"
  by (cases err) (simp_all add: statusFor_def)

lemmas audit_append = audit_Record_def as_Append_def NewEvent_def ActorFromContext_def

lemma run_on_record:
  assumes "recorded_as e r \<noteq> None" "run_endpoint e path c fr (Some ''operator'') r w = (reply, w')"
  shows "case snd reply of Answer st ra b \<Rightarrow> on_record (hw_unix w) e r st (hwAudit w) (hwAudit w') | _ \<Rightarrow> False"
proof -
  have "\<not> statusFor err < 300" for err using statusFor_error [of err] by linarith
  note simps = this on_record_def reply_defs put_defs of_defs audit_append
  show ?thesis
  proof (cases e)
    case (RevokeMachineEp i)
    then show ?thesis using assms
      by (auto simp: simps handleRevokeMachine_def Revoke_def ew_record_def split: sum.splits prod.splits)
  next
    case (UnrevokeMachineEp i)
    then show ?thesis using assms
      by (auto simp: simps handleUnrevokeMachine_def Unrevoke_def ew_record_def split: sum.splits prod.splits)
  next
    case (DeleteMachineEp i)
    then show ?thesis using assms
      by (auto simp: simps handleDeleteMachine_def DeleteMachine_def ew_record_def split: sum.splits prod.splits if_splits)
  next
    case OpenSessionEp
    then show ?thesis using assms
      by (auto simp: simps handleOpenSession_def uc_Open_def Open_request_def Open_persist_def sw_record_def Let_def
          split: sum.splits prod.splits option.splits if_splits)
  next
    case (CloseSessionEp i)
    show ?thesis
    proof (cases "''purge'' \<in> set (rqQuery r)")
      case purge: True
      show ?thesis
      proof (cases "''force'' \<in> set (rqQuery r)")
        case True
        with purge CloseSessionEp show ?thesis using assms(2)
          by (auto simp: simps handleCloseSession_def uc_ForceDelete_def sw_record_def Let_def split: sum.splits prod.splits)
      next
        case False
        with purge CloseSessionEp show ?thesis using assms(2)
          by (auto simp: simps handleCloseSession_def uc_Delete_def sw_record_def split: sum.splits prod.splits if_splits)
      qed
    next
      case False
      with CloseSessionEp show ?thesis using assms(2)
        by (auto simp: simps handleCloseSession_def uc_Close_def sw_record_def split: sum.splits prod.splits)
    qed
  qed (use assms in simp_all)
qed

lemma live_alive:
  assumes "live_request r w"
  obtains sid E where "r_Cookie sessionCookieName r = Some sid" "alive sid E (hwOpSessions w)" "hw_unix w < E"
proof -
  from assms obtain sid s where s: "r_Cookie sessionCookieName r = Some sid" "m_get (hwOpSessions w) sid = Some s" "hw_unix w < osExpiresAt s"
    by (auto simp: live_request_def dead_session_def auth_of_def split: option.splits)
  then show ?thesis using that [of sid "osExpiresAt s"] by (simp add: alive_def)
qed

text \<open>
  What an operator does to machines and sessions is on record. A request of a live session that
  revokes, un-revokes or deletes a machine or opens, closes or purges a session is answered with a
  status, and exactly if that is a success one event is appended to the audit log, with the second
  at which it happened, the operator as actor, the action, and the machine or session it names.
\<close>
theorem operator_actions_recorded:
  assumes "hcAuth c" "live_request r w" "dispatched r = Some e" "recorded_as e r \<noteq> None" "serve c fr r w = (reply, w')"
  shows "case snd reply of Answer st ra b \<Rightarrow> on_record (hw_unix w) e r st (hwAudit w) (hwAudit w') | _ \<Rightarrow> False"
proof -
  from assms(2) obtain sid E where sid: "r_Cookie sessionCookieName r = Some sid" "alive sid E (hwOpSessions w)" "hw_unix w < E"
    by (rule live_alive)
  have "\<not> open_endpoint e" using assms(4) by (cases e) auto
  from serve_live [OF assms(3) this assms(1) sid, of fr] obtain path cs w1 where
    serve: "serve c fr r w = (case run_endpoint e path c fr (Some ''operator'') r w1 of (reply, w2) \<Rightarrow> (add_cookies cs reply, w2))"
    and same: "hwAudit w1 = hwAudit w" "hw_unix w1 = hw_unix w" by blast
  obtain rep where run: "run_endpoint e path c fr (Some ''operator'') r w1 = (rep, w')" "reply = add_cookies cs rep"
    using serve assms(5) by (auto split: prod.splits)
  from run_on_record [OF assms(4) run(1)] show ?thesis unfolding same using run(2) by (simp add: add_cookies_def)
qed

text \<open>Witness for \<open>operator_actions_recorded\<close>: an operator un-revokes a machine.\<close>
theorem operator_actions_recorded_witness:
  "let w = demoHubWorld\<lparr>hwOpSessions := [(''tok'', \<lparr>osCreatedAt = 0, osExpiresAt = 3600, osLastSeenAt = 0\<rparr>)]\<rparr>;
       r = aRequest ''POST'' ''/api/machines/m1/unrevoke'' [(sessionCookieName, ''tok'')] [];
       res = serve demoHubConfig (aFresh ''b'') r w
   in case snd (fst res) of Answer st ra b \<Rightarrow> on_record (hw_unix w) (UnrevokeMachineEp ''m1'') r st (hwAudit w) (hwAudit (snd res)) | _ \<Rightarrow> False"
proof -
  let ?w = "demoHubWorld\<lparr>hwOpSessions := [(''tok'', \<lparr>osCreatedAt = 0, osExpiresAt = 3600, osLastSeenAt = 0\<rparr>)]\<rparr>"
  let ?r = "aRequest ''POST'' ''/api/machines/m1/unrevoke'' [(sessionCookieName, ''tok'')] []"
  have "hcAuth demoHubConfig" by (simp add: demoHubConfig_def)
  moreover have "live_request ?r ?w"
    by (simp add: live_request_def aRequest_def r_Cookie_def dead_session_def auth_of_def hw_unix_def demoHubWorld_def second_def m_get_def)
  moreover have "dispatched ?r = Some (UnrevokeMachineEp ''m1'')" by code_simp
  ultimately show ?thesis unfolding Let_def by (rule operator_actions_recorded) simp_all
qed

end
