(* ===== verification/Sql_Tables.thy ===== *)
theory Sql_Tables
  imports Hub_Domain
begin

text \<open>
  What the hub uses of SQL: tables with a primary key, the statements that read and change them, and the
  constraint violations they report. A table is the list of its rows; SQL leaves the order of a
  query without ORDER BY open, so nothing may be proved about that order.

  The database engine itself is third-party code. These definitions are the documented meaning of the
  statements; errors other than constraint violations (a full disk, a locked database) are not
  modelled.
\<close>

subsection \<open>Statements\<close>

text \<open>Constraint violations, with SQLite's extended result codes.\<close>

datatype sqlError = UniqueViolation | PrimaryKeyViolation | ForeignKeyViolation

definition sqlCode :: "sqlError \<Rightarrow> int" where
  "sqlCode err = (case err of UniqueViolation \<Rightarrow> 2067 | PrimaryKeyViolation \<Rightarrow> 1555 | ForeignKeyViolation \<Rightarrow> 787)"

definition sql_select :: "('r \<Rightarrow> bool) \<Rightarrow> 'r list \<Rightarrow> 'r list" where
  "sql_select P rows = filter P rows"

text \<open>\<open>QueryRow\<close> on a query by primary key: the row, or \<open>sql.ErrNoRows\<close>.\<close>

definition sql_row :: "('r \<Rightarrow> string) \<Rightarrow> string \<Rightarrow> 'r list \<Rightarrow> 'r option" where
  "sql_row key k rows = find (\<lambda>r. key r = k) rows"

definition sql_insert :: "('r \<Rightarrow> string) \<Rightarrow> 'r \<Rightarrow> 'r list \<Rightarrow> sqlError + 'r list" where
  "sql_insert key r rows = (if key r \<in> key ` set rows then Inl PrimaryKeyViolation else Inr (rows @ [r]))"

text \<open>\<open>INSERT ... ON CONFLICT(key) DO UPDATE SET ...\<close>; \<open>f\<close> changes the row in conflict.\<close>

definition sql_upsert :: "('r \<Rightarrow> string) \<Rightarrow> ('r \<Rightarrow> 'r) \<Rightarrow> 'r \<Rightarrow> 'r list \<Rightarrow> 'r list" where
  "sql_upsert key f r rows = (if key r \<in> key ` set rows then map (\<lambda>x. if key x = key r then f x else x) rows else rows @ [r])"

text \<open>\<open>UPDATE\<close> and \<open>DELETE\<close> with the number of rows affected.\<close>

definition sql_update :: "('r \<Rightarrow> bool) \<Rightarrow> ('r \<Rightarrow> 'r) \<Rightarrow> 'r list \<Rightarrow> nat \<times> 'r list" where
  "sql_update P f rows = (length (filter P rows), map (\<lambda>r. if P r then f r else r) rows)"

definition sql_delete :: "('r \<Rightarrow> bool) \<Rightarrow> 'r list \<Rightarrow> nat \<times> 'r list" where
  "sql_delete P rows = (length (filter P rows), filter (\<lambda>r. \<not> P r) rows)"

text \<open>Nullable text: the stores write the empty string as NULL and read NULL as the empty string.\<close>

definition nullString :: "string \<Rightarrow> string option" where
  "nullString s = (if s = [] then None else Some s)"

definition null_text :: "string option \<Rightarrow> string" where
  "null_text v = (case v of None \<Rightarrow> [] | Some s \<Rightarrow> s)"

lemma null_text_nullString [simp]: "null_text (nullString s) = s"
  by (simp add: null_text_def nullString_def)

lemma null_text_simps [simp]: "null_text None = []" "null_text (Some s) = s"
  by (simp_all add: null_text_def)

lemma nullString_None [simp]: "nullString s = None \<longleftrightarrow> s = []" "nullString s = Some t \<longleftrightarrow> s = t \<and> t \<noteq> []"
  by (auto simp: nullString_def)

subsection \<open>Tables as maps\<close>

text \<open>A table with a primary key is a map from the key to what the scan function makes of the row.\<close>

definition keyed :: "('r \<Rightarrow> string) \<Rightarrow> 'r list \<Rightarrow> bool" where
  "keyed key rows \<longleftrightarrow> distinct (map key rows)"

definition table_map :: "('r \<Rightarrow> string) \<Rightarrow> ('r \<Rightarrow> 'v) \<Rightarrow> 'r list \<Rightarrow> 'v gomap" where
  "table_map key scan rows = map (\<lambda>r. (key r, scan r)) rows"

lemma table_map_wf: "keyed key rows \<Longrightarrow> wf_map (table_map key scan rows)"
  by (simp add: keyed_def wf_map_def table_map_def comp_def)

lemma table_map_simps [simp]: "table_map key scan [] = []" "m_vals (table_map key scan rows) = map scan rows"
  by (simp_all add: table_map_def m_vals_def comp_def)

lemma row_lookup: "m_get (table_map key scan rows) k = map_option scan (sql_row key k rows)"
  by (induction rows) (simp_all add: m_get_def table_map_def sql_row_def)

lemma row_absent: "sql_row key k rows = None \<longleftrightarrow> k \<notin> key ` set rows"
  by (auto simp: sql_row_def find_None_iff)

lemma row_present: "sql_row key k rows = Some r \<Longrightarrow> r \<in> set rows \<and> key r = k"
  by (auto simp: sql_row_def find_Some_iff)

lemma row_of_member: "keyed key rows \<Longrightarrow> r \<in> set rows \<Longrightarrow> sql_row key (key r) rows = Some r"
  by (induction rows) (auto simp: sql_row_def keyed_def image_iff)

lemma insert_map: "k \<notin> key ` set rows \<Longrightarrow> key r = k \<Longrightarrow> table_map key scan (rows @ [r]) = m_put k (scan r) (table_map key scan rows)"
  by (induction rows) (auto simp: m_put_def table_map_def)

lemma insert_keyed: "keyed key rows \<Longrightarrow> key r \<notin> key ` set rows \<Longrightarrow> keyed key (rows @ [r])"
  by (simp add: keyed_def)

lemma update_keyed: "keyed key rows \<Longrightarrow> (\<And>r. r \<in> set rows \<Longrightarrow> key (f r) = key r) \<Longrightarrow> keyed key (map f rows)"
  by (simp add: keyed_def comp_def cong: map_cong)

lemma delete_keyed: "keyed key rows \<Longrightarrow> keyed key (filter P rows)"
  by (simp add: keyed_def distinct_map_filter)

lemma affected_none: "length (filter (\<lambda>r. key r = k) rows) = 0 \<longleftrightarrow> sql_row key k rows = None"
  by (induction rows) (auto simp: sql_row_def)

text \<open>The update of the row with a given key is an update of the map.\<close>

lemma update_one_map:
  assumes "keyed key rows" "sql_row key k rows = Some x" "\<And>r. key (f r) = key r" "scan (f x) = g (scan x)"
  shows "table_map key scan (map (\<lambda>r. if key r = k then f r else r) rows) = m_put k (g (scan x)) (table_map key scan rows)"
  using assms(1,2)
proof (induction rows)
  case (Cons r rows)
  show ?case
  proof (cases "key r = k")
    case True
    then have "x = r" "\<forall>y \<in> set rows. key y \<noteq> k" using Cons.prems by (auto simp: sql_row_def keyed_def image_iff)
    then have "map (\<lambda>r. if key r = k then f r else r) rows = rows" by (simp add: map_idI)
    then show ?thesis using True \<open>x = r\<close> assms(3,4) by (simp add: table_map_def m_put_def)
  next
    case False
    then show ?thesis using Cons by (simp add: table_map_def m_put_def sql_row_def keyed_def)
  qed
qed (simp add: sql_row_def)

lemma update_all_map:
  assumes "\<And>r. r \<in> set rows \<Longrightarrow> key (f r) = key r \<and> scan (f r) = h (scan r)"
  shows "table_map key scan (map f rows) = m_each h (table_map key scan rows)"
  using assms by (induction rows) (simp_all add: table_map_def m_each_def)

lemma delete_one_map: "table_map key scan (filter (\<lambda>r. key r \<noteq> k) rows) = m_del k (table_map key scan rows)"
  by (induction rows) (auto simp: table_map_def m_del_def AList.delete_eq)

end
