(* ===== verification/Sqlite_Stores.thy ===== *)
theory Sqlite_Stores
  imports Sql_Tables Sessions_App
begin

text \<open>
  The stores the hub runs on, \<^verbatim>\<open>internal/hub/adapter/secondary/sqlite\<close>, over the schema of its migrations:
  every method with its statement, the constraints of the schema (primary keys, UNIQUE, foreign
  keys), and the conversions between rows and the domain's values. All stores share one database.

  \<^item> The status and the action columns hold the words of their enumerations; the model keeps the
    enumeration values.
  \<^item> A statement is atomic, and \<open>MachineStore.Delete\<close> runs its statements in one transaction.
  \<^item> A time column that no store ever reads back (\<open>created_at\<close> of a credential) is kept nevertheless.
\<close>

subsection \<open>The schema\<close>

record machineRow =
  rmId :: string
  rmInstanceId :: "string option"
  rmName :: string
  rmOs :: string
  rmArch :: "string option"
  rmAgentVersion :: "string option"
  rmEnrolledAt :: int
  rmLastSeenAt :: "int option"
  rmRevokedAt :: "int option"

record credentialRow =
  rcMachineId :: string
  rcPublicKey :: "byte list"
  rcCreatedAt :: int

record projectRow =
  rpId :: string
  rpMachineId :: string
  rpName :: string
  rpPath :: string
  rpColor :: "string option"
  rpCreatedAt :: int

record sessionRow =
  rsId :: string
  rsProjectId :: "string option"
  rsMachineId :: string
  rsTitle :: "string option"
  rsShell :: "string option"
  rsStatus :: sessionStatus
  rsActivity :: "string option"
  rsExitCode :: "int option"
  rsCreatedAt :: int
  rsLastActiveAt :: "int option"
  rsCwd :: "string option"
  rsAutoRelaunch :: int
  rsPwd :: "string option"

record auditRow =
  raId :: nat
  raTs :: int
  raActor :: string
  raAction :: auditAction
  raMachineId :: "string option"
  raSessionId :: "string option"
  raDetail :: "string option"

datatype sqlValue = SqlText string | SqlBlob "byte list"

record operatorRow =
  roId :: string
  roKind :: string
  roData :: sqlValue
  roCreatedAt :: int
  roLastUsedAt :: "int option"

record tokenRow =
  rtTokenHash :: string
  rtExpiresAt :: int
  rtUsedAt :: "int option"

record opSessionRow =
  rosId :: string
  rosCreatedAt :: int
  rosExpiresAt :: int
  rosLastSeenAt :: "int option"

record db =
  dbMachines :: "machineRow list"
  dbCredentials :: "credentialRow list"
  dbProjects :: "projectRow list"
  dbSessions :: "sessionRow list"
  dbAudit :: "auditRow list"
  dbOperator :: "operatorRow list"
  dbTokens :: "tokenRow list"
  dbOpSessions :: "opSessionRow list"

definition emptyDb :: db where
  "emptyDb = \<lparr>dbMachines = [], dbCredentials = [], dbProjects = [], dbSessions = [], dbAudit = [], dbOperator = [],
     dbTokens = [], dbOpSessions = []\<rparr>"

definition has_machine :: "string \<Rightarrow> db \<Rightarrow> bool" where
  "has_machine i d \<longleftrightarrow> i \<in> rmId ` set (dbMachines d)"

definition has_project :: "string \<Rightarrow> db \<Rightarrow> bool" where
  "has_project i d \<longleftrightarrow> i \<in> rpId ` set (dbProjects d)"

text \<open>What the constraints of the schema say.\<close>

definition keys_ok :: "db \<Rightarrow> bool" where
  "keys_ok d \<longleftrightarrow> keyed rmId (dbMachines d) \<and> keyed rcMachineId (dbCredentials d) \<and> keyed rpId (dbProjects d) \<and>
     keyed rsId (dbSessions d) \<and> keyed roId (dbOperator d) \<and> keyed rtTokenHash (dbTokens d) \<and> keyed rosId (dbOpSessions d) \<and>
     distinct (map raId (dbAudit d)) \<and> distinct (map (\<lambda>r. (rpMachineId r, rpPath r)) (dbProjects d))"

definition refs_ok :: "db \<Rightarrow> bool" where
  "refs_ok d \<longleftrightarrow> (\<forall>r \<in> set (dbCredentials d). has_machine (rcMachineId r) d) \<and>
     (\<forall>r \<in> set (dbProjects d). has_machine (rpMachineId r) d) \<and>
     (\<forall>r \<in> set (dbSessions d). has_machine (rsMachineId r) d \<and> (\<forall>p. rsProjectId r = Some p \<longrightarrow> has_project p d))"

text \<open>What the stores themselves keep: flags are 0 or 1, and no empty text is stored where NULL is meant.\<close>

definition rows_ok :: "db \<Rightarrow> bool" where
  "rows_ok d \<longleftrightarrow> (\<forall>r \<in> set (dbSessions d). rsAutoRelaunch r \<in> {0, 1} \<and> rsProjectId r \<noteq> Some [])"

definition wf_db :: "db \<Rightarrow> bool" where
  "wf_db d \<longleftrightarrow> keys_ok d \<and> refs_ok d \<and> rows_ok d"

subsection \<open>SessionStore (session_store.go)\<close>

definition scanSession :: "sessionRow \<Rightarrow> hsession" where
  "scanSession r =
     (let code = (case rsExitCode r of Some c \<Rightarrow> c | None \<Rightarrow> 0);
          lat = (case rsLastActiveAt r of Some t \<Rightarrow> t | None \<Rightarrow> rsCreatedAt r);
          ss = session_Rehydrate (rsId r) (null_text (rsProjectId r)) (rsMachineId r) (null_text (rsTitle r)) (null_text (rsShell r))
            (null_text (rsCwd r)) (rsStatus r) code (rsAutoRelaunch r \<noteq> 0) (rsCreatedAt r) lat;
          s1 = (case rsActivity r of Some a \<Rightarrow> if a \<noteq> [] then session_SetActivity a ss else ss | None \<Rightarrow> ss)
      in case rsPwd r of Some p \<Rightarrow> if p \<noteq> [] then session_SetPwd p s1 else s1 | None \<Rightarrow> s1)"

definition session_row :: "hsession \<Rightarrow> sessionRow" where
  "session_row ss = \<lparr>rsId = sId ss, rsProjectId = nullString (sProjectID ss), rsMachineId = sMachineID ss,
     rsTitle = nullString (sTitle ss), rsShell = nullString (sShell ss), rsStatus = sStatus ss, rsActivity = None,
     rsExitCode = None, rsCreatedAt = sCreatedAt ss, rsLastActiveAt = Some (sLastActiveAt ss), rsCwd = nullString (sCwd ss),
     rsAutoRelaunch = (if sAutoRelaunch ss then 1 else 0), rsPwd = None\<rparr>"

definition constraint_error :: "sqlError \<Rightarrow> hubError" where
  "constraint_error err = (case err of UniqueViolation \<Rightarrow> ErrOther ''unique'' | PrimaryKeyViolation \<Rightarrow> ErrOther ''primary key''
     | ForeignKeyViolation \<Rightarrow> ErrOther ''foreign key'')"

definition sq_Create :: "hsession \<Rightarrow> db \<Rightarrow> db result" where
  "sq_Create ss d = (case sql_insert rsId (session_row ss) (dbSessions d) of
     Inl err \<Rightarrow> Inl (constraint_error err)
   | Inr rows \<Rightarrow>
       if \<not> has_machine (sMachineID ss) d \<or> (sProjectID ss \<noteq> [] \<and> \<not> has_project (sProjectID ss) d)
       then Inl (constraint_error ForeignKeyViolation)
       else Inr (d\<lparr>dbSessions := rows\<rparr>))"

definition sq_ByID :: "string \<Rightarrow> db \<Rightarrow> hsession result" where
  "sq_ByID i d = (case sql_row rsId i (dbSessions d) of None \<Rightarrow> Inl ErrSessionNotFound | Some r \<Rightarrow> Inr (scanSession r))"

definition sq_List :: "db \<Rightarrow> hsession list result" where
  "sq_List d = Inr (map scanSession (dbSessions d))"

definition sq_ListByMachine :: "string \<Rightarrow> db \<Rightarrow> hsession list result" where
  "sq_ListByMachine machineID d = Inr (map scanSession (sql_select (\<lambda>r. rsMachineId r = machineID) (dbSessions d)))"

definition sq_AutoRelaunchSessions :: "string \<Rightarrow> db \<Rightarrow> hsession list result" where
  "sq_AutoRelaunchSessions machineID d = Inr (map scanSession (sql_select
     (\<lambda>r. rsMachineId r = machineID \<and> rsStatus r \<in> {SRunning, SDisconnected} \<and> rsAutoRelaunch r = 1) (dbSessions d)))"

text \<open>The bulk updates, and the updates by ID that report \<open>ErrNotFound\<close> when no row was affected.\<close>

definition sq_update_all :: "(sessionRow \<Rightarrow> bool) \<Rightarrow> (sessionRow \<Rightarrow> sessionRow) \<Rightarrow> db \<Rightarrow> db result" where
  "sq_update_all P f d = Inr (d\<lparr>dbSessions := snd (sql_update P f (dbSessions d))\<rparr>)"

definition sq_update_one :: "(sessionRow \<Rightarrow> sessionRow) \<Rightarrow> string \<Rightarrow> db \<Rightarrow> db result" where
  "sq_update_one f i d = (case sql_update (\<lambda>r. rsId r = i) f (dbSessions d) of (n, rows) \<Rightarrow>
     if n = 0 then Inl ErrSessionNotFound else Inr (d\<lparr>dbSessions := rows\<rparr>))"

definition sq_MarkRunningLost :: "string \<Rightarrow> int \<Rightarrow> db \<Rightarrow> db result" where
  "sq_MarkRunningLost machineID ts = sq_update_all
     (\<lambda>r. rsMachineId r = machineID \<and> rsStatus r \<in> {SRunning, SDisconnected} \<and> rsAutoRelaunch r = 0)
     (\<lambda>r. r\<lparr>rsStatus := SLost, rsLastActiveAt := Some ts\<rparr>)"

definition sq_MarkRunningDisconnected :: "string \<Rightarrow> int \<Rightarrow> db \<Rightarrow> db result" where
  "sq_MarkRunningDisconnected machineID ts = sq_update_all (\<lambda>r. rsMachineId r = machineID \<and> rsStatus r = SRunning)
     (\<lambda>r. r\<lparr>rsStatus := SDisconnected, rsLastActiveAt := Some ts\<rparr>)"

definition sq_MarkDisconnectedRunning :: "string \<Rightarrow> db \<Rightarrow> db result" where
  "sq_MarkDisconnectedRunning machineID = sq_update_all (\<lambda>r. rsMachineId r = machineID \<and> rsStatus r = SDisconnected)
     (\<lambda>r. r\<lparr>rsStatus := SRunning\<rparr>)"

definition sq_SetRunning :: "string \<Rightarrow> db \<Rightarrow> db result" where
  "sq_SetRunning = sq_update_one (\<lambda>r. r\<lparr>rsStatus := SRunning\<rparr>)"

definition sq_SetLost :: "string \<Rightarrow> int \<Rightarrow> db \<Rightarrow> db result" where
  "sq_SetLost i ts = sq_update_one (\<lambda>r. r\<lparr>rsStatus := SLost, rsLastActiveAt := Some ts\<rparr>) i"

definition sq_SetExited :: "string \<Rightarrow> int \<Rightarrow> int \<Rightarrow> db \<Rightarrow> db result" where
  "sq_SetExited i exitCode ts =
     sq_update_one (\<lambda>r. r\<lparr>rsStatus := SExited, rsExitCode := Some exitCode, rsLastActiveAt := Some ts\<rparr>) i"

definition sq_SetAutoRelaunch :: "string \<Rightarrow> bool \<Rightarrow> db \<Rightarrow> db result" where
  "sq_SetAutoRelaunch i v = sq_update_one (\<lambda>r. r\<lparr>rsAutoRelaunch := (if v then 1 else 0)\<rparr>) i"

definition sq_SetTitle :: "string \<Rightarrow> string \<Rightarrow> db \<Rightarrow> db result" where
  "sq_SetTitle i title = sq_update_one (\<lambda>r. r\<lparr>rsTitle := nullString title\<rparr>) i"

text \<open>\<open>COALESCE(NULLIF(?, ''), col)\<close> keeps the column when the value is empty.\<close>

definition coalesce :: "string \<Rightarrow> string option \<Rightarrow> string option" where
  "coalesce v col = (case nullString v of Some s \<Rightarrow> Some s | None \<Rightarrow> col)"

definition sq_SetStat :: "string \<Rightarrow> string \<Rightarrow> string \<Rightarrow> int \<Rightarrow> db \<Rightarrow> db result" where
  "sq_SetStat i activity pwd lastActiveAt =
     (if lastActiveAt > 0
      then sq_update_one (\<lambda>r. r\<lparr>rsActivity := coalesce activity (rsActivity r), rsPwd := coalesce pwd (rsPwd r),
        rsLastActiveAt := Some lastActiveAt\<rparr>) i
      else sq_update_one (\<lambda>r. r\<lparr>rsActivity := coalesce activity (rsActivity r), rsPwd := coalesce pwd (rsPwd r)\<rparr>) i)"

definition sq_Delete :: "string \<Rightarrow> db \<Rightarrow> db result" where
  "sq_Delete i d = (case sql_delete (\<lambda>r. rsId r = i) (dbSessions d) of (n, rows) \<Rightarrow>
     if n = 0 then Inl ErrSessionNotFound else Inr (d\<lparr>dbSessions := rows\<rparr>))"

definition sq_CountByProject :: "string \<Rightarrow> db \<Rightarrow> int result" where
  "sq_CountByProject projectID d = Inr (int (length (sql_select (\<lambda>r. rsProjectId r = Some projectID) (dbSessions d))))"

definition sqlite_port :: "db session_port" where
  "sqlite_port = \<lparr>spCreate = sq_Create, spByID = sq_ByID, spList = sq_List, spListByMachine = sq_ListByMachine,
     spAutoRelaunchSessions = sq_AutoRelaunchSessions, spSetExited = sq_SetExited, spMarkRunningLost = sq_MarkRunningLost,
     spMarkRunningDisconnected = sq_MarkRunningDisconnected, spMarkDisconnectedRunning = sq_MarkDisconnectedRunning,
     spSetRunning = sq_SetRunning, spSetLost = sq_SetLost, spSetTitle = sq_SetTitle,
     spSetAutoRelaunch = sq_SetAutoRelaunch, spSetStat = sq_SetStat, spDelete = sq_Delete\<rparr>"

subsection \<open>MachineStore (machine_store.go)\<close>

definition scanMachine :: "machineRow \<Rightarrow> machine" where
  "scanMachine r =
     (let ls = (case rmLastSeenAt r of Some t \<Rightarrow> t | None \<Rightarrow> rmEnrolledAt r);
          m = machine_Rehydrate (rmId r) (null_text (rmInstanceId r)) (rmName r) (rmOs r) (null_text (rmArch r))
            (null_text (rmAgentVersion r)) (rmEnrolledAt r) ls
      in case rmRevokedAt r of Some t \<Rightarrow> machine_MarkRevoked t m | None \<Rightarrow> m)"

definition machine_row :: "machine \<Rightarrow> machineRow" where
  "machine_row m = \<lparr>rmId = mId m, rmInstanceId = Some (mInstanceID m), rmName = mName m, rmOs = mOS m, rmArch = Some (mArch m),
     rmAgentVersion = Some (mAgentVersion m), rmEnrolledAt = mEnrolledAt m, rmLastSeenAt = Some (mLastSeenAt m), rmRevokedAt = None\<rparr>"

definition sm_Upsert :: "machine \<Rightarrow> db \<Rightarrow> db result" where
  "sm_Upsert m d = Inr (d\<lparr>dbMachines := sql_upsert rmId
     (\<lambda>r. r\<lparr>rmInstanceId := Some (mInstanceID m), rmName := mName m, rmOs := mOS m, rmArch := Some (mArch m),
       rmAgentVersion := Some (mAgentVersion m), rmLastSeenAt := Some (mLastSeenAt m)\<rparr>) (machine_row m) (dbMachines d)\<rparr>)"

definition sm_update_one :: "(machineRow \<Rightarrow> machineRow) \<Rightarrow> string \<Rightarrow> db \<Rightarrow> db result" where
  "sm_update_one f i d = (case sql_update (\<lambda>r. rmId r = i) f (dbMachines d) of (n, rows) \<Rightarrow>
     if n = 0 then Inl ErrMachineNotFound else Inr (d\<lparr>dbMachines := rows\<rparr>))"

definition sm_UpdateLastSeen :: "string \<Rightarrow> int \<Rightarrow> db \<Rightarrow> db result" where
  "sm_UpdateLastSeen i ts = sm_update_one (\<lambda>r. r\<lparr>rmLastSeenAt := Some ts\<rparr>) i"

definition sm_MarkRevoked :: "string \<Rightarrow> int \<Rightarrow> db \<Rightarrow> db result" where
  "sm_MarkRevoked i ts = sm_update_one (\<lambda>r. r\<lparr>rmRevokedAt := Some ts\<rparr>) i"

definition sm_ClearRevoked :: "string \<Rightarrow> db \<Rightarrow> db result" where
  "sm_ClearRevoked = sm_update_one (\<lambda>r. r\<lparr>rmRevokedAt := None\<rparr>)"

definition sm_List :: "db \<Rightarrow> machine list result" where
  "sm_List d = Inr (map scanMachine (dbMachines d))"

definition sm_ByID :: "string \<Rightarrow> db \<Rightarrow> machine result" where
  "sm_ByID i d = (case sql_row rmId i (dbMachines d) of None \<Rightarrow> Inl ErrMachineNotFound | Some r \<Rightarrow> Inr (scanMachine r))"

text \<open>
  The deletion of a machine with everything that refers to it: four statements in one transaction. The
  foreign keys are checked at the end of each statement; the sessions go first, then the projects,
  which sessions of other machines may still refer to.
\<close>

definition delete_sessions_of :: "string \<Rightarrow> db \<Rightarrow> db" where
  "delete_sessions_of i d = d\<lparr>dbSessions := snd (sql_delete (\<lambda>r. rsMachineId r = i) (dbSessions d))\<rparr>"

definition delete_projects_of :: "string \<Rightarrow> db \<Rightarrow> sqlError + db" where
  "delete_projects_of i d =
     (let gone = rpId ` set (sql_select (\<lambda>r. rpMachineId r = i) (dbProjects d)) in
      if \<exists>r \<in> set (dbSessions d). case rsProjectId r of Some p \<Rightarrow> p \<in> gone | None \<Rightarrow> False then Inl ForeignKeyViolation
      else Inr (d\<lparr>dbProjects := snd (sql_delete (\<lambda>r. rpMachineId r = i) (dbProjects d))\<rparr>))"

definition delete_credentials_of :: "string \<Rightarrow> db \<Rightarrow> db" where
  "delete_credentials_of i d = d\<lparr>dbCredentials := snd (sql_delete (\<lambda>r. rcMachineId r = i) (dbCredentials d))\<rparr>"

definition delete_machine_row :: "string \<Rightarrow> db \<Rightarrow> sqlError + nat \<times> db" where
  "delete_machine_row i d =
     (if has_machine i d \<and> (i \<in> rsMachineId ` set (dbSessions d) \<or> i \<in> rpMachineId ` set (dbProjects d) \<or>
         i \<in> rcMachineId ` set (dbCredentials d)) then Inl ForeignKeyViolation
      else case sql_delete (\<lambda>r. rmId r = i) (dbMachines d) of (n, rows) \<Rightarrow> Inr (n, d\<lparr>dbMachines := rows\<rparr>))"

definition sm_Delete :: "string \<Rightarrow> db \<Rightarrow> unit result \<times> db" where
  "sm_Delete i d = (case delete_projects_of i (delete_sessions_of i d) of
     Inl err \<Rightarrow> (Inl (constraint_error err), d)
   | Inr d2 \<Rightarrow> (case delete_machine_row i (delete_credentials_of i d2) of
       Inl err \<Rightarrow> (Inl (constraint_error err), d)
     | Inr (n, d4) \<Rightarrow> if n = 0 then (Inl ErrMachineNotFound, d) else (Inr (), d4)))"

subsection \<open>CredentialStore, EnrollTokenStore\<close>

definition sc_Save :: "string \<Rightarrow> byte list \<Rightarrow> int \<Rightarrow> db \<Rightarrow> db result" where
  "sc_Save machineID publicKey createdAt d =
     (if \<not> has_machine machineID d then Inl (constraint_error ForeignKeyViolation)
      else Inr (d\<lparr>dbCredentials := sql_upsert rcMachineId (\<lambda>r. r\<lparr>rcPublicKey := publicKey, rcCreatedAt := createdAt\<rparr>)
        \<lparr>rcMachineId = machineID, rcPublicKey = publicKey, rcCreatedAt = createdAt\<rparr> (dbCredentials d)\<rparr>))"

definition sc_PublicKey :: "string \<Rightarrow> db \<Rightarrow> byte list result" where
  "sc_PublicKey machineID d = (case sql_row rcMachineId machineID (dbCredentials d) of
     None \<Rightarrow> Inl ErrUnknownMachine | Some r \<Rightarrow> Inr (rcPublicKey r))"

definition st_Create :: "string \<Rightarrow> int \<Rightarrow> db \<Rightarrow> db result" where
  "st_Create tokenHash expiresAt d = (case sql_insert rtTokenHash \<lparr>rtTokenHash = tokenHash, rtExpiresAt = expiresAt, rtUsedAt = None\<rparr> (dbTokens d) of
     Inl err \<Rightarrow> Inl (constraint_error err) | Inr rows \<Rightarrow> Inr (d\<lparr>dbTokens := rows\<rparr>))"

definition st_Consume :: "string \<Rightarrow> int \<Rightarrow> db \<Rightarrow> db result" where
  "st_Consume tokenHash now d =
     (case sql_update (\<lambda>r. rtTokenHash r = tokenHash \<and> rtUsedAt r = None \<and> rtExpiresAt r > now) (\<lambda>r. r\<lparr>rtUsedAt := Some now\<rparr>) (dbTokens d) of
        (n, rows) \<Rightarrow> if n = 0 then Inl ErrInvalidToken else Inr (d\<lparr>dbTokens := rows\<rparr>))"

subsection \<open>ProjectStore (project_store.go)\<close>

definition scanProject :: "projectRow \<Rightarrow> project" where
  "scanProject r = project_Rehydrate (rpId r) (rpMachineId r) (rpName r) (rpPath r) (null_text (rpColor r)) (rpCreatedAt r)"

definition project_row :: "project \<Rightarrow> projectRow" where
  "project_row p = \<lparr>rpId = pId p, rpMachineId = pMachineID p, rpName = pName p, rpPath = pPath p, rpColor = nullString (pColor p),
     rpCreatedAt = pCreatedAt p\<rparr>"

text \<open>
  The insert: SQLite checks the primary key, then the UNIQUE constraint, and the foreign key at the end
  of the statement. The code of the violation decides the error.
\<close>

definition insert_project :: "project \<Rightarrow> db \<Rightarrow> sqlError + db" where
  "insert_project p d = (case sql_insert rpId (project_row p) (dbProjects d) of
     Inl err \<Rightarrow> Inl err
   | Inr rows \<Rightarrow>
       if \<exists>r \<in> set (dbProjects d). rpMachineId r = pMachineID p \<and> rpPath r = pPath p then Inl UniqueViolation
       else if \<not> has_machine (pMachineID p) d then Inl ForeignKeyViolation
       else Inr (d\<lparr>dbProjects := rows\<rparr>))"

definition sp_Create :: "project \<Rightarrow> db \<Rightarrow> db result" where
  "sp_Create p d = (case insert_project p d of
     Inl err \<Rightarrow> if sqlCode err = 2067 then Inl ErrDuplicatePath
       else if sqlCode err mod 256 = 19 then Inl ErrProjectInvalid
       else Inl (constraint_error err)
   | Inr d' \<Rightarrow> Inr d')"

definition sp_ByID :: "string \<Rightarrow> db \<Rightarrow> project result" where
  "sp_ByID i d = (case sql_row rpId i (dbProjects d) of None \<Rightarrow> Inl ErrProjectNotFound | Some r \<Rightarrow> Inr (scanProject r))"

definition sp_List :: "db \<Rightarrow> project list result" where
  "sp_List d = Inr (map scanProject (sort_key rpCreatedAt (dbProjects d)))"

definition sp_ListByMachine :: "string \<Rightarrow> db \<Rightarrow> project list result" where
  "sp_ListByMachine machineID d = Inr (map scanProject (sort_key rpCreatedAt (sql_select (\<lambda>r. rpMachineId r = machineID) (dbProjects d))))"

definition sp_Delete :: "string \<Rightarrow> db \<Rightarrow> db result" where
  "sp_Delete i d =
     (if has_project i d \<and> (\<exists>r \<in> set (dbSessions d). rsProjectId r = Some i) then Inl (constraint_error ForeignKeyViolation)
      else case sql_delete (\<lambda>r. rpId r = i) (dbProjects d) of (n, rows) \<Rightarrow>
        if n = 0 then Inl ErrProjectNotFound else Inr (d\<lparr>dbProjects := rows\<rparr>))"

subsection \<open>OperatorStore, OperatorSessionStore\<close>

text \<open>\<open>LIMIT 1\<close> takes one of the rows; the model takes the first.\<close>

definition totp_row :: "db \<Rightarrow> operatorRow option" where
  "totp_row d = find (\<lambda>r. roKind r = ''totp'') (dbOperator d)"

definition so_HasOperator :: "db \<Rightarrow> bool" where
  "so_HasOperator d \<longleftrightarrow> length (sql_select (\<lambda>r. roKind r = ''totp'') (dbOperator d)) > 0"

definition so_TOTPSecret :: "db \<Rightarrow> string option" where
  "so_TOTPSecret d = (case totp_row d of None \<Rightarrow> None
     | Some r \<Rightarrow> Some (case roData r of SqlText t \<Rightarrow> t | SqlBlob b \<Rightarrow> map (\<lambda>x. char_of (unat x)) b))"

definition so_insert :: "string \<Rightarrow> string \<Rightarrow> sqlValue \<Rightarrow> int \<Rightarrow> db \<Rightarrow> db result" where
  "so_insert i kind v createdAt d =
     (case sql_insert roId \<lparr>roId = i, roKind = kind, roData = v, roCreatedAt = createdAt, roLastUsedAt = None\<rparr> (dbOperator d) of
        Inl err \<Rightarrow> Inl (constraint_error err) | Inr rows \<Rightarrow> Inr (d\<lparr>dbOperator := rows\<rparr>))"

definition so_SaveTOTP :: "string \<Rightarrow> string \<Rightarrow> int \<Rightarrow> db \<Rightarrow> db result" where
  "so_SaveTOTP newID secret createdAt = so_insert newID ''totp'' (SqlText secret) createdAt"

text \<open>One insert per code: an error leaves the codes before it stored.\<close>

fun so_SaveRecoveryCodes :: "string list \<Rightarrow> int \<Rightarrow> db \<Rightarrow> unit result \<times> db" where
  "so_SaveRecoveryCodes [] createdAt d = (Inr (), d)"
| "so_SaveRecoveryCodes (h # hs) createdAt d = (case so_insert h ''recovery'' (SqlText h) createdAt d of
     Inl err \<Rightarrow> (Inl err, d) | Inr d' \<Rightarrow> so_SaveRecoveryCodes hs createdAt d')"

definition so_ConsumeRecoveryCode :: "string \<Rightarrow> db \<Rightarrow> bool \<times> db" where
  "so_ConsumeRecoveryCode hash d =
     (case sql_delete (\<lambda>r. roKind r = ''recovery'' \<and> roData r = SqlText hash) (dbOperator d) of (n, rows) \<Rightarrow>
        (n > 0, d\<lparr>dbOperator := rows\<rparr>))"

definition value_bytes :: "sqlValue \<Rightarrow> byte list" where
  "value_bytes v = (case v of SqlBlob b \<Rightarrow> b | SqlText t \<Rightarrow> map (\<lambda>c. of_nat (of_char c)) t)"

definition so_WebAuthnCredentials :: "db \<Rightarrow> byte list list" where
  "so_WebAuthnCredentials d = map (value_bytes \<circ> roData) (sql_select (\<lambda>r. roKind r = ''webauthn'') (dbOperator d))"

definition so_SaveWebAuthnCredential :: "string \<Rightarrow> byte list \<Rightarrow> int \<Rightarrow> db \<Rightarrow> db result" where
  "so_SaveWebAuthnCredential i cred createdAt = so_insert i ''webauthn'' (SqlBlob cred) createdAt"

definition so_LastTOTPStep :: "db \<Rightarrow> int" where
  "so_LastTOTPStep d = (case totp_row d of None \<Rightarrow> 0 | Some r \<Rightarrow> (case roLastUsedAt r of None \<Rightarrow> 0 | Some s \<Rightarrow> s))"

definition so_SetTOTPStep :: "int \<Rightarrow> db \<Rightarrow> db" where
  "so_SetTOTPStep step d = d\<lparr>dbOperator := snd (sql_update (\<lambda>r. roKind r = ''totp'') (\<lambda>r. r\<lparr>roLastUsedAt := Some step\<rparr>) (dbOperator d))\<rparr>"

definition sos_Create :: "string \<Rightarrow> int \<Rightarrow> int \<Rightarrow> db \<Rightarrow> db result" where
  "sos_Create i createdAt expiresAt d =
     (case sql_insert rosId \<lparr>rosId = i, rosCreatedAt = createdAt, rosExpiresAt = expiresAt, rosLastSeenAt = None\<rparr> (dbOpSessions d) of
        Inl err \<Rightarrow> Inl (constraint_error err) | Inr rows \<Rightarrow> Inr (d\<lparr>dbOpSessions := rows\<rparr>))"

definition sos_Validate :: "string \<Rightarrow> int \<Rightarrow> db \<Rightarrow> (bool \<times> int) \<times> db" where
  "sos_Validate i now d = (case sql_row rosId i (dbOpSessions d) of
     None \<Rightarrow> ((False, 0), d)
   | Some r \<Rightarrow>
       if rosExpiresAt r \<le> now then ((False, 0), d)
       else ((True, rosExpiresAt r), d\<lparr>dbOpSessions := snd (sql_update (\<lambda>r. rosId r = i) (\<lambda>r. r\<lparr>rosLastSeenAt := Some now\<rparr>) (dbOpSessions d))\<rparr>))"

definition sos_Refresh :: "string \<Rightarrow> int \<Rightarrow> db \<Rightarrow> db" where
  "sos_Refresh i expiresAt d = d\<lparr>dbOpSessions := snd (sql_update (\<lambda>r. rosId r = i) (\<lambda>r. r\<lparr>rosExpiresAt := expiresAt\<rparr>) (dbOpSessions d))\<rparr>"

definition sos_Delete :: "string \<Rightarrow> db \<Rightarrow> db" where
  "sos_Delete i d = d\<lparr>dbOpSessions := snd (sql_delete (\<lambda>r. rosId r = i) (dbOpSessions d))\<rparr>"

subsection \<open>AuditStore (audit_store.go)\<close>

definition scanAuditEvent :: "auditRow \<Rightarrow> event" where
  "scanAuditEvent r = NewEvent (raTs r) (raActor r) (raAction r) (null_text (raMachineId r)) (null_text (raSessionId r)) (null_text (raDetail r))"

text \<open>AUTOINCREMENT: an ID larger than any the table has held.\<close>

definition sa_Append :: "nat \<Rightarrow> event \<Rightarrow> db \<Rightarrow> db" where
  "sa_Append i e d = d\<lparr>dbAudit := dbAudit d @ [\<lparr>raId = i, raTs = evTS e, raActor = evActor e, raAction = evAction e,
     raMachineId = nullString (evMachineID e), raSessionId = nullString (evSessionID e), raDetail = nullString (evDetail e)\<rparr>]\<rparr>"

text \<open>ORDER BY ts DESC, id DESC; a negative LIMIT is no limit.\<close>

definition sa_List :: "int \<Rightarrow> db \<Rightarrow> event list" where
  "sa_List limit d = (let rows = rev (sort_key raTs (sort_key raId (dbAudit d)))
     in map scanAuditEvent (if limit < 0 then rows else take (nat limit) rows))"

end
