(* ===== verification/Sqlite_Refinement.thy ===== *)
theory Sqlite_Refinement
  imports Sqlite_Stores
begin

text \<open>
  What the SQLite stores promise: they refine the in-memory stores (the abstraction of a table is the
  map from its key to the scanned row), so that what is proved of the use cases over the one holds
  over the other; they keep the constraints of the schema; and the deletion of a machine is
  complete or nothing.
\<close>

subsection \<open>The session table as a map\<close>

definition abs_sessions :: "db \<Rightarrow> sessionStore" where
  "abs_sessions d = table_map rsId scanSession (dbSessions d)"

lemma scan_id [simp]: "sId (scanSession r) = rsId r" "sMachineID (scanSession r) = rsMachineId r"
  "sStatus (scanSession r) = rsStatus r" "sAutoRelaunch (scanSession r) \<longleftrightarrow> rsAutoRelaunch r \<noteq> 0"
  by (auto simp: scanSession_def session_Rehydrate_def session_defs Let_def split: option.split)

text \<open>The columns and the fields they are scanned into.\<close>

lemma scan_status: "scanSession (r\<lparr>rsStatus := st\<rparr>) = session_SetStatus st (scanSession r)"
  by (simp add: scanSession_def session_Rehydrate_def session_defs Let_def split: option.split)

lemma scan_touch: "scanSession (r\<lparr>rsLastActiveAt := Some t\<rparr>) = session_Touch t (scanSession r)"
  by (simp add: scanSession_def session_Rehydrate_def session_defs Let_def split: option.split)

lemma scan_exit: "scanSession (r\<lparr>rsExitCode := Some c\<rparr>) = (scanSession r)\<lparr>sExitCode := c\<rparr>"
  by (simp add: scanSession_def session_Rehydrate_def session_defs Let_def split: option.split)

lemma scan_auto: "scanSession (r\<lparr>rsAutoRelaunch := (if v then 1 else 0)\<rparr>) = session_SetAutoRelaunch v (scanSession r)"
  by (simp add: scanSession_def session_Rehydrate_def session_defs Let_def split: option.split)

lemma scan_title: "scanSession (r\<lparr>rsTitle := nullString t\<rparr>) = session_SetTitle t (scanSession r)"
  by (simp add: scanSession_def session_Rehydrate_def session_defs Let_def split: option.split)

lemma scan_activity:
  "scanSession (r\<lparr>rsActivity := coalesce a (rsActivity r)\<rparr>) = (if a \<noteq> [] then session_SetActivity a (scanSession r) else scanSession r)"
  by (auto simp: scanSession_def session_Rehydrate_def session_defs Let_def coalesce_def nullString_def split: option.split)

lemma scan_pwd:
  "scanSession (r\<lparr>rsPwd := coalesce p (rsPwd r)\<rparr>) = (if p \<noteq> [] then session_SetPwd p (scanSession r) else scanSession r)"
  by (auto simp: scanSession_def session_Rehydrate_def session_defs Let_def coalesce_def nullString_def split: option.split)

lemma scan_stat:
  "scanSession (r\<lparr>rsActivity := coalesce a (rsActivity r), rsPwd := coalesce p (rsPwd r)\<rparr>) =
     (let s1 = (if a \<noteq> [] then session_SetActivity a (scanSession r) else scanSession r)
      in if p \<noteq> [] then session_SetPwd p s1 else s1)"
  using scan_activity [where r = r and a = a] scan_pwd [where r = "r\<lparr>rsActivity := coalesce a (rsActivity r)\<rparr>" and p = p] by (simp add: Let_def)

lemma scan_new: "scanSession (session_row (NewHubSession i m pr t sh cwd now)) = NewHubSession i m pr t sh cwd now"
  by (simp add: scanSession_def session_row_def NewHubSession_def session_Rehydrate_def Let_def)

subsection \<open>The constraints are kept\<close>

definition session_row_ok :: "db \<Rightarrow> sessionRow \<Rightarrow> bool" where
  "session_row_ok d r \<longleftrightarrow> has_machine (rsMachineId r) d \<and> (\<forall>p. rsProjectId r = Some p \<longrightarrow> has_project p d) \<and>
     rsAutoRelaunch r \<in> {0, 1} \<and> rsProjectId r \<noteq> Some []"

lemma wf_sessions_rows: "wf_db d \<Longrightarrow> keyed rsId (dbSessions d) \<and> (\<forall>r \<in> set (dbSessions d). session_row_ok d r)"
  by (auto simp: wf_db_def keys_ok_def refs_ok_def rows_ok_def session_row_ok_def)

lemma wf_db_sessions:
  "wf_db d \<Longrightarrow> keyed rsId rows \<Longrightarrow> (\<And>r. r \<in> set rows \<Longrightarrow> session_row_ok d r) \<Longrightarrow> wf_db (d\<lparr>dbSessions := rows\<rparr>)"
  by (auto simp: wf_db_def keys_ok_def refs_ok_def rows_ok_def session_row_ok_def has_machine_def has_project_def)

lemma wf_abs_sessions: "wf_db d \<Longrightarrow> wf_sessions (abs_sessions d)"
  by (auto dest!: wf_sessions_rows simp: wf_sessions_def abs_sessions_def table_map_wf row_lookup dest!: row_present)

text \<open>Updates that leave the key and the references alone.\<close>

definition keeps_keys :: "(sessionRow \<Rightarrow> sessionRow) \<Rightarrow> bool" where
  "keeps_keys f \<longleftrightarrow> (\<forall>r. rsId (f r) = rsId r \<and> rsMachineId (f r) = rsMachineId r \<and> rsProjectId (f r) = rsProjectId r \<and>
     (rsAutoRelaunch r \<in> {0, 1} \<longrightarrow> rsAutoRelaunch (f r) \<in> {0, 1}))"

lemma sq_update_all_wf:
  assumes "wf_db d" "keeps_keys f" "sq_update_all P f d = Inr d'"
  shows "wf_db d'"
proof -
  define g where "g = (\<lambda>r. if P r then f r else r)"
  have "session_row_ok d (g r)" if "r \<in> set (dbSessions d)" for r
  proof -
    have "session_row_ok d r" using that wf_sessions_rows [OF assms(1)] by blast
    then show ?thesis using assms(2) [unfolded keeps_keys_def, rule_format, of r] unfolding session_row_ok_def g_def by simp
  qed
  moreover have "keyed rsId (map g (dbSessions d))"
    using wf_sessions_rows [OF assms(1)] assms(2) by (intro update_keyed) (auto simp: keeps_keys_def g_def)
  ultimately have "wf_db (d\<lparr>dbSessions := map g (dbSessions d)\<rparr>)"
    by (intro wf_db_sessions [OF assms(1)]) auto
  then show ?thesis using assms(3) by (simp add: sq_update_all_def sql_update_def g_def)
qed

lemma sq_update_one_wf: "wf_db d \<Longrightarrow> keeps_keys f \<Longrightarrow> sq_update_one f i d = Inr d' \<Longrightarrow> wf_db d'"
  using sq_update_all_wf [of d f "\<lambda>r. rsId r = i"] by (auto simp: sq_update_one_def sq_update_all_def split: prod.splits if_splits)

subsection \<open>The session store refines the in-memory one\<close>

lemma sq_update_one_refines:
  assumes "wf_db d" "keeps_keys f" "\<And>r. session_row_ok d r \<Longrightarrow> scanSession (f r) = g (scanSession r)"
  shows "map_sum id abs_sessions (sq_update_one f i d) = ss_modify g i (abs_sessions d)"
proof (cases "sql_row rsId i (dbSessions d)")
  case None
  then have "length (filter (\<lambda>r. rsId r = i) (dbSessions d)) = 0" unfolding affected_none .
  then show ?thesis using None
    by (simp add: sq_update_one_def sql_update_def ss_modify_def abs_sessions_def row_lookup)
next
  case (Some x)
  have n: "length (filter (\<lambda>r. rsId r = i) (dbSessions d)) \<noteq> 0" unfolding affected_none using Some by simp
  have "session_row_ok d x" "keyed rsId (dbSessions d)" using row_present [OF Some] wf_sessions_rows [OF assms(1)] by auto
  then have "table_map rsId scanSession (map (\<lambda>r. if rsId r = i then f r else r) (dbSessions d)) =
      m_put i (g (scanSession x)) (table_map rsId scanSession (dbSessions d))"
    using Some assms(2,3) by (intro update_one_map) (auto simp: keeps_keys_def)
  then show ?thesis using n Some
    by (simp add: sq_update_one_def sql_update_def ss_modify_def abs_sessions_def row_lookup)
qed

lemma sq_update_all_refines:
  assumes "wf_db d" "keeps_keys f" "\<And>r. session_row_ok d r \<Longrightarrow> scanSession (if P r then f r else r) = h (scanSession r)"
  shows "map_sum id abs_sessions (sq_update_all P f d) = Inr (m_each h (abs_sessions d))"
proof -
  have "table_map rsId scanSession (map (\<lambda>r. if P r then f r else r) (dbSessions d)) =
      m_each h (table_map rsId scanSession (dbSessions d))"
    using assms wf_sessions_rows [OF assms(1)] by (intro update_all_map) (auto simp: keeps_keys_def)
  then show ?thesis by (simp add: sq_update_all_def sql_update_def abs_sessions_def)
qed

text \<open>Every state-changing call of the store: the constraints stay, and the map changes as in memory.\<close>

definition refined :: "(db \<Rightarrow> db result) \<Rightarrow> (sessionStore \<Rightarrow> sessionStore result) \<Rightarrow> bool" where
  "refined op mop \<longleftrightarrow> (\<forall>d. wf_db d \<longrightarrow> map_sum id abs_sessions (op d) = mop (abs_sessions d) \<and> (\<forall>d'. op d = Inr d' \<longrightarrow> wf_db d'))"

lemma refined_one:
  "keeps_keys f \<Longrightarrow> (\<And>r. scanSession (f r) = g (scanSession r)) \<Longrightarrow> refined (sq_update_one f i) (ss_modify g i)"
  by (auto simp: refined_def sq_update_one_refines intro: sq_update_one_wf)

lemma refined_all:
  "keeps_keys f \<Longrightarrow> (\<And>d r. session_row_ok d r \<Longrightarrow> scanSession (if P r then f r else r) = h (scanSession r)) \<Longrightarrow>
    (\<And>d. mop d = Inr (m_each h d)) \<Longrightarrow> refined (sq_update_all P f) mop"
  by (auto simp: refined_def sq_update_all_refines intro: sq_update_all_wf)

lemma refined_setters:
  "refined (sq_SetRunning i) (ss_SetRunning i)"
  "refined (sq_SetLost i ts) (ss_SetLost i ts)"
  "refined (sq_SetExited i c ts) (ss_SetExited i c ts)"
  "refined (sq_SetTitle i t) (ss_SetTitle i t)"
  "refined (sq_SetAutoRelaunch i v) (ss_SetAutoRelaunch i v)"
  unfolding sq_SetRunning_def sq_SetLost_def sq_SetExited_def sq_SetTitle_def sq_SetAutoRelaunch_def
    ss_SetRunning_def ss_SetLost_def ss_SetExited_def ss_SetTitle_def ss_SetAutoRelaunch_def
  by (rule refined_one; simp add: keeps_keys_def scan_status scan_touch scan_exit scan_title scan_auto session_defs)+

lemma refined_stat: "refined (sq_SetStat i a p t) (ss_SetStat i a p t)"
proof (cases "t > 0")
  case True
  then show ?thesis unfolding sq_SetStat_def ss_SetStat_def
    by (simp, intro refined_one) (simp_all add: keeps_keys_def scan_touch scan_stat Let_def)
next
  case False
  then show ?thesis unfolding sq_SetStat_def ss_SetStat_def
    by (simp, intro refined_one) (simp_all add: keeps_keys_def scan_stat Let_def)
qed

lemma refined_bulk:
  "refined (sq_MarkRunningLost m ts) (ss_MarkRunningLost m ts)"
  "refined (sq_MarkRunningDisconnected m ts) (ss_MarkRunningDisconnected m ts)"
  "refined (sq_MarkDisconnectedRunning m) (ss_MarkDisconnectedRunning m)"
  by (unfold sq_MarkRunningLost_def sq_MarkRunningDisconnected_def sq_MarkDisconnectedRunning_def)
    (rule refined_all, auto simp: keeps_keys_def scan_status scan_touch session_row_ok_def ss_MarkRunningLost_def
      ss_MarkRunningDisconnected_def ss_MarkDisconnectedRunning_def)+

lemma refined_delete: "refined (sq_Delete i) (ss_Delete i)"
proof (unfold refined_def, intro allI impI)
  fix d assume wf: "wf_db d"
  have "map_sum id abs_sessions (sq_Delete i d) = ss_Delete i (abs_sessions d)"
  proof (cases "sql_row rsId i (dbSessions d)")
    case None
    then have "length (filter (\<lambda>r. rsId r = i) (dbSessions d)) = 0" unfolding affected_none .
    then show ?thesis using None by (simp add: sq_Delete_def sql_delete_def ss_Delete_def abs_sessions_def row_lookup)
  next
    case (Some x)
    then have "length (filter (\<lambda>r. rsId r = i) (dbSessions d)) \<noteq> 0" unfolding affected_none by simp
    then show ?thesis using Some
      by (simp add: sq_Delete_def sql_delete_def ss_Delete_def abs_sessions_def row_lookup delete_one_map)
  qed
  moreover have "wf_db d'" if "sq_Delete i d = Inr d'" for d'
    using that wf wf_sessions_rows [OF wf]
    by (auto simp: sq_Delete_def sql_delete_def intro!: wf_db_sessions delete_keyed split: if_splits)
  ultimately show "map_sum id abs_sessions (sq_Delete i d) = ss_Delete i (abs_sessions d) \<and> (\<forall>d'. sq_Delete i d = Inr d' \<longrightarrow> wf_db d')"
    by blast
qed

lemma sq_reads:
  "wf_db d \<Longrightarrow> sq_AutoRelaunchSessions m d = ss_AutoRelaunchSessions m (abs_sessions d)"
  "sq_ListByMachine m d = ss_ListByMachine m (abs_sessions d)"
  "sq_List d = ss_List (abs_sessions d)"
  "sq_ByID i d = ss_ByID i (abs_sessions d)"
proof -
  show "sq_AutoRelaunchSessions m d = ss_AutoRelaunchSessions m (abs_sessions d)" if wf: "wf_db d"
  proof -
    have "filter (\<lambda>r. rsMachineId r = m \<and> rsStatus r \<in> {SRunning, SDisconnected} \<and> rsAutoRelaunch r = 1) (dbSessions d) =
        filter (\<lambda>r. rsMachineId r = m \<and> (rsStatus r = SRunning \<or> rsStatus r = SDisconnected) \<and> rsAutoRelaunch r \<noteq> 0) (dbSessions d)"
      using wf_sessions_rows [OF wf] by (intro filter_cong) (auto simp: session_row_ok_def)
    then show ?thesis
      by (simp add: sq_AutoRelaunchSessions_def ss_AutoRelaunchSessions_def abs_sessions_def sql_select_def filter_map comp_def)
  qed
  show "sq_ListByMachine m d = ss_ListByMachine m (abs_sessions d)"
    by (simp add: sq_ListByMachine_def ss_ListByMachine_def abs_sessions_def sql_select_def filter_map comp_def)
  show "sq_List d = ss_List (abs_sessions d)" by (simp add: sq_List_def ss_List_def abs_sessions_def)
  show "sq_ByID i d = ss_ByID i (abs_sessions d)"
    by (simp add: sq_ByID_def ss_ByID_def abs_sessions_def row_lookup split: option.split)
qed

lemma sq_Create_refines:
  assumes "wf_db d" "sq_Create (NewHubSession i m pr t sh cwd now) d = Inr d'"
  shows "wf_db d' \<and> ss_Create (NewHubSession i m pr t sh cwd now) (abs_sessions d) = Inr (abs_sessions d') \<and> has_machine m d \<and>
    (pr = [] \<or> has_project pr d) \<and> sql_row rsId i (dbSessions d) = None"
proof -
  let ?s = "NewHubSession i m pr t sh cwd now"
  have k: "rsId (session_row ?s) = i" "sId ?s = i" by (simp_all add: session_row_def NewHubSession_def)
  have d': "d' = d\<lparr>dbSessions := dbSessions d @ [session_row ?s]\<rparr>" "i \<notin> rsId ` set (dbSessions d)"
    and refs: "has_machine m d" "pr = [] \<or> has_project pr d"
    using assms(2) k by (auto simp: sq_Create_def sql_insert_def NewHubSession_def split: if_splits)
  have "session_row_ok d (session_row ?s)"
    using refs by (auto simp: session_row_ok_def session_row_def NewHubSession_def)
  then have "wf_db d'" using assms(1) wf_sessions_rows [OF assms(1)] d' k
    by (auto simp: intro!: wf_db_sessions insert_keyed)
  then show ?thesis using d' k refs insert_map [OF d'(2) k(1), of scanSession]
    by (simp add: ss_Create_def abs_sessions_def scan_new row_absent)
qed


subsection \<open>The contract of the sessions use case\<close>

lemma refined_updates_one:
  assumes "refined op mop" "updates_one m_get wf_sessions mop i f"
  shows "updates_one (\<lambda>d. m_get (abs_sessions d)) wf_db op i f"
  unfolding updates_one_def
proof (intro allI impI)
  fix d assume wf: "wf_db d"
  then have r: "map_sum id abs_sessions (op d) = mop (abs_sessions d)" "\<And>d'. op d = Inr d' \<Longrightarrow> wf_db d'"
    using assms(1) by (auto simp: refined_def)
  have m: "case m_get (abs_sessions d) i of None \<Rightarrow> mop (abs_sessions d) = Inl ErrSessionNotFound
      | Some x \<Rightarrow> \<exists>s'. mop (abs_sessions d) = Inr s' \<and> wf_sessions s' \<and> m_get s' = (m_get (abs_sessions d))(i \<mapsto> f x)"
    using assms(2) wf_abs_sessions [OF wf] by (simp add: updates_one_def)
  show "case m_get (abs_sessions d) i of None \<Rightarrow> op d = Inl ErrSessionNotFound
      | Some x \<Rightarrow> \<exists>d'. op d = Inr d' \<and> wf_db d' \<and> m_get (abs_sessions d') = (m_get (abs_sessions d))(i \<mapsto> f x)"
    using r m by (cases "op d") (auto split: option.splits)
qed

lemma refined_updates_all:
  assumes "refined op mop" "updates_all m_get wf_sessions mop f"
  shows "updates_all (\<lambda>d. m_get (abs_sessions d)) wf_db op f"
  unfolding updates_all_def
proof (intro allI impI)
  fix d assume wf: "wf_db d"
  obtain s' where s': "mop (abs_sessions d) = Inr s'" "\<And>i. m_get s' i = map_option f (m_get (abs_sessions d) i)"
    using assms(2) wf_abs_sessions [OF wf] by (auto simp: updates_all_def)
  then show "\<exists>d'. op d = Inr d' \<and> wf_db d' \<and> (\<forall>i. m_get (abs_sessions d') i = map_option f (m_get (abs_sessions d) i))"
    using assms(1) wf by (cases "op d") (auto simp: refined_def)
qed

lemma port_setters:
  "updates_one m_get wf_sessions (ss_SetExited i c ts) i (session_SetExited c ts)"
  "updates_one m_get wf_sessions (ss_SetRunning i) i (session_SetStatus SRunning)"
  "updates_one m_get wf_sessions (ss_SetLost i ts) i (lost_at ts)"
  "updates_all m_get wf_sessions (ss_MarkRunningLost m ts) (\<lambda>x. if live_on m x \<and> \<not> sAutoRelaunch x then lost_at ts x else x)"
  "updates_all m_get wf_sessions (ss_MarkRunningDisconnected m ts)
     (\<lambda>x. if sMachineID x = m \<and> sStatus x = SRunning then session_Touch ts (session_SetStatus SDisconnected x) else x)"
  "updates_all m_get wf_sessions (ss_MarkDisconnectedRunning m)
     (\<lambda>x. if sMachineID x = m \<and> sStatus x = SDisconnected then session_SetStatus SRunning x else x)"
  using mem.SetExited_law [of i c ts] mem.SetRunning_law [of i] mem.SetLost_law [of i ts] mem.MarkLost_law [of m ts]
    mem.MarkDisc_law [of m ts] mem.MarkRun_law [of m]
  by (simp_all add: memory_port_def)

interpretation sql: session_store_laws sqlite_port "\<lambda>d. m_get (abs_sessions d)" wf_db
proof
  show "wf_db d \<Longrightarrow> m_get (abs_sessions d) i = Some x \<Longrightarrow> sId x = i" for d i x
    using wf_abs_sessions by (auto simp: wf_sessions_def)
  show "wf_db d \<Longrightarrow> spByID sqlite_port i d = (case m_get (abs_sessions d) i of None \<Rightarrow> Inl ErrSessionNotFound | Some x \<Rightarrow> Inr x)" for d i
    by (simp add: sqlite_port_def sq_reads ss_ByID_def)
  show "wf_db d' \<and> m_get (abs_sessions d') = (m_get (abs_sessions d))(i \<mapsto> NewHubSession i m pr t sh cwd now)"
    if "wf_db d" "spCreate sqlite_port (NewHubSession i m pr t sh cwd now) d = Inr d'" for d i m pr t sh cwd now d'
  proof -
    have "sq_Create (NewHubSession i m pr t sh cwd now) d = Inr d'" using that(2) by (simp add: sqlite_port_def)
    from sq_Create_refines [OF that(1) this] have wf: "wf_db d'"
      and put: "abs_sessions d' = m_put i (NewHubSession i m pr t sh cwd now) (abs_sessions d)"
      by (auto simp: ss_Create_def NewHubSession_def)
    show ?thesis by (rule conjI [OF wf], unfold put) (simp add: fun_eq_iff)
  qed
  show "\<exists>d'. spDelete sqlite_port i d = Inr d' \<and> wf_db d' \<and> m_get (abs_sessions d') = (m_get (abs_sessions d))(i := None)"
    if "wf_db d" "m_get (abs_sessions d) i = Some x" for d i x
    using refined_delete [of i, unfolded refined_def, rule_format, OF that(1)] that(2)
    by (cases "sq_Delete i d") (auto simp: sqlite_port_def ss_Delete_def fun_eq_iff)
  show "wf_db d \<Longrightarrow> \<exists>xs. spAutoRelaunchSessions sqlite_port m d = Inr xs \<and> distinct (map sId xs) \<and>
      (\<forall>x. x \<in> set xs \<longleftrightarrow> m_get (abs_sessions d) (sId x) = Some x \<and> live_on m x \<and> sAutoRelaunch x)" for d m
    using memory_auto [OF wf_abs_sessions] by (simp add: sqlite_port_def sq_reads)
  show "updates_one (\<lambda>d. m_get (abs_sessions d)) wf_db (spSetExited sqlite_port i c ts) i (session_SetExited c ts)" for i c ts
    using refined_updates_one [OF refined_setters(3) port_setters(1)] by (simp add: sqlite_port_def)
  show "updates_one (\<lambda>d. m_get (abs_sessions d)) wf_db (spSetRunning sqlite_port i) i (session_SetStatus SRunning)" for i
    using refined_updates_one [OF refined_setters(1) port_setters(2)] by (simp add: sqlite_port_def)
  show "updates_one (\<lambda>d. m_get (abs_sessions d)) wf_db (spSetLost sqlite_port i ts) i (lost_at ts)" for i ts
    using refined_updates_one [OF refined_setters(2) port_setters(3)] by (simp add: sqlite_port_def)
  show "updates_all (\<lambda>d. m_get (abs_sessions d)) wf_db (spMarkRunningLost sqlite_port m ts)
      (\<lambda>x. if live_on m x \<and> \<not> sAutoRelaunch x then lost_at ts x else x)" for m ts
    using refined_updates_all [OF refined_bulk(1) port_setters(4)] by (simp add: sqlite_port_def)
  show "updates_all (\<lambda>d. m_get (abs_sessions d)) wf_db (spMarkRunningDisconnected sqlite_port m ts)
      (\<lambda>x. if sMachineID x = m \<and> sStatus x = SRunning then session_Touch ts (session_SetStatus SDisconnected x) else x)" for m ts
    using refined_updates_all [OF refined_bulk(2) port_setters(5)] by (simp add: sqlite_port_def)
  show "updates_all (\<lambda>d. m_get (abs_sessions d)) wf_db (spMarkDisconnectedRunning sqlite_port m)
      (\<lambda>x. if sMachineID x = m \<and> sStatus x = SDisconnected then session_SetStatus SRunning x else x)" for m
    using refined_updates_all [OF refined_bulk(3) port_setters(6)] by (simp add: sqlite_port_def)
qed

subsection \<open>Histories of calls\<close>

text \<open>The calls of a session store, with what each answers: an error, or the sessions returned.\<close>

datatype sessionCall =
    CallCreate string string string string string string int
  | CallByID string
  | CallList
  | CallListByMachine string
  | CallAutoRelaunchSessions string
  | CallSetExited string int int
  | CallMarkRunningLost string int
  | CallMarkRunningDisconnected string int
  | CallMarkDisconnectedRunning string
  | CallSetRunning string
  | CallSetLost string int
  | CallSetTitle string string
  | CallSetAutoRelaunch string bool
  | CallSetStat string string string int
  | CallDelete string

definition kept :: "'s result \<Rightarrow> 's \<Rightarrow> hsession list result \<times> 's" where
  "kept r d = (case r of Inl err \<Rightarrow> (Inl err, d) | Inr d' \<Rightarrow> (Inr [], d'))"

fun session_call :: "'s session_port \<Rightarrow> sessionCall \<Rightarrow> 's \<Rightarrow> hsession list result \<times> 's" where
  "session_call p (CallCreate i m pr t sh cwd now) d = kept (spCreate p (NewHubSession i m pr t sh cwd now) d) d"
| "session_call p (CallByID i) d = (map_sum id (\<lambda>x. [x]) (spByID p i d), d)"
| "session_call p CallList d = (spList p d, d)"
| "session_call p (CallListByMachine m) d = (spListByMachine p m d, d)"
| "session_call p (CallAutoRelaunchSessions m) d = (spAutoRelaunchSessions p m d, d)"
| "session_call p (CallSetExited i c ts) d = kept (spSetExited p i c ts d) d"
| "session_call p (CallMarkRunningLost m ts) d = kept (spMarkRunningLost p m ts d) d"
| "session_call p (CallMarkRunningDisconnected m ts) d = kept (spMarkRunningDisconnected p m ts d) d"
| "session_call p (CallMarkDisconnectedRunning m) d = kept (spMarkDisconnectedRunning p m d) d"
| "session_call p (CallSetRunning i) d = kept (spSetRunning p i d) d"
| "session_call p (CallSetLost i ts) d = kept (spSetLost p i ts d) d"
| "session_call p (CallSetTitle i t) d = kept (spSetTitle p i t d) d"
| "session_call p (CallSetAutoRelaunch i v) d = kept (spSetAutoRelaunch p i v d) d"
| "session_call p (CallSetStat i a pw t) d = kept (spSetStat p i a pw t d) d"
| "session_call p (CallDelete i) d = kept (spDelete p i d) d"

fun session_calls :: "'s session_port \<Rightarrow> sessionCall list \<Rightarrow> 's \<Rightarrow> hsession list result list \<times> 's" where
  "session_calls p [] d = ([], d)"
| "session_calls p (c # cs) d = (case session_call p c d of (r, d1) \<Rightarrow>
     (case session_calls p cs d1 of (rs, d2) \<Rightarrow> (r # rs, d2)))"

definition violation :: "hsession list result \<Rightarrow> bool" where
  "violation r \<longleftrightarrow> (\<exists>err. r = Inl (constraint_error err))"

lemma kept_refined:
  "refined op mop \<Longrightarrow> wf_db d \<Longrightarrow> map_prod id abs_sessions (kept (op d) d) = kept (mop (abs_sessions d)) (abs_sessions d) \<and>
    wf_db (snd (kept (op d) d))"
  using refined_def [THEN iffD1, rule_format, of op mop d] by (cases "op d") (auto simp: kept_def split: sum.split)

lemma session_call_refines:
  assumes wf: "wf_db d" and run: "session_call sqlite_port c d = (r, d')" and ok: "\<not> violation r"
  shows "session_call memory_port c (abs_sessions d) = (r, abs_sessions d') \<and> wf_db d'"
proof (cases c)
  case (CallCreate i m pr t sh cwd now)
  let ?s = "NewHubSession i m pr t sh cwd now"
  show ?thesis
  proof (cases "sq_Create ?s d")
    case (Inl err)
    then show ?thesis using run ok CallCreate
      by (auto simp: sqlite_port_def kept_def violation_def sq_Create_def split: sum.splits if_splits)
  next
    case (Inr d2)
    from sq_Create_refines [OF wf this] Inr show ?thesis using run CallCreate
      by (auto simp: sqlite_port_def memory_port_def kept_def)
  qed
next
  case (CallByID i)
  then show ?thesis using run wf by (auto simp: sqlite_port_def memory_port_def sq_reads)
next
  case CallList
  then show ?thesis using run wf by (auto simp: sqlite_port_def memory_port_def sq_reads)
next
  case (CallListByMachine m)
  then show ?thesis using run wf by (auto simp: sqlite_port_def memory_port_def sq_reads)
next
  case (CallAutoRelaunchSessions m)
  then show ?thesis using run wf by (auto simp: sqlite_port_def memory_port_def sq_reads)
next
  case (CallSetExited i c ts)
  then show ?thesis using run kept_refined [OF refined_setters(3) wf, of i c ts]
    by (auto simp: sqlite_port_def memory_port_def)
next
  case (CallMarkRunningLost m ts)
  then show ?thesis using run kept_refined [OF refined_bulk(1) wf, of m ts]
    by (auto simp: sqlite_port_def memory_port_def)
next
  case (CallMarkRunningDisconnected m ts)
  then show ?thesis using run kept_refined [OF refined_bulk(2) wf, of m ts]
    by (auto simp: sqlite_port_def memory_port_def)
next
  case (CallMarkDisconnectedRunning m)
  then show ?thesis using run kept_refined [OF refined_bulk(3) wf, of m]
    by (auto simp: sqlite_port_def memory_port_def)
next
  case (CallSetRunning i)
  then show ?thesis using run kept_refined [OF refined_setters(1) wf, of i]
    by (auto simp: sqlite_port_def memory_port_def)
next
  case (CallSetLost i ts)
  then show ?thesis using run kept_refined [OF refined_setters(2) wf, of i ts]
    by (auto simp: sqlite_port_def memory_port_def)
next
  case (CallSetTitle i t)
  then show ?thesis using run kept_refined [OF refined_setters(4) wf, of i t]
    by (auto simp: sqlite_port_def memory_port_def)
next
  case (CallSetAutoRelaunch i v)
  then show ?thesis using run kept_refined [OF refined_setters(5) wf, of i v]
    by (auto simp: sqlite_port_def memory_port_def)
next
  case (CallSetStat i a pw t)
  then show ?thesis using run kept_refined [OF refined_stat wf, of i a pw t]
    by (auto simp: sqlite_port_def memory_port_def)
next
  case (CallDelete i)
  then show ?thesis using run kept_refined [OF refined_delete wf, of i]
    by (auto simp: sqlite_port_def memory_port_def)
qed


subsection \<open>Deleting a machine\<close>

lemma sql_delete_rows: "snd (sql_delete P rows) = filter (\<lambda>r. \<not> P r) rows" by (simp add: sql_delete_def)

definition shares_projects :: "string \<Rightarrow> db \<Rightarrow> bool" where
  "shares_projects i d \<longleftrightarrow> (\<exists>s \<in> set (dbSessions d). rsMachineId s \<noteq> i \<and>
     (\<exists>p \<in> set (dbProjects d). rpMachineId p = i \<and> rsProjectId s = Some (rpId p)))"

definition without_machine :: "string \<Rightarrow> db \<Rightarrow> db" where
  "without_machine i d = d\<lparr>dbSessions := filter (\<lambda>r. rsMachineId r \<noteq> i) (dbSessions d),
     dbProjects := filter (\<lambda>r. rpMachineId r \<noteq> i) (dbProjects d),
     dbCredentials := filter (\<lambda>r. rcMachineId r \<noteq> i) (dbCredentials d),
     dbMachines := filter (\<lambda>r. rmId r \<noteq> i) (dbMachines d)\<rparr>"

lemma sm_Delete_cases:
  assumes "wf_db d"
  shows "sm_Delete i d = (if \<not> has_machine i d then (Inl ErrMachineNotFound, d)
    else if shares_projects i d then (Inl (constraint_error ForeignKeyViolation), d)
    else (Inr (), without_machine i d))"
proof -
  have refs: "\<And>r. r \<in> set (dbCredentials d) \<Longrightarrow> has_machine (rcMachineId r) d" "\<And>r. r \<in> set (dbProjects d) \<Longrightarrow> has_machine (rpMachineId r) d"
    using assms by (auto simp: wf_db_def refs_ok_def)
  let ?d1 = "delete_sessions_of i d"
  have blocked: "(\<exists>r \<in> set (dbSessions ?d1). case rsProjectId r of Some p \<Rightarrow> p \<in> rpId ` set (sql_select (\<lambda>r. rpMachineId r = i) (dbProjects ?d1)) | None \<Rightarrow> False) \<longleftrightarrow>
      shares_projects i d"
    by (auto simp: delete_sessions_of_def sql_delete_rows sql_select_def shares_projects_def split: option.splits) (metis image_eqI)+
  have d2: "delete_projects_of i ?d1 = (if shares_projects i d then Inl ForeignKeyViolation
      else Inr (?d1\<lparr>dbProjects := filter (\<lambda>r. rpMachineId r \<noteq> i) (dbProjects d)\<rparr>))"
    unfolding delete_projects_of_def Let_def blocked by (simp add: delete_sessions_of_def sql_delete_rows)
  have none: "\<not> has_machine i d \<Longrightarrow> \<not> shares_projects i d" using refs by (auto simp: shares_projects_def)
  have n: "length (filter (\<lambda>r. rmId r = i) (dbMachines d)) = 0 \<longleftrightarrow> \<not> has_machine i d"
    by (auto simp: has_machine_def filter_empty_conv)
  show ?thesis
  proof (cases "shares_projects i d")
    case True
    then show ?thesis using d2 none by (auto simp: sm_Delete_def)
  next
    case False
    let ?d3 = "delete_credentials_of i (?d1\<lparr>dbProjects := filter (\<lambda>r. rpMachineId r \<noteq> i) (dbProjects d)\<rparr>)"
    have "delete_machine_row i ?d3 = Inr (length (filter (\<lambda>r. rmId r = i) (dbMachines d)), without_machine i d)"
      by (auto simp: delete_machine_row_def delete_credentials_of_def delete_sessions_of_def sql_delete_def without_machine_def)
    then show ?thesis using d2 False n by (simp add: sm_Delete_def)
  qed
qed

lemma without_machine_wf: "wf_db d \<Longrightarrow> \<not> shares_projects i d \<Longrightarrow> wf_db (without_machine i d)"
  by (auto simp: wf_db_def keys_ok_def refs_ok_def rows_ok_def has_machine_def has_project_def without_machine_def
      shares_projects_def delete_keyed distinct_map_filter image_iff) metis

subsection \<open>Properties\<close>


text \<open>A database with two machines, a project of the one and a session of the other in that project.\<close>

definition demoDb :: db where
  "demoDb = emptyDb\<lparr>
     dbMachines := [machine_row (machine_Rehydrate ''m1'' [] ''a'' ''linux'' [] [] 1 1), machine_row (machine_Rehydrate ''m2'' [] ''b'' ''linux'' [] [] 1 1)],
     dbProjects := [project_row (project_Rehydrate ''p1'' ''m1'' ''p'' ''/p'' [] 1)],
     dbSessions := [session_row (NewHubSession ''s1'' ''m2'' ''p1'' ''t'' ''sh'' ''/'' 5)]\<rparr>"

lemma demoDb_wf: "wf_db demoDb"
  by (simp add: demoDb_def emptyDb_def wf_db_def keys_ok_def refs_ok_def rows_ok_def has_machine_def has_project_def keyed_def
      machine_row_def machine_Rehydrate_def project_row_def project_Rehydrate_def session_row_def NewHubSession_def)

text \<open>Witness for \<open>sqlite_sessions_refine_memory\<close>: mark lost, delete, list.\<close>

lemma demo_calls:
  "session_calls sqlite_port [CallMarkRunningLost ''m2'' 9, CallSetExited ''s2'' 0 9, CallDelete ''s1'', CallList] demoDb =
    ([Inr [], Inl ErrSessionNotFound, Inr [], Inr []], demoDb\<lparr>dbSessions := []\<rparr>)"
  by code_simp



definition demoDbWorld :: "(db, unit) sessions_world" where
  "demoDbWorld = \<lparr>swStore = demoDb, swGateway = (), swAudit = [], swNow = 200, swActor = None\<rparr>"


text \<open>
  C8: opening a session is all or nothing. Either the session is recorded, as running and on its
  machine, with one event in the audit log, or nothing is recorded at all (the agent refused, or the
  project or machine is unknown to the database); and in the second case an agent that had already
  started the shell is told to close it.
\<close>
theorem open_all_or_nothing:
  assumes "wf_db (swStore w)" "uc_Open sqlite_port g inp i name w = (res, w')"
  shows "case res of
      Inr s \<Rightarrow> wf_db (swStore w') \<and> m_get (abs_sessions (swStore w')) = (m_get (abs_sessions (swStore w)))(i \<mapsto> s) \<and>
        sId s = i \<and> sStatus s = SRunning \<and> sMachineID s = oiMachineID inp \<and>
        swAudit w' = swAudit w @ [NewEvent (swNow w) (ActorFromContext (swActor w)) ActionOpen (oiMachineID inp) i []]
    | Inl err \<Rightarrow> swStore w' = swStore w \<and> swAudit w' = swAudit w \<and>
        (\<forall>pid w1. Open_request g inp i w = (Inr pid, w1) \<longrightarrow>
           swGateway w' = snd (gwCloseSession g (oiMachineID inp) i (swGateway w1)))"
  using assms by (rule sql.Open_outcome)

text \<open>Witness for \<open>open_all_or_nothing\<close>: an agent that keeps its open sessions, and a project that does not exist.\<close>

definition listGateway :: "string list agent_gateway" where
  "listGateway = \<lparr>gwOpenSession = (\<lambda>_ i _ _ _ _ _ _ gw. (Inr 7, i # gw)), gwCloseSession = (\<lambda>_ i gw. (Inr (), removeAll i gw))\<rparr>"

definition demoListWorld :: "(db, string list) sessions_world" where
  "demoListWorld = \<lparr>swStore = demoDb, swGateway = [], swAudit = [], swNow = 200, swActor = None\<rparr>"

definition demoOpen :: openInput where
  "demoOpen = \<lparr>oiMachineID = ''m1'', oiProjectID = ''px'', oiTitle = ''t'', oiCwd = ''/'', oiShell = ''sh'', oiCols = 0, oiRows = 0,
     oiCreateDir = False\<rparr>"

theorem open_all_or_nothing_witness:
  "\<exists>err w'. uc_Open sqlite_port listGateway demoOpen ''s2'' ''n'' demoListWorld = (Inl err, w') \<and> swStore w' = demoDb \<and>
    swAudit w' = [] \<and> swGateway w' = []"
proof -
  have o: "Open_request listGateway demoOpen ''s2'' demoListWorld = (Inr 7, demoListWorld\<lparr>swGateway := [''s2'']\<rparr>)"
    by (simp add: Open_request_def listGateway_def demoOpen_def demoListWorld_def)
  have e: "fst (uc_Open sqlite_port listGateway demoOpen ''s2'' ''n'' demoListWorld) = Inl (constraint_error ForeignKeyViolation)"
    by code_simp
  obtain w' where r: "uc_Open sqlite_port listGateway demoOpen ''s2'' ''n'' demoListWorld = (Inl (constraint_error ForeignKeyViolation), w')"
    using e by (metis prod.collapse)
  have wf: "wf_db (swStore demoListWorld)" by (simp add: demoListWorld_def demoDb_wf)
  from open_all_or_nothing [OF wf r] o r show ?thesis by (auto simp: demoListWorld_def listGateway_def demoOpen_def)
qed

text \<open>
  C34: deleting a machine is a complete cascade or nothing. If the machine exists and no session of
  another machine is in one of its projects, the machine and every session, project and credential
  of it are gone and nothing else is; otherwise the call fails and the database is what it was. In
  both cases the constraints of the schema hold.
\<close>
theorem machine_delete_all_or_nothing:
  assumes "wf_db d"
  shows "wf_db (snd (sm_Delete i d)) \<and> sm_Delete i d = (if \<not> has_machine i d then (Inl ErrMachineNotFound, d)
    else if shares_projects i d then (Inl (constraint_error ForeignKeyViolation), d)
    else (Inr (), without_machine i d))"
  using sm_Delete_cases [OF assms, of i] without_machine_wf [OF assms, of i] assms by simp

text \<open>Witness for \<open>machine_delete_all_or_nothing\<close>: machine \<open>m1\<close>, whose project a session of \<open>m2\<close> is in.\<close>
theorem machine_delete_all_or_nothing_witness:
  "sm_Delete ''m1'' demoDb = (Inl (constraint_error ForeignKeyViolation), demoDb) \<and>
    sm_Delete ''m2'' demoDb = (Inr (), without_machine ''m2'' demoDb)"
proof -
  have "has_machine ''m1'' demoDb" "has_machine ''m2'' demoDb" "shares_projects ''m1'' demoDb" "\<not> shares_projects ''m2'' demoDb"
    by (code_simp, code_simp, code_simp, code_simp)
  then show ?thesis using machine_delete_all_or_nothing [OF demoDb_wf, of "''m1''"] machine_delete_all_or_nothing [OF demoDb_wf, of "''m2''"]
    by simp
qed

end
