(* ===== verification/Sqlite_Migrate.thy ===== *)
theory Sqlite_Migrate
  imports Sql_Tables "HOL-Library.List_Lexorder" "HOL-Library.Char_ord" "HOL-Library.Sublist" "HOL-Library.Multiset"
begin

text \<open>
  The schema migrations of the hub's database, \<^verbatim>\<open>internal/hub/adapter/secondary/sqlite/migrate.go\<close>. The
  execution of a migration's SQL text is a parameter, \<open>exec\<close>: the new contents, or None if a statement
  fails; each migration and its record are one transaction.
\<close>

record 'd migrateDb =
  mdApplied :: "(string \<times> int) list"
  mdData :: 'd

definition sql_file :: "string \<times> bool \<Rightarrow> bool" where
  "sql_file e \<longleftrightarrow> \<not> snd e \<and> suffix ''.sql'' (fst e)"

fun migrate_loop :: "(string \<Rightarrow> 'd \<Rightarrow> 'd option) \<Rightarrow> (string \<Rightarrow> int) \<Rightarrow> (string \<times> bool) list \<Rightarrow> 'd migrateDb \<Rightarrow>
    (string + unit) \<times> 'd migrateDb" where
  "migrate_loop exec clock [] m = (Inr (), m)"
| "migrate_loop exec clock (e # es) m =
     (if \<not> sql_file e then migrate_loop exec clock es m
      else let version = fst e in
        if sql_row fst version (mdApplied m) \<noteq> None then migrate_loop exec clock es m
        else case exec version (mdData m) of
          None \<Rightarrow> (Inl version, m)
        | Some d \<Rightarrow> migrate_loop exec clock es (m\<lparr>mdApplied := mdApplied m @ [(version, clock version)], mdData := d\<rparr>))"

definition Migrate :: "(string \<Rightarrow> 'd \<Rightarrow> 'd option) \<Rightarrow> (string \<Rightarrow> int) \<Rightarrow> (string \<times> bool) list \<Rightarrow> 'd migrateDb \<Rightarrow>
    (string + unit) \<times> 'd migrateDb" where
  "Migrate exec clock entries m = migrate_loop exec clock (sort_key fst entries) m"

subsection \<open>What a run does\<close>

text \<open>The migrations that are still to be applied, in the order of their names.\<close>

definition pending :: "(string \<times> bool) list \<Rightarrow> 'd migrateDb \<Rightarrow> string list" where
  "pending entries m = filter (\<lambda>v. v \<notin> fst ` set (mdApplied m)) (map fst (filter sql_file entries))"

fun run_all :: "(string \<Rightarrow> 'd \<Rightarrow> 'd option) \<Rightarrow> string list \<Rightarrow> 'd \<Rightarrow> 'd option" where
  "run_all exec [] d = Some d"
| "run_all exec (v # vs) d = (case exec v d of None \<Rightarrow> None | Some d' \<Rightarrow> run_all exec vs d')"

lemma migrate_loop_run:
  assumes "distinct (map fst es)" "migrate_loop exec clock es m = (res, m')"
  shows "\<exists>done rest. pending es m = done @ rest \<and> map fst (mdApplied m') = map fst (mdApplied m) @ done \<and>
    run_all exec done (mdData m) = Some (mdData m') \<and>
    (case res of Inr _ \<Rightarrow> rest = [] | Inl v \<Rightarrow> \<exists>vs. rest = v # vs \<and> exec v (mdData m') = None)"
  using assms
proof (induction es arbitrary: m)
  case Nil
  then show ?case by (intro exI [of _ "[]"]) (auto simp: pending_def)
next
  case (Cons e es)
  have d: "distinct (map fst es)" "fst e \<notin> fst ` set es" using Cons.prems(1) by simp_all
  show ?case
  proof (cases "sql_file e \<and> fst e \<notin> fst ` set (mdApplied m)")
    case False
    then have "migrate_loop exec clock es m = (res, m')" "pending (e # es) m = pending es m"
      using Cons.prems(2) by (cases "sql_file e"; simp add: Let_def row_absent pending_def)+
    with Cons.IH [OF d(1), of m] show ?thesis by simp
  next
    case True
    then have p: "pending (e # es) m = fst e # pending es m" by (simp add: pending_def)
    show ?thesis
    proof (cases "exec (fst e) (mdData m)")
      case None
      then have "res = Inl (fst e)" "m' = m" using Cons.prems(2) True by (auto simp: Let_def row_absent)
      then show ?thesis using p None by (intro exI [of _ "[]"] exI [of _ "fst e # pending es m"]) simp
    next
      case (Some dd)
      let ?m1 = "m\<lparr>mdApplied := mdApplied m @ [(fst e, clock (fst e))], mdData := dd\<rparr>"
      have "migrate_loop exec clock es ?m1 = (res, m')" using Cons.prems(2) True Some by (simp add: Let_def row_absent)
      from Cons.IH [OF d(1) this] obtain "done" rest where ih: "pending es ?m1 = done @ rest"
        "map fst (mdApplied m') = map fst (mdApplied ?m1) @ done" "run_all exec done dd = Some (mdData m')"
        "case res of Inr _ \<Rightarrow> rest = [] | Inl v \<Rightarrow> \<exists>vs. rest = v # vs \<and> exec v (mdData m') = None"
        by auto
      have "x \<noteq> fst e" if "x \<in> set (map fst (filter sql_file es))" for x using that d(2) by force
      then have "pending es ?m1 = pending es m" unfolding pending_def by (intro filter_cong) simp_all
      then show ?thesis using ih p Some by (intro exI [of _ "fst e # done"] exI [of _ rest]) simp
    qed
  qed
qed

text \<open>
  A run of the migrations applies a prefix of the pending ones, in the order of their names, each once,
  and records exactly those; it succeeds iff that is all of them, and otherwise it stops at the
  first whose statements fail, with the database as the migrations before it left it. In particular, running it again
  continues there, and after a success a further run changes nothing.
\<close>
theorem Migrate_applies_prefix:
  assumes "distinct (map fst entries)" "Migrate exec clock entries m = (res, m')"
  shows "\<exists>done. map fst (mdApplied m') = map fst (mdApplied m) @ done \<and> run_all exec done (mdData m) = Some (mdData m') \<and>
    pending (sort_key fst entries) m = done @ pending (sort_key fst entries) m' \<and>
    (case res of Inr _ \<Rightarrow> pending (sort_key fst entries) m' = []
     | Inl v \<Rightarrow> \<exists>vs. pending (sort_key fst entries) m' = v # vs \<and> exec v (mdData m') = None)"
proof -
  let ?es = "sort_key fst entries"
  have dist: "distinct (map fst ?es)" using assms(1)
    by (metis mset_eq_imp_distinct_iff mset_map mset_sort)
  obtain "done" rest where r: "pending ?es m = done @ rest" "map fst (mdApplied m') = map fst (mdApplied m) @ done"
    "run_all exec done (mdData m) = Some (mdData m')" "case res of Inr _ \<Rightarrow> rest = [] | Inl v \<Rightarrow> \<exists>vs. rest = v # vs \<and> exec v (mdData m') = None"
    using migrate_loop_run [OF dist assms(2) [unfolded Migrate_def]] by blast
  have "fst ` set (mdApplied m') = fst ` set (mdApplied m) \<union> set done" by (metis r(2) set_append set_map)
  then have "pending ?es m' = filter (\<lambda>v. v \<notin> set done) (pending ?es m)" by (auto simp: pending_def intro: filter_cong)
  moreover have "distinct (pending ?es m)" using dist by (simp add: pending_def distinct_map_filter)
  ultimately have "pending ?es m' = rest" using r(1) by (auto simp: filter_id_conv filter_empty_conv)
  then show ?thesis using r by blast
qed

text \<open>Witness for \<open>Migrate_applies_prefix\<close>: three files, the second of which fails.\<close>

definition demoEntries :: "(string \<times> bool) list" where
  "demoEntries = [(''0002_b.sql'', False), (''notes.txt'', False), (''0001_a.sql'', False), (''0003_c.sql'', False)]"

definition demoExec :: "string \<Rightarrow> nat \<Rightarrow> nat option" where
  "demoExec v d = (if v = ''0002_b.sql'' then None else Some (d + 1))"

lemma demo_migrate: "Migrate demoExec (\<lambda>_. 7) demoEntries \<lparr>mdApplied = [], mdData = 0\<rparr> =
  (Inl ''0002_b.sql'', \<lparr>mdApplied = [(''0001_a.sql'', 7)], mdData = 1\<rparr>)"
  by code_simp

theorem Migrate_applies_prefix_witness:
  "\<exists>vs. pending (sort_key fst demoEntries) \<lparr>mdApplied = [(''0001_a.sql'', 7)], mdData = 1 :: nat\<rparr> = ''0002_b.sql'' # vs"
  using Migrate_applies_prefix [OF _ demo_migrate] by (auto simp: demoEntries_def)

end
