(* ===== verification/Agent_Update.thy ===== *)
theory Agent_Update
  imports Hub_Domain "HOL-Library.Sublist"
begin

text \<open>
  The agent's self-update, \<^verbatim>\<open>cmd/agent/update.go\<close>: fetching the updater script of a release, checking it
  against the release's checksums, and running it with the flags translated to its environment.

  \<^item> The two downloads, the digest (\<open>sha\<close>, the lower-case hexadecimal SHA-256) and the exit of the script
    are inputs; locating the binary and the temporary file are left out.
  \<^item> \<open>strings.EqualFold\<close> is used only against hexadecimal digits, where it is equality up to ASCII case.
\<close>

subsection \<open>Downloads\<close>

definition maxUpdateBody :: nat where "maxUpdateBody = 8 * 2 ^ 20"

datatype httpResult = TransportError | Response int string

definition httpGet :: "httpResult \<Rightarrow> string option" where
  "httpGet res = (case res of
     TransportError \<Rightarrow> None
   | Response status body \<Rightarrow>
       if status \<noteq> 200 then None
       else let data = take (maxUpdateBody + 1) body in if length data > maxUpdateBody then None else Some data)"

subsection \<open>The checksum file\<close>

text \<open>\<open>strings.Split\<close> at line feeds.\<close>

fun split_lines :: "string \<Rightarrow> string list" where
  "split_lines [] = [[]]"
| "split_lines (c # cs) = (if c = CHR 0x0A then [] # split_lines cs
     else case split_lines cs of [] \<Rightarrow> [[c]] | l # ls \<Rightarrow> (c # l) # ls)"

text \<open>\<open>strings.Index\<close> of two spaces: the text before and after the first occurrence.\<close>

fun cut_spaces :: "string \<Rightarrow> (string \<times> string) option" where
  "cut_spaces (a # b # s) = (if a = CHR '' '' \<and> b = CHR '' '' then Some ([], s)
     else map_option (map_prod ((#) a) id) (cut_spaces (b # s)))"
| "cut_spaces _ = None"

text \<open>\<open>filepath.Base\<close>.\<close>

definition base_name :: "string \<Rightarrow> string" where
  "base_name path =
     (if path = [] then ''.''
      else let p = rev (dropWhile (\<lambda>c. c = CHR ''/'') (rev path))
        in if p = [] then ''/'' else rev (takeWhile (\<lambda>c. c \<noteq> CHR ''/'') (rev p)))"

definition trim_star :: "string \<Rightarrow> string" where
  "trim_star n = (case n of c # cs \<Rightarrow> if c = CHR ''*'' then cs else n | [] \<Rightarrow> n)"

definition sums_line :: "string \<Rightarrow> (string \<times> string) option" where
  "sums_line line0 =
     (let line = TrimSpace line0 in
      if line = [] \<or> hd line = CHR ''#'' then None
      else case cut_spaces line of
        None \<Rightarrow> None
      | Some (h, n) \<Rightarrow> (let hash = TrimSpace h; fname = base_name (trim_star (TrimSpace n))
          in if hash \<noteq> [] \<and> fname \<noteq> [] then Some (fname, hash) else None))"

definition parseSHA256SUMS :: "string \<Rightarrow> string \<rightharpoonup> string" where
  "parseSHA256SUMS data = map_of (rev (List.map_filter sums_line (split_lines data)))"

definition ascii_lower :: "char \<Rightarrow> char" where
  "ascii_lower c = (let n = of_char c :: nat in if 65 \<le> n \<and> n \<le> 90 then char_of (n + 32) else c)"

definition verifyChecksum :: "(string \<Rightarrow> string) \<Rightarrow> string \<Rightarrow> string \<Rightarrow> bool" where
  "verifyChecksum sha data wantHex \<longleftrightarrow> sha data = map ascii_lower wantHex"

subsection \<open>The command\<close>

record updateFlags =
  ufVersion :: string
  ufCheck :: bool
  ufForce :: bool
  ufNoRestart :: bool
  ufRestartHost :: bool
  ufRootless :: bool
  ufBin :: string

definition release_base :: "updateFlags \<Rightarrow> string" where
  "release_base f = (if ufVersion f \<noteq> [] then ''https://github.com/rizquuula/Constellate/releases/download/'' @ ufVersion f
     else ''https://github.com/rizquuula/Constellate/releases/latest/download'')"

definition flagsToEnv :: "updateFlags \<Rightarrow> string \<Rightarrow> string list" where
  "flagsToEnv f bin =
     (if ufVersion f \<noteq> [] then [''CONSTELLATE_VERSION='' @ ufVersion f] else []) @
     (if ufCheck f then [''CONSTELLATE_CHECK=1''] else []) @
     (if ufForce f then [''CONSTELLATE_FORCE=1''] else []) @
     (if ufNoRestart f then [''CONSTELLATE_NO_RESTART=1''] else []) @
     (if ufRootless f then [''CONSTELLATE_ROOTLESS=1''] else []) @
     (if bin \<noteq> [] then [''CONSTELLATE_BIN='' @ bin] else [])"

definition shouldRestartHost :: "bool \<Rightarrow> bool \<Rightarrow> bool \<Rightarrow> bool" where
  "shouldRestartHost check noRestart restartHost \<longleftrightarrow> restartHost \<and> \<not> check \<and> \<not> noRestart"

definition userFlagHint :: "bool \<Rightarrow> string" where
  "userFlagHint rootless = (if rootless then '' --user'' else [])"

datatype updateError = FetchSums | NotListed | FetchScript | Mismatch

text \<open>The script that is run, if any.\<close>

definition update_script :: "(string \<Rightarrow> string) \<Rightarrow> (string \<Rightarrow> httpResult) \<Rightarrow> updateFlags \<Rightarrow> updateError + string" where
  "update_script sha get f = (case httpGet (get (release_base f @ ''/SHA256SUMS'')) of
     None \<Rightarrow> Inl FetchSums
   | Some sumsData \<Rightarrow> (case parseSHA256SUMS sumsData ''update.sh'' of
       None \<Rightarrow> Inl NotListed
     | Some wantHex \<Rightarrow> (case httpGet (get (release_base f @ ''/update.sh'')) of
         None \<Rightarrow> Inl FetchScript
       | Some scriptData \<Rightarrow> if \<not> verifyChecksum sha scriptData wantHex then Inl Mismatch else Inr scriptData)))"

text \<open>What the command does: the script and environment it runs, whether it restarts the host, and its exit code.\<close>

record updateRun =
  urRan :: "(string \<times> string list) option"
  urRestarted :: bool
  urExit :: int

definition cmdUpdate :: "(string \<Rightarrow> string) \<Rightarrow> (string \<Rightarrow> httpResult) \<Rightarrow> string list \<Rightarrow> string \<Rightarrow> int \<Rightarrow> bool \<Rightarrow> updateFlags \<Rightarrow> updateRun" where
  "cmdUpdate sha get environ exe scriptExit restartOk f =
     (let binPath = (if ufBin f = [] then exe else ufBin f) in
      case update_script sha get f of
        Inl err \<Rightarrow> \<lparr>urRan = None, urRestarted = False, urExit = 1\<rparr>
      | Inr script \<Rightarrow>
          (let ran = Some (script, environ @ flagsToEnv f binPath) in
           if scriptExit \<noteq> 0 then \<lparr>urRan = ran, urRestarted = False, urExit = scriptExit\<rparr>
           else if shouldRestartHost (ufCheck f) (ufNoRestart f) (ufRestartHost f)
             then \<lparr>urRan = ran, urRestarted = restartOk, urExit = (if restartOk then 0 else 1)\<rparr>
           else \<lparr>urRan = ran, urRestarted = False, urExit = 0\<rparr>))"

subsection \<open>Properties\<close>

lemma listed_line:
  assumes "parseSHA256SUMS data n = Some h"
  shows "\<exists>line \<in> set (split_lines data). sums_line line = Some (n, h)"
  using map_of_SomeD [OF assms [unfolded parseSHA256SUMS_def]] by (auto simp: map_filter_def)

text \<open>
  C30: only the script the release lists is ever run. Whatever the network delivers, if the command runs a
  script, then the script came with status 200 in at most eight megabytes from the chosen release, a line of
  that release's checksum file names \<open>update.sh\<close> with a hash, and the SHA-256 of the script is that hash up to the
  case of its letters; the durable session host is restarted only after such a run succeeded, and never
  under \<open>--check\<close> or \<open>--no-restart\<close>.
\<close>
theorem update_runs_listed_script:
  assumes "cmdUpdate sha get environ exe scriptExit restartOk f = r" "urRan r \<noteq> None \<or> urRestarted r"
  shows "\<exists>sums script line h. get (release_base f @ ''/SHA256SUMS'') = Response 200 sums \<and> line \<in> set (split_lines sums) \<and>
    sums_line line = Some (''update.sh'', h) \<and> get (release_base f @ ''/update.sh'') = Response 200 script \<and>
    length script \<le> maxUpdateBody \<and> sha script = map ascii_lower h \<and> (\<exists>env. urRan r = Some (script, env)) \<and>
    (urRestarted r \<longrightarrow> scriptExit = 0 \<and> ufRestartHost f \<and> \<not> ufCheck f \<and> \<not> ufNoRestart f)"
proof -
  obtain script where s: "update_script sha get f = Inr script"
    using assms by (auto simp: cmdUpdate_def Let_def split: sum.splits)
  then obtain sums h where u: "httpGet (get (release_base f @ ''/SHA256SUMS'')) = Some sums" "parseSHA256SUMS sums ''update.sh'' = Some h"
    "httpGet (get (release_base f @ ''/update.sh'')) = Some script" "verifyChecksum sha script h"
    by (auto simp: update_script_def split: option.splits if_splits)
  have get: "\<exists>b. res = Response 200 b \<and> length b \<le> maxUpdateBody \<and> b = d" if "httpGet res = Some d" for res d
    using that by (auto simp: httpGet_def Let_def split: httpResult.splits if_splits)
  obtain line where "line \<in> set (split_lines sums)" "sums_line line = Some (''update.sh'', h)" using listed_line [OF u(2)] by blast
  moreover have "(\<exists>env. urRan r = Some (script, env)) \<and> (urRestarted r \<longrightarrow> scriptExit = 0 \<and> ufRestartHost f \<and> \<not> ufCheck f \<and> \<not> ufNoRestart f)"
    unfolding assms(1) [symmetric] using s by (simp add: cmdUpdate_def Let_def shouldRestartHost_def split: if_split)
  ultimately show ?thesis using get [OF u(1)] get [OF u(3)] u(4) by (auto simp: verifyChecksum_def)
qed

text \<open>A release whose script has the digest \<open>ab\<close>.\<close>

definition demoRelease :: "string \<Rightarrow> httpResult" where
  "demoRelease url = (if url = ''https://github.com/rizquuula/Constellate/releases/latest/download/SHA256SUMS''
     then Response 200 (''cd  agent'' @ [CHR 0x0A] @ ''AB  ./dist/update.sh'' @ [CHR 0x0A]) else Response 200 ''true'')"

definition demoFlags :: updateFlags where
  "demoFlags = \<lparr>ufVersion = [], ufCheck = False, ufForce = False, ufNoRestart = False, ufRestartHost = True, ufRootless = False, ufBin = []\<rparr>"

lemma trim_plain:
  assumes "s \<noteq> []" "\<forall>q \<in> set space_seqs. q = [] \<or> hd q \<noteq> hd s \<and> last q \<noteq> last s"
  shows "TrimSpace s = s"
proof -
  have strip: "strip_prefixes qs t = t" if "t \<noteq> []" "\<forall>q \<in> set qs. q = [] \<or> hd q \<noteq> hd t" for qs t
  proof -
    have "q = [] \<or> take (length q) t \<noteq> q" if "q \<in> set qs" for q
    proof (rule ccontr)
      assume "\<not> ?thesis"
      then have "q \<noteq> []" "hd q = hd t" by (auto, metis hd_take length_greater_0_conv)
      then show False using that \<open>\<forall>q \<in> set qs. q = [] \<or> hd q \<noteq> hd t\<close> by blast
    qed
    then have "find (\<lambda>q. q \<noteq> [] \<and> take (length q) t = q) qs = None" by (auto simp: find_None_iff)
    then show ?thesis by (simp add: strip_prefixes.simps)
  qed
  have "strip_prefixes space_seqs s = s" using assms by (intro strip) auto
  moreover have "strip_prefixes (map rev space_seqs) (rev s) = rev s" using assms by (intro strip) (auto simp: hd_rev)
  ultimately show ?thesis by (simp add: TrimSpace_def)
qed

lemma demo_chars: "\<forall>q \<in> set space_seqs. q \<noteq> [] \<and> hd q \<notin> set ''cA.'' \<and> last q \<notin> set ''tBdh''"
  by (simp add: space_seqs_def char_of_def bit_0)

lemma demo_parse: "parseSHA256SUMS (''cd  agent'' @ [CHR 0x0A] @ ''AB  ./dist/update.sh'' @ [CHR 0x0A]) ''update.sh'' = Some ''AB''"
proof -
  have p: "TrimSpace s = s" if "s \<noteq> []" "hd s \<in> set ''cA.''" "last s \<in> set ''tBdh''" for s
  proof (rule trim_plain [OF that(1)], rule ballI)
    fix q assume "q \<in> set space_seqs"
    then have "hd q \<notin> set ''cA.''" "last q \<notin> set ''tBdh''" using demo_chars by blast+
    then show "q = [] \<or> hd q \<noteq> hd s \<and> last q \<noteq> last s" using that(2,3) by metis
  qed
  have t: "TrimSpace ''AB  ./dist/update.sh'' = ''AB  ./dist/update.sh''" "TrimSpace ''AB'' = ''AB''"
    "TrimSpace ''./dist/update.sh'' = ''./dist/update.sh''"
    by (rule p; simp)+
  have "find (\<lambda>q. q \<noteq> [] \<and> take (length q) [] = q) qs = None" for qs :: "string list" by (auto simp: find_None_iff)
  then have "strip_prefixes qs [] = []" for qs by (subst strip_prefixes.simps) simp
  then have e: "TrimSpace [] = []" by (simp add: TrimSpace_def)
  have "sums_line ''AB  ./dist/update.sh'' = Some (''update.sh'', ''AB'')" "sums_line [] = None"
    by (simp_all add: sums_line_def t e Let_def base_name_def trim_star_def)
  moreover have "split_lines (''cd  agent'' @ [CHR 0x0A] @ ''AB  ./dist/update.sh'' @ [CHR 0x0A]) = [''cd  agent'', ''AB  ./dist/update.sh'', []]"
    by simp
  ultimately show ?thesis by (auto simp: parseSHA256SUMS_def map_filter_simps split: option.split)
qed

lemma demo_update: "urRestarted (cmdUpdate (\<lambda>_. ''ab'') demoRelease [] ''/bin/agent'' 0 True demoFlags)"
proof -
  have ab: "map ascii_lower ''AB'' = ''ab''" by code_simp
  have "length ''true'' \<le> maxUpdateBody" "length (''cd  agent'' @ [CHR 0x0A] @ ''AB  ./dist/update.sh'' @ [CHR 0x0A]) \<le> maxUpdateBody"
    by (simp_all add: maxUpdateBody_def)
  then have "httpGet (Response 200 ''true'') = Some ''true''"
    "httpGet (Response 200 (''cd  agent'' @ [CHR 0x0A] @ ''AB  ./dist/update.sh'' @ [CHR 0x0A])) =
      Some (''cd  agent'' @ [CHR 0x0A] @ ''AB  ./dist/update.sh'' @ [CHR 0x0A])"
    by (simp_all only: httpGet_def httpResult.case Let_def) simp_all
  then have "update_script (\<lambda>_. ''ab'') demoRelease demoFlags = Inr ''true''"
    using demo_parse ab by (simp add: update_script_def demoRelease_def release_base_def demoFlags_def verifyChecksum_def)
  then show ?thesis by (simp add: cmdUpdate_def Let_def shouldRestartHost_def demoFlags_def)
qed

text \<open>Witness for \<open>update_runs_listed_script\<close>.\<close>
theorem update_runs_listed_script_witness:
  "\<exists>sums line h. demoRelease (release_base demoFlags @ ''/SHA256SUMS'') = Response 200 sums \<and> line \<in> set (split_lines sums) \<and>
    sums_line line = Some (''update.sh'', h) \<and> map ascii_lower h = ''ab''"
  using update_runs_listed_script [OF refl disjI2, OF demo_update]
  by (elim exE conjE) (intro exI conjI; (assumption | erule sym))

end
