(* ===== verification/Platform_Config.thy ===== *)
theory Platform_Config
  imports Hub_Domain "HOL-Library.Sublist"
begin

text \<open>
  The configuration of the two programs, \<^verbatim>\<open>internal/platform/config\<close>: defaults, then the file, then the
  environment, then the expansion of the home directory.

  \<^item> The environment is a function from names to values, empty if unset; the home directory, the host name
    and the file system are inputs.
  \<^item> The YAML library is a parameter: the configuration that results from reading the text over another one.
\<close>

type_synonym environment = "string \<Rightarrow> string"

subsection \<open>Paths (package filepath)\<close>

fun split_path :: "string \<Rightarrow> string list" where
  "split_path [] = [[]]"
| "split_path (c # cs) = (if c = CHR ''/'' then [] # split_path cs
     else case split_path cs of [] \<Rightarrow> [[c]] | s # ss \<Rightarrow> (c # s) # ss)"

fun clean_path :: "bool \<Rightarrow> string list \<Rightarrow> string list \<Rightarrow> string list" where
  "clean_path rooted acc [] = acc"
| "clean_path rooted acc (s # ss) =
     (if s = [] \<or> s = ''.'' then clean_path rooted acc ss
      else if s = ''..'' then (if acc \<noteq> [] \<and> last acc \<noteq> ''..'' then clean_path rooted (butlast acc) ss
        else if rooted then clean_path rooted acc ss else clean_path rooted (acc @ [s]) ss)
      else clean_path rooted (acc @ [s]) ss)"

fun join_segments :: "string list \<Rightarrow> string" where
  "join_segments [] = []"
| "join_segments [s] = s"
| "join_segments (s # ss) = s @ ''/'' @ join_segments ss"

definition filepath_Clean :: "string \<Rightarrow> string" where
  "filepath_Clean path =
     (let rooted = (path \<noteq> [] \<and> hd path = CHR ''/'');
          body = join_segments (clean_path rooted [] (split_path path))
      in if rooted then CHR ''/'' # body else if body = [] then ''.'' else body)"

definition filepath_Join :: "string list \<Rightarrow> string" where
  "filepath_Join elems = (let es = filter (\<lambda>e. e \<noteq> []) elems in if es = [] then [] else filepath_Clean (join_segments es))"

definition expandHome :: "string option \<Rightarrow> string \<Rightarrow> string" where
  "expandHome home path = (if \<not> prefix ''~/'' path then path else case home of None \<Rightarrow> path | Some h \<Rightarrow> h @ tl path)"

record LogConfig =
  lcLevel :: string
  lcFormat :: string

subsection \<open>The agent (agent.go)\<close>

record AgentConfig =
  acHubURL :: string
  acName :: string
  acIDFile :: string
  acCredFile :: string
  acHubCA :: string
  acDefaultShell :: string
  acScrollbackBytes :: int
  acLog :: LogConfig
  acRuntimeDir :: string
  acPersistScrollback :: "bool option"
  acScrollbackDir :: string
  acScrollbackDiskCapBytes :: int

definition defaultScrollbackDiskCap :: int where "defaultScrollbackDiskCap = 64 * 1024 * 1024"

definition defaultAgent :: "string \<Rightarrow> string option \<Rightarrow> AgentConfig" where
  "defaultAgent hostname home = \<lparr>acHubURL = [], acName = hostname, acIDFile = expandHome home ''~/.constellate/agent-id'',
     acCredFile = expandHome home ''~/.constellate/cred'', acHubCA = [], acDefaultShell = [], acScrollbackBytes = 262144,
     acLog = \<lparr>lcLevel = ''info'', lcFormat = ''text''\<rparr>, acRuntimeDir = [], acPersistScrollback = Some True,
     acScrollbackDir = [], acScrollbackDiskCapBytes = defaultScrollbackDiskCap\<rparr>"

definition IsPersistScrollback :: "AgentConfig \<Rightarrow> bool" where
  "IsPersistScrollback a = (case acPersistScrollback a of None \<Rightarrow> True | Some b \<Rightarrow> b)"

definition DataDir :: "environment \<Rightarrow> string option \<Rightarrow> string" where
  "DataDir env home = (if env ''XDG_DATA_HOME'' \<noteq> [] then filepath_Join [env ''XDG_DATA_HOME'', ''constellate'']
     else expandHome home ''~/.constellate/data'')"

definition ScrollbackDirPath :: "environment \<Rightarrow> string option \<Rightarrow> AgentConfig \<Rightarrow> string" where
  "ScrollbackDirPath env home a = (if acScrollbackDir a \<noteq> [] then acScrollbackDir a else filepath_Join [DataDir env home, ''scrollback''])"

definition ScrollbackCapBytes :: "AgentConfig \<Rightarrow> int" where
  "ScrollbackCapBytes a = (if acScrollbackDiskCapBytes a > 0 then acScrollbackDiskCapBytes a else defaultScrollbackDiskCap)"

definition SocketPath :: "environment \<Rightarrow> string option \<Rightarrow> AgentConfig \<Rightarrow> string" where
  "SocketPath env home a =
     (let dir = (if acRuntimeDir a \<noteq> [] then acRuntimeDir a
        else if env ''XDG_RUNTIME_DIR'' \<noteq> [] then filepath_Join [env ''XDG_RUNTIME_DIR'', ''constellate'']
        else expandHome home ''~/.constellate/run'')
      in filepath_Join [dir, ''host.sock''])"

definition env_or :: "environment \<Rightarrow> string \<Rightarrow> string \<Rightarrow> string" where
  "env_or env n v = (if env n \<noteq> [] then env n else v)"

definition applyAgentEnv :: "environment \<Rightarrow> AgentConfig \<Rightarrow> AgentConfig" where
  "applyAgentEnv env cfg = cfg\<lparr>
     acHubURL := env_or env ''CONSTELLATE_HUB_URL'' (acHubURL cfg), acName := env_or env ''CONSTELLATE_NAME'' (acName cfg),
     acIDFile := env_or env ''CONSTELLATE_ID_FILE'' (acIDFile cfg), acCredFile := env_or env ''CONSTELLATE_CRED_FILE'' (acCredFile cfg),
     acHubCA := env_or env ''CONSTELLATE_HUB_CA'' (acHubCA cfg), acRuntimeDir := env_or env ''CONSTELLATE_RUNTIME_DIR'' (acRuntimeDir cfg)\<rparr>"

datatype configError = ReadError | ParseError

definition read_config :: "(string \<Rightarrow> string option) \<Rightarrow> (string \<Rightarrow> 'c \<Rightarrow> 'c option) \<Rightarrow> string \<Rightarrow> 'c \<Rightarrow> configError + 'c" where
  "read_config readFile yaml path cfg =
     (if path = [] then Inr cfg
      else case readFile path of None \<Rightarrow> Inl ReadError
        | Some data \<Rightarrow> (case yaml data cfg of None \<Rightarrow> Inl ParseError | Some cfg' \<Rightarrow> Inr cfg'))"

definition LoadAgent :: "(string \<Rightarrow> string option) \<Rightarrow> (string \<Rightarrow> AgentConfig \<Rightarrow> AgentConfig option) \<Rightarrow> environment \<Rightarrow> string option \<Rightarrow> string \<Rightarrow>
    string \<Rightarrow> configError + AgentConfig" where
  "LoadAgent readFile yaml env home hostname path = (case read_config readFile yaml path (defaultAgent hostname home) of
     Inl err \<Rightarrow> Inl err
   | Inr cfg0 \<Rightarrow> (let cfg = applyAgentEnv env cfg0 in
       Inr (cfg\<lparr>acIDFile := expandHome home (acIDFile cfg), acCredFile := expandHome home (acCredFile cfg),
         acHubCA := (if acHubCA cfg \<noteq> [] then expandHome home (acHubCA cfg) else acHubCA cfg)\<rparr>)))"

subsection \<open>The hub (hub.go)\<close>

record TLSConfig =
  tcCert :: string
  tcKey :: string

record WebAuthnConfig =
  wcRPID :: string
  wcOrigins :: "string list"

record HubConfig =
  hbAddr :: string
  hbPublicURL :: string
  hbDBPath :: string
  hbEnrollTokenTTL :: string
  hbSessionTTL :: string
  hbTLS :: TLSConfig
  hbLog :: LogConfig
  hbWebAuthn :: WebAuthnConfig

definition defaultHub :: HubConfig where
  "defaultHub = \<lparr>hbAddr = ''127.0.0.1:8080'', hbPublicURL = [], hbDBPath = ''./constellate.db'', hbEnrollTokenTTL = ''15m'',
     hbSessionTTL = ''24h'', hbTLS = \<lparr>tcCert = [], tcKey = []\<rparr>, hbLog = \<lparr>lcLevel = ''info'', lcFormat = ''text''\<rparr>,
     hbWebAuthn = \<lparr>wcRPID = [], wcOrigins = []\<rparr>\<rparr>"

definition applyHubEnv :: "environment \<Rightarrow> HubConfig \<Rightarrow> HubConfig" where
  "applyHubEnv env cfg = cfg\<lparr>
     hbAddr := env_or env ''CONSTELLATE_ADDR'' (hbAddr cfg), hbDBPath := env_or env ''CONSTELLATE_DB_PATH'' (hbDBPath cfg),
     hbPublicURL := env_or env ''CONSTELLATE_PUBLIC_URL'' (hbPublicURL cfg),
     hbEnrollTokenTTL := env_or env ''CONSTELLATE_ENROLL_TOKEN_TTL'' (hbEnrollTokenTTL cfg),
     hbSessionTTL := env_or env ''CONSTELLATE_SESSION_TTL'' (hbSessionTTL cfg)\<rparr>"

definition LoadHub :: "(string \<Rightarrow> string option) \<Rightarrow> (string \<Rightarrow> HubConfig \<Rightarrow> HubConfig option) \<Rightarrow> environment \<Rightarrow> string \<Rightarrow> configError + HubConfig" where
  "LoadHub readFile yaml env path = (case read_config readFile yaml path defaultHub of
     Inl err \<Rightarrow> Inl err | Inr cfg \<Rightarrow> Inr (applyHubEnv env cfg))"

subsection \<open>Facts\<close>

text \<open>Clean paths have no empty segment and no dot segment, and a rooted one no parent segment.\<close>

lemma clean_path_segments:
  "s \<in> set (clean_path rooted acc ss) \<Longrightarrow> s \<in> set acc \<or> s \<noteq> [] \<and> s \<noteq> ''.'' \<and> (rooted \<longrightarrow> s \<noteq> ''..'')"
  by (induction rooted acc ss rule: clean_path.induct) (auto split: if_splits dest: in_set_butlastD)

text \<open>The loaded paths are expanded whenever the home directory is known and not itself relative to a home.\<close>

lemma LoadAgent_expanded:
  assumes "LoadAgent readFile yaml env (Some h) hostname path = Inr cfg" "\<not> prefix ''~'' h" "h \<noteq> []"
  shows "\<not> prefix ''~/'' (acIDFile cfg) \<and> \<not> prefix ''~/'' (acCredFile cfg) \<and> \<not> prefix ''~/'' (acHubCA cfg)"
proof -
  have "\<not> prefix ''~/'' (expandHome (Some h) p)" for p
    using assms(2,3) by (cases h) (auto simp: expandHome_def)
  then show ?thesis using assms(1) by (auto simp: LoadAgent_def Let_def split: sum.splits if_splits)
qed

end
