(* ===== verification/Overview_Stream.thy ===== *)
theory Overview_Stream
  imports Overview_App Transport_Codec
begin

text \<open>
  The snapshots' way from an agent's connection to the browsers: the agent's streams on the hub, \<open>handleAgentStream\<close> and
  \<open>readSnapshotStream\<close> (\<^verbatim>\<open>internal/hub/adapter/primary/wsagent/inbound.go\<close>), and the browsers' handler
  (\<^verbatim>\<open>internal/hub/adapter/primary/wsbrowser/overview.go\<close>), over the codec and the use case.

  \<^item> \<open>hdr\<close> and \<open>unmarshal\<close> are the JSON library's decoding of the type tag and of a snapshot.
  \<^item> Whether the send of the \<open>n\<close>-th snapshot to a subscriber succeeds is an input.
\<close>

subsection \<open>Reading an agent's stream\<close>

text \<open>The loop over the frames; the result lists what was sent to whom.\<close>

fun readSnapshotStream :: "(byte list \<Rightarrow> transportSnapshot option) \<Rightarrow> (nat \<Rightarrow> string \<Rightarrow> bool) \<Rightarrow> nat \<Rightarrow> MessageType frame list \<Rightarrow> overview \<Rightarrow>
    (string \<times> ovSnapshot) list \<times> overview" where
  "readSnapshotStream unmarshal sendOk n [] o1 = ([], o1)"
| "readSnapshotStream unmarshal sendOk n (f # fs) o1 =
     (if frType f \<noteq> TypeSnapshot then readSnapshotStream unmarshal sendOk n fs o1
      else case Unmarshal unmarshal f of
        None \<Rightarrow> readSnapshotStream unmarshal sendOk n fs o1
      | Some tsnap \<Rightarrow>
          (case ReceiveSnapshot (sendOk n) (transportToOverview tsnap) o1 of (sent, o2) \<Rightarrow>
           case readSnapshotStream unmarshal sendOk (Suc n) fs o2 of (sent', o3) \<Rightarrow> (sent @ sent', o3)))"

text \<open>\<open>live\<close>: how many frames are read before the connection's context ends.\<close>

definition handleAgentStream :: "(byte list \<Rightarrow> MessageType option) \<Rightarrow> (byte list \<Rightarrow> transportSnapshot option) \<Rightarrow> (nat \<Rightarrow> string \<Rightarrow> bool) \<Rightarrow> nat \<Rightarrow>
    byte list \<Rightarrow> overview \<Rightarrow> (string \<times> ovSnapshot) list \<times> overview" where
  "handleAgentStream hdr unmarshal sendOk live s o1 = (case Next hdr s of
     ((_, Some err), _) \<Rightarrow> ([], o1)
   | ((None, None), _) \<Rightarrow> ([], o1)
   | ((Some f, None), rest) \<Rightarrow>
       if frType f = TypeSnapStream then readSnapshotStream unmarshal sendOk 0 (take live (fst (read_frames hdr rest))) o1
       else ([], o1))"

subsection \<open>The browsers' handler\<close>

text \<open>
  \<open>during\<close>: what the other calls do to the overview until the connection ends. The handler only waits for that; the
  browser's own frames are read and dropped.
\<close>

definition overview_ServeHTTP :: "bool \<Rightarrow> (ovSnapshot \<Rightarrow> bool) \<Rightarrow> string \<Rightarrow> (overview \<Rightarrow> overview) \<Rightarrow> overview \<Rightarrow> ovSnapshot list \<times> overview" where
  "overview_ServeHTTP accepted sendOk sub during o1 =
     (if \<not> accepted then ([], o1)
      else case Subscribe sendOk sub o1 of (replayed, o2) \<Rightarrow> (replayed, Unsubscribe sub (during o2)))"

subsection \<open>What a browser shows\<close>

text \<open>The decoding the messages' documentation prescribes, from the snapshot a browser is sent.\<close>

definition ov_line :: "int \<Rightarrow> ovRun list \<Rightarrow> cell list" where
  "ov_line w runs = decodeLine w (map (\<lambda>r. \<lparr>srText = orText r, srFG = orFG r, srBG = orBG r, srAttrs = orAttrs r\<rparr>) runs)"

definition ov_screen :: "ovSnapshot \<Rightarrow> SessionScreen" where
  "ov_screen s = \<lparr>ssID = osSessionID s,
     ssScreen = \<lparr>Cols = osCols s, Rows = osRows s,
       Cursor = \<lparr>curX = ocX (osCursor s), curY = ocY (osCursor s), curVisible = ocVisible (osCursor s)\<rparr>,
       Cells = map (ov_line (osCols s)) (osLines s)\<rparr>, ssRev = osRev s\<rparr>"

definition showable :: "SessionScreen \<Rightarrow> bool" where
  "showable s \<longleftrightarrow> length (Cells (ssScreen s)) = nat (Rows (ssScreen s)) \<and> 0 \<le> Rows (ssScreen s) \<and>
     (\<forall>row \<in> set (Cells (ssScreen s)). int (length row) = Cols (ssScreen s) \<and> (\<forall>c \<in> set row. valid_rune (Rune c)))"

lemma ov_line_transport: "ov_line w (map (\<lambda>r. \<lparr>orText = srText r, orFG = srFG r, orBG = srBG r, orAttrs = srAttrs r\<rparr>) runs) = decodeLine w runs"
proof -
  have "(\<lambda>x :: snapRun. \<lparr>srText = srText x, srFG = srFG x, srBG = srBG x, srAttrs = srAttrs x\<rparr>) = id" by (simp add: fun_eq_iff)
  then show ?thesis by (simp add: ov_line_def comp_def)
qed

lemma encoded_shows:
  assumes "showable s"
  shows "\<exists>t. encodeSnapshot s m = Some t \<and> snType t = TypeSnapshot \<and> snSessionID t = ssID s \<and> ov_screen (transportToOverview t) = s"
proof -
  note ok = assms [unfolded showable_def]
  have "decodeLine (Cols (ssScreen s)) (encodeRow row) = row" if "row \<in> set (Cells (ssScreen s))" for row
    using ok decode_encodeRow [of row] that by auto
  then have "map (decodeLine (Cols (ssScreen s)) \<circ> encodeRow) (Cells (ssScreen s)) = Cells (ssScreen s)" by (simp add: map_idI)
  then show ?thesis using for_up_map [OF conjunct1 [OF ok] conjunct1 [OF conjunct2 [OF ok]], of encodeRow "[]"] ok
    by (simp add: encodeSnapshot_def Let_def ov_screen_def transportToOverview_def comp_def ov_line_transport)
qed

subsection \<open>From screen to browser\<close>

text \<open>The messages an agent writes to its snapshot stream.\<close>

datatype snapMsg = SnapHeader | SnapMsg transportSnapshot

fun snap_tag :: "snapMsg \<Rightarrow> MessageType" where
  "snap_tag SnapHeader = TypeSnapStream"
| "snap_tag (SnapMsg t) = snType t"

definition snap_of :: "(byte list \<Rightarrow> snapMsg option) \<Rightarrow> byte list \<Rightarrow> transportSnapshot option" where
  "snap_of unm bs = (case unm bs of Some (SnapMsg t) \<Rightarrow> Some t | _ \<Rightarrow> None)"

lemma filter_single: "distinct xs \<Longrightarrow> x \<in> set xs \<Longrightarrow> ok x \<Longrightarrow> filter (\<lambda>y. y = x) (filter ok xs) = [x]"
  by (induction xs) (auto simp: filter_empty_conv)

lemma ReceiveSnapshot_subscriber:
  assumes "ReceiveSnapshot ok p o1 = (sent, o2)" "x \<in> set (ovSubs o1)" "distinct (ovSubs o1)" "ok x"
  shows "filter (\<lambda>q. fst q = x) sent = [(x, p)]" "x \<in> set (ovSubs o2)" "distinct (ovSubs o2)"
    "m_get (ovLatest o2) i = (if osSessionID p = i then Some p else m_get (ovLatest o1) i)"
proof -
  have "filter (\<lambda>y. y = x) (filter ok (ovSubs o1)) = [x]"
    using filter_single assms(2-4) by metis
  moreover have "sent = map (\<lambda>y. (y, p)) (filter ok (ovSubs o1))" using assms(1) by (auto simp: ReceiveSnapshot_def recv_store_def Let_def)
  ultimately show "filter (\<lambda>q. fst q = x) sent = [(x, p)]" by (simp add: filter_map comp_def)
  show "x \<in> set (ovSubs o2)" "distinct (ovSubs o2)" "m_get (ovLatest o2) i = (if osSessionID p = i then Some p else m_get (ovLatest o1) i)"
    using assms
    by (auto simp: ReceiveSnapshot_def recv_store_def drop_failed_def fold_removeAll applyGate_def gate_set_def Let_def split: if_splits)
qed

definition snap_frame :: "(snapMsg \<Rightarrow> byte list) \<Rightarrow> snapMsg \<Rightarrow> MessageType frame" where
  "snap_frame marshal m = \<lparr>frType = snap_tag m, frRaw = marshal m @ [newline]\<rparr>"

lemma readSnapshotStream_subscriber:
  assumes "json_lines_on (SnapMsg ` set ts) marshal unm hdr snap_tag" "\<forall>t \<in> set ts. snType t = TypeSnapshot"
    and "readSnapshotStream (snap_of unm) sendOk n (map (snap_frame marshal \<circ> SnapMsg) ts) o1 = (sent, o2)"
    and "x \<in> set (ovSubs o1)" "distinct (ovSubs o1)" "\<forall>n. sendOk n x"
  shows "filter (\<lambda>q. fst q = x) sent = map (\<lambda>t. (x, transportToOverview t)) ts \<and> x \<in> set (ovSubs o2) \<and>
    (\<forall>i. m_get (ovLatest o2) i = (case filter (\<lambda>t. snSessionID t = i) ts of [] \<Rightarrow> m_get (ovLatest o1) i
       | us \<Rightarrow> Some (transportToOverview (last us))))"
  using assms
proof (induction ts arbitrary: n o1 sent)
  case (Cons t ts)
  have u: "Unmarshal (snap_of unm) (snap_frame marshal (SnapMsg t)) = Some t" "frType (snap_frame marshal (SnapMsg t)) = TypeSnapshot"
    using Cons.prems(1,2) by (auto simp: json_lines_on_def snap_frame_def snap_of_def Unmarshal_def)
  obtain s1 o' where r: "ReceiveSnapshot (sendOk n) (transportToOverview t) o1 = (s1, o')" by fastforce
  obtain s2 where q: "readSnapshotStream (snap_of unm) sendOk (Suc n) (map (snap_frame marshal \<circ> SnapMsg) ts) o' = (s2, o2)" "sent = s1 @ s2"
    using Cons.prems(3) u r by (auto simp: comp_def split: prod.splits)
  note v = ReceiveSnapshot_subscriber [OF r Cons.prems(4,5) spec [OF Cons.prems(6)]]
  have "json_lines_on (SnapMsg ` set ts) marshal unm hdr snap_tag" using Cons.prems(1) by (simp add: json_lines_on_def)
  from Cons.IH [OF this _ q(1) v(2,3) Cons.prems(6)] show ?case using Cons.prems(2) v(1,4) q(2)
    by (auto simp: transportToOverview_def split: list.splits)
qed simp



text \<open>
  A browser's handler leaves nothing behind: when it returns, its subscriber is gone, the viewers are counted right and
  the gate is set for those that are left.
\<close>

lemma overview_handler_leaves:
  assumes "ov_ok o1" "sub \<notin> set (ovSubs o1)"
    and "overview_ServeHTTP True sendOk sub (fold ov_apply evs) o1 = (replayed, o2)" "fresh_subs (snd (Subscribe sendOk sub o1)) evs"
  shows "sub \<notin> set (ovSubs o2) \<and> ov_ok o2"
proof -
  let ?o = "fold ov_apply evs (snd (Subscribe sendOk sub o1))"
  have "ov_ok (ov_apply (OvSubscribe sub sendOk) o1)" by (rule ov_apply_ok) (use assms(1,2) in auto)
  then have "ov_ok ?o" using ov_run_ok assms(4) by simp
  from ov_apply_ok [OF this, of "OvUnsubscribe sub"] have "ov_ok (Unsubscribe sub ?o)" by simp
  moreover have "sub \<notin> set (ovSubs (Unsubscribe sub ?o))" by (simp add: Unsubscribe_def sub_drop_def)
  moreover have "o2 = Unsubscribe sub ?o" using assms(3) by (auto simp: overview_ServeHTTP_def split: prod.splits)
  ultimately show ?thesis by simp
qed

end
