(* ===== verification/Data_Streams.thy ===== *)
theory Data_Streams
  imports Scrollback "HOL-Library.Sublist"
begin

text \<open>
  The data streams of an attached terminal on the agent: \<open>Manager.Attach\<close>
  (\<^verbatim>\<open>internal/agent/app/session/manager.go\<close>), which joins a stream to a session, and the relay between the two
  processes of the deployed agent, \<open>Client.Attach\<close> (\<^verbatim>\<open>internal/agent/adapter/secondary/hostclient/client.go\<close>) under
  \<open>handleDataStream\<close> (\<^verbatim>\<open>internal/agent/adapter/primary/hubclient/streams.go\<close>).

  \<^item> A stream of the multiplexer has two directions. Closing it ends the direction written to; the other one
    goes on until the peer closes it or the connection is lost, as the package documents. A direction is the list of the bytes
    still to be read and whether it has been closed.
  \<^item> \<open>io.Copy\<close> reads a piece, writes it, and stops at the end or at the first error. How much a read
    returns is up to the environment.
  \<^item> A closed stream whose other direction the multiplexer gives up after its close time-out counts as a lost connection.
  \<^item> Everything sent and everything delivered is kept as ghost state.
\<close>

datatype copyPc = Reading | Holding "byte list" | Ended

fun in_hand :: "copyPc \<Rightarrow> byte list" where
  "in_hand (Holding bs) = bs"
| "in_hand _ = []"

subsection \<open>The relay\<close>

text \<open>
  Up is towards the session host, down towards the hub. \<open>ryMain\<close> counts the ends of the copying goroutines the
  main one has received, \<open>ryErrc\<close> those it has not received yet.
\<close>

record relay =
  ryIn :: "byte list"
  ryInFin :: bool
  ryUp :: "byte list"
  ryUpFin :: bool
  ryDown :: "byte list"
  ryDownFin :: bool
  ryOut :: "byte list"
  ryOutFin :: bool
  ryHubLost :: bool
  ryHostLost :: bool
  ryCopyUp :: copyPc
  ryCopyDown :: copyPc
  ryErrc :: nat
  ryMain :: nat
  ryHubSent :: "byte list"
  ryHostSent :: "byte list"

definition relay_start :: relay where
  "relay_start = \<lparr>ryIn = [], ryInFin = False, ryUp = [], ryUpFin = False, ryDown = [], ryDownFin = False, ryOut = [], ryOutFin = False,
     ryHubLost = False, ryHostLost = False, ryCopyUp = Reading, ryCopyDown = Reading, ryErrc = 0, ryMain = 0, ryHubSent = [], ryHostSent = []\<rparr>"

text \<open>The relay's own steps.\<close>

inductive relay_step :: "relay \<Rightarrow> relay \<Rightarrow> bool" where
  up_read: "ryCopyUp s = Reading \<Longrightarrow> ryIn s \<noteq> [] \<Longrightarrow> 0 < n \<Longrightarrow>
    relay_step s (s\<lparr>ryCopyUp := Holding (take n (ryIn s)), ryIn := drop n (ryIn s)\<rparr>)"
| up_end: "ryCopyUp s = Reading \<Longrightarrow> ryIn s = [] \<and> ryInFin s \<or> ryHubLost s \<Longrightarrow>
    relay_step s (s\<lparr>ryCopyUp := Ended, ryErrc := Suc (ryErrc s)\<rparr>)"
| up_write: "ryCopyUp s = Holding bs \<Longrightarrow> \<not> ryUpFin s \<Longrightarrow> relay_step s (s\<lparr>ryCopyUp := Reading, ryUp := ryUp s @ bs\<rparr>)"
| up_write_failed: "ryCopyUp s = Holding bs \<Longrightarrow> ryUpFin s \<or> ryHostLost s \<Longrightarrow>
    relay_step s (s\<lparr>ryCopyUp := Ended, ryErrc := Suc (ryErrc s)\<rparr>)"
| down_read: "ryCopyDown s = Reading \<Longrightarrow> ryDown s \<noteq> [] \<Longrightarrow> 0 < n \<Longrightarrow>
    relay_step s (s\<lparr>ryCopyDown := Holding (take n (ryDown s)), ryDown := drop n (ryDown s)\<rparr>)"
| down_end: "ryCopyDown s = Reading \<Longrightarrow> ryDown s = [] \<and> ryDownFin s \<or> ryHostLost s \<Longrightarrow>
    relay_step s (s\<lparr>ryCopyDown := Ended, ryErrc := Suc (ryErrc s)\<rparr>)"
| down_write: "ryCopyDown s = Holding bs \<Longrightarrow> \<not> ryOutFin s \<Longrightarrow> relay_step s (s\<lparr>ryCopyDown := Reading, ryOut := ryOut s @ bs\<rparr>)"
| down_write_failed: "ryCopyDown s = Holding bs \<Longrightarrow> ryHubLost s \<Longrightarrow>
    relay_step s (s\<lparr>ryCopyDown := Ended, ryErrc := Suc (ryErrc s)\<rparr>)"
| main_first: "ryMain s = 0 \<Longrightarrow> 0 < ryErrc s \<Longrightarrow> relay_step s (s\<lparr>ryMain := 1, ryErrc := ryErrc s - 1, ryUpFin := True\<rparr>)"
| main_second: "ryMain s = 1 \<Longrightarrow> 0 < ryErrc s \<Longrightarrow> relay_step s (s\<lparr>ryMain := 2, ryErrc := ryErrc s - 1, ryOutFin := True\<rparr>)"

text \<open>What the session host does, and what the hub does.\<close>

inductive host_side :: "relay \<Rightarrow> relay \<Rightarrow> bool" where
  host_send: "\<not> ryDownFin s \<Longrightarrow> host_side s (s\<lparr>ryDown := ryDown s @ bs, ryHostSent := ryHostSent s @ bs\<rparr>)"
| host_close: "host_side s (s\<lparr>ryDownFin := True\<rparr>)"

inductive hub_side :: "relay \<Rightarrow> relay \<Rightarrow> bool" where
  hub_send: "\<not> ryInFin s \<Longrightarrow> hub_side s (s\<lparr>ryIn := ryIn s @ bs, ryHubSent := ryHubSent s @ bs\<rparr>)"
| hub_close: "hub_side s (s\<lparr>ryInFin := True\<rparr>)"

inductive losses :: "relay \<Rightarrow> relay \<Rightarrow> bool" where
  hub_lost: "losses s (s\<lparr>ryHubLost := True\<rparr>)"
| host_lost: "losses s (s\<lparr>ryHostLost := True\<rparr>)"

definition relay_run :: "relay \<Rightarrow> relay \<Rightarrow> bool" where
  "relay_run s s' \<longleftrightarrow> relay_step s s' \<or> host_side s s' \<or> hub_side s s' \<or> losses s s'"

text \<open>Nothing is lost on the way, whatever order things happen in.\<close>

definition down_inv :: "relay \<Rightarrow> bool" where
  "down_inv s \<longleftrightarrow> (if ryCopyDown s = Ended then prefix (ryOut s) (ryHostSent s) \<and>
       (ryHubLost s \<or> ryHostLost s \<or> ryDownFin s \<and> ryHostSent s = ryOut s)
     else ryHostSent s = ryOut s @ in_hand (ryCopyDown s) @ ryDown s)"

definition up_inv :: "relay \<Rightarrow> bool" where
  "up_inv s \<longleftrightarrow> (if ryCopyUp s = Ended then prefix (ryUp s) (ryHubSent s)
     else ryHubSent s = ryUp s @ in_hand (ryCopyUp s) @ ryIn s)"

definition main_inv :: "relay \<Rightarrow> bool" where
  "main_inv s \<longleftrightarrow> ryMain s + ryErrc s = (if ryCopyUp s = Ended then 1 else 0) + (if ryCopyDown s = Ended then 1 else 0) \<and>
     (ryOutFin s \<longleftrightarrow> ryMain s = 2)"

lemma down_inv_step: "relay_run s s' \<Longrightarrow> down_inv s \<Longrightarrow> down_inv s'"
  unfolding relay_run_def
  by (elim disjE relay_step.cases host_side.cases hub_side.cases losses.cases) (auto simp: down_inv_def split: if_splits)

lemma up_inv_step: "relay_run s s' \<Longrightarrow> up_inv s \<Longrightarrow> up_inv s'"
  unfolding relay_run_def
  by (elim disjE relay_step.cases host_side.cases hub_side.cases losses.cases) (simp_all add: up_inv_def split: if_splits)

lemma main_inv_step: "relay_run s s' \<Longrightarrow> main_inv s \<Longrightarrow> main_inv s'"
  unfolding relay_run_def
  by (elim disjE relay_step.cases host_side.cases hub_side.cases losses.cases) (simp_all add: main_inv_def split: if_splits)

lemma relay_inv:
  assumes "relay_run\<^sup>*\<^sup>* relay_start s"
  shows "down_inv s" "up_inv s" "main_inv s"
proof -
  have "down_inv s \<and> up_inv s \<and> main_inv s"
    using assms
  proof (induction rule: rtranclp_induct)
    case base
    then show ?case by (simp add: down_inv_def up_inv_def main_inv_def relay_start_def)
  next
    case (step s s')
    then show ?case using down_inv_step up_inv_step main_inv_step by blast
  qed
  then show "down_inv s" "up_inv s" "main_inv s" by simp_all
qed

text \<open>
  The relay copies. At every moment, under every interleaving and whatever is closed or lost, what the hub has
  been sent is a prefix of what the session host sent, and what the host has been sent is a prefix of what
  the hub sent; and once \<open>Attach\<close> has returned with both connections intact, all the host's bytes have been passed on.
\<close>
theorem relay_exact:
  assumes "relay_run\<^sup>*\<^sup>* relay_start s"
  shows "prefix (ryOut s) (ryHostSent s) \<and> prefix (ryUp s) (ryHubSent s) \<and>
    (ryOutFin s \<and> \<not> ryHubLost s \<and> \<not> ryHostLost s \<longrightarrow> ryOut s = ryHostSent s)"
proof -
  have "ryOutFin s \<Longrightarrow> ryCopyDown s = Ended" using relay_inv(3) [OF assms] by (auto simp: main_inv_def split: if_splits)
  then show ?thesis using relay_inv(1,2) [OF assms] by (auto simp: down_inv_def up_inv_def split: if_splits)
qed

subsection \<open>The end of a session\<close>

definition without_hub :: "relay \<Rightarrow> relay \<Rightarrow> bool" where
  "without_hub s s' \<longleftrightarrow> relay_step s s' \<or> host_side s s'"

definition hub_waits :: "relay \<Rightarrow> bool" where
  "hub_waits s \<longleftrightarrow> ryCopyUp s = Reading \<and> ryIn s = [] \<and> \<not> ryInFin s \<and> \<not> ryHubLost s \<and>
     ryMain s + ryErrc s \<le> 1 \<and> (ryCopyDown s \<noteq> Ended \<longrightarrow> ryMain s + ryErrc s = 0) \<and> \<not> ryOutFin s"

lemma hub_waits_step: "without_hub s s' \<Longrightarrow> hub_waits s \<Longrightarrow> hub_waits s'"
  unfolding without_hub_def by (elim disjE relay_step.cases host_side.cases) (simp_all add: hub_waits_def)

lemma hub_waits_run: "without_hub\<^sup>*\<^sup>* s s' \<Longrightarrow> hub_waits s \<Longrightarrow> hub_waits s'"
  by (induction rule: rtranclp_induct) (auto intro: hub_waits_step)

text \<open>
  C38: the end of a session does not reach the browser through the relay. For every output there is a run in which the host has
  sent it, closed its stream because the session has exited, and everything has arrived at the hub; and from there on,
  as long as the hub, which waits for the end of this very stream, neither sends a byte nor closes it, the
  relay never closes the stream, in any continuation: \<open>Attach\<close> waits for its other goroutine, which waits for the hub.
\<close>
theorem session_end_not_relayed:
  "\<exists>s. relay_run\<^sup>*\<^sup>* relay_start s \<and> ryHostSent s = bs \<and> ryDownFin s \<and> ryOut s = bs \<and> ryCopyDown s = Ended \<and>
    (\<forall>s'. without_hub\<^sup>*\<^sup>* s s' \<longrightarrow> \<not> ryOutFin s')"
proof -
  let ?s1 = "relay_start\<lparr>ryDown := bs, ryHostSent := bs\<rparr>"
  let ?s2 = "?s1\<lparr>ryDownFin := True\<rparr>"
  let ?s5 = "relay_start\<lparr>ryHostSent := bs, ryDownFin := True, ryOut := bs\<rparr>"
  let ?s6 = "?s5\<lparr>ryCopyDown := Ended, ryErrc := 1\<rparr>"
  have r1: "relay_run relay_start ?s1" using host_send [of relay_start bs] by (simp add: relay_run_def relay_start_def)
  have r2: "relay_run ?s1 ?s2" using host_close [of ?s1] by (simp add: relay_run_def)
  have "relay_run\<^sup>*\<^sup>* ?s2 ?s5"
  proof (cases "bs = []")
    case False
    let ?s3 = "?s2\<lparr>ryCopyDown := Holding bs, ryDown := []\<rparr>"
    have "relay_step ?s2 ?s3" using down_read [of ?s2 "length bs"] False by (simp add: relay_start_def)
    moreover have "relay_step ?s3 ?s5" using down_write [of ?s3 bs] by (simp add: relay_start_def)
    ultimately show ?thesis by (meson relay_run_def r_into_rtranclp rtranclp.rtrancl_into_rtrancl)
  qed (simp add: relay_start_def)
  moreover have "relay_run ?s5 ?s6" using down_end [of ?s5] by (simp add: relay_run_def relay_start_def)
  ultimately have run: "relay_run\<^sup>*\<^sup>* relay_start ?s6" using r1 r2
    by (meson converse_rtranclp_into_rtranclp rtranclp.rtrancl_into_rtrancl)
  have "hub_waits ?s6" by (simp add: hub_waits_def relay_start_def)
  then have "\<not> ryOutFin s'" if "without_hub\<^sup>*\<^sup>* ?s6 s'" for s' using hub_waits_run [OF that] by (simp add: hub_waits_def)
  then show ?thesis using run by (intro exI [of _ ?s6]) (simp add: relay_start_def)
qed

subsection \<open>Attaching to the session itself\<close>

text \<open>
  \<open>Manager.Attach\<close>: the drain goroutine reads the scrollback and writes to the stream, the copying one writes the
  client's bytes to the terminal device, the main one waits. After the exit of the shell, a write to its device may still succeed. \<open>maTyped\<close> (ghost state): everything that has
  arrived from the client.
\<close>

record mattach =
  maSb :: scrollback
  maRd :: reader
  maDrained :: bool
  maOut :: "byte list"
  maClosed :: bool
  maLost :: bool
  maStop :: bool
  maIn :: "byte list"
  maInFin :: bool
  maCopy :: copyPc
  maPty :: "byte list"
  maExited :: bool
  maReturned :: bool
  maTyped :: "byte list"

definition attach_to :: "scrollback \<Rightarrow> mattach" where
  "attach_to sb = \<lparr>maSb = sb, maRd = AtLock (Oldest sb), maDrained = False, maOut = [], maClosed = False, maLost = False, maStop = False,
     maIn = [], maInFin = False, maCopy = Reading, maPty = [], maExited = False, maReturned = False, maTyped = []\<rparr>"

inductive drain_step :: "mattach \<Rightarrow> mattach \<Rightarrow> bool" where
  dr_lock: "\<not> maDrained a \<Longrightarrow> maRd a = AtLock c \<Longrightarrow> drain_step a (a\<lparr>maRd := ReadFrom_body (maSb a) c\<rparr>)"
| dr_wake: "\<not> maDrained a \<Longrightarrow> maRd a = Waiting c g \<Longrightarrow> g < sb_wait (maSb a) \<Longrightarrow> drain_step a (a\<lparr>maRd := AtLock c\<rparr>)"
| dr_stop: "\<not> maDrained a \<Longrightarrow> maRd a = Waiting c g \<Longrightarrow> maStop a \<Longrightarrow> drain_step a (a\<lparr>maRd := Returned [] c False\<rparr>)"
| dr_write: "\<not> maDrained a \<Longrightarrow> maRd a = Returned d c True \<Longrightarrow> d = [] \<or> \<not> maClosed a \<Longrightarrow>
    drain_step a (a\<lparr>maRd := AtLock c, maOut := maOut a @ d\<rparr>)"
| dr_last: "\<not> maDrained a \<Longrightarrow> maRd a = Returned d c False \<Longrightarrow> d = [] \<or> \<not> maClosed a \<Longrightarrow>
    drain_step a (a\<lparr>maDrained := True, maOut := maOut a @ d, maClosed := True\<rparr>)"
| dr_failed: "\<not> maDrained a \<Longrightarrow> maRd a = Returned d c k \<Longrightarrow> d \<noteq> [] \<Longrightarrow> maClosed a \<or> maLost a \<Longrightarrow> drain_step a (a\<lparr>maDrained := True\<rparr>)"

inductive feed_step :: "mattach \<Rightarrow> mattach \<Rightarrow> bool" where
  fd_read: "maCopy a = Reading \<Longrightarrow> maIn a \<noteq> [] \<Longrightarrow> 0 < n \<Longrightarrow> feed_step a (a\<lparr>maCopy := Holding (take n (maIn a)), maIn := drop n (maIn a)\<rparr>)"
| fd_end: "maCopy a = Reading \<Longrightarrow> maIn a = [] \<and> maInFin a \<or> maLost a \<Longrightarrow> feed_step a (a\<lparr>maCopy := Ended\<rparr>)"
| fd_write: "maCopy a = Holding bs \<Longrightarrow> feed_step a (a\<lparr>maCopy := Reading, maPty := maPty a @ bs\<rparr>)"
| fd_failed: "maCopy a = Holding bs \<Longrightarrow> maExited a \<Longrightarrow> feed_step a (a\<lparr>maCopy := Ended\<rparr>)"
| fd_return: "maCopy a = Ended \<Longrightarrow> feed_step a (a\<lparr>maStop := True, maClosed := True, maReturned := True\<rparr>)"

text \<open>The session outputs and exits; the client types, detaches, or its connection is lost.\<close>

inductive around_step :: "mattach \<Rightarrow> mattach \<Rightarrow> bool" where
  ar_output: "\<not> maExited a \<Longrightarrow> around_step a (a\<lparr>maSb := sbWrite (maSb a) bs\<rparr>)"
| ar_exit: "around_step a (a\<lparr>maSb := sbClose (maSb a), maExited := True\<rparr>)"
| ar_type: "\<not> maInFin a \<Longrightarrow> around_step a (a\<lparr>maIn := maIn a @ bs, maTyped := maTyped a @ bs\<rparr>)"
| ar_detach: "around_step a (a\<lparr>maInFin := True\<rparr>)"
| ar_lost: "around_step a (a\<lparr>maLost := True\<rparr>)"

definition attach_step :: "mattach \<Rightarrow> mattach \<Rightarrow> bool" where
  "attach_step a a' \<longleftrightarrow> drain_step a a' \<or> feed_step a a' \<or> around_step a a'"

text \<open>What the session is given is what the client has typed, in order.\<close>

definition typed_inv :: "mattach \<Rightarrow> bool" where
  "typed_inv a \<longleftrightarrow> (if maCopy a = Ended then prefix (maPty a) (maTyped a) else maTyped a = maPty a @ in_hand (maCopy a) @ maIn a)"

lemma typed_inv_step: "attach_step a a' \<Longrightarrow> typed_inv a \<Longrightarrow> typed_inv a'"
  unfolding attach_step_def
  by (elim disjE drain_step.cases feed_step.cases around_step.cases) (auto simp: typed_inv_def split: if_splits)

lemma typed_exact:
  assumes "attach_step\<^sup>*\<^sup>* a a'" "typed_inv a"
  shows "prefix (maPty a') (maTyped a')"
proof -
  have "typed_inv a'" using assms by (induction rule: rtranclp_induct) (auto intro: typed_inv_step)
  then show ?thesis by (auto simp: typed_inv_def split: if_splits)
qed

definition awake :: "mattach \<Rightarrow> bool" where
  "awake a \<longleftrightarrow> parked_ok (maSb a, maRd a) \<and> (maExited a \<longrightarrow> sb_closed (maSb a))"

lemma awake_step:
  assumes "attach_step a a'" "awake a"
  shows "awake a'"
proof -
  have sb: "parked_ok u" if "sb_step (s, r) u" "parked_ok (s, r)" for s r u using parked_ok_step that by blast
  show ?thesis using assms(1) unfolding attach_step_def
  proof (elim disjE)
    assume "drain_step a a'"
    then show ?thesis using assms(2) sb [OF sb_step.rd_lock]
      by cases (auto simp: awake_def, auto simp: parked_ok_def)
  next
    assume "feed_step a a'"
    then show ?thesis using assms(2) by cases (auto simp: awake_def)
  next
    assume "around_step a a'"
    then show ?thesis using assms(2) sb [OF sb_step.wr_bytes] sb [OF sb_step.wr_close]
      by cases (auto simp: awake_def, auto simp: sbClose_def)
  qed
qed

lemma awake_reachable: "attach_step\<^sup>*\<^sup>* (attach_to sb) a \<Longrightarrow> awake a"
proof (induction rule: rtranclp_induct)
  case base
  then show ?case by (simp add: awake_def attach_to_def parked_ok_def)
next
  case (step a a')
  then show ?case using awake_step by blast
qed

text \<open>What the drain goroutine still has to write, once the session has exited.\<close>

fun still_due :: "scrollback \<Rightarrow> reader \<Rightarrow> byte list" where
  "still_due s (AtLock c) = (let c' = max c (sb_start s) in drop (nat (c' - sb_start s)) (sb_buf s))"
| "still_due s (Waiting c g) = (let c' = max c (sb_start s) in drop (nat (c' - sb_start s)) (sb_buf s))"
| "still_due s (Returned d c k) = d @ (if k then (let c' = max c (sb_start s) in drop (nat (c' - sb_start s)) (sb_buf s)) else [])"

text \<open>From the lock of a closed scrollback, at most two reads remain.\<close>

lemma drain_from_lock:
  assumes "\<not> maDrained a" "maRd a = AtLock c" "sb_closed (maSb a)" "\<not> maClosed a"
  shows "\<exists>a'. drain_step\<^sup>*\<^sup>* a a' \<and> maClosed a' \<and> maDrained a' \<and> maOut a' = maOut a @ still_due (maSb a) (AtLock c)"
proof -
  let ?s = "maSb a"
  let ?e = "sb_start ?s + int (length (sb_buf ?s))"
  have last: "\<exists>b'. drain_step\<^sup>*\<^sup>* b b' \<and> maClosed b' \<and> maDrained b' \<and> maOut b' = maOut b"
    if "\<not> maDrained b" "maRd b = AtLock d" "maSb b = ?s" "\<not> maClosed b" "?e \<le> d" for b d
  proof -
    have "ReadFrom_body (maSb b) d = Returned [] d False" using that assms(3) by (simp add: ReadFrom_body_def Let_def)
    then have 1: "drain_step b (b\<lparr>maRd := Returned [] d False\<rparr>)" using dr_lock [of b d] that by simp
    have 2: "drain_step (b\<lparr>maRd := Returned [] d False\<rparr>) (b\<lparr>maRd := Returned [] d False, maDrained := True, maClosed := True\<rparr>)"
      using dr_last [of "b\<lparr>maRd := Returned [] d False\<rparr>" "[]" d] that by simp
    show ?thesis using rtranclp.rtrancl_into_rtrancl [OF r_into_rtranclp [of drain_step, OF 1] 2]
      by (intro exI [of _ "b\<lparr>maRd := Returned [] d False, maDrained := True, maClosed := True\<rparr>"]) simp
  qed
  let ?c = "max c (sb_start ?s)"
  let ?d = "drop (nat (?c - sb_start ?s)) (sb_buf ?s)"
  show ?thesis
  proof (cases "?c < ?e")
    case True
    let ?a1 = "a\<lparr>maRd := Returned ?d ?e True\<rparr>" and ?a2 = "a\<lparr>maRd := AtLock ?e, maOut := maOut a @ ?d\<rparr>"
    have "ReadFrom_body ?s c = Returned ?d ?e True" using True by (auto simp: ReadFrom_body_def Let_def max_def)
    then have 1: "drain_step a ?a1" using dr_lock [of a c] assms(1,2) by simp
    have 2: "drain_step ?a1 ?a2" using dr_write [of ?a1 ?d ?e] assms(1,4) by simp
    obtain a' where "drain_step\<^sup>*\<^sup>* ?a2 a'" "maClosed a'" "maDrained a'" "maOut a' = maOut ?a2"
      using last [of ?a2 ?e] assms(1,4) by auto
    then show ?thesis using 1 2 by (intro exI [of _ a']) (simp add: Let_def converse_rtranclp_into_rtranclp)
  next
    case False
    let ?a1 = "a\<lparr>maRd := Returned [] ?c False\<rparr>"
    let ?a2 = "a\<lparr>maRd := Returned [] ?c False, maDrained := True, maClosed := True\<rparr>"
    have "ReadFrom_body ?s c = Returned [] ?c False" using False assms(3) by (auto simp: ReadFrom_body_def Let_def max_def)
    then have 1: "drain_step a ?a1" using dr_lock [of a c] assms(1,2) by simp
    have 2: "drain_step ?a1 ?a2" using dr_last [of ?a1 "[]" ?c] assms(1) by simp
    have "length (sb_buf ?s) \<le> nat (?c - sb_start ?s)" using False by linarith
    then have "?d = []" by simp
    then show ?thesis using rtranclp.rtrancl_into_rtrancl [OF r_into_rtranclp [of drain_step, OF 1] 2]
      by (intro exI [of _ ?a2]) (simp add: Let_def)
  qed
qed

text \<open>
  C17: a session that exits closes its streams. In every reachable state after the exit in which the stream is still open and
  the drain goroutine alive, that goroutine can, by its own steps alone and without waiting for anybody, write
  everything the scrollback still has for it and close the stream. So the client of \<open>Manager.Attach\<close> always
  learns of the end.
\<close>
theorem exit_closes_stream:
  assumes "attach_step\<^sup>*\<^sup>* (attach_to sb) a" "maExited a" "\<not> maDrained a" "\<not> maClosed a"
  shows "\<exists>a'. drain_step\<^sup>*\<^sup>* a a' \<and> maClosed a' \<and> maDrained a' \<and> maOut a' = maOut a @ still_due (maSb a) (maRd a)"
proof -
  have aw: "parked_ok (maSb a, maRd a)" "sb_closed (maSb a)" using awake_reachable [OF assms(1)] assms(2) by (simp_all add: awake_def)
  show ?thesis
  proof (cases "maRd a")
    case (AtLock c)
    then show ?thesis using drain_from_lock [OF assms(3) AtLock aw(2) assms(4)] by simp
  next
    case (Waiting c g)
    then have "g < sb_wait (maSb a)" using aw by (auto simp: parked_ok_def)
    then have 1: "drain_step a (a\<lparr>maRd := AtLock c\<rparr>)" using dr_wake [OF assms(3) Waiting] by simp
    obtain a' where "drain_step\<^sup>*\<^sup>* (a\<lparr>maRd := AtLock c\<rparr>) a'" "maClosed a'" "maDrained a'"
      "maOut a' = maOut a @ still_due (maSb a) (AtLock c)"
      using drain_from_lock [of "a\<lparr>maRd := AtLock c\<rparr>" c] assms(3,4) aw(2) by auto
    then show ?thesis using 1 Waiting by (intro exI [of _ a']) (simp add: converse_rtranclp_into_rtranclp)
  next
    case (Returned d c k)
    show ?thesis
    proof (cases k)
      case True
      let ?a1 = "a\<lparr>maRd := AtLock c, maOut := maOut a @ d\<rparr>"
      have 1: "drain_step a ?a1" using dr_write [OF assms(3)] Returned True assms(4) by simp
      obtain a' where "drain_step\<^sup>*\<^sup>* ?a1 a'" "maClosed a'" "maDrained a'" "maOut a' = maOut ?a1 @ still_due (maSb a) (AtLock c)"
        using drain_from_lock [of ?a1 c] assms(3,4) aw(2) by auto
      then show ?thesis using 1 Returned True by (intro exI [of _ a']) (simp add: converse_rtranclp_into_rtranclp)
    next
      case False
      have "drain_step a (a\<lparr>maDrained := True, maOut := maOut a @ d, maClosed := True\<rparr>)"
        using dr_last [OF assms(3)] Returned False assms(4) by simp
      then show ?thesis using Returned False
        by (intro exI [of _ "a\<lparr>maDrained := True, maOut := maOut a @ d, maClosed := True\<rparr>"]) (simp add: r_into_rtranclp)
    qed
  qed
qed

text \<open>Witness for \<open>exit_closes_stream\<close>: two bytes, then the exit.\<close>
theorem exit_closes_stream_witness:
  "let a = (attach_to (NewScrollback 8))\<lparr>maSb := sbClose (sbWrite (NewScrollback 8) [1, 2]), maExited := True\<rparr>
   in \<exists>a'. drain_step\<^sup>*\<^sup>* a a' \<and> maClosed a' \<and> maOut a' = [1, 2]"
proof -
  let ?a1 = "(attach_to (NewScrollback 8))\<lparr>maSb := sbWrite (NewScrollback 8) [1, 2]\<rparr>"
  let ?a = "(attach_to (NewScrollback 8))\<lparr>maSb := sbClose (sbWrite (NewScrollback 8) [1, 2]), maExited := True\<rparr>"
  have "attach_step (attach_to (NewScrollback 8)) ?a1" using ar_output [of "attach_to (NewScrollback 8)" "[1, 2]"]
    by (simp add: attach_step_def attach_to_def)
  moreover have "attach_step ?a1 ?a" using ar_exit [of ?a1] by (simp add: attach_step_def)
  ultimately have "attach_step\<^sup>*\<^sup>* (attach_to (NewScrollback 8)) ?a" by (meson converse_rtranclp_into_rtranclp r_into_rtranclp)
  from exit_closes_stream [OF this] show ?thesis
    by (simp add: attach_to_def still_due.simps sbWrite_def sbClose_def NewScrollback_def Oldest_def) blast
qed

text \<open>Witness for \<open>relay_exact\<close>: one byte down.\<close>
theorem relay_exact_witness:
  "relay_run\<^sup>*\<^sup>* relay_start (relay_start\<lparr>ryDown := [65], ryHostSent := [65]\<rparr>) \<and> prefix [] ([65] :: byte list)"
proof -
  have "relay_run relay_start (relay_start\<lparr>ryDown := [65], ryHostSent := [65]\<rparr>)"
    using host_send [of relay_start "[65]"] by (simp add: relay_run_def relay_start_def)
  then have r: "relay_run\<^sup>*\<^sup>* relay_start (relay_start\<lparr>ryDown := [65], ryHostSent := [65]\<rparr>)" by (rule r_into_rtranclp)
  from relay_exact [OF this] r show ?thesis by (simp add: relay_start_def)
qed

text \<open>Witness for \<open>session_end_not_relayed\<close>: a prompt, then the exit.\<close>
theorem session_end_not_relayed_witness:
  "\<exists>s. relay_run\<^sup>*\<^sup>* relay_start s \<and> ryHostSent s = [36, 32] \<and> ryOut s = [36, 32] \<and> ryDownFin s \<and> \<not> ryOutFin s"
  using session_end_not_relayed [of "[36, 32]"] by blast

end
