(* ===== verification/Attach_Path.thy ===== *)
theory Attach_Path
  imports Transport_Codec Data_Streams Session_Manager Agent_Link
begin

text \<open>
  The way of a data stream from the hub to the terminal: \<open>openDataStream\<close>
  (\<^verbatim>\<open>internal/hub/adapter/secondary/agentlink/registry.go\<close>, \<^verbatim>\<open>gateway.go\<close>), \<open>handleDataStream\<close>
  (\<^verbatim>\<open>internal/agent/adapter/primary/hubclient/streams.go\<close>) with the first half of \<open>Client.Attach\<close>
  (\<^verbatim>\<open>internal/agent/adapter/secondary/hostclient/client.go\<close>), and \<open>handleDataStream\<close> of the session host
  (\<^verbatim>\<open>internal/agent/adapter/primary/localhost/server.go\<close>). Each end reads the header line and hands the bytes
  behind it on; what happens then is in \<open>Data_Streams\<close>.
\<close>

record attachHeader =
  ahType :: MessageType
  ahSessionID :: string

definition NewAttachHeader :: "string \<Rightarrow> attachHeader" where
  "NewAttachHeader sessionID = \<lparr>ahType = TypeAttach, ahSessionID = sessionID\<rparr>"

text \<open>Opening a stream and writing the header: either may fail. The result is what has been written.\<close>

datatype streamCall = StreamOk | NoStream | HeaderFailed

definition openDataStream :: "(attachHeader \<Rightarrow> byte list) \<Rightarrow> streamCall \<Rightarrow> string \<Rightarrow> byte list result" where
  "openDataStream marshal call sessionID = (case call of
     NoStream \<Rightarrow> Inl (ErrOther ''open stream'')
   | HeaderFailed \<Rightarrow> Inl (ErrOther ''write'')
   | StreamOk \<Rightarrow> Inr (Encode marshal (NewAttachHeader sessionID) []))"

definition gateway_OpenDataStream :: "(attachHeader \<Rightarrow> byte list) \<Rightarrow> streamCall \<Rightarrow> string \<Rightarrow> string \<Rightarrow> 'f links \<Rightarrow> (nat \<times> byte list) result" where
  "gateway_OpenDataStream marshal call machineID sessionID k = (case lk_Get machineID k of
     None \<Rightarrow> Inl ErrMachineOffline
   | Some c \<Rightarrow> (case openDataStream marshal call sessionID of Inl err \<Rightarrow> Inl err | Inr bs \<Rightarrow> Inr (c, bs)))"

text \<open>
  The relaying process: \<open>s\<close> is what has arrived from the hub, \<open>connected\<close> whether the session host is.
  \<open>None\<close>: the stream is closed. Otherwise the relay begins, with the header already sent to the host.
\<close>

definition relay_begin :: "(attachHeader \<Rightarrow> byte list) \<Rightarrow> (byte list \<Rightarrow> attachHeader option) \<Rightarrow> bool \<Rightarrow> streamCall \<Rightarrow> byte list \<Rightarrow>
    (byte list \<times> relay) option" where
  "relay_begin marshal unmarshal connected call s = (case ReadAttachHeader unmarshal s of
     (Inl err, _) \<Rightarrow> None
   | (Inr hdr, raw) \<Rightarrow>
       if \<not> connected then None
       else (case openDataStream marshal call (ahSessionID hdr) of
         Inl err \<Rightarrow> None
       | Inr header \<Rightarrow> Some (header, relay_start\<lparr>ryIn := raw, ryHubSent := raw\<rparr>)))"

text \<open>The session host: the session attached to and its stream, if the header can be read and the session exists.\<close>

definition host_data_stream :: "(byte list \<Rightarrow> attachHeader option) \<Rightarrow> manager \<Rightarrow> byte list \<Rightarrow> (nat \<times> mattach) option" where
  "host_data_stream unmarshal m s = (case ReadAttachHeader unmarshal s of
     (Inl err, _) \<Rightarrow> None
   | (Inr hdr, raw) \<Rightarrow> (case mg_lookup (ahSessionID hdr) m of
       Inl err \<Rightarrow> None
     | Inr a \<Rightarrow> Some (a, (attach_to (lsSb (mgLive m ! a)))\<lparr>maIn := raw, maTyped := raw\<rparr>)))"

text \<open>What the JSON library is relied on for: a header is one line, and reads back.\<close>

definition header_codec :: "(attachHeader \<Rightarrow> byte list) \<Rightarrow> (byte list \<Rightarrow> attachHeader option) \<Rightarrow> bool" where
  "header_codec marshal unmarshal \<longleftrightarrow> (\<forall>sid. newline \<notin> set (marshal (NewAttachHeader sid)) \<and>
     unmarshal (marshal (NewAttachHeader sid) @ [newline]) = Some (NewAttachHeader sid))"

lemma header_read:
  assumes "header_codec marshal unmarshal" "openDataStream marshal call sid = Inr bs"
  shows "ReadAttachHeader unmarshal (bs @ raw) = (Inr (NewAttachHeader sid), raw)"
proof -
  have "bs = Encode marshal (NewAttachHeader sid) []" using assms(2) by (cases call) (simp_all add: openDataStream_def)
  then show ?thesis using attach_header_roundtrip [of marshal "NewAttachHeader sid" unmarshal raw] assms(1) by (simp add: header_codec_def)
qed

lemma relay_begin_reachable:
  assumes "relay_begin marshal unmarshal connected call s = Some (header, r)"
  shows "relay_run\<^sup>*\<^sup>* relay_start r"
proof -
  obtain raw where "r = relay_start\<lparr>ryIn := raw, ryHubSent := raw\<rparr>"
    using assms by (auto simp: relay_begin_def split: prod.splits sum.splits if_splits)
  then have "relay_run relay_start r" using hub_send [of relay_start raw] by (simp add: relay_run_def relay_start_def)
  then show ?thesis by (rule r_into_rtranclp)
qed


text \<open>A simple encoding of headers: a character is two digits from 16 to 31.\<close>

definition demoHeader :: "attachHeader \<Rightarrow> byte list" where
  "demoHeader h = concat (map (\<lambda>x. [word_of_nat (16 + of_char x div 16), word_of_nat (16 + of_char x mod 16)]) (ahSessionID h))"

fun demoLine :: "byte list \<Rightarrow> string" where
  "demoLine (a # b # bs) = char_of (16 * (unat a - 16) + (unat b - 16)) # demoLine bs"
| "demoLine _ = []"

lemma demo_digits: "of_char x div 16 < (16 :: nat)"
  using less_mult_imp_div_less [of "of_char x" 16 16] by simp

lemma demo_byte: "n < 16 \<Longrightarrow> unat (word_of_nat (16 + n) :: byte) = 16 + n"
  by (subst unat_of_nat) simp

lemma demoLine_demoHeader: "demoLine (demoHeader (NewAttachHeader sid) @ [newline]) = sid"
proof (induction sid)
  case (Cons x sid)
  show ?case using Cons demo_byte [OF demo_digits, of x] demo_byte [of "of_char x mod 16"]
    by (simp add: demoHeader_def NewAttachHeader_def del: of_nat_add)
qed (simp add: demoHeader_def NewAttachHeader_def)

lemma demo_header_codec: "header_codec demoHeader (\<lambda>bs. Some (NewAttachHeader (demoLine bs)))"
proof -
  have "newline \<noteq> (word_of_nat (16 + n) :: byte)" if "n < 16" for n
    using demo_byte [OF that] by (auto simp: newline_def simp del: of_nat_add)
  then show ?thesis using demo_digits demoLine_demoHeader by (auto simp: header_codec_def demoHeader_def simp del: of_nat_add)
qed


end
