(* ===== verification/Host_Spawn.thy ===== *)
theory Host_Spawn
  imports Interleaving
begin

text \<open>
  Who owns the session host's socket: the start of \<open>connect\<close>, which spawns a session host if none answers
  (\<^verbatim>\<open>cmd/agent/spawn_unix.go\<close>), and the start and the end of \<open>session-host\<close> (\<^verbatim>\<open>cmd/agent/main.go\<close>), as
  processes that interleave.

  \<^item> Processes are numbered. The socket's path holds no file, or one that leads to the host that bound it, which may
    have ended. A host that listens answers a dial.
  \<^item> Closing a listener removes the file at its path (package \<open>net\<close>), whichever host that file leads to.
  \<^item> Time is left out: the polling may give up at any step. A supervisor may restart \<open>connect\<close> when it has ended.
\<close>

subsection \<open>Processes\<close>

record spawnState =
  spSock :: "nat option"
  spListening :: "nat list"
  spNext :: nat

definition socketResponds :: "spawnState \<Rightarrow> bool" where
  "socketResponds s = (case spSock s of None \<Rightarrow> False | Some h \<Rightarrow> h \<in> set (spListening s))"

datatype sp_pc =
    SpConnect | SpSpawning | SpPolling | SpDialing | SpUsing nat | SpExit
  | ShStart nat | ShRemoved nat | ShServing nat | ShClosing nat | ShDone nat

inductive connect_step :: "spawnState \<times> sp_pc \<Rightarrow> spawnState \<times> sp_pc \<times> sp_pc list \<Rightarrow> bool" where
  sp_answers: "socketResponds s \<Longrightarrow> connect_step (s, SpConnect) (s, SpDialing, [])"
| sp_silent: "\<not> socketResponds s \<Longrightarrow> connect_step (s, SpConnect) (s, SpSpawning, [])"
| sp_start: "connect_step (s, SpSpawning) (s\<lparr>spNext := Suc (spNext s)\<rparr>, SpPolling, [ShStart (spNext s)])"
| sp_start_failed: "connect_step (s, SpSpawning) (s, SpExit, [])"
| sp_ready: "socketResponds s \<Longrightarrow> connect_step (s, SpPolling) (s, SpDialing, [])"
| sp_timeout: "connect_step (s, SpPolling) (s, SpExit, [])"
| sp_dial: "spSock s = Some h \<Longrightarrow> h \<in> set (spListening s) \<Longrightarrow> connect_step (s, SpDialing) (s, SpUsing h, [])"
| sp_dial_failed: "connect_step (s, SpDialing) (s, SpExit, [])"
| sp_ended: "connect_step (s, SpUsing h) (s, SpExit, [])"
| sp_restart: "connect_step (s, SpExit) (s, SpConnect, [])"

inductive session_host_step :: "spawnState \<times> sp_pc \<Rightarrow> spawnState \<times> sp_pc \<times> sp_pc list \<Rightarrow> bool" where
  sh_no_dir: "session_host_step (s, ShStart h) (s, ShDone h, [])"
| sh_remove: "session_host_step (s, ShStart h) (s\<lparr>spSock := None\<rparr>, ShRemoved h, [])"
| sh_remove_failed: "session_host_step (s, ShStart h) (s, ShRemoved h, [])"
| sh_listen: "spSock s = None \<Longrightarrow>
    session_host_step (s, ShRemoved h) (s\<lparr>spSock := Some h, spListening := h # spListening s\<rparr>, ShServing h, [])"
| sh_listen_failed: "session_host_step (s, ShRemoved h) (s, ShDone h, [])"
| sh_stop: "session_host_step (s, ShServing h) (s, ShClosing h, [])"
| sh_crash: "session_host_step (s, ShServing h) (s\<lparr>spListening := removeAll h (spListening s)\<rparr>, ShDone h, [])"
| sh_close: "session_host_step (s, ShClosing h) (s\<lparr>spSock := None, spListening := removeAll h (spListening s)\<rparr>, ShDone h, [])"

definition sp_step :: "spawnState \<times> sp_pc \<Rightarrow> spawnState \<times> sp_pc \<times> sp_pc list \<Rightarrow> bool" where
  "sp_step c c' \<longleftrightarrow> connect_step c c' \<or> session_host_step c c'"

inductive_cases connect_step_elim: "connect_step (s, t) (s', t', new)"
inductive_cases session_host_step_elim: "session_host_step (s, t) (s', t', new)"

lemma sp_step_cases:
  assumes "sp_step (s, t) (s', t', new)"
  obtains "connect_step (s, t) (s', t', new)" | "session_host_step (s, t) (s', t', new)"
  using assms by (auto simp: sp_step_def)

subsection \<open>One host, many connections\<close>

text \<open>The host is the one the path leads to, no other host is under way, and no connection has found the socket silent.\<close>

fun other_host :: "nat \<Rightarrow> sp_pc \<Rightarrow> bool" where
  "other_host h (ShStart k) \<longleftrightarrow> True"
| "other_host h (ShRemoved k) \<longleftrightarrow> True"
| "other_host h (ShServing k) \<longleftrightarrow> k \<noteq> h"
| "other_host h (ShClosing k) \<longleftrightarrow> True"
| "other_host h SpSpawning \<longleftrightarrow> True"
| "other_host h _ \<longleftrightarrow> False"

definition sole_host :: "nat \<Rightarrow> spawnState \<times> sp_pc list \<Rightarrow> bool" where
  "sole_host h c \<longleftrightarrow> (case c of (s, pcs) \<Rightarrow> spSock s = Some h \<and> h \<in> set (spListening s) \<and> h < spNext s \<and>
     count_list pcs (ShServing h) = 1 \<and> (\<forall>t \<in> set pcs. \<not> other_host h t))"

fun may_serve :: "nat \<Rightarrow> sp_pc \<Rightarrow> bool" where
  "may_serve h (ShStart k) \<longleftrightarrow> k = h"
| "may_serve h (ShRemoved k) \<longleftrightarrow> k = h"
| "may_serve h (ShServing k) \<longleftrightarrow> k = h"
| "may_serve h _ \<longleftrightarrow> False"

definition host_over :: "nat \<Rightarrow> spawnState \<times> sp_pc list \<Rightarrow> bool" where
  "host_over h c \<longleftrightarrow> h < spNext (fst c) \<and> (\<forall>t \<in> set (snd c). \<not> may_serve h t)"

text \<open>What holds while the host serves: it stays the only one, and every connection made reaches it.\<close>

definition keeps_host :: "nat \<Rightarrow> nat \<Rightarrow> nat set \<Rightarrow> spawnState \<times> sp_pc list \<Rightarrow> bool" where
  "keeps_host h n old c \<longleftrightarrow>
     sole_host h c \<and> spNext (fst c) = n \<and> (\<forall>k. SpUsing k \<in> set (snd c) \<longrightarrow> k = h \<or> k \<in> old) \<or> host_over h c"

lemma keeps_host_step:
  assumes "keeps_host h n old (s, ts1 @ t # ts2)" "sp_step (s, t) (s', t', new)"
  shows "keeps_host h n old (s', ts1 @ t' # ts2 @ new)"
proof (cases "host_over h (s, ts1 @ t # ts2)")
  case True
  then have "host_over h (s', ts1 @ t' # ts2 @ new)"
    using assms(2) by (auto simp: host_over_def elim!: sp_step_cases connect_step_elim session_host_step_elim)
  then show ?thesis by (simp add: keeps_host_def)
next
  case False
  then have k: "sole_host h (s, ts1 @ t # ts2)" "spNext s = n" "\<forall>k. SpUsing k \<in> set (ts1 @ t # ts2) \<longrightarrow> k = h \<or> k \<in> old"
    using assms(1) by (auto simp: keeps_host_def)
  have quiet: "\<not> may_serve h x" if "x \<in> set ts1 \<union> set ts2" "t = ShServing h" for x
  proof
    assume "may_serve h x"
    moreover have "\<not> other_host h x" using k(1) that(1) by (auto simp: sole_host_def)
    ultimately have "x = ShServing h" by (cases x) auto
    then show False using k(1) that by (auto simp: sole_host_def count_list_0_iff)
  qed
  have "\<not> other_host h t" using k(1) by (simp add: sole_host_def)
  show ?thesis using assms(2)
  proof (cases rule: sp_step_cases)
    case 1
    then show ?thesis using k \<open>\<not> other_host h t\<close>
      by (cases rule: connect_step_elim) (auto simp: keeps_host_def sole_host_def socketResponds_def)
  next
    case 2
    then show ?thesis using k \<open>\<not> other_host h t\<close> quiet
      by (cases rule: session_host_step_elim) (auto simp: keeps_host_def sole_host_def host_over_def)
  qed
qed

text \<open>
  C18: restarting the relay leaves the session host alone. Once a host is reachable, no other host is on its way up
  or down, and no connection has already found the socket silent, then whatever connections start, fail, end
  and restart, in any interleaving: for as long as that host serves, the path leads to it, no other host is
  started, and every new connection reaches it. So its sessions survive.
\<close>
theorem connect_restarts_keep_host:
  assumes "(par_step sp_step)\<^sup>*\<^sup>* (s, pcs) (s', pcs')" "sole_host h (s, pcs)" "ShServing h \<in> set pcs'"
  shows "spSock s' = Some h \<and> socketResponds s' \<and> spNext s' = spNext s \<and> (\<forall>k. ShServing k \<in> set pcs' \<longrightarrow> k = h) \<and>
    (\<forall>k. SpUsing k \<in> set pcs' \<longrightarrow> k = h \<or> SpUsing k \<in> set pcs)"
proof -
  have "keeps_host h (spNext s) {k. SpUsing k \<in> set pcs} (s', pcs')"
    by (rule par_invariant [OF assms(1)]) (use assms(2) in \<open>simp add: keeps_host_def\<close>, rule keeps_host_step)
  moreover have "\<not> host_over h (s', pcs')" using assms(3) by (auto simp: host_over_def intro!: bexI [of _ "ShServing h"])
  ultimately show ?thesis by (auto simp: keeps_host_def sole_host_def socketResponds_def)
qed

subsection \<open>Schedules\<close>

text \<open>The step a process takes, given what the environment chooses: whether its call succeeds, or that it ends.\<close>

datatype spChoice = Go | Fail | Crash

fun sp_do :: "spChoice \<Rightarrow> spawnState \<times> sp_pc \<Rightarrow> (spawnState \<times> sp_pc \<times> sp_pc list) option" where
  "sp_do ch (s, SpConnect) = Some (s, if socketResponds s then SpDialing else SpSpawning, [])"
| "sp_do ch (s, SpSpawning) = (if ch = Go then Some (s\<lparr>spNext := Suc (spNext s)\<rparr>, SpPolling, [ShStart (spNext s)]) else Some (s, SpExit, []))"
| "sp_do ch (s, SpPolling) = (if ch = Go \<and> socketResponds s then Some (s, SpDialing, []) else Some (s, SpExit, []))"
| "sp_do ch (s, SpDialing) = (case spSock s of Some h \<Rightarrow> if ch = Go \<and> h \<in> set (spListening s) then Some (s, SpUsing h, []) else Some (s, SpExit, [])
     | None \<Rightarrow> Some (s, SpExit, []))"
| "sp_do ch (s, SpUsing h) = Some (s, SpExit, [])"
| "sp_do ch (s, SpExit) = Some (s, SpConnect, [])"
| "sp_do ch (s, ShStart h) = (if ch = Go then Some (s\<lparr>spSock := None\<rparr>, ShRemoved h, []) else Some (s, ShDone h, []))"
| "sp_do ch (s, ShRemoved h) = (if ch = Go \<and> spSock s = None then Some (s\<lparr>spSock := Some h, spListening := h # spListening s\<rparr>, ShServing h, [])
     else Some (s, ShDone h, []))"
| "sp_do ch (s, ShServing h) = (if ch = Crash then Some (s\<lparr>spListening := removeAll h (spListening s)\<rparr>, ShDone h, []) else Some (s, ShClosing h, []))"
| "sp_do ch (s, ShClosing h) = Some (s\<lparr>spSock := None, spListening := removeAll h (spListening s)\<rparr>, ShDone h, [])"
| "sp_do ch (s, ShDone h) = None"

lemma sp_do_step: "sp_do ch (s, t) = Some (s', t', new) \<Longrightarrow> sp_step (s, t) (s', t', new)"
  by (cases t) (auto simp: sp_step_def intro: connect_step.intros session_host_step.intros split: if_splits option.splits)

lemma sp_reachable: "par_exec sp_do sched c = Some c' \<Longrightarrow> (par_step sp_step)\<^sup>*\<^sup>* c c'"
  by (rule par_exec_reachable [of sp_do sp_step]) (rule sp_do_step)

definition booted :: spawnState where
  "booted = \<lparr>spSock = None, spListening = [], spNext = 1\<rparr>"

text \<open>Witness for \<open>connect_restarts_keep_host\<close>: the relay restarts twice.\<close>
theorem connect_restarts_keep_host_witness:
  "\<exists>s' pcs'. par_exec sp_do [(1, Go), (1, Go), (1, Fail), (1, Go), (1, Go), (1, Go)]
      (\<lparr>spSock = Some 0, spListening = [0], spNext = 1\<rparr>, [ShServing 0, SpConnect]) = Some (s', pcs') \<and> spSock s' = Some 0 \<and>
    SpUsing 0 \<in> set pcs' \<and> spNext s' = 1"
proof -
  let ?c = "(\<lparr>spSock = Some 0, spListening = [0], spNext = 1\<rparr>, [ShServing 0, SpConnect])"
  let ?sched = "[(1, Go), (1, Go), (1, Fail), (1, Go), (1, Go), (1, Go)]"
  have run: "par_exec sp_do ?sched ?c = Some (\<lparr>spSock = Some 0, spListening = [0], spNext = 1\<rparr>, [ShServing 0, SpUsing 0])" by code_simp
  have "(par_step sp_step)\<^sup>*\<^sup>* ?c (\<lparr>spSock = Some 0, spListening = [0], spNext = 1\<rparr>, [ShServing 0, SpUsing 0])"
    by (rule sp_reachable [OF run])
  from connect_restarts_keep_host [OF this, of 0] run show ?thesis by (auto simp: sole_host_def)
qed

subsection \<open>Two units, two hosts\<close>

text \<open>A host that serves without the path leading to it is out of reach for good.\<close>

definition unreachable :: "nat \<Rightarrow> spawnState \<times> sp_pc list \<Rightarrow> bool" where
  "unreachable h c \<longleftrightarrow> h < spNext (fst c) \<and> spSock (fst c) \<noteq> Some h \<and> (\<forall>t \<in> set (snd c). t \<noteq> ShStart h \<and> t \<noteq> ShRemoved h)"

lemma unreachable_step:
  assumes "unreachable h (s, ts1 @ t # ts2)" "sp_step (s, t) (s', t', new)"
  shows "unreachable h (s', ts1 @ t' # ts2 @ new)"
  using assms(2)
proof (cases rule: sp_step_cases)
  case 1
  then show ?thesis using assms(1) by (cases rule: connect_step_elim) (auto simp: unreachable_def)
next
  case 2
  then show ?thesis using assms(1) by (cases rule: session_host_step_elim) (auto simp: unreachable_def)
qed

lemma unreachable_forever:
  assumes "(par_step sp_step)\<^sup>*\<^sup>* c c'" "unreachable h c"
  shows "unreachable h c'"
  by (rule par_invariant [OF assms(1), of "unreachable h", OF assms(2)]) (rule unreachable_step)

text \<open>
  C37: the two services can start two session hosts. The relay's unit is started once the host's process exists, not
  once it listens. If the relay looks at the socket before the host has bound it, it spawns a second host,
  which removes the first one's socket and takes its place: both serve, the relay uses the second, and the host that
  the service manager started is out of reach for ever. When that service is stopped, it removes the
  socket of the host in use, so that the next start of the relay spawns yet another host, and the sessions of
  the second are out of reach as well.
\<close>
theorem units_race_two_hosts:
  "\<exists>s pcs s2 pcs2. (par_step sp_step)\<^sup>*\<^sup>* (booted, [ShStart 0, SpConnect]) (s, pcs) \<and>
    ShServing 0 \<in> set pcs \<and> ShServing 1 \<in> set pcs \<and> SpUsing 1 \<in> set pcs \<and>
    (\<forall>c. (par_step sp_step)\<^sup>*\<^sup>* (s, pcs) c \<longrightarrow> spSock (fst c) \<noteq> Some 0) \<and>
    (par_step sp_step)\<^sup>*\<^sup>* (s, pcs) (s2, pcs2) \<and> ShServing 1 \<in> set pcs2 \<and> 1 \<in> set (spListening s2) \<and> SpUsing 2 \<in> set pcs2 \<and>
    (\<forall>c. (par_step sp_step)\<^sup>*\<^sup>* (s2, pcs2) c \<longrightarrow> spSock (fst c) \<noteq> Some 1)"
proof -
  let ?s = "\<lparr>spSock = Some 1, spListening = [1, 0], spNext = 2\<rparr>" and ?pcs = "[ShServing 0, SpUsing 1, ShServing 1]"
  let ?s2 = "\<lparr>spSock = Some 2, spListening = [2, 1], spNext = 3\<rparr>" and ?pcs2 = "[ShDone 0, SpUsing 2, ShServing 1, ShServing 2]"
  have run: "par_exec sp_do [(1, Go), (0, Go), (0, Go), (1, Go), (2, Go), (2, Go), (1, Go), (1, Go)] (booted, [ShStart 0, SpConnect]) = Some (?s, ?pcs)"
    "par_exec sp_do [(0, Go), (0, Go), (1, Go), (1, Go), (1, Go), (1, Go), (3, Go), (3, Go), (1, Go), (1, Go)] (?s, ?pcs) = Some (?s2, ?pcs2)"
    by code_simp+
  have "unreachable 0 (?s, ?pcs)" "unreachable 1 (?s2, ?pcs2)" by (simp_all add: unreachable_def)
  then have lost: "\<forall>c. (par_step sp_step)\<^sup>*\<^sup>* (?s, ?pcs) c \<longrightarrow> spSock (fst c) \<noteq> Some 0"
    "\<forall>c. (par_step sp_step)\<^sup>*\<^sup>* (?s2, ?pcs2) c \<longrightarrow> spSock (fst c) \<noteq> Some 1"
    using unreachable_forever unfolding unreachable_def by blast+
  show ?thesis
    by (intro exI [of _ ?s] exI [of _ ?pcs] exI [of _ ?s2] exI [of _ ?pcs2] conjI sp_reachable [OF run(1)] sp_reachable [OF run(2)] lost)
      simp_all
qed

text \<open>Witness for \<open>units_race_two_hosts\<close>.\<close>
theorem units_race_two_hosts_witness:
  "\<exists>s pcs. (par_step sp_step)\<^sup>*\<^sup>* (booted, [ShStart 0, SpConnect]) (s, pcs) \<and> ShServing 0 \<in> set pcs \<and> SpUsing 1 \<in> set pcs \<and> spSock s \<noteq> Some 0"
  using units_race_two_hosts by (metis fst_conv rtranclp.rtrancl_refl)

end
