(* ===== verification/Pty_Factory.thy ===== *)
theory Pty_Factory
  imports Session_Manager Transport Platform_Config
begin

text \<open>
  The agent's operating-system adapters: starting a shell in a pseudo terminal
  (\<^verbatim>\<open>internal/agent/adapter/secondary/pty/factory.go\<close>, \<^verbatim>\<open>pty.go\<close>) and the host's metrics
  (\<^verbatim>\<open>internal/agent/adapter/secondary/sysmetrics/collector.go\<close>); and how the session host makes its session
  manager (\<^verbatim>\<open>cmd/agent/main.go\<close>). The system's answers are inputs; the directories
  created are logged. The size of a window is two 16-bit words, as the kernel has it.
\<close>

subsection \<open>Starting a shell\<close>

datatype statResult = PathExists | PathMissing | StatFailed

record command =
  cmPath :: string
  cmDir :: string
  cmEnv :: "string list"

record ptySystem =
  peGetenv :: environment
  peEnviron :: "string list"
  peHome :: "string option"
  peStat :: "string \<Rightarrow> statResult"
  peMkdirAll :: "string \<Rightarrow> bool"
  peStart :: "command \<Rightarrow> int option"
  peSetsize :: bool

text \<open>A device: the process behind it and the window size set last; none is the size the kernel starts with.\<close>

record device =
  dvPid :: int
  dvCommand :: command
  dvSize :: "(16 word \<times> 16 word) option"

definition factory_shell :: "ptySystem \<Rightarrow> PTYSpec \<Rightarrow> string" where
  "factory_shell p spec =
     (if specShell spec \<noteq> [] then specShell spec
      else if peGetenv p ''SHELL'' \<noteq> [] then peGetenv p ''SHELL''
      else ''/bin/sh'')"

definition pty_expandHome :: "string option \<Rightarrow> string \<Rightarrow> string" where
  "pty_expandHome userHome path =
     (if path \<noteq> ''~'' \<and> \<not> prefix ''~/'' path then path
      else case userHome of
        None \<Rightarrow> path
      | Some home \<Rightarrow> if home = [] then path else if path = ''~'' then home else filepath_Join [home, drop 2 path])"

definition hasTERM :: "string list \<Rightarrow> bool" where
  "hasTERM env \<longleftrightarrow> (\<exists>e \<in> set env. prefix ''TERM='' e)"

text \<open>The directory to start in: an error, or the directory and what had to be created.\<close>

definition factory_dir :: "ptySystem \<Rightarrow> PTYSpec \<Rightarrow> ptyError + string \<times> string list" where
  "factory_dir p spec =
     (if specCwd spec = [] then Inr ([], [])
      else let dir = pty_expandHome (peHome p) (specCwd spec) in
        case peStat p dir of
          PathExists \<Rightarrow> Inr (dir, [])
        | StatFailed \<Rightarrow> Inl (PtyFailed ''stat cwd'')
        | PathMissing \<Rightarrow>
            if \<not> specCreateDir spec then Inl ErrCwdNotFound
            else if \<not> peMkdirAll p dir then Inl (PtyFailed ''create cwd'')
            else Inr (dir, [dir]))"

definition factory_env :: "ptySystem \<Rightarrow> PTYSpec \<Rightarrow> string list" where
  "factory_env p spec = (let env = peEnviron p @ specEnv spec in if \<not> hasTERM env then env @ [''TERM=xterm-256color''] else env)"

definition winsize :: "int \<Rightarrow> int \<Rightarrow> 16 word \<times> 16 word" where
  "winsize c r = (word_of_int c, word_of_int r)"

definition factory_Open :: "ptySystem \<Rightarrow> PTYSpec \<Rightarrow> (ptyError + device) \<times> string list" where
  "factory_Open p spec = (case factory_dir p spec of
     Inl err \<Rightarrow> (Inl err, [])
   | Inr (dir, made) \<Rightarrow>
       (let cmd = \<lparr>cmPath = factory_shell p spec, cmDir = dir, cmEnv = factory_env p spec\<rparr> in
        case peStart p cmd of
          None \<Rightarrow> (Inl (PtyFailed ''start''), made)
        | Some pid \<Rightarrow> (Inr \<lparr>dvPid = pid, dvCommand = cmd,
            dvSize = (if specCols spec > 0 \<and> specRows spec > 0 \<and> peSetsize p then Some (winsize (specCols spec) (specRows spec)) else None)\<rparr>, made)))"

subsection \<open>The running shell\<close>

definition pty_Resize :: "bool \<Rightarrow> int \<Rightarrow> int \<Rightarrow> device \<Rightarrow> bool \<times> device" where
  "pty_Resize ok c r d = (if ok then (True, d\<lparr>dvSize := Some (winsize c r)\<rparr>) else (False, d))"

text \<open>How waiting for the process ends: it succeeded, it exited with a status (-1 for a signal), or the wait failed.\<close>

datatype waitResult = Succeeded | ExitStatus int | WaitFailed

definition pty_Wait :: "waitResult \<Rightarrow> int \<times> bool" where
  "pty_Wait res = (case res of Succeeded \<Rightarrow> (0, True) | ExitStatus code \<Rightarrow> (code, True) | WaitFailed \<Rightarrow> (-1, False))"

text \<open>The working directory: on Linux the link the kernel keeps for the process, elsewhere what the library finds.\<close>

definition pty_Cwd :: "string \<Rightarrow> (int \<Rightarrow> string option) \<Rightarrow> (int \<Rightarrow> string option) \<Rightarrow> device \<Rightarrow> string option" where
  "pty_Cwd goos readlink other d = (if goos = ''linux'' then readlink (dvPid d) else other (dvPid d))"

subsection \<open>Metrics\<close>

text \<open>\<open>cpu\<close>: the percentages, one for all processors together; \<open>vm\<close>: used and total bytes; none if unavailable.\<close>

definition Sample :: "'f \<Rightarrow> 'f list option \<Rightarrow> (64 word \<times> 64 word) option \<Rightarrow> 'f::zero Metrics \<times> bool" where
  "Sample unavailable cpu vm =
     (let cpuOK = (cpu \<noteq> None \<and> cpu \<noteq> Some []); mb = (\<lambda>b :: 64 word. uint (b div (1024 * 1024))) in
      (\<lparr>meCPUPercent = (case cpu of Some (p # _) \<Rightarrow> p | _ \<Rightarrow> unavailable),
        meMemUsedMB = (case vm of Some (used, installed) \<Rightarrow> mb used | None \<Rightarrow> 0),
        meMemTotalMB = (case vm of Some (used, installed) \<Rightarrow> mb installed | None \<Rightarrow> 0)\<rparr>, cpuOK \<or> vm \<noteq> None))"

subsection \<open>The session host's manager\<close>

text \<open>\<open>disk\<close>: what a directory holds when the host starts.\<close>

definition session_host_manager :: "environment \<Rightarrow> string option \<Rightarrow> (string \<Rightarrow> dir) \<Rightarrow> AgentConfig \<Rightarrow> manager" where
  "session_host_manager env home disk cfg =
     SetScreenFactory True (NewManager (acScrollbackBytes cfg)
       (if IsPersistScrollback cfg then Some (NewArchive (disk (ScrollbackDirPath env home cfg)) (ScrollbackCapBytes cfg)) else None))"

subsection \<open>Where a session starts\<close>

text \<open>
  A session starts where it was asked to, or not at all. A directory is created only if it is missing and the
  request says so, and nothing else is; the distinct error that lets the user be asked is given exactly when it is missing and
  the request does not say so, and then no shell is started; a shell that is started runs in the directory asked for,
  with \<open>~\<close> expanded, which exists by then, and has a terminal type, the caller's or the environment's if either sets one.
\<close>
theorem session_starts_where_asked:
  assumes "factory_Open p spec = (res, made)" "dir = pty_expandHome (peHome p) (specCwd spec)"
  shows "(made \<noteq> [] \<longrightarrow> made = [dir] \<and> peStat p dir = PathMissing \<and> specCreateDir spec \<and> peMkdirAll p dir) \<and>
    (res = Inl ErrCwdNotFound \<longleftrightarrow> specCwd spec \<noteq> [] \<and> peStat p dir = PathMissing \<and> \<not> specCreateDir spec) \<and>
    (\<forall>d. res = Inr d \<longrightarrow> cmDir (dvCommand d) = (if specCwd spec = [] then [] else dir) \<and>
       (specCwd spec \<noteq> [] \<longrightarrow> peStat p dir = PathExists \<or> dir \<in> set made) \<and> peStart p (dvCommand d) = Some (dvPid d) \<and>
       hasTERM (cmEnv (dvCommand d)) \<and> prefix (peEnviron p @ specEnv spec) (cmEnv (dvCommand d)) \<and>
       (hasTERM (peEnviron p @ specEnv spec) \<longrightarrow> cmEnv (dvCommand d) = peEnviron p @ specEnv spec))"
proof -
  have "hasTERM (factory_env p spec)" "prefix (peEnviron p @ specEnv spec) (factory_env p spec)"
    by (auto simp: factory_env_def hasTERM_def Let_def)
  then show ?thesis using assms(1) unfolding assms(2)
    by (auto simp: factory_Open_def factory_dir_def factory_env_def Let_def split: if_splits option.splits statResult.splits)
qed

definition demoPtySystem :: ptySystem where
  "demoPtySystem = \<lparr>peGetenv = (\<lambda>n. if n = ''SHELL'' then ''/bin/bash'' else []), peEnviron = [''HOME=/home/u''], peHome = Some ''/home/u'',
     peStat = (\<lambda>d. if d = ''/home/u'' then PathExists else PathMissing), peMkdirAll = (\<lambda>_. True), peStart = (\<lambda>_. Some 42), peSetsize = True\<rparr>"

text \<open>Witness for \<open>session_starts_where_asked\<close>: a new directory under the home directory.\<close>
theorem session_starts_where_asked_witness:
  "\<exists>d. factory_Open demoPtySystem \<lparr>specShell = [], specCwd = ''~/p'', specCols = 80, specRows = 24, specEnv = [], specCreateDir = True\<rparr> =
      (Inr d, [''/home/u/p'']) \<and> cmDir (dvCommand d) = ''/home/u/p'' \<and> hasTERM (cmEnv (dvCommand d))"
proof -
  let ?spec = "\<lparr>specShell = [], specCwd = ''~/p'', specCols = 80, specRows = 24, specEnv = [], specCreateDir = True\<rparr>"
  have dir: "pty_expandHome (peHome demoPtySystem) (specCwd ?spec) = ''/home/u/p''" by code_simp
  obtain d where d: "factory_Open demoPtySystem ?spec = (Inr d, [''/home/u/p''])"
    using dir by (auto simp: factory_Open_def factory_dir_def demoPtySystem_def Let_def)
  from session_starts_where_asked [OF d refl] dir d show ?thesis by (intro exI [of _ d]) simp
qed

subsection \<open>The size of the window\<close>

lemma screen_resize_dims:
  assumes "Resize e c r = Some e'"
  shows "cols e' = max 1 c" "rows e' = max 1 r"
  using assms by (auto simp: Resize_def Let_def split: if_splits bind_splits)

lemma word16_exact:
  "uint (word_of_int c :: 16 word) = c mod 65536" "0 \<le> c \<Longrightarrow> c mod 65536 = max 1 c \<longleftrightarrow> 1 \<le> c \<and> c \<le> 65535"
proof -
  show "uint (word_of_int c :: 16 word) = c mod 65536" by (simp add: uint_word_of_int)
  have "0 \<le> c mod 65536 \<and> c mod 65536 < 65536" by simp
  then show "c mod 65536 = max 1 c \<longleftrightarrow> 1 \<le> c \<and> c \<le> 65535" if "0 \<le> c" using that by (auto simp: max_def)
qed

text \<open>
  When the emulated screen and the window agree. After a successful resize of a session and its device, the
  screen has the size asked for, at least one by one, and the shell's window has it modulo 65536. For sizes that are
  not negative the two agree exactly if both dimensions lie between 1 and 65535.
\<close>
theorem resize_window_agrees:
  assumes "mg_lookup sid m = Inr a" "a < length (mgLive m)" "lsScreen (mgLive m ! a) = Some e"
    and "pty_Resize ok c r d = (ok', d')" "mg_Resize ok' sid c r m = Some (Inr (), m')"
  shows "\<exists>e' w h. lsScreen (mgLive m' ! a) = Some e' \<and> cols e' = max 1 c \<and> rows e' = max 1 r \<and> dvSize d' = Some (w, h) \<and>
    uint w = c mod 65536 \<and> uint h = r mod 65536 \<and>
    (0 \<le> c \<and> 0 \<le> r \<longrightarrow> (uint w = cols e' \<and> uint h = rows e' \<longleftrightarrow> 1 \<le> c \<and> c \<le> 65535 \<and> 1 \<le> r \<and> r \<le> 65535))"
proof -
  obtain e' where e': "Resize e c r = Some e'" "ok'" "lsScreen (mgLive m' ! a) = Some e'"
    using assms(1-3,5) by (auto simp: mg_Resize_def ls_upd_def split: option.splits if_splits)
  have "dvSize d' = Some (winsize c r)" using assms(4) e'(2) by (auto simp: pty_Resize_def split: if_splits)
  then show ?thesis using e'(3) screen_resize_dims [OF e'(1)] word16_exact [of c] word16_exact [of r]
    by (auto simp: winsize_def)
qed

definition demoDevice :: device where
  "demoDevice = \<lparr>dvPid = 42, dvCommand = \<lparr>cmPath = ''/bin/sh'', cmDir = [], cmEnv = []\<rparr>, dvSize = None\<rparr>"

definition demoResizable :: manager where
  "demoResizable = (NewManager 8 None)\<lparr>mgSessions := [(''s1'', 0)], mgLive := [\<lparr>lsPty = \<lparr>ptPid = 42, ptCols = 2, ptRows = 1, ptClosed = False\<rparr>,
     lsSb = NewScrollback 8, lsScreen = Some (NewEmulator 2 1), lsLastOutputAt = 0, lsDirty = False\<rparr>]\<rparr>"

text \<open>Witness for \<open>resize_window_agrees\<close>: at a width of 65536 screen and window differ.\<close>
theorem resize_window_agrees_witness:
  "\<exists>m' e' w h. mg_Resize True ''s1'' 65536 2 demoResizable = Some (Inr (), m') \<and> lsScreen (mgLive m' ! 0) = Some e' \<and> cols e' = 65536 \<and>
     dvSize (snd (pty_Resize True 65536 2 demoDevice)) = Some (w, h) \<and> uint w \<noteq> cols e'"
proof -
  let ?e = "NewEmulator 2 1"
  have "wf_emulator ?e" by (simp add: NewEmulator_wf maxDim_def)
  then obtain e1 where e1: "Resize ?e 65536 2 = Some e1" using Resize_total [of ?e 65536 2] by (auto simp: maxDim_def)
  have l: "mg_lookup ''s1'' demoResizable = Inr 0" "0 < length (mgLive demoResizable)" "lsScreen (mgLive demoResizable ! 0) = Some ?e"
    by (simp_all add: demoResizable_def mg_lookup_def m_get_def)
  then obtain m' where m': "mg_Resize True ''s1'' 65536 2 demoResizable = Some (Inr (), m')" using e1 by (simp add: mg_Resize_def)
  have p: "pty_Resize True 65536 2 demoDevice = (True, snd (pty_Resize True 65536 2 demoDevice))" by (simp add: pty_Resize_def)
  from resize_window_agrees [OF l p m'] m' show ?thesis by auto
qed

end
