(* ===== verification/Webauthn_Adapter.thy ===== *)
theory Webauthn_Adapter
  imports Auth_App
begin

text \<open>
  The passkey provider, \<^verbatim>\<open>internal/hub/adapter/secondary/webauthn/webauthn.go\<close>: it turns the stored blobs into
  the library's values and back. The WebAuthn library, its parsers and JSON are the fields of \<open>wa_lib\<close>; the
  provider is what \<open>Auth_App\<close> uses as its \<open>webauthn\<close> record.
\<close>

record 'c operatorUser =
  ouID :: string
  ouName :: string
  ouCreds :: "'c list"

definition operatorHandle :: string where "operatorHandle = ''operator''"

definition operator_user :: "'c list \<Rightarrow> 'c operatorUser" where
  "operator_user creds = \<lparr>ouID = operatorHandle, ouName = ''operator'', ouCreds = creds\<rparr>"

text \<open>A login validates to the credential used, with its counter moved on.\<close>

record ('c, 's, 'o, 'r) wa_lib =
  wlCredOf :: "byte list \<Rightarrow> 'c option"
  wlCredJSON :: "'c \<Rightarrow> byte list option"
  wlSessionOf :: "byte list \<Rightarrow> 's option"
  wlSessionJSON :: "'s \<Rightarrow> byte list option"
  wlOptionsJSON :: "'o \<Rightarrow> byte list option"
  wlBeginRegistration :: "'c operatorUser \<Rightarrow> ('o \<times> 's) option"
  wlParseCreation :: "byte list \<Rightarrow> 'r option"
  wlCreateCredential :: "'c operatorUser \<Rightarrow> 's \<Rightarrow> 'r \<Rightarrow> 'c option"
  wlBeginLogin :: "'c operatorUser \<Rightarrow> ('o \<times> 's) option"
  wlParseAssertion :: "byte list \<Rightarrow> 'r option"
  wlValidateLogin :: "'c operatorUser \<Rightarrow> 's \<Rightarrow> 'r \<Rightarrow> 'c option"

definition wa_err :: "string \<Rightarrow> 'a option \<Rightarrow> 'a result" where
  "wa_err what r = (case r of None \<Rightarrow> Inl (ErrOther what) | Some x \<Rightarrow> Inr x)"

fun unmarshalCreds :: "('c, 's, 'o, 'r) wa_lib \<Rightarrow> byte list list \<Rightarrow> 'c list option" where
  "unmarshalCreds lib [] = Some []"
| "unmarshalCreds lib (b # bs) = (case wlCredOf lib b of None \<Rightarrow> None
     | Some c \<Rightarrow> (case unmarshalCreds lib bs of None \<Rightarrow> None | Some cs \<Rightarrow> Some (c # cs)))"

definition wa_BeginRegistration :: "('c, 's, 'o, 'r) wa_lib \<Rightarrow> byte list list \<Rightarrow> (byte list \<times> byte list) result" where
  "wa_BeginRegistration lib creds = (case wa_err ''unmarshal credential'' (unmarshalCreds lib creds) of
     Inl err \<Rightarrow> Inl err
   | Inr parsed \<Rightarrow> (case wa_err ''begin registration'' (wlBeginRegistration lib (operator_user parsed)) of
       Inl err \<Rightarrow> Inl err
     | Inr (creation, session) \<Rightarrow> (case wa_err ''marshal creation options'' (wlOptionsJSON lib creation) of
         Inl err \<Rightarrow> Inl err
       | Inr optionsJSON \<Rightarrow> (case wa_err ''marshal session'' (wlSessionJSON lib session) of
           Inl err \<Rightarrow> Inl err
         | Inr sessionJSON \<Rightarrow> Inr (optionsJSON, sessionJSON)))))"

definition wa_FinishRegistration :: "('c, 's, 'o, 'r) wa_lib \<Rightarrow> byte list list \<Rightarrow> byte list \<Rightarrow> byte list \<Rightarrow> byte list result" where
  "wa_FinishRegistration lib creds sessionJSON body = (case wa_err ''unmarshal credential'' (unmarshalCreds lib creds) of
     Inl err \<Rightarrow> Inl err
   | Inr parsed \<Rightarrow> (case wa_err ''unmarshal session'' (wlSessionOf lib sessionJSON) of
       Inl err \<Rightarrow> Inl err
     | Inr session \<Rightarrow> (case wa_err ''parse creation response'' (wlParseCreation lib body) of
         Inl err \<Rightarrow> Inl err
       | Inr parsedResponse \<Rightarrow> (case wa_err ''create credential'' (wlCreateCredential lib (operator_user parsed) session parsedResponse) of
           Inl err \<Rightarrow> Inl err
         | Inr cred \<Rightarrow> wa_err ''marshal new credential'' (wlCredJSON lib cred)))))"

definition wa_BeginLogin :: "('c, 's, 'o, 'r) wa_lib \<Rightarrow> byte list list \<Rightarrow> (byte list \<times> byte list) result" where
  "wa_BeginLogin lib creds = (case wa_err ''unmarshal credential'' (unmarshalCreds lib creds) of
     Inl err \<Rightarrow> Inl err
   | Inr parsed \<Rightarrow> (case wa_err ''begin login'' (wlBeginLogin lib (operator_user parsed)) of
       Inl err \<Rightarrow> Inl err
     | Inr (assertion, session) \<Rightarrow> (case wa_err ''marshal assertion options'' (wlOptionsJSON lib assertion) of
         Inl err \<Rightarrow> Inl err
       | Inr optionsJSON \<Rightarrow> (case wa_err ''marshal login session'' (wlSessionJSON lib session) of
           Inl err \<Rightarrow> Inl err
         | Inr sessionJSON \<Rightarrow> Inr (optionsJSON, sessionJSON)))))"

definition wa_FinishLogin :: "('c, 's, 'o, 'r) wa_lib \<Rightarrow> byte list list \<Rightarrow> byte list \<Rightarrow> byte list \<Rightarrow> unit result" where
  "wa_FinishLogin lib creds sessionJSON body = (case wa_err ''unmarshal credential'' (unmarshalCreds lib creds) of
     Inl err \<Rightarrow> Inl err
   | Inr parsed \<Rightarrow> (case wa_err ''unmarshal login session'' (wlSessionOf lib sessionJSON) of
       Inl err \<Rightarrow> Inl err
     | Inr session \<Rightarrow> (case wa_err ''parse assertion response'' (wlParseAssertion lib body) of
         Inl err \<Rightarrow> Inl err
       | Inr parsedResponse \<Rightarrow> (case wa_err ''validate login'' (wlValidateLogin lib (operator_user parsed) session parsedResponse) of
           Inl err \<Rightarrow> Inl err
         | Inr _ \<Rightarrow> Inr ()))))"

text \<open>\<open>New\<close>: the library accepts the relying party's name and origins, or there is no provider.\<close>

definition NewProvider :: "(string \<Rightarrow> string list \<Rightarrow> ('c, 's, 'o, 'r) wa_lib option) \<Rightarrow> string \<Rightarrow> string list \<Rightarrow> webauthn option" where
  "NewProvider init rpID origins = map_option (\<lambda>lib. \<lparr>waBeginRegistration = wa_BeginRegistration lib,
     waFinishRegistration = wa_FinishRegistration lib, waBeginLogin = wa_BeginLogin lib, waFinishLogin = wa_FinishLogin lib\<rparr>) (init rpID origins)"

lemma wa_err_cases: "wa_err what r = Inr x \<longleftrightarrow> r = Some x" "wa_err what r = Inl e \<longleftrightarrow> r = None \<and> e = ErrOther what"
  by (auto simp: wa_err_def split: option.splits)

lemma unmarshalCreds_append:
  "unmarshalCreds lib (as @ bs) = (case unmarshalCreds lib as of None \<Rightarrow> None
     | Some cs \<Rightarrow> (case unmarshalCreds lib bs of None \<Rightarrow> None | Some ds \<Rightarrow> Some (cs @ ds)))"
  by (induction as) (auto split: option.splits)

lemma wa_BeginLogin_success:
  "wa_BeginLogin lib creds = Inr (oj, sj) \<longleftrightarrow> (\<exists>cs a s. unmarshalCreds lib creds = Some cs \<and> wlBeginLogin lib (operator_user cs) = Some (a, s) \<and>
     wlOptionsJSON lib a = Some oj \<and> wlSessionJSON lib s = Some sj)"
  by (auto simp: wa_BeginLogin_def wa_err_def split: option.splits)

lemma wa_FinishLogin_success:
  "wa_FinishLogin lib creds sj body = Inr () \<longleftrightarrow> (\<exists>cs s r c. unmarshalCreds lib creds = Some cs \<and> wlSessionOf lib sj = Some s \<and>
     wlParseAssertion lib body = Some r \<and> wlValidateLogin lib (operator_user cs) s r = Some c)"
  by (auto simp: wa_FinishLogin_def wa_err_def split: option.splits)

lemma wa_FinishRegistration_success:
  "wa_FinishRegistration lib creds sj body = Inr b \<longleftrightarrow> (\<exists>cs s r c. unmarshalCreds lib creds = Some cs \<and> wlSessionOf lib sj = Some s \<and>
     wlParseCreation lib body = Some r \<and> wlCreateCredential lib (operator_user cs) s r = Some c \<and> wlCredJSON lib c = Some b)"
  by (auto simp: wa_FinishRegistration_def wa_err_def split: option.splits)

subsection \<open>Registering, then logging in\<close>

text \<open>
  A registered passkey logs in. After a registration has been completed, a login begun with it and answered within five
  minutes by the authenticator that holds it opens a session, and that session is valid. Needed of the library: its
  values survive their JSON, and what it created a credential from it validates in a ceremony that includes the credential.
\<close>
theorem passkey_registered_logs_in:
  assumes "FinishPasskeyRegistration (NewProvider init rpID origins) key body w = (Inr (), w1)"
    and "init rpID origins = Some lib" "BeginPasskeyLogin (NewProvider init rpID origins) key' w1 = (Inr (options, k), w2)"
    and "awNow w1 \<le> t" "t < awNow w1 + challengeTTL" "0 < ttl"
    and creds: "\<And>c b. wlCredJSON lib c = Some b \<Longrightarrow> wlCredOf lib b = Some c"
    and sessions: "\<And>s b. wlSessionJSON lib s = Some b \<Longrightarrow> wlSessionOf lib b = Some s"
    and holder: "\<And>u s r c u' a s' oj. wlCreateCredential lib u s r = Some c \<Longrightarrow> c \<in> set (ouCreds u') \<Longrightarrow>
      wlBeginLogin lib u' = Some (a, s') \<Longrightarrow> wlOptionsJSON lib a = Some oj \<Longrightarrow>
      \<exists>r' c'. wlParseAssertion lib (answer oj) = Some r' \<and> wlValidateLogin lib u' s' r' = Some c'"
  shows "\<exists>w3. FinishPasskeyLogin (NewProvider init rpID origins) ttl k (answer options) tok (w2\<lparr>awNow := t\<rparr>) = (Inr tok, w3) \<and>
    fst (fst (ValidateSession ttl tok w3))"
proof -
  obtain cs s r c b where reg: "unmarshalCreds lib (op_WebAuthnCredentials (awOps w)) = Some cs"
    "wlCreateCredential lib (operator_user cs) s r = Some c" "wlCredJSON lib c = Some b"
    "op_WebAuthnCredentials (awOps w1) = op_WebAuthnCredentials (awOps w) @ [b]"
    using assms(1,2)
    by (auto simp: FinishPasskeyRegistration_def NewProvider_def wa_FinishRegistration_success op_defs Let_def
        split: option.splits prod.splits sum.splits)
  then have all: "unmarshalCreds lib (op_WebAuthnCredentials (awOps w1)) = Some (cs @ [c])"
    using creds [OF reg(3)] by (simp add: unmarshalCreds_append)
  then obtain a s' sj where login: "wlBeginLogin lib (operator_user (cs @ [c])) = Some (a, s')" "wlOptionsJSON lib a = Some options"
    "wlSessionJSON lib s' = Some sj" "k = key'" "w2 = w1\<lparr>awChallenges := ch_Put key' sj (awNow w1 + challengeTTL) (awChallenges w1)\<rparr>"
    using assms(2,3) by (auto simp: BeginPasskeyLogin_def NewProvider_def wa_BeginLogin_success split: if_splits sum.splits)
  obtain r' c' where "wlParseAssertion lib (answer options) = Some r'" "wlValidateLogin lib (operator_user (cs @ [c])) s' r' = Some c'"
    using holder [OF reg(2) _ login(1,2)] by (auto simp: operator_user_def)
  then have "wa_FinishLogin lib (op_WebAuthnCredentials (awOps w1)) sj (answer options) = Inr ()"
    using all sessions [OF login(3)] by (auto simp: wa_FinishLogin_success)
  then show ?thesis using assms(2,4-6) login(4,5)
    by (auto simp: FinishPasskeyLogin_def NewProvider_def ch_Take_def ch_Put_def newSession_def aw_login_event_def os_Create_def
        ValidateSession_def os_Validate_def Let_def)
qed

subsection \<open>A response is accepted once\<close>

lemma no_challenge_kept:
  assumes "m_get (awChallenges w) key = None" "ev \<noteq> AeBeginReg key" "ev \<noteq> AeBeginLogin key"
  shows "m_get (awChallenges (aw_apply c ev w)) key = None"
  using assms
  by (cases ev) (auto simp: auth_defs ch_Put_def ch_Take_def Let_def split: sum.splits option.splits prod.splits if_splits)

lemma no_challenge_run:
  assumes "m_get (awChallenges w) key = None" "AeBeginReg key \<notin> set evs" "AeBeginLogin key \<notin> set evs"
  shows "m_get (awChallenges (aw_run c evs w)) key = None"
  using assms
proof (induction evs arbitrary: w)
  case (Cons ev evs)
  have "ev \<noteq> AeBeginReg key" "ev \<noteq> AeBeginLogin key" using Cons.prems by auto
  then show ?case using Cons no_challenge_kept [of w key ev c] by (simp add: aw_run_def)
qed (simp add: aw_run_def)

text \<open>
  C27: a passkey login is one answer to one open ceremony. If a login succeeds, a ceremony was under way under its key and not yet
  expired, and the library validated this very response in it against the credentials stored for the operator; and
  whatever happens afterwards, unless a new ceremony is begun under the key, no response is accepted under it again.
\<close>
theorem passkey_login_once:
  assumes "FinishPasskeyLogin (NewProvider init rpID origins) ttl key body tok w = (Inr tok', w1)"
    and "AeBeginReg key \<notin> set evs" "AeBeginLogin key \<notin> set evs"
  shows "(\<exists>e lib cs s r c. m_get (awChallenges w) key = Some e \<and> awNow w < ceExpiresAt e \<and> init rpID origins = Some lib \<and>
      unmarshalCreds lib (op_WebAuthnCredentials (awOps w)) = Some cs \<and> wlSessionOf lib (ceSession e) = Some s \<and>
      wlParseAssertion lib body = Some r \<and> wlValidateLogin lib (operator_user cs) s r = Some c) \<and>
    fst (FinishPasskeyLogin (NewProvider init rpID origins) ttl key body' tok2 (aw_run c evs w1)) = Inl ErrChallengeNotFound"
proof -
  obtain e lib where e: "m_get (awChallenges w) key = Some e" "awNow w < ceExpiresAt e" "init rpID origins = Some lib"
    "wa_FinishLogin lib (op_WebAuthnCredentials (awOps w)) (ceSession e) body = Inr ()" "awChallenges w1 = m_del key (awChallenges w)"
    using assms(1)
    by (auto simp: FinishPasskeyLogin_def NewProvider_def ch_Take_def newSession_def aw_login_event_def Let_def
        split: option.splits prod.splits sum.splits if_splits)
  then have "m_get (awChallenges (aw_run c evs w1)) key = None" using assms(2,3) by (intro no_challenge_run) simp_all
  then have "fst (FinishPasskeyLogin (NewProvider init rpID origins) ttl key body' tok2 (aw_run c evs w1)) = Inl ErrChallengeNotFound"
    using e(3) by (simp add: FinishPasskeyLogin_def NewProvider_def ch_Take_def)
  then show ?thesis using e by (auto simp: wa_FinishLogin_success)
qed

text \<open>A library with one passkey: it is made from the response 7 and answers every login with 8.\<close>

definition demoLib :: "(byte list, byte list, byte list, byte list) wa_lib" where
  "demoLib = \<lparr>wlCredOf = Some, wlCredJSON = Some, wlSessionOf = Some, wlSessionJSON = Some, wlOptionsJSON = Some,
     wlBeginRegistration = (\<lambda>u. Some ([1], [2])), wlParseCreation = Some,
     wlCreateCredential = (\<lambda>u s r. if s = [2] \<and> r = [7] then Some [9] else None),
     wlBeginLogin = (\<lambda>u. if ouCreds u = [] then None else Some ([3], [4])), wlParseAssertion = Some,
     wlValidateLogin = (\<lambda>u s r. if [9] \<in> set (ouCreds u) \<and> s = [4] \<and> r = [8] then Some [9] else None)\<rparr>"

definition demoProvider :: "webauthn option" where
  "demoProvider = NewProvider (\<lambda>_ _. Some demoLib) ''localhost'' []"

definition demoRegistered :: auth_world where
  "demoRegistered = snd (FinishPasskeyRegistration demoProvider ''k1'' [7] (snd (BeginPasskeyRegistration demoProvider ''k1'' demoAuth)))"

lemma demo_registration:
  "FinishPasskeyRegistration demoProvider ''k1'' [7] (snd (BeginPasskeyRegistration demoProvider ''k1'' demoAuth)) = (Inr (), demoRegistered)"
  "BeginPasskeyLogin demoProvider ''k2'' demoRegistered =
    (Inr ([3], ''k2''), demoRegistered\<lparr>awChallenges := ch_Put ''k2'' [4] (awNow demoRegistered + challengeTTL) (awChallenges demoRegistered)\<rparr>)"
  by code_simp+

text \<open>Witness for \<open>passkey_registered_logs_in\<close>.\<close>
theorem passkey_registered_logs_in_witness:
  "fst (FinishPasskeyLogin demoProvider 3600 ''k2'' [8] ''tok''
      ((snd (BeginPasskeyLogin demoProvider ''k2'' demoRegistered))\<lparr>awNow := awNow demoRegistered + 10\<rparr>)) = Inr ''tok''"
proof -
  have "\<exists>w3. FinishPasskeyLogin demoProvider 3600 ''k2'' [8] ''tok''
      ((snd (BeginPasskeyLogin demoProvider ''k2'' demoRegistered))\<lparr>awNow := awNow demoRegistered + 10\<rparr>) = (Inr ''tok'', w3) \<and>
      fst (fst (ValidateSession 3600 ''tok'' w3))"
    using demo_registration(2) unfolding demoProvider_def
    by (intro passkey_registered_logs_in [OF demo_registration(1) [unfolded demoProvider_def], where answer = "\<lambda>_. [8]" and lib = demoLib])
      (auto simp: demoLib_def challengeTTL_def split: if_splits)
  then show ?thesis by auto
qed

text \<open>Witness for \<open>passkey_login_once\<close>: the same response again, a second later.\<close>
theorem passkey_login_once_witness:
  "let w = snd (BeginPasskeyLogin demoProvider ''k2'' demoRegistered) in
   fst (FinishPasskeyLogin demoProvider 3600 ''k2'' [8] ''tok'' w) = Inr ''tok'' \<and>
   fst (FinishPasskeyLogin demoProvider 3600 ''k2'' [8] ''tok2'' (aw_run demoConfig [AeTick 61] (snd (FinishPasskeyLogin demoProvider 3600 ''k2'' [8] ''tok'' w)))) =
     Inl ErrChallengeNotFound"
proof -
  let ?w = "snd (BeginPasskeyLogin demoProvider ''k2'' demoRegistered)"
  have ok: "fst (FinishPasskeyLogin demoProvider 3600 ''k2'' [8] ''tok'' ?w) = Inr ''tok''" by code_simp
  then obtain w1 where w1: "FinishPasskeyLogin demoProvider 3600 ''k2'' [8] ''tok'' ?w = (Inr ''tok'', w1)" by (metis prod.collapse)
  from passkey_login_once [OF w1 [unfolded demoProvider_def], of "[AeTick 61]" "[8]" "''tok2''" demoConfig] w1
  show ?thesis by (simp add: Let_def demoProvider_def)
qed

end
