(* ===== verification/Agent_Commands.thy ===== *)
theory Agent_Commands
  imports Http_Api Agent_Endpoint Platform_Config Agent_Update
begin

text \<open>
  The commands of the agent, \<^verbatim>\<open>cmd/agent/main.go\<close>: enrolling, the credentials a connection starts from,
  the status, resetting, and installing and removing the two services.

  \<^item> The file system is a map from paths to contents; directories and modes are not in it. Which system
    calls succeed, and how much a failing write leaves in the file, are inputs.
  \<^item> The network is a function on the state of the other side. Key generation, the encodings of keys and
    of JSON, and the certificate parser are parameters. Flag parsing is the standard library's; a
    command starts from the values of its flags.
  \<^item> A command gives its exit code and the effects it had; its messages are left out, apart from the status.
\<close>

subsection \<open>System calls\<close>

type_synonym files = "string \<rightharpoonup> string"

datatype writeOutcome = Written | NotOpened | CutShort nat

record osCalls =
  osRead :: "string \<Rightarrow> bool"
  osMkdir :: "string \<Rightarrow> bool"
  osWrite :: "string \<Rightarrow> writeOutcome"
  osRemove :: "string \<Rightarrow> bool"
  osSystemctl :: "string list \<Rightarrow> bool"

definition os_ReadFile :: "osCalls \<Rightarrow> files \<Rightarrow> string \<Rightarrow> string option" where
  "os_ReadFile os fs path = (if osRead os path then fs path else None)"

text \<open>\<open>os.WriteFile\<close> truncates the file when it opens it.\<close>

definition os_WriteFile :: "osCalls \<Rightarrow> string \<Rightarrow> string \<Rightarrow> files \<Rightarrow> bool \<times> files" where
  "os_WriteFile os path data fs = (case osWrite os path of
     Written \<Rightarrow> (True, fs(path \<mapsto> data))
   | NotOpened \<Rightarrow> (False, fs)
   | CutShort n \<Rightarrow> (False, fs(path \<mapsto> take n data)))"

text \<open>\<open>os.Remove\<close>, where a file that does not exist is no error.\<close>

definition remove_existing :: "osCalls \<Rightarrow> string \<Rightarrow> files \<Rightarrow> bool \<times> files" where
  "remove_existing os path fs =
     (if fs path = None then (True, fs) else if osRemove os path then (True, fs(path := None)) else (False, fs))"

text \<open>\<open>filepath.Dir\<close>.\<close>

definition filepath_Dir :: "string \<Rightarrow> string" where
  "filepath_Dir path = filepath_Clean (rev (dropWhile (\<lambda>c. c \<noteq> CHR ''/'') (rev path)))"

record process =
  prOS :: osCalls
  prEnv :: environment
  prHome :: "string option"
  prHostname :: string
  prYaml :: "string \<Rightarrow> AgentConfig \<Rightarrow> AgentConfig option"
  prGOOS :: string
  prGOARCH :: string
  prEuid :: int
  prCurrentUser :: "string option"
  prConfigDir :: "string option"
  prExecutable :: "string option"
  prEvalSymlinks :: "string \<Rightarrow> string option"
  prAbs :: "string \<Rightarrow> string option"

definition load_agent :: "process \<Rightarrow> files \<Rightarrow> string \<Rightarrow> configError + AgentConfig" where
  "load_agent p fs path = LoadAgent (os_ReadFile (prOS p) fs) (prYaml p) (prEnv p) (prHome p) (prHostname p) path"

subsection \<open>Identity and key files\<close>

definition readMachineID :: "osCalls \<Rightarrow> files \<Rightarrow> string \<Rightarrow> string option" where
  "readMachineID os fs path =
     (if path = [] then None
      else case os_ReadFile os fs path of None \<Rightarrow> None
        | Some data \<Rightarrow> (let trimmed = TrimSpace data in if trimmed = [] then None else Some trimmed))"

text \<open>\<open>decode\<close>: PEM, PKCS8 and the test for an Ed25519 key; \<open>encode\<close>: their inverse.\<close>

definition loadPrivateKey :: "(string \<Rightarrow> 'k option) \<Rightarrow> osCalls \<Rightarrow> files \<Rightarrow> string \<Rightarrow> 'k option" where
  "loadPrivateKey decode os fs path = (case os_ReadFile os fs path of None \<Rightarrow> None | Some data \<Rightarrow> decode data)"

definition writePrivateKey :: "('k \<Rightarrow> string option) \<Rightarrow> osCalls \<Rightarrow> string \<Rightarrow> 'k \<Rightarrow> files \<Rightarrow> bool \<times> files" where
  "writePrivateKey encode os path priv fs = (case encode priv of
     None \<Rightarrow> (False, fs)
   | Some buf \<Rightarrow> if \<not> osMkdir os (filepath_Dir path) then (False, fs) else os_WriteFile os path buf fs)"

text \<open>
  The roots of the HTTP client: the system's, with those of the certificate file added (\<open>Some\<close> of its
  contents). \<open>validPEM\<close>: the file holds a certificate.
\<close>

definition buildHTTPClient :: "(string \<Rightarrow> bool) \<Rightarrow> osCalls \<Rightarrow> files \<Rightarrow> string \<Rightarrow> string option option" where
  "buildHTTPClient validPEM os fs caPath =
     (if caPath = [] then Some None
      else case os_ReadFile os fs caPath of
        None \<Rightarrow> None
      | Some caPEM \<Rightarrow> if \<not> validPEM caPEM then None else Some (Some caPEM))"

subsection \<open>Enrolling\<close>

definition trim_suffix :: "string \<Rightarrow> string \<Rightarrow> string" where
  "trim_suffix s suf = (if suffix suf s then take (length s - length suf) s else s)"

definition hubHTTPBase :: "string \<Rightarrow> string" where
  "hubHTTPBase hubURL =
     (let u = trim_suffix hubURL ''/ws/agent'' in
      if prefix ''wss://'' u then ''https://'' @ drop (length ''wss://'') u
      else if prefix ''ws://'' u then ''http://'' @ drop (length ''ws://'') u
      else u)"

text \<open>Standard base64 with padding, the encoder.\<close>

definition std_b64_char :: "nat \<Rightarrow> char" where
  "std_b64_char n = ''ABCDEFGHIJKLMNOPQRSTUVWXYZabcdefghijklmnopqrstuvwxyz0123456789+/'' ! n"

fun std_EncodeToString :: "byte list \<Rightarrow> string" where
  "std_EncodeToString [] = []"
| "std_EncodeToString [a] = map std_b64_char (b64_sextets [unat a]) @ ''==''"
| "std_EncodeToString [a, b] = map std_b64_char (b64_sextets [unat a, unat b]) @ ''=''"
| "std_EncodeToString (a # b # c # bs) = map std_b64_char (b64_sextets [unat a, unat b, unat c]) @ std_EncodeToString bs"

record 'k keyTools =
  ktGenerate :: "(byte list \<times> 'k) option"
  ktEncode :: "'k \<Rightarrow> string option"
  ktDecode :: "string \<Rightarrow> 'k option"
  ktValidPEM :: "string \<Rightarrow> bool"

record enrollFlags =
  efConfig :: string
  efHub :: string
  efToken :: string

text \<open>
  A request of the agent: the roots it trusts, the URL and the body. \<open>marshal\<close> and \<open>unmarshal\<close> are the JSON of
  the request and the machine ID in the JSON of the response.
\<close>

type_synonym 'h network = "string option \<Rightarrow> string \<Rightarrow> byte list \<Rightarrow> 'h \<Rightarrow> httpResult \<times> 'h"

definition cmdEnroll :: "process \<Rightarrow> 'k keyTools \<Rightarrow> (enrollRequest \<Rightarrow> byte list) \<Rightarrow> (string \<Rightarrow> string option) \<Rightarrow> 'h network \<Rightarrow>
    enrollFlags \<Rightarrow> files \<times> 'h \<Rightarrow> nat \<times> files \<times> 'h" where
  "cmdEnroll p kt marshal unmarshal post flags st =
     (let (fs, h) = st; os = prOS p in
      case load_agent p fs (efConfig flags) of Inl err \<Rightarrow> (1, fs, h)
      | Inr cfg \<Rightarrow>
          if efToken flags = [] then (1, fs, h)
          else let base = (if efHub flags = [] then hubHTTPBase (acHubURL cfg) else efHub flags) in
            if base = [] then (1, fs, h)
            else case ktGenerate kt of None \<Rightarrow> (1, fs, h)
            | Some (pub, priv) \<Rightarrow>
                (let body = marshal \<lparr>erToken = efToken flags, erPublicKey = std_EncodeToString pub, erName = acName cfg,
                       erOS = prGOOS p, erArch = prGOARCH p\<rparr>
                 in case buildHTTPClient (ktValidPEM kt) os fs (acHubCA cfg) of None \<Rightarrow> (1, fs, h)
                 | Some roots \<Rightarrow>
                     (case post roots (base @ ''/api/enroll'') body h of
                        (TransportError, h1) \<Rightarrow> (1, fs, h1)
                      | (Response status respBody, h1) \<Rightarrow>
                          if status \<noteq> 201 then (1, fs, h1)
                          else case unmarshal respBody of None \<Rightarrow> (1, fs, h1)
                          | Some machineID \<Rightarrow>
                              if \<not> osMkdir os (filepath_Dir (acIDFile cfg)) then (1, fs, h1)
                              else case os_WriteFile os (acIDFile cfg) machineID fs of
                                (False, fs1) \<Rightarrow> (1, fs1, h1)
                              | (True, fs1) \<Rightarrow>
                                  (case writePrivateKey (ktEncode kt) os (acCredFile cfg) priv fs1 of
                                     (ok, fs2) \<Rightarrow> (if ok then 0 else 1, fs2, h1)))))"

subsection \<open>Connecting\<close>

text \<open>What a connection starts from: the machine ID, the private key and the roots; \<open>None\<close> if the command exits.\<close>

definition connect_credentials :: "process \<Rightarrow> 'k keyTools \<Rightarrow> string \<Rightarrow> files \<Rightarrow> (string \<times> 'k \<times> string option) option" where
  "connect_credentials p kt configPath fs = (case load_agent p fs configPath of
     Inl err \<Rightarrow> None
   | Inr cfg \<Rightarrow>
       if acHubURL cfg = [] then None
       else if acCredFile cfg = [] \<or> acIDFile cfg = [] then None
       else case readMachineID (prOS p) fs (acIDFile cfg) of None \<Rightarrow> None
       | Some machineID \<Rightarrow> (case loadPrivateKey (ktDecode kt) (prOS p) fs (acCredFile cfg) of None \<Rightarrow> None
         | Some agentKey \<Rightarrow> (case buildHTTPClient (ktValidPEM kt) (prOS p) fs (acHubCA cfg) of None \<Rightarrow> None
           | Some roots \<Rightarrow> Some (machineID, agentKey, roots))))"

text \<open>The header a connection presents (\<open>connectOnce\<close>).\<close>

definition authorization :: "('k \<Rightarrow> string \<Rightarrow> byte list) \<Rightarrow> string \<Rightarrow> 'k \<Rightarrow> int \<Rightarrow> string" where
  "authorization sign machineID agentKey now = ''Bearer '' @ BuildAgentToken sign machineID agentKey now"

text \<open>How \<open>connect\<close> ends: the client's run returned, or the session host went away.\<close>

datatype connectEnd = RunReturned "bool option" | HostLost

definition connect_exit :: "connectEnd \<Rightarrow> nat" where
  "connect_exit e = (case e of
     RunReturned None \<Rightarrow> 0
   | RunReturned (Some canceled) \<Rightarrow> if canceled then 0 else 1
   | HostLost \<Rightarrow> 1)"

subsection \<open>Status and reset\<close>

record statusReport =
  srEnrolled :: bool
  srMachineID :: "string option"
  srName :: string
  srHub :: string

definition cmdStatus :: "process \<Rightarrow> string \<Rightarrow> files \<Rightarrow> statusReport option" where
  "cmdStatus p configPath fs = (case load_agent p fs configPath of
     Inl err \<Rightarrow> None
   | Inr cfg \<Rightarrow>
       (let i = (if acIDFile cfg = [] then None else case os_ReadFile (prOS p) fs (acIDFile cfg) of None \<Rightarrow> None
             | Some data \<Rightarrow> (let trimmed = TrimSpace data in if trimmed \<noteq> [] then Some trimmed else None))
        in Some \<lparr>srEnrolled = (i \<noteq> None), srMachineID = i, srName = acName cfg, srHub = acHubURL cfg\<rparr>))"

fun remove_files :: "osCalls \<Rightarrow> string list \<Rightarrow> files \<Rightarrow> bool \<times> files" where
  "remove_files os [] fs = (True, fs)"
| "remove_files os (path # paths) fs =
     (if path = [] then remove_files os paths fs
      else case remove_existing os path fs of (ok, fs1) \<Rightarrow> if ok then remove_files os paths fs1 else (False, fs1))"

definition cmdReset :: "process \<Rightarrow> string \<Rightarrow> files \<Rightarrow> nat \<times> files" where
  "cmdReset p configPath fs = (case load_agent p fs configPath of
     Inl err \<Rightarrow> (1, fs)
   | Inr cfg \<Rightarrow> (case remove_files (prOS p) [acIDFile cfg, acCredFile cfg] fs of (ok, fs1) \<Rightarrow> (if ok then 0 else 1, fs1)))"

subsection \<open>The services\<close>

definition unitServiceName :: string where "unitServiceName = ''constellate-agent.service''"

definition hostUnitServiceName :: string where "hostUnitServiceName = ''constellate-session-host.service''"

definition systemUnitPath :: string where "systemUnitPath = ''/etc/systemd/system/'' @ unitServiceName"

definition systemHostUnitPath :: string where "systemHostUnitPath = ''/etc/systemd/system/'' @ hostUnitServiceName"

definition userUnitPath :: "process \<Rightarrow> string option" where
  "userUnitPath p = map_option (\<lambda>dir. filepath_Join [dir, ''systemd'', ''user'', unitServiceName]) (prConfigDir p)"

definition userHostUnitPath :: "process \<Rightarrow> string option" where
  "userHostUnitPath p = map_option (\<lambda>dir. filepath_Join [dir, ''systemd'', ''user'', hostUnitServiceName]) (prConfigDir p)"

record unitParams =
  upExecBin :: string
  upConfigPath :: string
  upUser :: string
  upRootless :: bool

definition unlines :: "string list \<Rightarrow> string" where
  "unlines ls = concat (map (\<lambda>l. l @ [CHR 0x0A]) ls)"

definition exec_line :: "unitParams \<Rightarrow> string \<Rightarrow> string" where
  "exec_line u command = upExecBin u @ '' '' @ command @ (if upConfigPath u \<noteq> [] then '' --config '' @ upConfigPath u else [])"

definition renderHostUnit :: "unitParams \<Rightarrow> string" where
  "renderHostUnit u =
     (let execLine = exec_line u ''session-host'' in
      if upRootless u then unlines [''[Unit]'', ''Description=Constellate session host (durable PTY owner)'', [],
        ''[Service]'', ''Type=simple'', ''ExecStart='' @ execLine, ''Restart=on-failure'', ''RestartSec=3'', [],
        ''[Install]'', ''WantedBy=default.target'']
      else unlines [''[Unit]'', ''Description=Constellate session host (durable PTY owner)'', ''After=network-online.target'',
        ''Wants=network-online.target'', [],
        ''[Service]'', ''Type=simple'', ''User='' @ upUser u, ''ExecStart='' @ execLine, ''Restart=on-failure'', ''RestartSec=3'', [],
        ''[Install]'', ''WantedBy=multi-user.target''])"

definition renderUnit :: "unitParams \<Rightarrow> string" where
  "renderUnit u =
     (let execLine = exec_line u ''connect'' in
      if upRootless u then unlines [''[Unit]'', ''Description=Constellate agent (connect relay)'', ''Requires='' @ hostUnitServiceName,
        ''After='' @ hostUnitServiceName, [],
        ''[Service]'', ''Type=simple'', ''ExecStart='' @ execLine, ''Restart=always'', ''RestartSec=3'', [],
        ''[Install]'', ''WantedBy=default.target'']
      else unlines [''[Unit]'', ''Description=Constellate agent (connect relay)'', ''After=network-online.target '' @ hostUnitServiceName,
        ''Wants=network-online.target'', ''Requires='' @ hostUnitServiceName, [],
        ''[Service]'', ''Type=simple'', ''User='' @ upUser u, ''ExecStart='' @ execLine, ''Restart=always'', ''RestartSec=3'', [],
        ''[Install]'', ''WantedBy=multi-user.target''])"

definition resolveServiceUser :: "process \<Rightarrow> string \<Rightarrow> string" where
  "resolveServiceUser p override =
     (if override \<noteq> [] then override
      else let sudoUser = prEnv p ''SUDO_USER'' in
        if sudoUser \<noteq> [] \<and> sudoUser \<noteq> ''root'' then sudoUser
        else case prCurrentUser p of Some u \<Rightarrow> u | None \<Rightarrow> [])"

text \<open>The calls of \<open>systemctl\<close> are logged.\<close>

type_synonym machineState = "files \<times> string list list"

definition runSystemctl :: "osCalls \<Rightarrow> bool \<Rightarrow> string list \<Rightarrow> string list list \<Rightarrow> bool \<times> string list list" where
  "runSystemctl os rootless args calls =
     (let argv = (if rootless then ''--user'' # args else args) in (osSystemctl os argv, calls @ [argv]))"

record installFlags =
  ifConfig :: string
  ifUser :: string
  ifNoStart :: bool
  ifRootless :: bool

text \<open>The enrolment gate and the parameters of the units.\<close>

definition install_params :: "process \<Rightarrow> 'k keyTools \<Rightarrow> installFlags \<Rightarrow> files \<Rightarrow> unitParams option" where
  "install_params p kt flags fs =
     (if prGOOS p \<noteq> ''linux'' then None
      else if \<not> ifRootless flags \<and> prEuid p \<noteq> 0 then None
      else case load_agent p fs (ifConfig flags) of Inl err \<Rightarrow> None
      | Inr cfg \<Rightarrow>
          if readMachineID (prOS p) fs (acIDFile cfg) = None then None
          else if loadPrivateKey (ktDecode kt) (prOS p) fs (acCredFile cfg) = None then None
          else case prExecutable p of None \<Rightarrow> None
          | Some bin \<Rightarrow>
              (let execBin = (case prEvalSymlinks p bin of Some resolved \<Rightarrow> resolved | None \<Rightarrow> bin);
                   absConfig = (if ifConfig flags = [] then [] else case prAbs p (ifConfig flags) of Some a \<Rightarrow> a | None \<Rightarrow> ifConfig flags)
               in Some \<lparr>upExecBin = execBin, upConfigPath = absConfig, upUser = [], upRootless = False\<rparr>))"

text \<open>The parameters completed for the mode, and the paths of the two units: the connecting one and the host's.\<close>

definition install_target :: "process \<Rightarrow> installFlags \<Rightarrow> unitParams \<Rightarrow> (unitParams \<times> string \<times> string) option" where
  "install_target p flags params =
     (if ifRootless flags then (case (userUnitPath p, userHostUnitPath p) of
        (Some c, Some h) \<Rightarrow> if osMkdir (prOS p) (filepath_Dir c) then Some (params\<lparr>upRootless := True\<rparr>, c, h) else None
      | _ \<Rightarrow> None)
      else let runAs = resolveServiceUser p (ifUser flags) in
        if runAs = [] then None else Some (params\<lparr>upUser := runAs\<rparr>, systemUnitPath, systemHostUnitPath))"

text \<open>Reloading the units, and starting the host before the relay that requires it.\<close>

definition install_start :: "osCalls \<Rightarrow> installFlags \<Rightarrow> string list list \<Rightarrow> nat \<times> string list list" where
  "install_start os flags calls =
     (let sys = runSystemctl os (ifRootless flags); (ok1, calls1) = sys [''daemon-reload''] calls in
      if \<not> ok1 then (1, calls1)
      else if ifNoStart flags then (0, calls1)
      else let (ok2, calls2) = sys [''enable'', ''--now'', hostUnitServiceName] calls1 in
        if \<not> ok2 then (1, calls2)
        else let (ok3, calls3) = sys [''enable'', ''--now'', unitServiceName] calls2 in (if ok3 then 0 else 1, calls3))"

definition cmdInstall :: "process \<Rightarrow> 'k keyTools \<Rightarrow> installFlags \<Rightarrow> machineState \<Rightarrow> nat \<times> machineState" where
  "cmdInstall p kt flags st =
     (let (fs, calls) = st in
      case install_params p kt flags fs of None \<Rightarrow> (1, st)
      | Some params \<Rightarrow> (case install_target p flags params of None \<Rightarrow> (1, st)
        | Some (u, connectPath, hostPath) \<Rightarrow>
            (case os_WriteFile (prOS p) hostPath (renderHostUnit u) fs of
               (False, fs1) \<Rightarrow> (1, fs1, calls)
             | (True, fs1) \<Rightarrow> (case os_WriteFile (prOS p) connectPath (renderUnit u) fs1 of
                 (False, fs2) \<Rightarrow> (1, fs2, calls)
               | (True, fs2) \<Rightarrow> (case install_start (prOS p) flags calls of (code, calls1) \<Rightarrow> (code, fs2, calls1))))))"

record installedUnit =
  iuName :: string
  iuPath :: string

definition teardownUnits :: "process \<Rightarrow> bool \<Rightarrow> installedUnit list option" where
  "teardownUnits p rootless =
     (if \<not> rootless then Some [\<lparr>iuName = unitServiceName, iuPath = systemUnitPath\<rparr>, \<lparr>iuName = hostUnitServiceName, iuPath = systemHostUnitPath\<rparr>]
      else case (userUnitPath p, userHostUnitPath p) of
        (Some connect, Some host) \<Rightarrow> Some [\<lparr>iuName = unitServiceName, iuPath = connect\<rparr>, \<lparr>iuName = hostUnitServiceName, iuPath = host\<rparr>]
      | _ \<Rightarrow> None)"

text \<open>The loop over the units: whether it ran to its end, how many it removed, and the state it leaves.\<close>

fun teardown :: "osCalls \<Rightarrow> bool \<Rightarrow> installedUnit list \<Rightarrow> nat \<Rightarrow> machineState \<Rightarrow> bool \<times> nat \<times> machineState" where
  "teardown os rootless [] removed st = (True, removed, st)"
| "teardown os rootless (u # us) removed (fs, calls) =
     (if fs (iuPath u) = None then teardown os rootless us removed (fs, calls)
      else let (ok1, calls1) = runSystemctl os rootless [''disable'', ''--now'', iuName u] calls;
               (ok2, fs1) = remove_existing os (iuPath u) fs
        in if ok2 then teardown os rootless us (removed + 1) (fs1, calls1) else (False, removed, fs1, calls1))"

record uninstallFlags =
  ufnConfig :: string
  ufnRootless :: bool
  ufnPurge :: bool

definition cmdUninstall :: "process \<Rightarrow> uninstallFlags \<Rightarrow> machineState \<Rightarrow> nat \<times> machineState" where
  "cmdUninstall p flags st =
     (if prGOOS p \<noteq> ''linux'' then (1, st)
      else if \<not> ufnRootless flags \<and> prEuid p \<noteq> 0 then (1, st)
      else case (if ufnPurge flags then (case load_agent p (fst st) (ufnConfig flags) of
              Inl err \<Rightarrow> None | Inr cfg \<Rightarrow> Some [acIDFile cfg, acCredFile cfg]) else Some []) of
        None \<Rightarrow> (1, st)
      | Some purged \<Rightarrow> (case teardownUnits p (ufnRootless flags) of None \<Rightarrow> (1, st)
        | Some units \<Rightarrow>
            (let (ok, removed, fs1, calls1) = teardown (prOS p) (ufnRootless flags) units 0 st in
             if \<not> ok then (1, fs1, calls1)
             else let (ok2, calls2) = (if removed = 0 then (True, calls1)
                    else runSystemctl (prOS p) (ufnRootless flags) [''daemon-reload''] calls1)
               in if \<not> ok2 then (1, fs1, calls2)
               else (case remove_files (prOS p) purged fs1 of (ok3, fs2) \<Rightarrow> (if ok3 then 0 else 1, fs2, calls2)))))"

subsection \<open>The command line\<close>

datatype agentCommand =
    AcVersion | AcUsage | AcStatus "string list" | AcConnect "string list" | AcSessionHost "string list" | AcEnroll "string list"
  | AcReset "string list" | AcInstall "string list" | AcUninstall "string list" | AcUpdate "string list" | AcUnknown string

definition agent_dispatch :: "string list \<Rightarrow> agentCommand" where
  "agent_dispatch args =
     (if args \<noteq> [] \<and> hd args \<in> {''-v'', ''--v'', ''-version'', ''--version''} then AcVersion
      else if args \<noteq> [] \<and> hd args \<in> {''-h'', ''--h'', ''-help'', ''--help''} then AcUsage
      else let named = (args \<noteq> [] \<and> hd args \<noteq> [] \<and> hd (hd args) \<noteq> CHR ''-'');
               sub = (if named then hd args else ''connect''); rest = (if named then tl args else args)
        in if sub = ''version'' then AcVersion
           else if sub = ''status'' then AcStatus rest
           else if sub = ''connect'' then AcConnect rest
           else if sub = ''session-host'' then AcSessionHost rest
           else if sub = ''enroll'' then AcEnroll rest
           else if sub = ''reset'' then AcReset rest
           else if sub = ''install'' then AcInstall rest
           else if sub = ''uninstall'' then AcUninstall rest
           else if sub = ''update'' then AcUpdate rest
           else AcUnknown sub)"

text \<open>The arguments a unit's command line ends with select the command it is for.\<close>

lemma unit_commands:
  "agent_dispatch (''connect'' # rest) = AcConnect rest" "agent_dispatch (''session-host'' # rest) = AcSessionHost rest"
  by (simp_all add: agent_dispatch_def Let_def)

subsection \<open>Installing and removing\<close>

lemma split_path_not_Nil [simp]: "split_path s \<noteq> []"
  by (induction s) (auto split: list.split)

lemma split_path_slash: "split_path (a @ CHR ''/'' # b) = split_path a @ split_path b"
proof (induction a)
  case (Cons c a)
  then show ?case using split_path_not_Nil [of a] by (cases "split_path a") simp_all
qed simp

lemma split_path_plain: "CHR ''/'' \<notin> set n \<Longrightarrow> split_path n = [n]"
  by (induction n) auto

lemma clean_path_last:
  "s \<noteq> [] \<Longrightarrow> s \<noteq> ''.'' \<Longrightarrow> s \<noteq> ''..'' \<Longrightarrow> clean_path r acc (ss @ [s]) = clean_path r acc ss @ [s]"
  by (induction r acc ss rule: clean_path.induct) auto

lemma join_segments_snoc: "join_segments (ss @ [s]) = (if ss = [] then s else join_segments ss @ ''/'' @ s)"
  by (induction ss rule: join_segments.induct) auto

text \<open>Paths with different last names in one directory differ.\<close>

lemma filepath_Join_last:
  assumes "n \<noteq> []" "n \<noteq> ''.''" "n \<noteq> ''..''" "CHR ''/'' \<notin> set n" "m \<noteq> []" "m \<noteq> ''.''" "m \<noteq> ''..''" "CHR ''/'' \<notin> set m"
    and "a \<noteq> []" "filepath_Join (dirs @ [a, n]) = filepath_Join (dirs @ [a, m])"
  shows "n = m"
proof -
  define es where "es = filter (\<lambda>e. e \<noteq> []) dirs @ [a]"
  have es: "es \<noteq> []" "join_segments es \<noteq> []"
    using assms(9) unfolding es_def by (simp_all add: join_segments_snoc)
  obtain r ys where path: "filepath_Join (dirs @ [a, k]) = (if r then CHR ''/'' # join_segments (ys @ [k]) else join_segments (ys @ [k]))"
    if "k = n \<or> k = m" for k
  proof
    fix k assume "k = n \<or> k = m"
    with assms have k: "k \<noteq> []" "k \<noteq> ''.''" "k \<noteq> ''..''" "CHR ''/'' \<notin> set k" by auto
    have "join_segments (filter (\<lambda>e. e \<noteq> []) (dirs @ [a, k])) = join_segments es @ CHR ''/'' # k"
      using join_segments_snoc [of es k] es(1) k(1) assms(9) by (simp add: es_def)
    moreover have "hd (join_segments es @ CHR ''/'' # k) = hd (join_segments es)" using es(2) by simp
    moreover have "filter (\<lambda>e. e \<noteq> []) (dirs @ [a, k]) \<noteq> []" using k(1) by simp
    ultimately show "filepath_Join (dirs @ [a, k]) = (if hd (join_segments es) = CHR ''/''
        then CHR ''/'' # join_segments (clean_path (hd (join_segments es) = CHR ''/'') [] (split_path (join_segments es)) @ [k])
        else join_segments (clean_path (hd (join_segments es) = CHR ''/'') [] (split_path (join_segments es)) @ [k]))"
      using k by (simp add: filepath_Join_def filepath_Clean_def split_path_slash split_path_plain clean_path_last join_segments_snoc)
  qed
  show ?thesis using path [of n] path [of m] assms(10) by (auto simp: join_segments_snoc split: if_splits)
qed

lemma unit_names: "CHR ''/'' \<notin> set unitServiceName" "CHR ''/'' \<notin> set hostUnitServiceName" "unitServiceName \<noteq> hostUnitServiceName"
  "unitServiceName \<noteq> []" "hostUnitServiceName \<noteq> []" "unitServiceName \<noteq> ''.''" "unitServiceName \<noteq> ''..''"
  "hostUnitServiceName \<noteq> ''.''" "hostUnitServiceName \<noteq> ''..''"
  by (simp_all add: unitServiceName_def hostUnitServiceName_def)

lemma user_paths_differ:
  assumes "userUnitPath p = Some c" "userHostUnitPath p = Some h"
  shows "c \<noteq> h"
proof
  assume "c = h"
  then obtain dir where "filepath_Join ([dir, ''systemd''] @ [''user'', unitServiceName]) = filepath_Join ([dir, ''systemd''] @ [''user'', hostUnitServiceName])"
    using assms by (auto simp: userUnitPath_def userHostUnitPath_def) metis
  from filepath_Join_last [OF _ _ _ _ _ _ _ _ _ this] show False using unit_names by simp
qed

text \<open>What a successful installation did, and where a removal in the same mode looks.\<close>

lemma cmdInstall_success:
  assumes "cmdInstall p kt flags (fs, calls) = (0, fs1, calls1)"
  obtains u c h where "c \<noteq> h" "fs1 = fs(h \<mapsto> renderHostUnit u, c \<mapsto> renderUnit u)"
    "teardownUnits p (ifRootless flags) = Some [\<lparr>iuName = unitServiceName, iuPath = c\<rparr>, \<lparr>iuName = hostUnitServiceName, iuPath = h\<rparr>]"
    "install_start (prOS p) flags calls = (0, calls1)" "prGOOS p = ''linux''" "ifRootless flags \<or> prEuid p = 0"
proof -
  have sys: "systemUnitPath \<noteq> systemHostUnitPath" using unit_names(3) by (simp add: systemUnitPath_def systemHostUnitPath_def)
  from assms obtain params u c h where i: "install_params p kt flags fs = Some params" "install_target p flags params = Some (u, c, h)"
    "os_WriteFile (prOS p) h (renderHostUnit u) fs = (True, fs(h \<mapsto> renderHostUnit u))"
    "fs1 = fs(h \<mapsto> renderHostUnit u, c \<mapsto> renderUnit u)" "install_start (prOS p) flags calls = (0, calls1)"
    by (auto simp: cmdInstall_def os_WriteFile_def split: option.splits prod.splits bool.splits writeOutcome.splits)
  have "c \<noteq> h \<and> teardownUnits p (ifRootless flags) = Some [\<lparr>iuName = unitServiceName, iuPath = c\<rparr>, \<lparr>iuName = hostUnitServiceName, iuPath = h\<rparr>]"
    using i(2) sys user_paths_differ by (auto simp: install_target_def teardownUnits_def Let_def split: if_splits option.splits)
  moreover have "prGOOS p = ''linux'' \<and> (ifRootless flags \<or> prEuid p = 0)"
    using i(1) by (auto simp: install_params_def split: if_splits)
  ultimately show thesis using that i(4,5) by blast
qed

definition systemctl_argv :: "bool \<Rightarrow> string list \<Rightarrow> string list" where
  "systemctl_argv rootless args = (if rootless then ''--user'' # args else args)"

lemma runSystemctl_argv: "runSystemctl os r args calls = (osSystemctl os (systemctl_argv r args), calls @ [systemctl_argv r args])"
  by (simp add: runSystemctl_def systemctl_argv_def Let_def)

text \<open>
  C31: uninstalling undoes installing. After \<open>install\<close> succeeded, in either mode, \<open>uninstall\<close> in the same mode, as
  long as files can be removed and the reload works, removes exactly the two files that were written, even if
  \<open>systemctl disable\<close> fails. The relay is started after the session host it requires and stopped before it.
  A second \<open>uninstall\<close> succeeds, changes nothing and does not call \<open>systemctl\<close>.
\<close>
theorem uninstall_undoes_install:
  assumes "cmdInstall p kt flags (fs, calls) = (0, fs1, calls1)"
    and "ufnRootless uf = ifRootless flags" "\<not> ufnPurge uf"
    and "\<forall>path. osRemove (prOS p) path" "osSystemctl (prOS p) (systemctl_argv (ifRootless flags) [''daemon-reload''])"
  shows "\<exists>c h u. let sys = systemctl_argv (ifRootless flags); fs2 = fs(h := None, c := None);
      calls2 = calls1 @ [sys [''disable'', ''--now'', unitServiceName], sys [''disable'', ''--now'', hostUnitServiceName], sys [''daemon-reload'']]
    in c \<noteq> h \<and> fs1 = fs(h \<mapsto> renderHostUnit u, c \<mapsto> renderUnit u) \<and>
      calls1 = calls @ sys [''daemon-reload''] # (if ifNoStart flags then [] else
        [sys [''enable'', ''--now'', hostUnitServiceName], sys [''enable'', ''--now'', unitServiceName]]) \<and>
      cmdUninstall p uf (fs1, calls1) = (0, fs2, calls2) \<and> cmdUninstall p uf (fs2, calls2) = (0, fs2, calls2)"
proof -
  obtain u c h where i: "c \<noteq> h" "fs1 = fs(h \<mapsto> renderHostUnit u, c \<mapsto> renderUnit u)"
    "teardownUnits p (ifRootless flags) = Some [\<lparr>iuName = unitServiceName, iuPath = c\<rparr>, \<lparr>iuName = hostUnitServiceName, iuPath = h\<rparr>]"
    "install_start (prOS p) flags calls = (0, calls1)" "prGOOS p = ''linux''" "ifRootless flags \<or> prEuid p = 0"
    by (rule cmdInstall_success [OF assms(1)])
  let ?sys = "systemctl_argv (ifRootless flags)"
  let ?fs2 = "fs(h := None, c := None)"
  let ?calls2 = "calls1 @ [?sys [''disable'', ''--now'', unitServiceName], ?sys [''disable'', ''--now'', hostUnitServiceName], ?sys [''daemon-reload'']]"
  have fs2: "fs(h := None, c := None) = fs(c := None, h := None)" by (rule fun_upd_twist) (use i(1) in simp)
  have 1: "calls1 = calls @ ?sys [''daemon-reload''] # (if ifNoStart flags then [] else
      [?sys [''enable'', ''--now'', hostUnitServiceName], ?sys [''enable'', ''--now'', unitServiceName]])"
    using i(4) by (auto simp: install_start_def runSystemctl_argv Let_def split: if_splits)
  have 2: "cmdUninstall p uf (fs1, calls1) = (0, ?fs2, ?calls2)"
    using i assms(2-5) by (auto simp: cmdUninstall_def runSystemctl_argv remove_existing_def Let_def fun_upd_twist)
  have 3: "cmdUninstall p uf (?fs2, ?calls2) = (0, ?fs2, ?calls2)"
    using i assms(2-5) by (auto simp: cmdUninstall_def Let_def)
  show ?thesis using i(1,2) 1 2 3 by (intro exI [of _ c] exI [of _ h] exI [of _ u]) (simp only: Let_def simp_thms)
qed

text \<open>An enrolled machine on which everything works, except disabling a service.\<close>

definition demoOS :: osCalls where
  "demoOS = \<lparr>osRead = (\<lambda>_. True), osMkdir = (\<lambda>_. True), osWrite = (\<lambda>_. Written), osRemove = (\<lambda>_. True),
     osSystemctl = (\<lambda>argv. ''disable'' \<notin> set argv)\<rparr>"

definition demoProcess :: process where
  "demoProcess = \<lparr>prOS = demoOS, prEnv = (\<lambda>n. if n = ''CONSTELLATE_HUB_URL'' then ''wss://hub/ws/agent'' else []), prHome = Some ''/home/u'',
     prHostname = ''box'', prYaml = (\<lambda>_ cfg. Some cfg), prGOOS = ''linux'', prGOARCH = ''amd64'', prEuid = 1000, prCurrentUser = Some ''u'',
     prConfigDir = Some ''/home/u/.config'', prExecutable = Some ''/usr/bin/constellate-agent'', prEvalSymlinks = Some, prAbs = Some\<rparr>"

definition demoKeys :: "byte keyTools" where
  "demoKeys = \<lparr>ktGenerate = Some (replicate 32 7, 7), ktEncode = (\<lambda>k. Some [char_of (unat k)]),
     ktDecode = (\<lambda>s. case s of [c] \<Rightarrow> Some (word_of_nat (of_char c)) | _ \<Rightarrow> None), ktValidPEM = (\<lambda>_. True)\<rparr>"

definition demoFiles :: files where
  "demoFiles = [''/home/u/.constellate/agent-id'' \<mapsto> ''m1'', ''/home/u/.constellate/cred'' \<mapsto> [CHR 0x09]]"

definition demoInstall :: installFlags where
  "demoInstall = \<lparr>ifConfig = [], ifUser = [], ifNoStart = False, ifRootless = True\<rparr>"

lemma demo_trim: "TrimSpace ''m1'' = ''m1''" "TrimSpace ''m9'' = ''m9''"
proof -
  have "\<forall>q \<in> set space_seqs. hd q \<noteq> CHR ''m'' \<and> last q \<noteq> CHR ''1'' \<and> last q \<noteq> CHR ''9''" by code_simp
  then show "TrimSpace ''m1'' = ''m1''" "TrimSpace ''m9'' = ''m9''" by (intro trim_plain; simp)+
qed

text \<open>Witness for \<open>uninstall_undoes_install\<close>.\<close>
theorem uninstall_undoes_install_witness:
  "\<exists>fs1 calls1 c h. c \<noteq> h \<and> fst (cmdUninstall demoProcess \<lparr>ufnConfig = [], ufnRootless = True, ufnPurge = False\<rparr> (fs1, calls1)) = 0 \<and>
    fst (snd (cmdUninstall demoProcess \<lparr>ufnConfig = [], ufnRootless = True, ufnPurge = False\<rparr> (fs1, calls1))) = demoFiles(h := None, c := None)"
proof -
  let ?uf = "\<lparr>ufnConfig = [], ufnRootless = True, ufnPurge = False\<rparr>"
  have u: "ufnRootless ?uf = ifRootless demoInstall" "\<not> ufnPurge ?uf" "\<forall>path. osRemove (prOS demoProcess) path"
    "osSystemctl (prOS demoProcess) (systemctl_argv (ifRootless demoInstall) [''daemon-reload''])"
    by (simp_all add: demoInstall_def demoProcess_def demoOS_def systemctl_argv_def)
  have "\<exists>cfg. load_agent demoProcess demoFiles [] = Inr cfg \<and> acIDFile cfg = ''/home/u/.constellate/agent-id'' \<and>
    acCredFile cfg = ''/home/u/.constellate/cred''"
    by (simp add: load_agent_def LoadAgent_def read_config_def demoProcess_def applyAgentEnv_def env_or_def defaultAgent_def expandHome_def Let_def)
  then have "fst (cmdInstall demoProcess demoKeys demoInstall (demoFiles, [])) = 0"
    by (auto simp: cmdInstall_def install_params_def install_target_def install_start_def readMachineID_def loadPrivateKey_def os_ReadFile_def
        os_WriteFile_def runSystemctl_def demoInstall_def demoProcess_def demoOS_def demoKeys_def demoFiles_def demo_trim userUnitPath_def
        userHostUnitPath_def unitServiceName_def hostUnitServiceName_def Let_def)
  then obtain fs1 calls1 where i: "cmdInstall demoProcess demoKeys demoInstall (demoFiles, []) = (0, fs1, calls1)"
    by (metis prod.exhaust_sel)
  have "\<exists>c h. c \<noteq> h \<and> cmdUninstall demoProcess ?uf (fs1, calls1) = (0, demoFiles(h := None, c := None), snd (snd (cmdUninstall demoProcess ?uf (fs1, calls1))))"
    using uninstall_undoes_install [OF i u] unfolding Let_def
    by (elim exE conjE) (rule exI, rule exI, rule conjI, assumption, simp only: prod.sel)
  then show ?thesis by (metis fst_conv snd_conv)
qed

end
