(* ===== verification/Agent_Enrolment.thy ===== *)
theory Agent_Enrolment
  imports Agent_Commands
begin

text \<open>
  Enrolment end to end: the agent's \<open>enroll\<close> against the hub's HTTP server, and what \<open>connect\<close> then presents to
  the hub's endpoint for agents. The network delivers requests to the hub and its replies back; what a key pair
  and the encodings guarantee are hypotheses.
\<close>

subsection \<open>The hub as the agent's network\<close>

text \<open>\<open>text\<close> is the JSON of a reply's body.\<close>

definition wire :: "('f body \<Rightarrow> string) \<Rightarrow> 'f reply \<Rightarrow> httpResult" where
  "wire text reply = (case snd reply of Answer status retry b \<Rightarrow> Response status (text b) | _ \<Rightarrow> TransportError)"

definition hub_network :: "string \<Rightarrow> ('g, 'f::{zero, ord}) hub_config \<Rightarrow> fresh \<Rightarrow> ('f body \<Rightarrow> string) \<Rightarrow> 'g hub_world network" where
  "hub_network origin c fr text roots url sent w =
     (if \<not> prefix (origin @ ''/'') url then (TransportError, w)
      else case serve c fr \<lparr>rqMethod = ''POST'', rqEscapedPath = drop (length origin) url, rqQuery = [], rqCookies = [], rqXFF = [],
           rqRemoteAddr = [], rqBody = sent\<rparr> w of (reply, w1) \<Rightarrow> (wire text reply, w1))"

subsection \<open>Base64 round trip\<close>

lemma std_b64_table: "list_all (\<lambda>v. std_b64_value (std_b64_char v) = Some v \<and> std_b64_char v \<notin> {CHR 10, CHR 13, CHR ''=''}) [0..<64]"
  by code_simp

lemma std_b64_char [simp]:
  assumes "v < 64"
  shows "std_b64_value (std_b64_char v) = Some v" "std_b64_char v \<noteq> CHR 10" "std_b64_char v \<noteq> CHR 13" "std_b64_char v \<noteq> CHR ''=''"
  using std_b64_table assms by (auto simp: list_all_iff)

lemma unat_byte: "unat (b :: byte) < 256"
  using unsigned_less [of b] by simp

text \<open>The sextets of one group, and the bytes they give back.\<close>

lemma group_sextets:
  "\<exists>s t. b64_sextets [unat (a :: byte)] = [s, t] \<and> s < 64 \<and> t < 64 \<and> b64_bytes [s, t] = Some [unat a]"
  "\<exists>s t u. b64_sextets [unat a, unat (b :: byte)] = [s, t, u] \<and> s < 64 \<and> t < 64 \<and> u < 64 \<and> b64_bytes [s, t, u] = Some [unat a, unat b]"
  "\<exists>s t u v. b64_sextets [unat a, unat b, unat (c :: byte)] = [s, t, u, v] \<and> s < 64 \<and> t < 64 \<and> u < 64 \<and> v < 64 \<and>
    b64_bytes [s, t, u, v] = Some [unat a, unat b, unat c]"
proof -
  have "\<forall>x \<in> set bs. x < 256 \<Longrightarrow> b64_bytes (b64_sextets bs) = Some bs \<and> (\<forall>s \<in> set (b64_sextets bs). s < 64)" for bs
    using b64_bytes_sextets b64_sextets_less by blast
  note g = this [of "[unat a]"] this [of "[unat a, unat b]"] this [of "[unat a, unat b, unat c]"]
  show "\<exists>s t. b64_sextets [unat a] = [s, t] \<and> s < 64 \<and> t < 64 \<and> b64_bytes [s, t] = Some [unat a]"
    using g(1) unat_byte by (simp del: b64_bytes.simps)
  show "\<exists>s t u. b64_sextets [unat a, unat b] = [s, t, u] \<and> s < 64 \<and> t < 64 \<and> u < 64 \<and> b64_bytes [s, t, u] = Some [unat a, unat b]"
    using g(2) unat_byte by (simp del: b64_bytes.simps)
  show "\<exists>s t u v. b64_sextets [unat a, unat b, unat c] = [s, t, u, v] \<and> s < 64 \<and> t < 64 \<and> u < 64 \<and> v < 64 \<and>
    b64_bytes [s, t, u, v] = Some [unat a, unat b, unat c]"
    using g(3) unat_byte by (simp del: b64_bytes.simps)
qed

lemma std_encode_chars: "x \<in> set (std_EncodeToString bs) \<Longrightarrow> x = CHR ''='' \<or> (\<exists>v < 64. x = std_b64_char v)"
proof (induction bs rule: std_EncodeToString.induct)
  case (2 a)
  then show ?case using group_sextets(1) [of a] by (auto simp del: b64_sextets.simps)
next
  case (3 a b)
  then show ?case using group_sextets(2) [of a b] by (auto simp del: b64_sextets.simps)
next
  case (4 a b c bs)
  then show ?case using group_sextets(3) [of a b c] by (auto simp del: b64_sextets.simps)
qed simp

lemma std_encode_no_breaks: "x \<in> set (std_EncodeToString bs) \<Longrightarrow> x \<noteq> CHR 10 \<and> x \<noteq> CHR 13"
  using std_encode_chars [of x bs] by auto

lemma std_quanta_encode: "std_b64_quanta (std_EncodeToString bs) = Some (map unat bs)"
proof (induction bs rule: std_EncodeToString.induct)
  case (2 a)
  then show ?case using group_sextets(1) [of a] by (auto simp del: b64_sextets.simps b64_bytes.simps)
next
  case (3 a b)
  then show ?case using group_sextets(2) [of a b] by (auto simp del: b64_sextets.simps b64_bytes.simps)
next
  case (4 a b c bs)
  obtain s t u v where q: "b64_sextets [unat a, unat b, unat c] = [s, t, u, v]" "s < 64" "t < 64" "u < 64" "v < 64"
    "b64_bytes [s, t, u, v] = Some [unat a, unat b, unat c]"
    using group_sextets(3) [of a b c] by blast
  then show ?case
  proof (cases "std_EncodeToString bs")
    case Nil
    with 4 have "bs = []" by (cases bs rule: std_EncodeToString.cases) simp_all
    then show ?thesis using q by (simp del: b64_bytes.simps b64_sextets.simps)
  next
    case (Cons e rest)
    then show ?thesis using q 4 by (simp del: b64_bytes.simps b64_sextets.simps)
  qed
qed simp

lemma std_base64_roundtrip: "std_DecodeString (std_EncodeToString bs) = Some bs"
proof -
  have "filter (\<lambda>x. x \<noteq> CHR 10 \<and> x \<noteq> CHR 13) (std_EncodeToString bs) = std_EncodeToString bs"
    using std_encode_no_breaks by (simp add: filter_id_conv)
  then show ?thesis by (simp add: std_DecodeString_def std_quanta_encode comp_def)
qed

subsection \<open>The hub's side\<close>

lemma serve_enroll:
  "serve c fr \<lparr>rqMethod = ''POST'', rqEscapedPath = ''/api/enroll'', rqQuery = [], rqCookies = [], rqXFF = [], rqRemoteAddr = [], rqBody = sent\<rparr> w =
    handleEnroll c fr None \<lparr>rqMethod = ''POST'', rqEscapedPath = ''/api/enroll'', rqQuery = [], rqCookies = [], rqXFF = [], rqRemoteAddr = [], rqBody = sent\<rparr> w"
proof -
  have "unescape ''/api/enroll'' = Some ''/api/enroll''" "''/api/enroll'' \<in> set unauthenticatedPaths"
    "mux_find ''POST'' ''/api/enroll'' = MuxTo EnrollEp"
    by code_simp+
  then show ?thesis by (simp add: serve_def authMiddleware_def serve_mux_def)
qed

lemma statusFor_not_created: "statusFor err \<noteq> 201"
  by (cases err) (simp_all add: statusFor_def)

text \<open>What a created enrolment means on the hub.\<close>

lemma post_enroll:
  assumes "hub_network origin c fr text roots (origin @ ''/api/enroll'') sent w = (Response 201 respBody, w1)"
    and "jdEnroll (hcJson c) sent = Some req" "erPublicKey req = std_EncodeToString pub"
  shows "\<exists>e. Enroll (hcSha c) \<lparr>eiToken = erToken req, eiPublicKey = pub, eiName = erName req, eiOS = erOS req, eiArch = erArch req\<rparr>
      (frID fr) (enroll_of None w) = (Inr (frID fr), e) \<and> w1 = put_enroll e w \<and> respBody = text (BEnrolled (frID fr))"
proof -
  have same: "i = frID fr" if "Enroll sha inp (frID fr) e = (Inr i, e')" for sha inp e i e'
    using that by (auto simp: Enroll_def Let_def split: if_splits sum.splits)
  have "\<exists>i e. Enroll (hcSha c) \<lparr>eiToken = erToken req, eiPublicKey = pub, eiName = erName req, eiOS = erOS req, eiArch = erArch req\<rparr>
      (frID fr) (enroll_of None w) = (Inr i, e) \<and> w1 = put_enroll e w \<and> respBody = text (BEnrolled i)"
    using assms statusFor_not_created
    by (auto simp: hub_network_def serve_enroll handleEnroll_def wire_def writeError_def writeJSON_def std_base64_roundtrip
        split: if_splits prod.splits sum.splits)
  then show ?thesis using same by blast
qed

text \<open>Authentication looks at the credentials, the machines and the clock.\<close>

lemma Authenticate_cong:
  assumes "ewCreds e = ewCreds e'" "ewMachines e = ewMachines e'" "ewNow e = ewNow e'"
  shows "Authenticate verify token e = Authenticate verify token e'"
  unfolding Authenticate_def assms ..

lemma extractBearer_authorization: "extractBearer (authorization sign i k ts) = BuildAgentToken sign i k ts"
  by (simp add: extractBearer_def authorization_def Let_def BuildAgentToken_def)

subsection \<open>Enrol, then connect\<close>

text \<open>Where the pieces lie: the files of the agent are distinct and readable.\<close>

definition separate_files :: "process \<Rightarrow> string \<Rightarrow> AgentConfig \<Rightarrow> bool" where
  "separate_files p configPath cfg \<longleftrightarrow> acIDFile cfg \<noteq> [] \<and> acCredFile cfg \<noteq> [] \<and> acIDFile cfg \<noteq> acCredFile cfg \<and>
     configPath \<notin> {acIDFile cfg, acCredFile cfg} \<and> acHubCA cfg \<notin> {acIDFile cfg, acCredFile cfg} \<and>
     osRead (prOS p) (acIDFile cfg) \<and> osRead (prOS p) (acCredFile cfg)"

text \<open>The configuration does not depend on the files the enrolment writes.\<close>

lemma load_agent_files:
  assumes "fs1 configPath = fs configPath"
  shows "load_agent p fs1 configPath = load_agent p fs configPath"
  using assms by (simp add: load_agent_def LoadAgent_def read_config_def os_ReadFile_def)

lemma connect_after_write:
  assumes "load_agent p fs configPath = Inr cfg" "acHubURL cfg \<noteq> []" "separate_files p configPath cfg"
    and "fs1 configPath = fs configPath" "fs1 (acHubCA cfg) = fs (acHubCA cfg)"
    and "fs1 (acIDFile cfg) = Some i" "TrimSpace i = i" "i \<noteq> []"
    and "loadPrivateKey (ktDecode kt) (prOS p) fs1 (acCredFile cfg) = Some key"
    and "buildHTTPClient (ktValidPEM kt) (prOS p) fs (acHubCA cfg) = Some roots"
  shows "connect_credentials p kt configPath fs1 = Some (i, key, roots)"
    and "cmdStatus p configPath fs1 = Some \<lparr>srEnrolled = True, srMachineID = Some i, srName = acName cfg, srHub = acHubURL cfg\<rparr>"
proof -
  have load: "load_agent p fs1 configPath = Inr cfg" using load_agent_files assms(1,4) by metis
  have id: "readMachineID (prOS p) fs1 (acIDFile cfg) = Some i" "os_ReadFile (prOS p) fs1 (acIDFile cfg) = Some i"
    using assms(3,6-8) by (simp_all add: readMachineID_def os_ReadFile_def separate_files_def Let_def)
  have roots: "buildHTTPClient (ktValidPEM kt) (prOS p) fs1 (acHubCA cfg) = Some roots"
    using assms(10) os_ReadFile_def [of "prOS p" fs1 "acHubCA cfg"] os_ReadFile_def [of "prOS p" fs "acHubCA cfg"]
    unfolding assms(5) by (simp only: buildHTTPClient_def)
  show "connect_credentials p kt configPath fs1 = Some (i, key, roots)"
    using load id(1) roots assms(2,3,9) by (simp add: connect_credentials_def separate_files_def)
  show "cmdStatus p configPath fs1 = Some \<lparr>srEnrolled = True, srMachineID = Some i, srName = acName cfg, srHub = acHubURL cfg\<rparr>"
    using load id(2) assms(3,7,8) by (simp add: cmdStatus_def separate_files_def Let_def)
qed

text \<open>
  C10: an enrolled machine can connect. If \<open>enroll\<close> exits with success against the hub's server, then \<open>connect\<close> with the
  same configuration finds the machine ID the hub assigned and the key it generated, \<open>status\<close> reports that ID,
  and the header \<open>connect\<close> presents is accepted by the hub's endpoint as that machine, whenever their
  clocks differ by at most two minutes. Needed of the environment: the files are distinct and readable, the
  two JSON encodings agree, the key encoding can be read back, signatures verify, and the new ID is
  fresh, without dots and without white space at its ends.
\<close>
theorem enrolled_agent_connects:
  assumes "cmdEnroll p kt marshal unmarshal (hub_network origin c fr text) flags (fs, w) = (0, fs1, w1)"
    and "load_agent p fs (efConfig flags) = Inr cfg" "acHubURL cfg \<noteq> []" "separate_files p (efConfig flags) cfg"
    and "(if efHub flags = [] then hubHTTPBase (acHubURL cfg) else efHub flags) = origin"
    and json: "\<And>req. jdEnroll (hcJson c) (marshal req) = Some req" "\<And>i. unmarshal (text (BEnrolled i)) = Some i"
    and keys: "\<And>k s. ktEncode kt k = Some s \<Longrightarrow> ktDecode kt s = Some k"
      "\<And>pub k msg. ktGenerate kt = Some (pub, k) \<Longrightarrow> verify pub msg (sign k msg)"
    and new: "frID fr \<noteq> []" "CHR ''.'' \<notin> set (frID fr)" "TrimSpace (frID fr) = frID fr" "m_get (hwMachines w) (frID fr) = None"
    and clock: "in_int64 ts" "0 \<le> now" "now < 2 ^ 62" "\<bar>now - ts\<bar> \<le> agentTokenSkew"
  shows "\<exists>key roots. connect_credentials p kt (efConfig flags) fs1 = Some (frID fr, key, roots) \<and>
    cmdStatus p (efConfig flags) fs1 = Some \<lparr>srEnrolled = True, srMachineID = Some (frID fr), srName = acName cfg, srHub = acHubURL cfg\<rparr> \<and>
    endpoint_auth verify (authorization sign (frID fr) key ts) ((enroll_of None w1)\<lparr>ewNow := now\<rparr>) = Inr (frID fr)"
proof -
  define req where "req pub = \<lparr>erToken = efToken flags, erPublicKey = std_EncodeToString pub, erName = acName cfg,
    erOS = prGOOS p, erArch = prGOARCH p\<rparr>" for pub
  obtain pub key roots body machineID buf where r: "ktGenerate kt = Some (pub, key)"
    "buildHTTPClient (ktValidPEM kt) (prOS p) fs (acHubCA cfg) = Some roots"
    "hub_network origin c fr text roots (origin @ ''/api/enroll'') (marshal (req pub)) w = (Response 201 body, w1)"
    "unmarshal body = Some machineID" "ktEncode kt key = Some buf" "fs1 = fs(acIDFile cfg \<mapsto> machineID, acCredFile cfg \<mapsto> buf)"
    using assms(1,2,5) unfolding cmdEnroll_def req_def
    by (auto simp: Let_def os_WriteFile_def writePrivateKey_def split: if_splits option.splits prod.splits httpResult.splits
        bool.splits writeOutcome.splits)
  from post_enroll [OF r(3) json(1), of pub] obtain e where
    e: "Enroll (hcSha c) \<lparr>eiToken = efToken flags, eiPublicKey = pub, eiName = acName cfg, eiOS = prGOOS p, eiArch = prGOARCH p\<rparr>
      (frID fr) (enroll_of None w) = (Inr (frID fr), e)" "w1 = put_enroll e w" "body = text (BEnrolled (frID fr))"
    by (auto simp: req_def)
  have i: "machineID = frID fr" using r(4) e(3) json(2) by simp
  note files = assms(4) [unfolded separate_files_def]
  have "connect_credentials p kt (efConfig flags) fs1 = Some (frID fr, key, roots)"
    "cmdStatus p (efConfig flags) fs1 = Some \<lparr>srEnrolled = True, srMachineID = Some (frID fr), srName = acName cfg, srHub = acHubURL cfg\<rparr>"
    using files r(5,6) i new(1,3) keys(1)
    by (intro connect_after_write [OF assms(2-4) _ _ _ _ _ _ r(2)]; simp add: loadPrivateKey_def os_ReadFile_def)+
  moreover have "Authenticate verify (BuildAgentToken sign (frID fr) key ts) (e\<lparr>ewNow := now\<rparr>) = Inr (frID fr)"
    using new(4) keys(2) [OF r(1)]
    by (intro enrolled_agent_authenticates [OF e(1) new(1,2) _ clock]) (simp_all add: enroll_of_def)
  then have "endpoint_auth verify (authorization sign (frID fr) key ts) ((enroll_of None w1)\<lparr>ewNow := now\<rparr>) = Inr (frID fr)"
    using Authenticate_cong [of "e\<lparr>ewNow := now\<rparr>" "(enroll_of None w1)\<lparr>ewNow := now\<rparr>" verify] e(2)
    by (simp add: endpoint_auth_def extractBearer_authorization enroll_of_def put_enroll_def)
  ultimately show ?thesis by blast
qed

subsection \<open>An enrolment to look at\<close>

text \<open>A simple encoding of the request: every character follows a 1, every string ends with a 0.\<close>

definition demoWrite :: "string \<Rightarrow> byte list" where
  "demoWrite s = concat (map (\<lambda>x. [1, word_of_nat (of_char x)]) s) @ [0]"

fun demoRead :: "byte list \<Rightarrow> string \<times> byte list" where
  "demoRead (k # b # bs) = (if k = 1 then (case demoRead bs of (s, r) \<Rightarrow> (char_of (unat b) # s, r)) else ([], b # bs))"
| "demoRead [k] = ([], [])"
| "demoRead [] = ([], [])"

definition demoMarshal :: "enrollRequest \<Rightarrow> byte list" where
  "demoMarshal req = demoWrite (erToken req) @ demoWrite (erPublicKey req) @ demoWrite (erName req) @ demoWrite (erOS req) @ demoWrite (erArch req)"

definition demoUnmarshal :: "byte list \<Rightarrow> enrollRequest option" where
  "demoUnmarshal bs = (case demoRead bs of (t, bs1) \<Rightarrow> case demoRead bs1 of (k, bs2) \<Rightarrow> case demoRead bs2 of (n, bs3) \<Rightarrow>
     case demoRead bs3 of (s, bs4) \<Rightarrow> case demoRead bs4 of (a, _) \<Rightarrow>
       Some \<lparr>erToken = t, erPublicKey = k, erName = n, erOS = s, erArch = a\<rparr>)"

lemma demoRead_demoWrite: "demoRead (demoWrite s @ r) = (s, r)"
proof (induction s)
  case Nil
  then show ?case by (cases r) (simp_all add: demoWrite_def)
next
  case (Cons x s)
  have "unat (word_of_nat (of_char x) :: byte) = of_char x"
    by (simp add: unat_of_nat)
  then show ?case using Cons by (simp add: demoWrite_def)
qed

lemma demo_json: "demoUnmarshal (demoMarshal req) = Some req"
  using demoRead_demoWrite [of _ "[]"] by (simp add: demoMarshal_def demoUnmarshal_def demoRead_demoWrite)

definition demoEnrollHub :: "(unit, int) hub_config" where
  "demoEnrollHub = \<lparr>hcAuth = True, hcGen = (\<lambda>_ _. None), hcSha = (\<lambda>x. x), hcWebauthn = None, hcTtl = 3600, hcSecure = True,
     hcGateway = refusingGateway, hcOnline = (\<lambda>_ _. False), hcMetrics = (\<lambda>_ _. None),
     hcJson = \<lparr>jdEnroll = demoUnmarshal, jdOpen = (\<lambda>_. None), jdProject = (\<lambda>_. None), jdPatch = (\<lambda>_. None), jdCode = (\<lambda>_. None)\<rparr>,
     hcSplitHostPort = (\<lambda>_. None), hcAsset = (\<lambda>_. False)\<rparr>"

text \<open>A hub that has just minted a token.\<close>

definition demoEnrollWorld :: "unit hub_world" where
  "demoEnrollWorld = \<lparr>hwOps = NewOperatorStore, hwOpSessions = [], hwChallenges = [], hwAudit = [],
     hwTokens = ewTokens (snd (MintToken (\<lambda>x. x) 900 [1] emptyWorld)), hwCreds = [], hwMachines = [], hwSessions = [], hwProjects = [],
     hwGateway = (), hwIPLimiter = newRateLimiter loginIPMax loginWindow, hwGlobalLimiter = newRateLimiter loginGlobalMax loginWindow,
     hwNow = 1000 * second\<rparr>"

definition demoBody :: "int body \<Rightarrow> string" where
  "demoBody b = (case b of BEnrolled i \<Rightarrow> i | _ \<Rightarrow> [])"

definition demoEnrollRun :: "osCalls \<Rightarrow> files \<Rightarrow> nat \<times> files \<times> unit hub_world" where
  "demoEnrollRun os fs = cmdEnroll (demoProcess\<lparr>prOS := os\<rparr>) demoKeys demoMarshal Some
     (hub_network ''https://hub'' demoEnrollHub \<lparr>frID = ''m9'', frToken = [], frName = []\<rparr> demoBody)
     \<lparr>efConfig = [], efHub = [], efToken = ''01''\<rparr> (fs, demoEnrollWorld)"

definition demoAgentConfig :: AgentConfig where
  "demoAgentConfig = (case load_agent demoProcess (\<lambda>_. None) [] of Inr cfg \<Rightarrow> cfg)"

lemma demo_load: "load_agent (demoProcess\<lparr>prOS := os\<rparr>) fs [] = Inr demoAgentConfig"
  by (simp add: demoAgentConfig_def load_agent_def LoadAgent_def read_config_def demoProcess_def Let_def)

lemma demo_config:
  "acHubURL demoAgentConfig = ''wss://hub/ws/agent''" "acIDFile demoAgentConfig = ''/home/u/.constellate/agent-id''"
  "acCredFile demoAgentConfig = ''/home/u/.constellate/cred''" "acHubCA demoAgentConfig = []" "hubHTTPBase ''wss://hub/ws/agent'' = ''https://hub''"
  by code_simp+

lemma demo_keys:
  "ktEncode demoKeys k = Some s \<Longrightarrow> ktDecode demoKeys s = Some k"
  "ktGenerate demoKeys = Some (pub, k) \<Longrightarrow> [k] = [hd pub]"
  by (auto simp: demoKeys_def unat_byte)

lemma demo_files: "osRead os = (\<lambda>_. True) \<Longrightarrow> separate_files (demoProcess\<lparr>prOS := os\<rparr>) [] demoAgentConfig"
  by (simp add: separate_files_def demo_config)

lemma demo_process:
  "prOS (demoProcess\<lparr>prOS := os\<rparr>) = os" "prGOOS (demoProcess\<lparr>prOS := os\<rparr>) = ''linux''" "prGOARCH (demoProcess\<lparr>prOS := os\<rparr>) = ''amd64''"
  by (simp_all add: demoProcess_def)

lemma demo_post:
  "\<exists>w1. hub_network ''https://hub'' demoEnrollHub \<lparr>frID = ''m9'', frToken = [], frName = []\<rparr> demoBody roots
      (''https://hub'' @ ''/api/enroll'') (demoMarshal \<lparr>erToken = ''01'', erPublicKey = std_EncodeToString (replicate 32 7), erName = n, erOS = s,
        erArch = a\<rparr>) demoEnrollWorld = (Response 201 ''m9'', w1) \<and> m_get (hwCreds w1) ''m9'' = Some (replicate 32 7)"
proof -
  have key: "std_EncodeToString (replicate 32 (7 :: byte)) \<noteq> []"
  proof
    assume "std_EncodeToString (replicate 32 (7 :: byte)) = []"
    then have "std_DecodeString [] = Some (replicate 32 (7 :: byte))" using std_base64_roundtrip by metis
    then show False by (simp add: std_DecodeString_def)
  qed
  let ?w = "enroll_of None demoEnrollWorld" and ?inp = "\<lparr>eiToken = ''01'', eiPublicKey = replicate 32 7, eiName = n, eiOS = s, eiArch = a\<rparr>"
  have "\<exists>e. Enroll (\<lambda>x. x) ?inp ''m9'' ?w = (Inr ''m9'', e) \<and> m_get (ewCreds e) ''m9'' = Some (replicate 32 7)"
    by (simp add: enroll_defs demoEnrollWorld_def enroll_of_def emptyWorld_def hex_EncodeToString_def hex_digit_def tokenHash_def
        hw_unix_def second_def NewMachine_def Let_def)
  then obtain e where e: "Enroll (\<lambda>x. x) ?inp ''m9'' ?w = (Inr ''m9'', e)" "m_get (ewCreds e) ''m9'' = Some (replicate 32 7)" by blast
  have "handleEnroll demoEnrollHub \<lparr>frID = ''m9'', frToken = [], frName = []\<rparr> None r demoEnrollWorld = (writeJSON 201 (BEnrolled ''m9''), put_enroll e demoEnrollWorld)"
    if "rqBody r = demoMarshal \<lparr>erToken = ''01'', erPublicKey = std_EncodeToString (replicate 32 7), erName = n, erOS = s, erArch = a\<rparr>" for r
    using that key e(1) by (simp add: handleEnroll_def demoEnrollHub_def demo_json std_base64_roundtrip)
  then show ?thesis using e(2) by (simp add: hub_network_def serve_enroll [simplified] wire_def writeJSON_def demoBody_def put_enroll_def)
qed

lemma demo_run:
  assumes "osRead os = (\<lambda>_. True)" "osMkdir os = (\<lambda>_. True)" "osWrite os ''/home/u/.constellate/agent-id'' = Written"
  shows "\<exists>w1. demoEnrollRun os fs = (if osWrite os ''/home/u/.constellate/cred'' = Written then 0 else 1,
      snd (os_WriteFile os ''/home/u/.constellate/cred'' [CHR 0x07] (fs(''/home/u/.constellate/agent-id'' \<mapsto> ''m9''))), w1) \<and>
    m_get (hwCreds w1) ''m9'' = Some (replicate 32 7)"
proof -
  obtain w1 where w1: "hub_network ''https://hub'' demoEnrollHub \<lparr>frID = ''m9'', frToken = [], frName = []\<rparr> demoBody None
      (''https://hub'' @ ''/api/enroll'') (demoMarshal \<lparr>erToken = ''01'', erPublicKey = std_EncodeToString (replicate 32 7),
        erName = acName demoAgentConfig, erOS = ''linux'', erArch = ''amd64''\<rparr>) demoEnrollWorld = (Response 201 ''m9'', w1)"
    "m_get (hwCreds w1) ''m9'' = Some (replicate 32 7)" using demo_post by blast
  have "char_of (7 :: nat) = CHR 0x07" by code_simp
  then have "demoEnrollRun os fs = (if osWrite os ''/home/u/.constellate/cred'' = Written then 0 else 1,
      snd (os_WriteFile os ''/home/u/.constellate/cred'' [CHR 0x07] (fs(''/home/u/.constellate/agent-id'' \<mapsto> ''m9''))), w1)"
    using w1(1) assms demo_config
    by (simp add: demoEnrollRun_def cmdEnroll_def demo_load demo_process demoKeys_def buildHTTPClient_def os_WriteFile_def writePrivateKey_def
        Let_def del: append.simps append_Cons split: writeOutcome.split)
  then show ?thesis using w1(2) by blast
qed

text \<open>Witness for \<open>enrolled_agent_connects\<close>.\<close>
theorem enrolled_agent_connects_witness:
  "\<exists>key roots. connect_credentials demoProcess demoKeys [] (fst (snd (demoEnrollRun demoOS Map.empty))) = Some (''m9'', key, roots)"
proof -
  have os: "osRead demoOS = (\<lambda>_. True)" "demoProcess\<lparr>prOS := demoOS\<rparr> = demoProcess" "osMkdir demoOS = (\<lambda>_. True)"
    "osWrite demoOS = (\<lambda>_. Written)" by (simp_all add: demoOS_def demoProcess_def)
  then obtain fs1 w1 where run: "demoEnrollRun demoOS Map.empty = (0, fs1, w1)" using demo_run [of demoOS Map.empty] by auto
  have "\<exists>key roots. connect_credentials (demoProcess\<lparr>prOS := demoOS\<rparr>) demoKeys (efConfig \<lparr>efConfig = [], efHub = [], efToken = ''01''\<rparr>) fs1 =
      Some (frID \<lparr>frID = ''m9'', frToken = [], frName = []\<rparr>, key, roots) \<and>
    cmdStatus (demoProcess\<lparr>prOS := demoOS\<rparr>) (efConfig \<lparr>efConfig = [], efHub = [], efToken = ''01''\<rparr>) fs1 = Some \<lparr>srEnrolled = True,
      srMachineID = Some (frID \<lparr>frID = ''m9'', frToken = [], frName = []\<rparr>), srName = acName demoAgentConfig, srHub = acHubURL demoAgentConfig\<rparr> \<and>
    endpoint_auth (\<lambda>pub m s. s = [hd pub]) (authorization (\<lambda>k m. [k]) (frID \<lparr>frID = ''m9'', frToken = [], frName = []\<rparr>) key 1000)
      ((enroll_of None w1)\<lparr>ewNow := 1060\<rparr>) = Inr (frID \<lparr>frID = ''m9'', frToken = [], frName = []\<rparr>)"
  proof (rule enrolled_agent_connects [OF run [unfolded demoEnrollRun_def]])
  qed (simp_all add: demo_trim demoEnrollWorld_def m_get_def demo_load demo_config demo_json demo_keys demo_files os(1) demoEnrollHub_def demoBody_def in_int64_def agentTokenSkew_def)
  then show ?thesis using run os(2) by auto
qed

subsection \<open>A failed enrolment\<close>

text \<open>What a refused enrolment leaves of the credentials.\<close>

lemma hub_network_refused:
  assumes "hub_network origin c fr text roots (origin @ ''/api/enroll'') sent w = (res, w1)" "\<forall>respBody. res \<noteq> Response 201 respBody"
  shows "m_get (hwCreds w1) i = m_get (hwCreds w) i"
proof -
  have keep: "ewCreds e' = ewCreds e" if "Enroll sha inp j e = (Inl err, e')" for sha inp j e err e'
    using that by (auto simp: enroll_defs Let_def split: if_splits option.splits sum.splits)
  have "hwCreds (put_enroll e' w) = hwCreds w" if "Enroll sha inp j (enroll_of None w) = (Inl err, e')" for sha inp j err e'
    using keep [OF that] by (simp add: put_enroll_def enroll_of_def)
  then show ?thesis using assms
    by (auto simp: hub_network_def serve_enroll handleEnroll_def wire_def writeError_def writeJSON_def
        split: prod.splits sum.splits option.splits if_splits)
qed

lemma enroll_reached:
  assumes "cmdEnroll p kt marshal unmarshal (hub_network origin c fr text) flags (fs, w) = (code, fs1, w1)" "w1 \<noteq> w"
    and "load_agent p fs (efConfig flags) = Inr cfg" "(if efHub flags = [] then hubHTTPBase (acHubURL cfg) else efHub flags) = origin"
  shows "\<exists>pub key roots res. ktGenerate kt = Some (pub, key) \<and> buildHTTPClient (ktValidPEM kt) (prOS p) fs (acHubCA cfg) = Some roots \<and>
    hub_network origin c fr text roots (origin @ ''/api/enroll'') (marshal \<lparr>erToken = efToken flags, erPublicKey = std_EncodeToString pub,
      erName = acName cfg, erOS = prGOOS p, erArch = prGOARCH p\<rparr>) w = (res, w1) \<and> efToken flags \<noteq> [] \<and> origin \<noteq> []"
  using assms unfolding cmdEnroll_def
  by (auto simp: Let_def split: if_splits option.splits prod.splits httpResult.splits bool.splits)

text \<open>
  C36: an enrolment that fails at its last step leaves a mixture. If the hub has enrolled the machine and the ID file is
  written, but the key file cannot be opened, \<open>enroll\<close> exits with an error and the files now hold the new ID and
  the old key: \<open>status\<close> reports the machine as enrolled under the new ID, \<open>connect\<close> starts, and the hub rejects
  it at every time, although the previous enrolment worked until then.
\<close>
theorem failed_enroll_mixes_credentials:
  assumes "cmdEnroll p kt marshal unmarshal (hub_network origin c fr text) flags (fs, w) = (code, fs1, w1)"
    and "load_agent p fs (efConfig flags) = Inr cfg" "separate_files p (efConfig flags) cfg"
    and "(if efHub flags = [] then hubHTTPBase (acHubURL cfg) else efHub flags) = origin"
    and json: "\<And>req. jdEnroll (hcJson c) (marshal req) = Some req" "\<And>i. unmarshal (text (BEnrolled i)) = Some i"
    and old: "connect_credentials p kt (efConfig flags) fs = Some (oldID, oldKey, roots)"
    and ID: "osMkdir (prOS p) (filepath_Dir (acIDFile cfg))" "osWrite (prOS p) (acIDFile cfg) = Written"
    and key: "\<not> osMkdir (prOS p) (filepath_Dir (acCredFile cfg)) \<or> osWrite (prOS p) (acCredFile cfg) = NotOpened"
    and enrolled: "m_get (hwCreds w) (frID fr) = None" "m_get (hwCreds w1) (frID fr) \<noteq> None"
    and new: "frID fr \<noteq> []" "CHR ''.'' \<notin> set (frID fr)" "TrimSpace (frID fr) = frID fr"
    and foreign: "\<And>pub k msg. ktGenerate kt = Some (pub, k) \<Longrightarrow> \<not> verify pub msg (sign oldKey msg)"
  shows "code = 1 \<and> connect_credentials p kt (efConfig flags) fs1 = Some (frID fr, oldKey, roots) \<and>
    cmdStatus p (efConfig flags) fs1 = Some \<lparr>srEnrolled = True, srMachineID = Some (frID fr), srName = acName cfg, srHub = acHubURL cfg\<rparr> \<and>
    (\<forall>ts now. in_int64 ts \<longrightarrow>
      endpoint_auth verify (authorization sign (frID fr) oldKey ts) ((enroll_of None w1)\<lparr>ewNow := now\<rparr>) \<noteq> Inr (frID fr))"
proof -
  define req where "req pub = \<lparr>erToken = efToken flags, erPublicKey = std_EncodeToString pub, erName = acName cfg,
    erOS = prGOOS p, erArch = prGOARCH p\<rparr>" for pub
  have "w1 \<noteq> w" using enrolled by metis
  from enroll_reached [OF assms(1) this assms(2,4)] obtain pub k roots' res where r: "ktGenerate kt = Some (pub, k)"
    "buildHTTPClient (ktValidPEM kt) (prOS p) fs (acHubCA cfg) = Some roots'"
    "hub_network origin c fr text roots' (origin @ ''/api/enroll'') (marshal (req pub)) w = (res, w1)" "efToken flags \<noteq> []" "origin \<noteq> []"
    unfolding req_def by blast
  obtain body where res: "res = Response 201 body" using hub_network_refused [OF r(3)] enrolled by metis
  from post_enroll [OF r(3) [unfolded res] json(1), of pub] obtain e where
    e: "Enroll (hcSha c) \<lparr>eiToken = efToken flags, eiPublicKey = pub, eiName = acName cfg, eiOS = prGOOS p, eiArch = prGOARCH p\<rparr>
      (frID fr) (enroll_of None w) = (Inr (frID fr), e)" "w1 = put_enroll e w" "body = text (BEnrolled (frID fr))"
    by (auto simp: req_def)
  have "writePrivateKey (ktEncode kt) (prOS p) (acCredFile cfg) k fs' = (False, fs')" for fs'
    using key by (auto simp: writePrivateKey_def os_WriteFile_def split: option.splits)
  moreover have "os_WriteFile (prOS p) (acIDFile cfg) (frID fr) fs = (True, fs(acIDFile cfg \<mapsto> frID fr))"
    by (simp add: os_WriteFile_def ID(2))
  ultimately have run: "code = 1" "fs1 = fs(acIDFile cfg \<mapsto> frID fr)"
    using assms(1,2,4) r res e(3) json(2) ID(1) by (auto simp: cmdEnroll_def req_def Let_def)
  note files = assms(3) [unfolded separate_files_def]
  have o: "acHubURL cfg \<noteq> []" "loadPrivateKey (ktDecode kt) (prOS p) fs (acCredFile cfg) = Some oldKey" "roots' = roots"
    using old assms(2) r(2) by (auto simp: connect_credentials_def split: if_splits option.splits)
  have cred: "loadPrivateKey (ktDecode kt) (prOS p) fs1 (acCredFile cfg) = Some oldKey"
    using o(2) files run(2) by (auto simp: loadPrivateKey_def os_ReadFile_def)
  have "connect_credentials p kt (efConfig flags) fs1 = Some (frID fr, oldKey, roots)"
    "cmdStatus p (efConfig flags) fs1 = Some \<lparr>srEnrolled = True, srMachineID = Some (frID fr), srName = acName cfg, srHub = acHubURL cfg\<rparr>"
    using files run(2) new(1,3) o(3)
    by (intro connect_after_write [OF assms(2) o(1) assms(3) _ _ _ _ _ cred r(2) [unfolded o(3)]]; simp)+
  moreover have "endpoint_auth verify (authorization sign (frID fr) oldKey ts) ((enroll_of None w1)\<lparr>ewNow := now\<rparr>) \<noteq> Inr (frID fr)"
    if "in_int64 ts" for ts now
  proof
    assume "endpoint_auth verify (authorization sign (frID fr) oldKey ts) ((enroll_of None w1)\<lparr>ewNow := now\<rparr>) = Inr (frID fr)"
    then obtain ts' sig pub' where v: "ParseAgentToken (BuildAgentToken sign (frID fr) oldKey ts) = Inr (frID fr, ts', sig)"
      "m_get (hwCreds w1) (frID fr) = Some pub'" "VerifyAgentToken verify pub' (frID fr) ts' sig now agentTokenSkew = Inr ()"
      using Authenticate_success by (fastforce simp: endpoint_auth_def extractBearer_authorization enroll_of_def)
    have "ts' = ts" "sig = sign oldKey (signingInput (frID fr) ts)"
      using v(1) ParseAgentToken_Build [OF new(1,2) that, of sign oldKey] by auto
    moreover have "pub' = pub" using v(2) e(1,2)
      by (auto simp: enroll_defs put_enroll_def Let_def split: if_splits option.splits sum.splits)
    ultimately show False using v(3) foreign [OF r(1)] by (auto simp: VerifyAgentToken_def Let_def split: if_splits)
  qed
  ultimately show ?thesis using run(1) by blast
qed

text \<open>Witness for \<open>failed_enroll_mixes_credentials\<close>: the key file is read-only.\<close>
theorem failed_enroll_mixes_credentials_witness:
  "let os = demoOS\<lparr>osWrite := (\<lambda>path. if path = ''/home/u/.constellate/cred'' then NotOpened else Written)\<rparr> in
   \<exists>fs1. fst (demoEnrollRun os demoFiles) = 1 \<and>
     connect_credentials (demoProcess\<lparr>prOS := os\<rparr>) demoKeys [] fs1 = Some (''m9'', 9, None)"
proof -
  let ?os = "demoOS\<lparr>osWrite := (\<lambda>path. if path = ''/home/u/.constellate/cred'' then NotOpened else Written)\<rparr>"
  let ?fr = "\<lparr>frID = ''m9'', frToken = [], frName = []\<rparr> :: fresh"
  let ?flags = "\<lparr>efConfig = [], efHub = [], efToken = ''01''\<rparr>"
  obtain code fs1 w1 where run: "demoEnrollRun ?os demoFiles = (code, fs1, w1)" "m_get (hwCreds w1) (frID ?fr) \<noteq> None"
    using demo_run [of ?os demoFiles] by (auto simp: demoOS_def)
  have 2: "connect_credentials (demoProcess\<lparr>prOS := ?os\<rparr>) demoKeys (efConfig ?flags) demoFiles = Some (''m1'', 9, None)"
    by (simp add: connect_credentials_def demo_load demo_config readMachineID_def loadPrivateKey_def buildHTTPClient_def os_ReadFile_def
        demo_trim demo_process demoFiles_def demoOS_def demoKeys_def Let_def)
  have "code = 1 \<and> connect_credentials (demoProcess\<lparr>prOS := ?os\<rparr>) demoKeys (efConfig ?flags) fs1 = Some (frID ?fr, 9, None) \<and>
    cmdStatus (demoProcess\<lparr>prOS := ?os\<rparr>) (efConfig ?flags) fs1 = Some \<lparr>srEnrolled = True, srMachineID = Some (frID ?fr),
      srName = acName demoAgentConfig, srHub = acHubURL demoAgentConfig\<rparr> \<and>
    (\<forall>ts now. in_int64 ts \<longrightarrow> endpoint_auth (\<lambda>pub m s. s = [hd pub]) (authorization (\<lambda>k m. [k]) (frID ?fr) 9 ts)
      ((enroll_of None w1)\<lparr>ewNow := now\<rparr>) \<noteq> Inr (frID ?fr))"
  proof (rule failed_enroll_mixes_credentials [OF run(1) [unfolded demoEnrollRun_def]])
    show "connect_credentials (demoProcess\<lparr>prOS := ?os\<rparr>) demoKeys (efConfig ?flags) demoFiles = Some (''m1'', 9, None)" by (rule 2)
    show "m_get (hwCreds w1) (frID ?fr) \<noteq> None" by (rule run(2))
  qed (simp_all add: demo_trim demoEnrollWorld_def m_get_def demo_load demo_config demo_json demo_files demoEnrollHub_def demoBody_def
      demoOS_def demoKeys_def)
  then show ?thesis using run(1) by (auto simp: Let_def)
qed

end
