(* ===== verification/Hub_Program.thy ===== *)
theory Hub_Program
  imports Http_Api Platform_Config
begin

text \<open>
  The hub's program, \<^verbatim>\<open>cmd/hub/main.go\<close>: its commands over the shared stores, and what \<open>serve\<close> makes of its
  configuration before it listens.

  \<^item> Loading the configuration, opening the database, migrating it and initialising the passkey library are inputs: whether they
    succeed. The URL parser is a parameter.
  \<^item> The stores are those of \<open>hub_world\<close>; a command reads and changes the same database as a running hub.
  \<^item> Durations are nanoseconds. \<open>time.ParseDuration\<close> is modelled with exact fractions, where Go rounds in floating
    point, and \<open>Seconds\<close> as the division it approximates.
\<close>

subsection \<open>Durations (package time)\<close>

text \<open>The digits at the front, and what follows them.\<close>

definition leading_digits :: "string \<Rightarrow> nat list \<times> string" where
  "leading_digits s = (let d = takeWhile (\<lambda>x. char_digit x \<noteq> None) s in (map (the \<circ> char_digit) d, drop (length d) s))"

definition digits_value :: "nat list \<Rightarrow> nat" where
  "digits_value ds = foldl (\<lambda>x d. x * 10 + d) 0 ds"

definition time_unit :: "string \<Rightarrow> nat option" where
  "time_unit u = map_of [(''ns'', 1), (''us'', 1000), ([CHR 0xC2, CHR 0xB5, CHR ''s''], 1000),
     ([CHR 0xCE, CHR 0xBC, CHR ''s''], 1000), (''ms'', 1000000), (''s'', 1000000000), (''m'', 60 * 1000000000),
     (''h'', 3600 * 1000000000)] u"

lemma leading_digits_length: "length (snd (leading_digits s)) \<le> length s"
  by (simp add: leading_digits_def Let_def)

text \<open>One term of a duration: a number with an optional fraction, and a unit. The value, and what follows.\<close>

definition fraction_digits :: "string \<Rightarrow> nat list \<times> string" where
  "fraction_digits s = (case s of [] \<Rightarrow> ([], s) | x # xs \<Rightarrow> if x = CHR ''.'' then leading_digits xs else ([], s))"

definition duration_term :: "string \<Rightarrow> (nat \<times> string) option" where
  "duration_term s =
     (let vs = fst (leading_digits s); v = digits_value vs; fr = fraction_digits (snd (leading_digits s));
          fs = fst fr; u = takeWhile (\<lambda>x. x \<noteq> CHR ''.'' \<and> char_digit x = None) (snd fr)
      in if vs = [] \<and> fs = [] \<or> v > 2 ^ 63 then None
         else if u = [] then None
         else case time_unit u of None \<Rightarrow> None
           | Some unit \<Rightarrow>
               (let total = v * unit + digits_value fs * unit div 10 ^ length fs
                in if total > 2 ^ 63 then None else Some (total, drop (length u) (snd fr))))"

lemma duration_term_shorter:
  assumes "duration_term s = Some (t, rest)"
  shows "length rest < length s"
proof -
  have "length (snd (fraction_digits s1)) \<le> length s1" for s1
    using leading_digits_length by (auto simp: fraction_digits_def le_Suc_eq split: list.split)
  then have "length (snd (fraction_digits (snd (leading_digits s)))) \<le> length s"
    using leading_digits_length [of s] order_trans by blast
  moreover let ?s2 = "snd (fraction_digits (snd (leading_digits s)))"
  let ?u = "takeWhile (\<lambda>x. x \<noteq> CHR ''.'' \<and> char_digit x = None) ?s2"
  have "?u \<noteq> []" "rest = drop (length ?u) ?s2"
    using assms by (auto simp: duration_term_def Let_def split: if_splits option.splits)
  moreover have "length ?u \<le> length ?s2" by (rule length_takeWhile_le)
  ultimately show ?thesis by (cases ?u) auto
qed

function duration_terms :: "nat \<Rightarrow> string \<Rightarrow> nat option" where
  "duration_terms d s =
     (if s = [] then Some d
      else case duration_term s of None \<Rightarrow> None
        | Some (t, rest) \<Rightarrow> if d + t > 2 ^ 63 then None else duration_terms (d + t) rest)"
  by pat_completeness auto
termination
  by (relation "measure (\<lambda>(d, s). length s)") (auto simp: duration_term_shorter)

declare duration_terms.simps [simp del]

definition ParseDuration :: "string \<Rightarrow> int option" where
  "ParseDuration s0 =
     (let neg = (s0 \<noteq> [] \<and> hd s0 = CHR ''-''); s = (if s0 \<noteq> [] \<and> hd s0 \<in> {CHR ''-'', CHR ''+''} then tl s0 else s0) in
      if s = ''0'' then Some 0
      else if s = [] then None
      else case duration_terms 0 s of None \<Rightarrow> None
        | Some d \<Rightarrow> if neg then Some (- int d) else if d > 2 ^ 63 - 1 then None else Some (int d))"

definition duration_seconds :: "int \<Rightarrow> int" where
  "duration_seconds d = (if d < 0 then - ((- d) div second) else d div second)"

subsection \<open>Commands\<close>

datatype hubCommand =
    HcVersion | HcUsage | HcMigrate "string list" | HcServe "string list" | HcEnrollToken "string list" | HcMachines "string list"
  | HcRevoke "string list" | HcOperator "string list" | HcUnknown string

definition hub_dispatch :: "string list \<Rightarrow> hubCommand" where
  "hub_dispatch args =
     (if args \<noteq> [] \<and> hd args \<in> {''-v'', ''--v'', ''-version'', ''--version''} then HcVersion
      else if args \<noteq> [] \<and> hd args \<in> {''-h'', ''--h'', ''-help'', ''--help''} then HcUsage
      else let named = (args \<noteq> [] \<and> hd args \<noteq> [] \<and> hd (hd args) \<noteq> CHR ''-'');
               sub = (if named then hd args else ''serve''); rest = (if named then tl args else args)
        in if sub = ''version'' then HcVersion
           else if sub = ''migrate'' then HcMigrate rest
           else if sub = ''serve'' then HcServe rest
           else if sub = ''enroll-token'' then HcEnrollToken rest
           else if sub = ''machines'' then HcMachines rest
           else if sub = ''revoke'' then HcRevoke rest
           else if sub = ''operator'' then HcOperator rest
           else HcUnknown sub)"

text \<open>What the environment gives a command: the configuration, and whether the database opens and migrates.\<close>

record hubStart =
  htConfig :: "configError + HubConfig"
  htOpens :: bool
  htMigrates :: bool

definition database_ready :: "hubStart \<Rightarrow> bool" where
  "database_ready e \<longleftrightarrow> htOpens e \<and> htMigrates e"

definition cmdMigrate :: "hubStart \<Rightarrow> nat" where
  "cmdMigrate e = (case htConfig e of Inl err \<Rightarrow> 1 | Inr cfg \<Rightarrow> if database_ready e then 0 else 1)"

text \<open>\<open>raw\<close>: the random bytes of the token. The output is the token.\<close>

definition cmdEnrollToken :: "(string \<Rightarrow> string) \<Rightarrow> hubStart \<Rightarrow> string \<Rightarrow> byte list \<Rightarrow> 'g hub_world \<Rightarrow> (nat \<times> string option) \<times> 'g hub_world" where
  "cmdEnrollToken sha e ttlStr raw w = (case htConfig e of
     Inl err \<Rightarrow> ((1, None), w)
   | Inr cfg \<Rightarrow> (case ParseDuration (if ttlStr \<noteq> [] then ttlStr else hbEnrollTokenTTL cfg) of
       None \<Rightarrow> ((1, None), w)
     | Some ttl \<Rightarrow>
         if \<not> database_ready e then ((1, None), w)
         else (case MintToken sha (duration_seconds ttl) raw (enroll_of None w) of
           (Inl err, ew) \<Rightarrow> ((1, None), put_enroll ew w)
         | (Inr token, ew) \<Rightarrow> ((0, Some token), put_enroll ew w))))"

text \<open>The columns printed for a machine: ID, name, system, enrolment, last sighting, revoked.\<close>

definition cmdMachines :: "hubStart \<Rightarrow> 'g hub_world \<Rightarrow> nat \<times> (string \<times> string \<times> string \<times> int \<times> int \<times> bool) list" where
  "cmdMachines e w = (case htConfig e of
     Inl err \<Rightarrow> (1, [])
   | Inr cfg \<Rightarrow> if \<not> database_ready e then (1, [])
       else (case ListMachines (enroll_of None w) of Inl err \<Rightarrow> (1, [])
         | Inr ms \<Rightarrow> (0, map (\<lambda>m. (mId m, mName m, mOS m, mEnrolledAt m, mLastSeenAt m, Revoked m)) ms)))"

definition cmdRevoke :: "hubStart \<Rightarrow> string list \<Rightarrow> 'g hub_world \<Rightarrow> nat \<times> 'g hub_world" where
  "cmdRevoke e remaining w = (case remaining of
     [] \<Rightarrow> (1, w)
   | machineID # _ \<Rightarrow> (case htConfig e of
       Inl err \<Rightarrow> (1, w)
     | Inr cfg \<Rightarrow> if \<not> database_ready e then (1, w)
         else (case Revoke machineID (enroll_of None w) of
           (Inl err, ew) \<Rightarrow> (1, put_enroll ew w)
         | (Inr _, ew) \<Rightarrow> (0, put_enroll ew w))))"

text \<open>\<open>generated\<close>: the TOTP secret and its URI; \<open>codes\<close>: the recovery codes. The output is all three.\<close>

definition cmdOperatorAdd :: "(string \<Rightarrow> string) \<Rightarrow> hubStart \<Rightarrow> (string \<times> string) result \<Rightarrow> string list \<Rightarrow> 'g hub_world \<Rightarrow>
    (nat \<times> (string \<times> string \<times> string list) option) \<times> 'g hub_world" where
  "cmdOperatorAdd sha e generated codes w = (case htConfig e of
     Inl err \<Rightarrow> ((1, None), w)
   | Inr cfg \<Rightarrow>
       if \<not> database_ready e then ((1, None), w)
       else (case ParseDuration (hbSessionTTL cfg) of None \<Rightarrow> ((1, None), w)
       | Some sessionTTL \<Rightarrow>
           if sessionTTL \<le> 0 then ((1, None), w)
           else (case BootstrapTOTP sha generated codes (auth_of None w) of
             (Inl err, a) \<Rightarrow> ((1, None), put_auth a w)
           | (Inr out, a) \<Rightarrow> ((0, Some out), put_auth a w))))"

definition operator_dispatch :: "string list \<Rightarrow> string list option" where
  "operator_dispatch args =
     (let named = (args \<noteq> [] \<and> hd args \<noteq> [] \<and> hd (hd args) \<noteq> CHR ''-''); sub = (if named then hd args else ''add'')
      in if sub = ''add'' then Some (if named then tl args else args) else None)"

subsection \<open>Serving\<close>

text \<open>\<open>hostname\<close>: the host name in a URL, none if it does not parse.\<close>

definition resolveWebAuthnConfig :: "(string \<Rightarrow> string option) \<Rightarrow> HubConfig \<Rightarrow> string \<times> string list" where
  "resolveWebAuthnConfig hostname cfg =
     (let fallback = (''localhost'', [''http://localhost:8080'', ''http://localhost:5173'']) in
      if wcRPID (hbWebAuthn cfg) \<noteq> [] then (wcRPID (hbWebAuthn cfg), wcOrigins (hbWebAuthn cfg))
      else if hbPublicURL cfg \<noteq> [] then (case hostname (hbPublicURL cfg) of
        Some h \<Rightarrow> if h \<noteq> [] then (h, [hbPublicURL cfg]) else fallback
      | None \<Rightarrow> fallback)
      else fallback)"

text \<open>What the server runs with: life times in seconds, the cookies' Secure flag, the passkey provider's relying party if
  it could be made, the address, and whether it speaks TLS.\<close>

record hubSetup =
  usEnrollTTL :: int
  usSessionTTL :: int
  usSecure :: bool
  usPasskeys :: "(string \<times> string list) option"
  usAddr :: string
  usTLS :: bool

definition serve_setup :: "(string \<Rightarrow> string option) \<Rightarrow> (string \<Rightarrow> string list \<Rightarrow> bool) \<Rightarrow> hubStart \<Rightarrow> hubSetup option" where
  "serve_setup hostname passkeyInit e = (case htConfig e of
     Inl err \<Rightarrow> None
   | Inr cfg \<Rightarrow>
       if \<not> database_ready e then None
       else (case ParseDuration (hbEnrollTokenTTL cfg) of None \<Rightarrow> None
       | Some enrollTTL \<Rightarrow> (case ParseDuration (hbSessionTTL cfg) of None \<Rightarrow> None
         | Some sessionTTL \<Rightarrow>
             if sessionTTL \<le> 0 then None
             else let (rpID, origins) = resolveWebAuthnConfig hostname cfg in
               Some \<lparr>usEnrollTTL = duration_seconds enrollTTL, usSessionTTL = duration_seconds sessionTTL,
                 usSecure = prefix ''https'' (hbPublicURL cfg),
                 usPasskeys = (if passkeyInit rpID origins then Some (rpID, origins) else None),
                 usAddr = hbAddr cfg, usTLS = (tcCert (hbTLS cfg) \<noteq> [] \<and> tcKey (hbTLS cfg) \<noteq> [])\<rparr>)))"

text \<open>The server's configuration out of the setup; \<open>hc\<close> has the parameters that do not depend on it, and the passkey provider.\<close>

definition serve_config :: "hubSetup \<Rightarrow> ('g, 'f) hub_config \<Rightarrow> ('g, 'f) hub_config" where
  "serve_config us hc = hc\<lparr>hcAuth := True, hcTtl := usSessionTTL us, hcSecure := usSecure us,
     hcWebauthn := (if usPasskeys us = None then None else hcWebauthn hc)\<rparr>"

subsection \<open>Facts\<close>

text \<open>The defaults of the configuration are a quarter of an hour and a day.\<close>

lemma default_durations: "ParseDuration (hbEnrollTokenTTL defaultHub) = Some (900 * second)" "ParseDuration (hbSessionTTL defaultHub) = Some (86400 * second)"
  by (simp_all add: ParseDuration_def defaultHub_def duration_terms.simps duration_term_def fraction_digits_def leading_digits_def digits_value_def
      time_unit_def char_digit_def second_def Let_def)


text \<open>
  A session life time below a second locks the operator out. \<open>serve\<close> refuses a life time that is not positive, because
  it would mint sessions that have already expired; but sessions live for whole seconds, so a positive life time
  under a second passes the check, the hub starts, every right code is answered with a session, and that
  session is invalid from the moment it was made.
\<close>
theorem subsecond_session_locks_out:
  assumes "htConfig e = Inr cfg" "database_ready e" "ParseDuration (hbEnrollTokenTTL cfg) \<noteq> None"
    and "ParseDuration (hbSessionTTL cfg) = Some d" "0 < d" "d < second"
  shows "\<exists>us. serve_setup hostname passkeyInit e = Some us \<and>
    (\<forall>gen code tok w sid w1 t. LoginTOTP gen (usSessionTTL us) code tok w = (Inr sid, w1) \<and> awNow w \<le> t \<longrightarrow>
      \<not> fst (fst (ValidateSession (usSessionTTL us) sid (w1\<lparr>awNow := t\<rparr>))))"
proof -
  have "duration_seconds d = 0" using assms(5,6) by (simp add: duration_seconds_def)
  then obtain us where us: "serve_setup hostname passkeyInit e = Some us" "usSessionTTL us = 0"
    using assms by (cases "resolveWebAuthnConfig hostname cfg") (auto simp: serve_setup_def)
  have "\<not> fst (fst (ValidateSession 0 sid (w1\<lparr>awNow := t\<rparr>)))"
    if "LoginTOTP gen 0 code tok w = (Inr sid, w1)" "awNow w \<le> t" for gen code tok w sid w1 t
    using that by (auto simp: LoginTOTP_def LoginTOTP_commit_def newSession_def os_Create_def aw_login_event_def
        ValidateSession_def os_Validate_def Let_def split: sum.splits prod.splits option.splits if_splits)
  then show ?thesis using us by auto
qed

text \<open>Witness for \<open>subsecond_session_locks_out\<close>: half a second.\<close>
theorem subsecond_session_locks_out_witness:
  "\<exists>us. serve_setup (\<lambda>_. None) (\<lambda>_ _. True) \<lparr>htConfig = Inr (defaultHub\<lparr>hbSessionTTL := ''500ms''\<rparr>), htOpens = True, htMigrates = True\<rparr> = Some us \<and>
    fst (LoginTOTP (acGen demoConfig) (usSessionTTL us) ''xx'' ''tok'' demoAuth) = Inr ''tok'' \<and>
    \<not> fst (fst (ValidateSession (usSessionTTL us) ''tok'' (snd (LoginTOTP (acGen demoConfig) (usSessionTTL us) ''xx'' ''tok'' demoAuth))))"
proof -
  have d: "ParseDuration (hbSessionTTL (defaultHub\<lparr>hbSessionTTL := ''500ms''\<rparr>)) = Some 500000000"
    by (simp add: ParseDuration_def duration_terms.simps duration_term_def fraction_digits_def leading_digits_def digits_value_def
      time_unit_def char_digit_def Let_def)
  let ?e = "\<lparr>htConfig = Inr (defaultHub\<lparr>hbSessionTTL := ''500ms''\<rparr>), htOpens = True, htMigrates = True\<rparr>"
  have "\<exists>us. serve_setup (\<lambda>_. None) (\<lambda>_ _. True) ?e = Some us \<and>
    (\<forall>gen code tok w sid w1 t. LoginTOTP gen (usSessionTTL us) code tok w = (Inr sid, w1) \<and> awNow w \<le> t \<longrightarrow>
      \<not> fst (fst (ValidateSession (usSessionTTL us) sid (w1\<lparr>awNow := t\<rparr>))))"
    by (rule subsecond_session_locks_out [OF _ _ _ d]) (use default_durations in \<open>simp_all add: database_ready_def second_def\<close>)
  then obtain us where us: "serve_setup (\<lambda>_. None) (\<lambda>_ _. True) ?e = Some us"
    "\<And>gen code tok w sid w1 t. LoginTOTP gen (usSessionTTL us) code tok w = (Inr sid, w1) \<Longrightarrow> awNow w \<le> t \<Longrightarrow>
      \<not> fst (fst (ValidateSession (usSessionTTL us) sid (w1\<lparr>awNow := t\<rparr>)))"
    by blast
  have "\<exists>step. LoginTOTP_check (acGen demoConfig) ''xx'' demoAuth = Inr step" by (rule exI) code_simp
  then obtain w1 where w1: "LoginTOTP (acGen demoConfig) (usSessionTTL us) ''xx'' ''tok'' demoAuth = (Inr ''tok'', w1)" "awNow w1 = awNow demoAuth"
    by (auto simp: LoginTOTP_def LoginTOTP_commit_def newSession_def aw_login_event_def)
  from us(2) [OF w1(1) order_refl] w1(2) [symmetric] have "\<not> fst (fst (ValidateSession (usSessionTTL us) ''tok'' w1))" by simp
  then show ?thesis using us(1) w1(1) by (intro exI [of _ us]) simp
qed

end
