(* ===== verification/Client_Connection.thy ===== *)
theory Client_Connection
  imports Hub_Client
begin

text \<open>
  The life of one connection of the agent to the hub: \<open>connectOnce\<close> and \<open>serve\<close> of
  \<^verbatim>\<open>internal/agent/adapter/primary/hubclient/client.go\<close>, with the three goroutines \<open>serve\<close> starts, beside the
  snapshot producer and the exit notifier, which use the client at any time.

  \<^item> Whether dialling, the multiplexer and the writes succeed is up to the environment. \<open>n\<close> is the number of the
    connection, \<open>hello\<close> its first frame.
  \<^item> The channel of errors has room for three; a goroutine that finds it full waits.
\<close>

subsection \<open>Relaying a snapshot\<close>

text \<open>\<open>SendRawSnapshot\<close>: a snapshot encoded by the session host, stamped with the machine; \<open>out\<close> logs what was written.\<close>

definition SendRawSnapshot :: "bool \<Rightarrow> bool \<Rightarrow> string \<Rightarrow> transportSnapshot \<Rightarrow> 'f client \<times> (nat \<times> transportSnapshot) list \<Rightarrow>
    bool \<times> 'f client \<times> (nat \<times> transportSnapshot) list" where
  "SendRawSnapshot openOk writeOk machineID snap st =
     (let (c, out) = st;
          write = (\<lambda>e c1. if writeOk then (True, c1, out @ [(e, snap\<lparr>snMachineID := machineID\<rparr>)]) else (False, clearSnapStream c1, out)) in
      case clMux c of None \<Rightarrow> (True, c, out)
      | Some n \<Rightarrow> (case clSnap c of Some e \<Rightarrow> write e c
          | None \<Rightarrow> if \<not> openOk then (False, c, out)
              else (case snap_store n c of (None, c1) \<Rightarrow> (True, c1, out) | (Some e, c1) \<Rightarrow> write e c1)))"

text \<open>It treats the connection and the stream as \<open>SendSnapshot\<close> does, and writes when that writes.\<close>

lemma SendRawSnapshot_as_SendSnapshot:
  assumes "SendSnapshot openOk writeOk scr c = (ok, c1)"
  shows "\<exists>out'. SendRawSnapshot openOk writeOk machineID snap (c, out) = (ok, c1\<lparr>clSnaps := clSnaps c\<rparr>, out @ out') \<and>
    map fst (clSnaps c1) = map fst (clSnaps c) @ map fst out' \<and> set (map snd out') \<subseteq> {snap\<lparr>snMachineID := machineID\<rparr>}"
  using assms
  by (auto simp: SendRawSnapshot_def SendSnapshot_def snap_write_def snap_store_def clearSnapStream_def split: option.splits if_splits)

subsection \<open>The goroutines of a connection\<close>

record 'f connLife =
  coClient :: "'f client"
  coErrs :: nat
  coClosed :: bool

datatype co_pc =
    CoDial | CoCtrl | CoHello | CoUp | CoServe | CoLeave | CoDown | CoEnd bool
  | HbLoop | RdLoop | AcLoop | Gone
  | Sender | SdStore nat | SdWrite nat | Notifier

inductive co_step :: "nat \<Rightarrow> 'f agentFrame \<Rightarrow> 'f connLife \<times> co_pc \<Rightarrow> 'f connLife \<times> co_pc \<times> co_pc list \<Rightarrow> bool"
  for n :: nat and hello :: "'f agentFrame" where
  co_fail: "co_step n hello (s, CoDial) (s, CoEnd False, [])"
| co_dialed: "co_step n hello (s, CoDial) (s, CoCtrl, [])"
| co_hello_failed: "co_step n hello (s, CoCtrl) (s, CoEnd False, [])"
| co_hello: "co_step n hello (s, CoCtrl) (s\<lparr>coClient := (coClient s)\<lparr>clSent := clSent (coClient s) @ [(n, hello)]\<rparr>\<rparr>, CoHello, [])"
| co_up: "co_step n hello (s, CoHello) (s\<lparr>coClient := conn_up n (coClient s)\<rparr>, CoUp, [])"
| co_serve: "co_step n hello (s, CoUp) (s\<lparr>coClient := setCtrlEnc n (coClient s)\<rparr>, CoServe, [HbLoop, RdLoop, AcLoop])"
| co_first: "0 < coErrs s \<Longrightarrow> co_step n hello (s, CoServe) (s\<lparr>coErrs := coErrs s - 1, coClosed := True\<rparr>, CoLeave, [])"
| co_leave: "co_step n hello (s, CoLeave) (s\<lparr>coClient := clearCtrlEnc (coClient s)\<rparr>, CoDown, [])"
| co_down: "co_step n hello (s, CoDown) (s\<lparr>coClient := conn_down (coClient s)\<rparr>, CoEnd True, [])"
| hb_tick: "co_step n hello (s, HbLoop) (s\<lparr>coClient := (coClient s)\<lparr>clSent := clSent (coClient s) @ [(n, heartbeat_frame now activities metrics)]\<rparr>\<rparr>, HbLoop, [])"
| hb_end: "coErrs s < 3 \<Longrightarrow> co_step n hello (s, HbLoop) (s\<lparr>coErrs := Suc (coErrs s)\<rparr>, Gone, [])"
| rd_frame: "handleControlFrame errText env frame st = Some (replies, st') \<Longrightarrow>
    co_step n hello (s, RdLoop) (s\<lparr>coClient := (coClient s)\<lparr>clSent := clSent (coClient s) @ map (Pair n) replies\<rparr>\<rparr>, RdLoop, [])"
| rd_end: "coErrs s < 3 \<Longrightarrow> co_step n hello (s, RdLoop) (s\<lparr>coErrs := Suc (coErrs s)\<rparr>, Gone, [])"
| ac_stream: "co_step n hello (s, AcLoop) (s, AcLoop, [])"
| ac_end: "coErrs s < 3 \<Longrightarrow> co_step n hello (s, AcLoop) (s\<lparr>coErrs := Suc (coErrs s)\<rparr>, Gone, [])"
| sd_idle: "clMux (coClient s) = None \<Longrightarrow> co_step n hello (s, Sender) (s, Sender, [])"
| sd_open: "clMux (coClient s) = Some k \<Longrightarrow> clSnap (coClient s) = None \<Longrightarrow> co_step n hello (s, Sender) (s, SdStore k, [])"
| sd_open_failed: "co_step n hello (s, SdStore k) (s, Sender, [])"
| sd_store: "snap_store k (coClient s) = (Some e, c) \<Longrightarrow> co_step n hello (s, SdStore k) (s\<lparr>coClient := c\<rparr>, SdWrite e, [])"
| sd_replaced: "snap_store k (coClient s) = (None, c) \<Longrightarrow> co_step n hello (s, SdStore k) (s\<lparr>coClient := c\<rparr>, Sender, [])"
| sd_have: "clMux (coClient s) \<noteq> None \<Longrightarrow> clSnap (coClient s) = Some e \<Longrightarrow> co_step n hello (s, Sender) (s, SdWrite e, [])"
| sd_write: "co_step n hello (s, SdWrite e) (s\<lparr>coClient := snd (snap_write ok e scr (coClient s))\<rparr>, Sender, [])"
| nt_exit: "co_step n hello (s, Notifier) (s\<lparr>coClient := client_SessionExited ok sessionID exitCode (coClient s)\<rparr>, Notifier, [])"

inductive_cases co_step_elim: "co_step n hello (s, pc) (s', pc', new)"

definition quiet_client :: "'f client \<Rightarrow> bool" where
  "quiet_client c \<longleftrightarrow> clCtrl c = None \<and> clMux c = None \<and> clSnap c = None"

subsection \<open>What holds at every step\<close>

fun is_owner :: "co_pc \<Rightarrow> bool" where
  "is_owner CoDial = True" | "is_owner CoCtrl = True" | "is_owner CoHello = True" | "is_owner CoUp = True" | "is_owner CoServe = True"
| "is_owner CoLeave = True" | "is_owner CoDown = True" | "is_owner (CoEnd b) = True" | "is_owner _ = False"

fun is_worker :: "co_pc \<Rightarrow> bool" where
  "is_worker HbLoop = True" | "is_worker RdLoop = True" | "is_worker AcLoop = True" | "is_worker _ = False"

text \<open>What the owner's place says of the client: its encoder, its multiplexer, whether the first frame is out, and
  how many errors were taken off the channel.\<close>

fun owner_holds :: "nat \<Rightarrow> 'f client \<Rightarrow> co_pc \<Rightarrow> bool" where
  "owner_holds n c CoUp \<longleftrightarrow> clCtrl c = None"
| "owner_holds n c CoServe \<longleftrightarrow> True"
| "owner_holds n c CoLeave \<longleftrightarrow> True"
| "owner_holds n c CoDown \<longleftrightarrow> clCtrl c = None"
| "owner_holds n c pc \<longleftrightarrow> clCtrl c = None \<and> clMux c = None"

fun greeted :: "co_pc \<Rightarrow> bool" where
  "greeted CoDial = False" | "greeted CoCtrl = False" | "greeted (CoEnd b) = b" | "greeted _ = True"

fun before_serve :: "co_pc \<Rightarrow> bool" where
  "before_serve CoDial = True" | "before_serve CoCtrl = True" | "before_serve CoHello = True" | "before_serve CoUp = True"
| "before_serve (CoEnd b) = (\<not> b)" | "before_serve _ = False"

definition frames_on :: "nat \<Rightarrow> 'f client \<Rightarrow> 'f agentFrame list" where
  "frames_on n c = map snd (filter (\<lambda>x. fst x = n) (clSent c))"

definition co_inv :: "nat \<Rightarrow> 'f agentFrame \<Rightarrow> 'f connLife \<times> co_pc list \<Rightarrow> bool" where
  "co_inv n hello c \<longleftrightarrow> (case c of (s, pcs) \<Rightarrow> \<exists>pc. filter is_owner pcs = [pc] \<and> owner_holds n (coClient s) pc \<and>
     (clMux (coClient s) = None \<longrightarrow> clSnap (coClient s) = None) \<and>
     length (filter is_worker pcs) + coErrs s \<le> (if before_serve pc then 0 else 3) \<and>
     (if greeted pc then frames_on n (coClient s) \<noteq> [] \<and> hd (frames_on n (coClient s)) = hello
      else frames_on n (coClient s) = []) \<and>
     (clCtrl (coClient s) = None \<or> clCtrl (coClient s) = Some n))"

lemmas connection_defs = conn_up_def conn_down_def setCtrlEnc_def clearCtrlEnc_def clearSnapStream_def snap_store_def snap_write_def
  client_SessionExited_def client_sendControl_def frames_on_def

lemma workers_greeted: "\<not> before_serve pc \<Longrightarrow> is_owner pc \<Longrightarrow> greeted pc"
  by (cases pc) auto

lemma filter_Cons_single: "filter P (xs @ x # ys) = [z] \<Longrightarrow> P x \<Longrightarrow> x = z \<and> filter P (xs @ ys) = []"
  by (auto simp: filter_empty_conv append_eq_Cons_conv)

lemma owner_holds_other [simp]:
  "owner_holds n (c\<lparr>clSnap := x\<rparr>) pc = owner_holds n c pc" "owner_holds n (c\<lparr>clSent := y\<rparr>) pc = owner_holds n c pc"
  "owner_holds n (c\<lparr>clSnaps := z\<rparr>) pc = owner_holds n c pc"
  by (cases pc; simp)+

lemma co_invI:
  assumes "filter is_owner pcs = [pc]" "owner_holds n (coClient s) pc" "clMux (coClient s) = None \<longrightarrow> clSnap (coClient s) = None"
    and "length (filter is_worker pcs) + coErrs s \<le> (if before_serve pc then 0 else 3)"
    and "greeted pc \<longrightarrow> frames_on n (coClient s) \<noteq> [] \<and> hd (frames_on n (coClient s)) = hello"
    and "\<not> greeted pc \<longrightarrow> frames_on n (coClient s) = []" "clCtrl (coClient s) \<in> {None, Some n}"
  shows "co_inv n hello (s, pcs)"
  using assms by (auto simp: co_inv_def)

text \<open>A step of the goroutine that runs \<open>connectOnce\<close>, of one that \<open>serve\<close> started, and of the others.\<close>

lemma co_inv_owner:
  assumes "co_step n hello (s, t) (s', t', new)" "is_owner t"
    and "filter is_owner (ts1 @ ts2) = []" "owner_holds n (coClient s) t" "clMux (coClient s) = None \<longrightarrow> clSnap (coClient s) = None"
    and "length (filter is_worker (ts1 @ ts2)) + coErrs s \<le> (if before_serve t then 0 else 3)"
    and "greeted t \<longrightarrow> frames_on n (coClient s) \<noteq> [] \<and> hd (frames_on n (coClient s)) = hello"
    and "\<not> greeted t \<longrightarrow> frames_on n (coClient s) = []" "clCtrl (coClient s) \<in> {None, Some n}"
  shows "co_inv n hello (s', ts1 @ t' # ts2 @ new)"
proof -
  note a = assms(2-)
  show ?thesis using assms(1)
    by (elim co_step_elim; insert assms(2); simp only: is_owner.simps simp_thms; insert a; simp add: co_inv_def connection_defs)
qed

lemma co_inv_worker:
  assumes "co_step n hello (s, t) (s', t', new)" "is_worker t" "filter is_owner (ts1 @ ts2) = [pc]" "\<not> before_serve pc" "greeted pc"
    and "owner_holds n (coClient s) pc" "clMux (coClient s) = None \<longrightarrow> clSnap (coClient s) = None"
    and "Suc (length (filter is_worker (ts1 @ ts2)) + coErrs s) \<le> 3"
    and "frames_on n (coClient s) \<noteq> [] \<and> hd (frames_on n (coClient s)) = hello" "clCtrl (coClient s) \<in> {None, Some n}"
  shows "co_inv n hello (s', ts1 @ t' # ts2 @ new)"
proof -
  note a = assms(2-)
  show ?thesis
    by (rule co_invI [of _ pc]; use assms(1) in
      \<open>elim co_step_elim; insert assms(2); simp only: is_worker.simps simp_thms; insert a; simp add: connection_defs\<close>)
qed

lemma co_inv_other:
  assumes "co_step n hello (s, t) (s', t', new)" "\<not> is_owner t" "\<not> is_worker t" "filter is_owner (ts1 @ ts2) = [pc]"
    and "owner_holds n (coClient s) pc" "clMux (coClient s) = None \<longrightarrow> clSnap (coClient s) = None"
    and "length (filter is_worker (ts1 @ ts2)) + coErrs s \<le> (if before_serve pc then 0 else 3)"
    and "greeted pc \<longrightarrow> frames_on n (coClient s) \<noteq> [] \<and> hd (frames_on n (coClient s)) = hello"
    and "\<not> greeted pc \<longrightarrow> frames_on n (coClient s) = []" "clCtrl (coClient s) \<in> {None, Some n}"
  shows "co_inv n hello (s', ts1 @ t' # ts2 @ new)"
proof -
  have greeted: "clCtrl (coClient s) = None" if "\<not> greeted pc"
  proof -
    have "is_owner pc" using assms(4) by (metis filter_eq_ConsD)
    then show ?thesis using assms(5) that by (cases pc) auto
  qed
  note a = assms(2-)
  show ?thesis
    using assms(1)
    by (elim co_step_elim; insert assms(2,3); simp only: is_owner.simps is_worker.simps simp_thms; insert a greeted;
      simp add: co_inv_def connection_defs split: option.splits if_splits)
qed

lemma co_inv_step:
  assumes "co_inv n hello (s, ts1 @ t # ts2)" "co_step n hello (s, t) (s', t', new)"
  shows "co_inv n hello (s', ts1 @ t' # ts2 @ new)"
proof -
  obtain pc where i: "filter is_owner (ts1 @ t # ts2) = [pc]" "owner_holds n (coClient s) pc"
    "clMux (coClient s) = None \<longrightarrow> clSnap (coClient s) = None"
    "length (filter is_worker (ts1 @ t # ts2)) + coErrs s \<le> (if before_serve pc then 0 else 3)"
    "greeted pc \<longrightarrow> frames_on n (coClient s) \<noteq> [] \<and> hd (frames_on n (coClient s)) = hello"
    "\<not> greeted pc \<longrightarrow> frames_on n (coClient s) = []" "clCtrl (coClient s) \<in> {None, Some n}"
    using assms(1) by (auto simp: co_inv_def split: if_splits)
  consider (owner) "is_owner t" | (worker) "is_worker t" "\<not> is_owner t" | (other) "\<not> is_owner t" "\<not> is_worker t" by blast
  then show ?thesis
  proof cases
    case owner
    then have o: "t = pc" "filter is_owner (ts1 @ ts2) = []" using filter_Cons_single [OF i(1)] by auto
    have "\<not> is_worker t" using owner by (cases t) auto
    then show ?thesis using co_inv_owner [OF assms(2) owner o(2)] i o(1) by simp
  next
    case worker
    then have o: "filter is_owner (ts1 @ ts2) = [pc]" "\<not> before_serve pc" using i(1,4) by (auto split: if_splits)
    have "is_owner pc" using i(1) by (metis filter_eq_ConsD)
    then have "greeted pc" using o(2) workers_greeted by blast
    then show ?thesis using co_inv_worker [OF assms(2) worker(1) o] i o(2) worker by simp
  next
    case other
    then show ?thesis using co_inv_other [OF assms(2) other, of _ _ pc] i by simp
  qed
qed


text \<open>The steps of a connection that is not disturbed, given whether the next thing succeeds.\<close>

fun co_do :: "nat \<Rightarrow> 'f agentFrame \<Rightarrow> bool \<Rightarrow> 'f connLife \<times> co_pc \<Rightarrow> ('f connLife \<times> co_pc \<times> co_pc list) option" where
  "co_do n hello ok (s, CoDial) = Some (s, if ok then CoCtrl else CoEnd False, [])"
| "co_do n hello ok (s, CoCtrl) = (if ok
     then Some (s\<lparr>coClient := (coClient s)\<lparr>clSent := clSent (coClient s) @ [(n, hello)]\<rparr>\<rparr>, CoHello, []) else Some (s, CoEnd False, []))"
| "co_do n hello ok (s, CoHello) = Some (s\<lparr>coClient := conn_up n (coClient s)\<rparr>, CoUp, [])"
| "co_do n hello ok (s, CoUp) = Some (s\<lparr>coClient := setCtrlEnc n (coClient s)\<rparr>, CoServe, [HbLoop, RdLoop, AcLoop])"
| "co_do n hello ok (s, CoServe) = (if 0 < coErrs s then Some (s\<lparr>coErrs := coErrs s - 1, coClosed := True\<rparr>, CoLeave, []) else None)"
| "co_do n hello ok (s, CoLeave) = Some (s\<lparr>coClient := clearCtrlEnc (coClient s)\<rparr>, CoDown, [])"
| "co_do n hello ok (s, CoDown) = Some (s\<lparr>coClient := conn_down (coClient s)\<rparr>, CoEnd True, [])"
| "co_do n hello ok (s, RdLoop) = (if coErrs s < 3 then Some (s\<lparr>coErrs := Suc (coErrs s)\<rparr>, Gone, []) else None)"
| "co_do n hello ok (s, t) = None"

lemma co_do_step: "co_do n hello ok (s, t) = Some (s', t', new) \<Longrightarrow> co_step n hello (s, t) (s', t', new)"
  by (cases t) (auto intro: co_step.intros co_step.co_first [simplified] split: if_splits)


end
