(* ===== verification/Spec2Isabelle.thy ===== *)
theory Spec2Isabelle
  imports Vt_Alt Auth_App Rate_Limit Projects_App Session_Interleaving Session_Host_Lease Transport_Codec Browser_Terminal
    Http_Security Sqlite_Refinement Sqlite_Migrate Agent_Update Platform_Config Overview_Stream Attach_Path Host_Spawn
    Pty_Factory Webauthn_Adapter Agent_Enrolment Hub_Program Client_Connection
begin

text \<open>
  A verification development for Constellate.

  \<^bold>\<open>The program.\<close> Constellate shows the terminal sessions of many machines in one browser. An
  \<^emph>\<open>agent\<close> on every machine runs shells in pseudo terminals, keeps their recent output and an
  emulated screen, and dials a central \<^emph>\<open>hub\<close>. The hub authenticates agents and its one operator,
  keeps the records of machines, projects and sessions, and relays terminals and screen snapshots
  to the browser. Both are Go programs in ports-and-adapters style: \<^verbatim>\<open>internal/agent\<close>,
  \<^verbatim>\<open>internal/hub\<close>, and the messages between them in \<^verbatim>\<open>internal/transport\<close>.

  \<^bold>\<open>Conventions.\<close>

  \<^item> \<open>Go_Prelude\<close> holds the Go semantics all components share: \<open>byte\<close> is \<open>8 word\<close>, \<open>rune\<close> is \<open>int\<close>,
    Go's \<open>int\<close> and \<open>int64\<close> are \<open>int\<close> with \<open>wrap64\<close> written where an operation can leave the 64-bit
    range, slices are lists with checked access (\<open>slice_get\<close>, \<open>slice_set\<close>), and \<open>None\<close> is a panic.
  \<^item> Errors are values of a sum type (\<open>hubError + 'a\<close>, or an option where there is one error).
  \<^item> A method that runs under a mutex is one function on the state it protects. Where the code
    gives up a lock half way, or waits for another party, the halves are separate definitions and
    the interleavings are an explicit sequence of steps or an inductive step relation.
  \<^item> Clocks, random bytes and generated identifiers are arguments. Cryptography and third-party
    libraries are function parameters; the few facts a theorem needs of them are its hypotheses.
  \<^item> Logging, contexts and tracing are left out.

  \<^bold>\<open>The agent.\<close>

  \<^item> \<open>Terminal\<close> models \<^verbatim>\<open>internal/agent/domain/terminal\<close>: cells, screens, sessions, and the
    classification of a session's activity from its output times and its screen's tail.
  \<^item> \<open>Utf8\<close> models \<^verbatim>\<open>unicode/utf8\<close>'s decoder as the emulator uses it, with the round trip against
    the encoder.
  \<^item> \<open>Vt_Parser\<close> models \<^verbatim>\<open>vt/parser.go\<close>, the byte state machine: \<open>feedByte\<close> with its fixed buffers
    and the actions it emits. It is total, one action per byte (\<open>feedBytes_total\<close>).
  \<^item> \<open>Vt_Screen\<close> and \<open>Vt_Emulator\<close> model \<^verbatim>\<open>vt/sgr.go\<close> and \<^verbatim>\<open>vt/emulator.go\<close>: the pen, the two
    screens, and every operation of the emulator, down to the dispatch of each control function.
  \<^item> \<open>Vt_Grid\<close> proves what the grid loops compute; \<open>Vt_Invariant\<close> proves that every dispatched
    action keeps \<open>wf_emulator\<close> (rectangular grids, cursors and regions in range) unless it is one
    of the hazardous ones (\<open>safe_action\<close>); \<open>Vt_Stream\<close> lifts this to byte streams and shows that
    the cutting of the stream into writes does not matter and that text is printed as it is.
  \<^item> \<open>Vt_View\<close> shows what resizing and rendering do and that the revision identifies the rendered
    screen; \<open>Vt_Behaviour\<close> and \<open>Vt_Alt\<close> give the behaviour of printing, erasing, shifting, control
    sequences, the alternate screen and prompt markers, and prove the three defects that the
    invariant proof exposed.
  \<^item> \<open>Scrollback\<close> models \<^verbatim>\<open>scrollback.go\<close>: the ring of recent output with its blocking readers. The
    locale \<open>byte_log\<close> is the contract a reader relies on; the ring interprets it.
  \<^item> \<open>Snapshot_Encode\<close> models \<^verbatim>\<open>hubclient/snapshot_encode.go\<close> and \<^verbatim>\<open>transport/snapshot.go\<close>: the
    run-length encoded screen, decoded back as documented.
  \<^item> \<open>Session_Manager\<close> models \<^verbatim>\<open>internal/agent/app/session/manager.go\<close> over a heap of live sessions;
    \<open>Session_Interleaving\<close> runs its goroutines (callers, read pumps, the flusher) step by step, on the
    configurations of \<open>Interleaving\<close>, and shows what a scrollback and the archive hold at any moment.
  \<^item> \<open>Scrollback_Archive\<close> models \<^verbatim>\<open>scrollbackfile\<close>: saving by temporary file and rename, loading, pruning,
    with the state of the directory after a crash at any system call (locale \<open>scrollback_archive\<close>).
  \<^item> \<open>Snapshot_Producer\<close> models \<^verbatim>\<open>app/snapshot/producer.go\<close>: which screens a tick sends and why none is lost.
  \<^item> \<open>Hub_Client\<close> models \<^verbatim>\<open>hubclient/client.go\<close>: the frames it handles and sends, the snapshot stream that
    follows the connection, the reconnect loop with its back-off. \<open>Client_Connection\<close> interleaves the goroutines of
    one connection: it leaves nothing behind, and none of them can be stuck.
  \<^item> \<open>Session_Host\<close> models the two-process agent, \<^verbatim>\<open>localhost/server.go\<close> and \<^verbatim>\<open>hostclient/client.go\<close>: the
    replies on the local socket and the mirror of the sessions kept by the client.
    \<open>Session_Host_Lease\<close> interleaves its connections: one client at a time, and no sink left behind.
  \<^item> \<open>Data_Streams\<close> models the goroutines of an attached terminal on the agent, \<open>Manager.Attach\<close> and the relay of
    \<^verbatim>\<open>hostclient/client.go\<close> between the two processes: no byte is lost or reordered, a session's exit closes the
    host's stream, and the relay does not pass that on. \<open>Attach_Path\<close> joins them to the header of the stream,
    \<^verbatim>\<open>hubclient/streams.go\<close> and \<^verbatim>\<open>agentlink\<close>: keystrokes reach the session they are meant for.
  \<^item> \<open>Host_Spawn\<close> models \<^verbatim>\<open>cmd/agent/spawn_unix.go\<close> with the start and the end of the session host, as interleaved
    processes around one socket path: when there is one host, and how there can be two.
  \<^item> \<open>Pty_Factory\<close> models the adapters \<^verbatim>\<open>pty\<close> and \<^verbatim>\<open>sysmetrics\<close>: where a shell is started, with which environment, and
    when its window has the size of the emulated screen.
  \<^item> \<open>Agent_Commands\<close> models the commands of \<^verbatim>\<open>cmd/agent/main.go\<close>: enrolling, connecting, status, reset, and the
    services' installation and removal, over a file system whose calls may fail. \<open>Agent_Enrolment\<close> runs
    \<open>enroll\<close> against the hub's HTTP server and \<open>connect\<close> against its agent endpoint.
  \<^item> \<open>Agent_Update\<close> models \<^verbatim>\<open>cmd/agent/update.go\<close>: only a script whose digest is listed is run.

  \<^bold>\<open>Agent and hub.\<close>

  \<^item> \<open>Agent_Token\<close> models \<^verbatim>\<open>internal/transport/auth.go\<close> with the decimal and base64 conversions it
    uses: round trip, exact acceptance condition, injectivity of the signed message.
  \<^item> \<open>Transport\<close> has the messages of \<^verbatim>\<open>internal/transport\<close>; \<open>Transport_Codec\<close> models \<^verbatim>\<open>codec.go\<close> and the
    data-stream header of \<^verbatim>\<open>attach.go\<close>: what is written is read back, frame by frame.
  \<^item> \<open>Overview_Stream\<close> models the hub's reading of an agent's snapshot stream (\<^verbatim>\<open>wsagent/inbound.go\<close>) and the browsers'
    handler (\<^verbatim>\<open>wsbrowser/overview.go\<close>), and follows screens from the agent's encoder to what a browser decodes.

  \<^bold>\<open>The hub.\<close>

  \<^item> \<open>Hub_Domain\<close> models \<^verbatim>\<open>internal/hub/domain\<close> and Go maps (locale \<open>keyed_store\<close>).
  \<^item> \<open>Memory_Stores\<close> models \<^verbatim>\<open>internal/hub/adapter/secondary/memory\<close>, all nine stores.
  \<^item> \<open>Sql_Tables\<close> gives the meaning of the SQL statements in use, \<open>Sqlite_Stores\<close> models
    \<^verbatim>\<open>internal/hub/adapter/secondary/sqlite\<close> over them, and \<open>Sqlite_Refinement\<close> proves that the SQLite
    stores refine the in-memory ones, where they differ (foreign keys), and that the constraints of
    the schema hold. \<open>Sqlite_Migrate\<close> models \<^verbatim>\<open>migrate.go\<close>.
  \<^item> \<open>Sessions_App\<close> models \<^verbatim>\<open>internal/hub/app/sessions\<close> and \<^verbatim>\<open>app/audit\<close> over abstract ports. The
    locale \<open>session_store_laws\<close> is what the use case needs from a session store; its consequences
    are proved there and reach the in-memory store and the SQLite store by interpretation.
  \<^item> \<open>Projects_App\<close> models \<^verbatim>\<open>app/projects\<close> and \<^verbatim>\<open>app/attach\<close>; \<open>Dashboard\<close> models \<^verbatim>\<open>app/dashboard\<close>, with
    its totals and orders; \<open>Overview_App\<close> models \<^verbatim>\<open>app/overview\<close> and interleaves its critical sections.
  \<^item> \<open>Enroll_App\<close> models \<^verbatim>\<open>internal/hub/app/enroll\<close> and \<^verbatim>\<open>app/registry\<close>; \<open>Auth_App\<close> models
    \<^verbatim>\<open>internal/hub/app/auth\<close> and the TOTP matcher. Their properties are about all sequences of
    requests (\<open>ew_run\<close>, \<open>aw_run\<close>).
  \<^item> \<open>Agent_Link\<close> models \<^verbatim>\<open>agentlink\<close>, the registry of live connections and their pending replies;
    \<open>Agent_Endpoint\<close> models \<^verbatim>\<open>wsagent\<close>, a goroutine per connection, over it and the use cases.
  \<^item> \<open>Rate_Limit\<close> models \<^verbatim>\<open>httpapi/ratelimit.go\<close>; \<open>Http_Routes\<close> the route table and the path test of the
    session gate; \<open>Http_Api\<close> every handler, composed as \<^verbatim>\<open>NewServer\<close> composes them. \<open>Http_Security\<close> is about
    all sequences of requests to that server.
  \<^item> \<open>Browser_Terminal\<close> models \<^verbatim>\<open>wsbrowser/terminal.go\<close>: the goroutines of one attached browser, the bytes
    relayed both ways, and when an attachment ends.
  \<^item> \<open>Webauthn_Adapter\<close> models \<^verbatim>\<open>webauthn.go\<close>, the passkey provider, over the library: a registered passkey logs in, and a
    response is accepted once.
  \<^item> \<open>Platform_Config\<close> models \<^verbatim>\<open>internal/platform/config\<close>, the configuration of both programs; \<open>Hub_Program\<close> the commands of
    \<^verbatim>\<open>cmd/hub/main.go\<close>, with the durations they parse and the server's configuration they make.

  \<^bold>\<open>Bounds.\<close> Dimensions are at most \<open>maxDim\<close> (2^31), far above any terminal, so that sums of
  coordinates stay in range; parameters of control sequences are unbounded in the model of the
  code, and \<open>safe_action\<close> asks for at most \<open>maxParam\<close> (2^62). Token theorems ask for clocks below
  2^62 seconds. No definition uses fuel: the loops are structural recursions, bounded \<open>for\<close> loops
  or functions with a termination proof, and what may go on forever is a step relation. Scrollback
  offsets are unbounded; the code's would wrap after 2^63 bytes.

  \<^bold>\<open>Not modelled.\<close> The multiplexer, WebSocket, TLS, JSON, YAML and WebAuthn libraries (parameters or inputs where
  the code depends on their results), and the time-outs of the multiplexer; errors of the database other than
  constraint violations, and opening it; the system calls themselves and the check of a local client's user,
  which is one of them; in \<^verbatim>\<open>cmd\<close>, flag parsing, listening, signals and the messages printed; logging; the generator
  of identifiers, a library. \<open>ParseDuration\<close> adds the fraction of a unit exactly, Go through a float.
\<close>

end
